(* ===== verification/Prelude.thy ===== *)
theory Prelude
  imports Main "HOL-Library.Word" "HOL-Library.AList" "HOL-Library.Sublist"
    "HOL-Library.Signed_Division" "HOL-Library.List_Lexorder" "HOL-Library.Char_ord"
    "HOL-Library.Product_Lexorder" "HOL-Library.Multiset"
begin

text \<open>
  What every component of the model shares: Go's signed 64-bit integers, its errors and
  panics, the functions of \<^verbatim>\<open>strings\<close>, \<^verbatim>\<open>strconv\<close> and \<^verbatim>\<open>path/filepath\<close> that the source
  calls, and Go maps as association lists.

  \<^item> A Go panic is the value \<open>None\<close> of an option type: a function that may panic returns
    \<open>'a option\<close>.
  \<^item> A pair \<open>(value, err)\<close> with a non-nil error is \<open>Inl err\<close>, otherwise \<open>Inr value\<close>.
  \<^item> A Go \<^verbatim>\<open>map\<close> is an association list with distinct keys; ranging over it visits the list
    in order. Go leaves the order open, so the results stated about ranging are stated for
    every such list or up to order.
\<close>

section \<open>Types and hint collections\<close>

named_theorems int64_simps \<open>reducing signed 64-bit arithmetic\<close>
named_theorems path_simps \<open>splitting and joining slash separated paths\<close>

type_synonym byte = "8 word"

datatype go_error =
    Io_EOF
  | Not_Exist
  | Record_Not_Found
  | Db_Error
  | Errorf string
  | Status nat string

type_synonym 'a res = "go_error + 'a"

section \<open>Signed 64-bit integers\<close>

text \<open>\<^verbatim>\<open>int64\<close> and \<^verbatim>\<open>int\<close> values are HOL integers; every arithmetic result is wrapped.\<close>

definition wrap64 :: "int \<Rightarrow> int" where
  "wrap64 x = (x + 2 ^ 63) mod 2 ^ 64 - 2 ^ 63"

definition in64 :: "int \<Rightarrow> bool" where
  "in64 x \<longleftrightarrow> - (2 ^ 63) \<le> x \<and> x < 2 ^ 63"

lemma wrap64_id [int64_simps]: "in64 x \<Longrightarrow> wrap64 x = x"
  by (simp add: wrap64_def in64_def)

lemma in64_wrap64 [simp]: "in64 (wrap64 x)"
proof -
  have "0 \<le> (x + 2 ^ 63) mod 2 ^ 64" and "(x + 2 ^ 63) mod 2 ^ 64 < 2 ^ 64"
    by simp_all
  then show ?thesis
    by (simp add: wrap64_def in64_def)
qed

lemma wrap64_eqI: "x mod 2 ^ 64 = y mod 2 ^ 64 \<Longrightarrow> wrap64 x = wrap64 y"
  unfolding wrap64_def by (metis mod_add_left_eq)

lemma wrap64_mod: "wrap64 x mod 2 ^ 64 = x mod 2 ^ 64"
proof -
  have "wrap64 x mod 2 ^ 64 = (x + 2 ^ 63 - 2 ^ 63) mod 2 ^ 64"
    unfolding wrap64_def by (rule mod_diff_left_eq)
  then show ?thesis by simp
qed

lemma wrap64_add_left [int64_simps]: "wrap64 (wrap64 a + b) = wrap64 (a + b)"
  by (rule wrap64_eqI) (metis mod_add_left_eq wrap64_mod)

lemma wrap64_add_right [int64_simps]: "wrap64 (a + wrap64 b) = wrap64 (a + b)"
  by (rule wrap64_eqI) (metis mod_add_right_eq wrap64_mod)

lemma in64_0 [simp]: "in64 0"
  by (simp add: in64_def)

lemma in64_nonneg_le: "in64 y \<Longrightarrow> 0 \<le> x \<Longrightarrow> x \<le> y \<Longrightarrow> in64 x"
  by (auto simp: in64_def)

lemma in64_diff: "0 \<le> a \<Longrightarrow> 0 \<le> b \<Longrightarrow> in64 a \<Longrightarrow> in64 b \<Longrightarrow> in64 (a - b)"
  by (auto simp: in64_def)

text \<open>Go's \<^verbatim>\<open>%\<close> truncates towards zero, as \<open>smod\<close> does.\<close>

definition go_rem :: "int \<Rightarrow> int \<Rightarrow> int" where
  "go_rem a b = a smod b"

lemma go_rem_nonneg: "0 \<le> a \<Longrightarrow> 0 < b \<Longrightarrow> go_rem a b = a mod b"
  by (cases "a = 0") (simp_all add: go_rem_def smod_int_alt_def)

section \<open>Strings\<close>

text \<open>\<^verbatim>\<open>strings.Split\<close> with a one-character separator.\<close>

fun go_split :: "char \<Rightarrow> string \<Rightarrow> string list" where
  "go_split c [] = [[]]"
| "go_split c (x # xs) =
     (if x = c then [] # go_split c xs
      else (case go_split c xs of [] \<Rightarrow> [[x]] | y # ys \<Rightarrow> (x # y) # ys))"

text \<open>\<^verbatim>\<open>strings.Join\<close>.\<close>

fun go_join :: "string \<Rightarrow> string list \<Rightarrow> string" where
  "go_join sep [] = []"
| "go_join sep [x] = x"
| "go_join sep (x # y # ys) = x @ sep @ go_join sep (y # ys)"

abbreviation split_path :: "string \<Rightarrow> string list" where
  "split_path \<equiv> go_split (CHR ''/'')"

abbreviation join_path :: "string list \<Rightarrow> string" where
  "join_path \<equiv> go_join ''/''"

lemma go_split_nonempty [simp]: "go_split c s \<noteq> []"
  by (cases s) (auto split: list.splits)

lemma go_split_no_sep [path_simps]: "c \<notin> set s \<Longrightarrow> go_split c s = [s]"
  by (induction s) auto

lemma go_split_append_sep [path_simps]:
  "c \<notin> set s \<Longrightarrow> go_split c (s @ c # t) = s # go_split c t"
  by (induction s) auto

lemma go_split_pieces: "x \<in> set (go_split c s) \<Longrightarrow> c \<notin> set x"
  by (induction s arbitrary: x) (force split: if_splits list.splits)+

lemma go_join_Cons [path_simps]: "xs \<noteq> [] \<Longrightarrow> go_join sep (x # xs) = x @ sep @ go_join sep xs"
  by (cases xs) auto

lemma go_join_split [path_simps]: "go_join [c] (go_split c s) = s"
proof (induction s)
  case Nil
  show ?case by simp
next
  case (Cons x s)
  then show ?case
    by (cases "go_split c s"; cases "tl (go_split c s)") (auto simp: path_simps)
qed

lemma go_split_join [path_simps]:
  "xs \<noteq> [] \<Longrightarrow> \<forall>x \<in> set xs. c \<notin> set x \<Longrightarrow> go_split c (go_join [c] xs) = xs"
  by (induction xs rule: induct_list012) (auto simp: path_simps)

lemma go_join_snoc [path_simps]:
  "xs \<noteq> [] \<Longrightarrow> go_join sep (xs @ [x]) = go_join sep xs @ sep @ x"
  by (induction xs rule: induct_list012) auto

text \<open>\<^verbatim>\<open>strings.TrimPrefix\<close>, \<^verbatim>\<open>strings.TrimSuffix\<close>, \<^verbatim>\<open>strings.HasPrefix\<close>, \<^verbatim>\<open>strings.Count\<close> and
  \<^verbatim>\<open>strings.Replace(s, "/", "", -1)\<close>.\<close>

definition trim_prefix :: "string \<Rightarrow> string \<Rightarrow> string" where
  "trim_prefix s p = (if prefix p s then drop (length p) s else s)"

definition trim_suffix :: "string \<Rightarrow> string \<Rightarrow> string" where
  "trim_suffix s p = (if suffix p s then take (length s - length p) s else s)"

definition remove_char :: "char \<Rightarrow> string \<Rightarrow> string" where
  "remove_char c s = filter (\<lambda>x. x \<noteq> c) s"

lemma trim_prefix_append [simp]: "trim_prefix (p @ s) p = s"
  by (simp add: trim_prefix_def)

lemma remove_char_append [simp]: "remove_char c (a @ b) = remove_char c a @ remove_char c b"
  by (simp add: remove_char_def)

lemma remove_char_Cons [simp]:
  "remove_char c (x # b) = (if x = c then remove_char c b else x # remove_char c b)"
  by (simp add: remove_char_def)

lemma remove_char_id [simp]: "c \<notin> set s \<Longrightarrow> remove_char c s = s"
  by (auto simp: remove_char_def filter_id_conv)

lemma remove_char_absent [simp]: "c \<notin> set (remove_char c s)"
  by (simp add: remove_char_def)

text \<open>\<^verbatim>\<open>strings.ToLower\<close> on the ASCII letters (all the source compares with).\<close>

definition to_lower :: "string \<Rightarrow> string" where
  "to_lower = map (\<lambda>c. if 65 \<le> (of_char c :: nat) \<and> (of_char c :: nat) \<le> 90
                        then char_of ((of_char c :: nat) + 32) else c)"

text \<open>The slice \<^verbatim>\<open>s[lo:hi]\<close>: it panics unless \<open>lo \<le> hi \<le> len(s)\<close>.\<close>

definition slice :: "'a list \<Rightarrow> nat \<Rightarrow> nat \<Rightarrow> 'a list option" where
  "slice s lo hi = (if lo \<le> hi \<and> hi \<le> length s then Some (take (hi - lo) (drop lo s)) else None)"

section \<open>Lexical paths\<close>

text \<open>
  \<^verbatim>\<open>filepath.Base\<close>, \<^verbatim>\<open>filepath.Clean\<close>, \<^verbatim>\<open>filepath.Join\<close> and \<^verbatim>\<open>filepath.Dir\<close> on a Unix system:
  purely lexical, \<^verbatim>\<open>"."\<close> elements and doubled slashes are dropped, a \<^verbatim>\<open>".."\<close> element
  removes the element before it.
\<close>

definition path_base :: "string \<Rightarrow> string" where
  "path_base p =
     (if p = [] then ''.''
      else let q = rev (dropWhile (\<lambda>c. c = CHR ''/'') (rev p))
           in if q = [] then ''/'' else last (split_path q))"

fun clean_step :: "bool \<Rightarrow> string list \<Rightarrow> string \<Rightarrow> string list" where
  "clean_step rooted st c =
     (if c = [] \<or> c = ''.'' then st
      else if c = ''..'' then
        (case st of [] \<Rightarrow> if rooted then [] else [''..'']
         | x # xs \<Rightarrow> if x = ''..'' then ''..'' # st else xs)
      else c # st)"

definition path_clean :: "string \<Rightarrow> string" where
  "path_clean p =
     (let rooted = prefix ''/'' p;
          out = join_path (rev (foldl (clean_step rooted) [] (split_path p)))
      in if rooted then ''/'' @ out else if out = [] then ''.'' else out)"

fun path_join :: "string list \<Rightarrow> string" where
  "path_join [] = []"
| "path_join (e # es) = (if e = [] then path_join es else path_clean (join_path (e # es)))"

definition path_dir :: "string \<Rightarrow> string" where
  "path_dir p = path_clean (rev (dropWhile (\<lambda>c. c \<noteq> CHR ''/'') (rev p)))"

text \<open>A plain component: one that \<^verbatim>\<open>Clean\<close> keeps as it is.\<close>

definition plain_comp :: "string \<Rightarrow> bool" where
  "plain_comp c \<longleftrightarrow> c \<noteq> [] \<and> c \<noteq> ''.'' \<and> c \<noteq> ''..'' \<and> CHR ''/'' \<notin> set c"

definition plain_comps :: "string list \<Rightarrow> bool" where
  "plain_comps cs \<longleftrightarrow> cs \<noteq> [] \<and> list_all plain_comp cs"

lemma plain_comps_simps [simp]:
  "\<not> plain_comps []"
  "plain_comps [c] \<longleftrightarrow> plain_comp c"
  "plain_comps (c # d # cs) \<longleftrightarrow> plain_comp c \<and> plain_comps (d # cs)"
  by (auto simp: plain_comps_def)

lemma split_join_plain [path_simps]: "plain_comps cs \<Longrightarrow> split_path (join_path cs) = cs"
  by (rule go_split_join) (auto simp: plain_comps_def plain_comp_def list_all_iff)

lemma join_plain_nonempty: "plain_comps cs \<Longrightarrow> join_path cs \<noteq> []"
  by (induction cs rule: induct_list012) (auto simp: plain_comp_def)

lemma last_join_plain: "plain_comps cs \<Longrightarrow> last (join_path cs) \<noteq> CHR ''/''"
  by (induction cs rule: induct_list012)
     (auto simp: plain_comp_def join_plain_nonempty dest: last_in_set)

lemma hd_join_plain: "plain_comps cs \<Longrightarrow> hd (join_path cs) \<noteq> CHR ''/''"
  by (induction cs rule: induct_list012)
     (auto simp: plain_comp_def hd_append, (metis hd_in_set)+)

lemma dropWhile_rev_keep: "xs \<noteq> [] \<Longrightarrow> \<not> P (last xs) \<Longrightarrow> rev (dropWhile P (rev xs)) = xs"
  by (cases xs rule: rev_cases) auto

lemma path_base_join [path_simps]: "plain_comps cs \<Longrightarrow> path_base (join_path cs) = last cs"
  by (simp add: path_base_def dropWhile_rev_keep join_plain_nonempty last_join_plain path_simps)

lemma clean_steps_plain: "list_all plain_comp cs \<Longrightarrow> foldl (clean_step r) st cs = rev cs @ st"
  by (induction cs arbitrary: st) (auto simp: plain_comp_def)

lemma path_clean_plain [path_simps]:
  assumes "plain_comps cs"
  shows "path_clean (join_path cs) = join_path cs"
proof -
  have all: "list_all plain_comp cs" using assms by (simp add: plain_comps_def)
  have "\<not> prefix ''/'' (join_path cs)"
    using join_plain_nonempty [OF assms] hd_join_plain [OF assms] by (cases "join_path cs") auto
  then show ?thesis
    using assms by (simp add: path_clean_def Let_def split_join_plain clean_steps_plain [OF all]
        join_plain_nonempty)
qed

lemma path_clean_rooted_plain [path_simps]:
  assumes "plain_comps cs"
  shows "path_clean (CHR ''/'' # join_path cs) = CHR ''/'' # join_path cs"
proof -
  have all: "list_all plain_comp cs" using assms by (simp add: plain_comps_def)
  show ?thesis
    using assms by (simp add: path_clean_def Let_def split_join_plain clean_steps_plain [OF all])
qed

section \<open>Numbers as text\<close>

text \<open>Decimal rendering, as \<^verbatim>\<open>%v\<close> of an integer.\<close>

fun show_nat :: "nat \<Rightarrow> string" where
  "show_nat n = (if n < 10 then [char_of (48 + n)]
                 else show_nat (n div 10) @ [char_of (48 + n mod 10)])"

declare show_nat.simps [simp del]

definition show_int :: "int \<Rightarrow> string" where
  "show_int i = (if i < 0 then CHR ''-'' # show_nat (nat (- i)) else show_nat (nat i))"

text \<open>
  \<^verbatim>\<open>strconv.ParseInt(s, 10, bits)\<close>: an optional sign and decimal digits. A syntax error
  gives 0, a value out of range gives the nearest bound, both with an error.
\<close>

definition digit_val :: "char \<Rightarrow> nat option" where
  "digit_val c = (let n = of_char c :: nat in if 48 \<le> n \<and> n \<le> 57 then Some (n - 48) else None)"

fun digits_val :: "nat \<Rightarrow> string \<Rightarrow> nat option" where
  "digits_val acc [] = Some acc"
| "digits_val acc (c # cs) =
     (case digit_val c of None \<Rightarrow> None | Some d \<Rightarrow> digits_val (10 * acc + d) cs)"

definition unsigned_val :: "string \<Rightarrow> nat option" where
  "unsigned_val s = (if s = [] then None else digits_val 0 s)"

definition signed_val :: "string \<Rightarrow> int option" where
  "signed_val s = (case s of [] \<Rightarrow> None
     | c # cs \<Rightarrow> (if c = CHR ''-'' then map_option (\<lambda>n. - int n) (unsigned_val cs)
                else if c = CHR ''+'' then map_option int (unsigned_val cs)
                else map_option int (unsigned_val s)))"

definition parse_int :: "nat \<Rightarrow> string \<Rightarrow> int \<times> go_error option" where
  "parse_int bits s = (case signed_val s of
       None \<Rightarrow> (0, Some (Errorf ''invalid syntax''))
     | Some v \<Rightarrow> (if v < - (2 ^ (bits - 1)) then (- (2 ^ (bits - 1)), Some (Errorf ''value out of range''))
                else if 2 ^ (bits - 1) \<le> v then (2 ^ (bits - 1) - 1, Some (Errorf ''value out of range''))
                else (v, None)))"

section \<open>Lists\<close>

lemma length_concat_map_ge: "x \<in> set xs \<Longrightarrow> length (g x) \<le> length (concat (map g xs))"
  by (induction xs) auto

section \<open>Go maps\<close>

lemma map_of_update [simp]: "map_of (AList.update k v m) = (map_of m)(k \<mapsto> v)"
  by (rule update_conv')

lemma map_of_delete [simp]: "map_of (AList.delete k m) = (map_of m)(k := None)"
  by (rule delete_conv')

section \<open>Sorting with a \<^verbatim>\<open>Less\<close> method\<close>

text \<open>
  \<^verbatim>\<open>sort.Sort\<close> calls \<^verbatim>\<open>Less\<close> and \<^verbatim>\<open>Swap\<close> and leaves the order of elements that \<^verbatim>\<open>Less\<close> does
  not separate open; insertion sort produces one of the results it may produce.
\<close>

fun insert_by :: "('a \<Rightarrow> 'a \<Rightarrow> bool) \<Rightarrow> 'a \<Rightarrow> 'a list \<Rightarrow> 'a list" where
  "insert_by lt x [] = [x]"
| "insert_by lt x (y # ys) = (if lt y x then y # insert_by lt x ys else x # y # ys)"

fun sort_by :: "('a \<Rightarrow> 'a \<Rightarrow> bool) \<Rightarrow> 'a list \<Rightarrow> 'a list" where
  "sort_by lt [] = []"
| "sort_by lt (x # xs) = insert_by lt x (sort_by lt xs)"

lemma mset_insert_by [simp]: "mset (insert_by lt x xs) = add_mset x (mset xs)"
  by (induction xs) auto

lemma mset_sort_by [simp]: "mset (sort_by lt xs) = mset xs"
  by (induction xs) auto

lemma set_sort_by [simp]: "set (sort_by lt xs) = set xs"
  by (metis mset_sort_by set_mset_mset)

lemma length_sort_by [simp]: "length (sort_by lt xs) = length xs"
  by (metis mset_sort_by size_mset)

text \<open>
  The contract of a \<^verbatim>\<open>Less\<close> method: a strict weak order. Under it the result is ordered,
  and elements that \<^verbatim>\<open>Less\<close> separates cannot be in the wrong order.
\<close>

locale go_less =
  fixes lt :: "'a \<Rightarrow> 'a \<Rightarrow> bool"
  assumes less_asym: "lt x y \<Longrightarrow> \<not> lt y x"
    and less_negtrans: "\<not> lt x y \<Longrightarrow> \<not> lt y z \<Longrightarrow> \<not> lt x z"
begin

lemma sorted_insert_by:
  "sorted_wrt (\<lambda>a b. \<not> lt b a) xs \<Longrightarrow> sorted_wrt (\<lambda>a b. \<not> lt b a) (insert_by lt x xs)"
proof (induction xs)
  case Nil
  show ?case by simp
next
  case (Cons y ys)
  have set_ins: "set (insert_by lt x ys) = insert x (set ys)"
    by (metis mset_insert_by set_mset_add_mset_insert set_mset_mset)
  show ?case
  proof (cases "lt y x")
    case True
    then show ?thesis using Cons by (auto simp: set_ins dest: less_asym)
  next
    case False
    then show ?thesis using Cons.prems by (auto dest: less_negtrans)
  qed
qed

lemma sorted_sort_by: "sorted_wrt (\<lambda>a b. \<not> lt b a) (sort_by lt xs)"
  by (induction xs) (auto intro: sorted_insert_by)

end

end
