(* ===== verification/Sha512.thy ===== *)
theory Sha512
  imports Prelude
begin

unbundle bit_operations_syntax

text \<open>
  The standard library's SHA-512 (FIPS 180-4), which \<^verbatim>\<open>utils.CalcHash\<close> calls as
  \<^verbatim>\<open>sha512.Sum512\<close>: padding, message schedule, compression and digest over 64-bit words.
  What the rest of the development needs of it is that a digest has 64 bytes.
\<close>

type_synonym word64 = "64 word"

definition sha_iv :: "word64 list" where
  "sha_iv =
    [0x6A09E667F3BCC908, 0xBB67AE8584CAA73B, 0x3C6EF372FE94F82B,
     0xA54FF53A5F1D36F1, 0x510E527FADE682D1, 0x9B05688C2B3E6C1F,
     0x1F83D9ABFB41BD6B, 0x5BE0CD19137E2179]"

definition sha_k :: "word64 list" where
  "sha_k =
    [0x428A2F98D728AE22, 0x7137449123EF65CD, 0xB5C0FBCFEC4D3B2F,
     0xE9B5DBA58189DBBC, 0x3956C25BF348B538, 0x59F111F1B605D019,
     0x923F82A4AF194F9B, 0xAB1C5ED5DA6D8118, 0xD807AA98A3030242,
     0x12835B0145706FBE, 0x243185BE4EE4B28C, 0x550C7DC3D5FFB4E2,
     0x72BE5D74F27B896F, 0x80DEB1FE3B1696B1, 0x9BDC06A725C71235,
     0xC19BF174CF692694, 0xE49B69C19EF14AD2, 0xEFBE4786384F25E3,
     0x0FC19DC68B8CD5B5, 0x240CA1CC77AC9C65, 0x2DE92C6F592B0275,
     0x4A7484AA6EA6E483, 0x5CB0A9DCBD41FBD4, 0x76F988DA831153B5,
     0x983E5152EE66DFAB, 0xA831C66D2DB43210, 0xB00327C898FB213F,
     0xBF597FC7BEEF0EE4, 0xC6E00BF33DA88FC2, 0xD5A79147930AA725,
     0x06CA6351E003826F, 0x142929670A0E6E70, 0x27B70A8546D22FFC,
     0x2E1B21385C26C926, 0x4D2C6DFC5AC42AED, 0x53380D139D95B3DF,
     0x650A73548BAF63DE, 0x766A0ABB3C77B2A8, 0x81C2C92E47EDAEE6,
     0x92722C851482353B, 0xA2BFE8A14CF10364, 0xA81A664BBC423001,
     0xC24B8B70D0F89791, 0xC76C51A30654BE30, 0xD192E819D6EF5218,
     0xD69906245565A910, 0xF40E35855771202A, 0x106AA07032BBD1B8,
     0x19A4C116B8D2D0C8, 0x1E376C085141AB53, 0x2748774CDF8EEB99,
     0x34B0BCB5E19B48A8, 0x391C0CB3C5C95A63, 0x4ED8AA4AE3418ACB,
     0x5B9CCA4F7763E373, 0x682E6FF3D6B2B8A3, 0x748F82EE5DEFB2FC,
     0x78A5636F43172F60, 0x84C87814A1F0AB72, 0x8CC702081A6439EC,
     0x90BEFFFA23631E28, 0xA4506CEBDE82BDE9, 0xBEF9A3F7B2C67915,
     0xC67178F2E372532B, 0xCA273ECEEA26619C, 0xD186B8C721C0C207,
     0xEADA7DD6CDE0EB1E, 0xF57D4F7FEE6ED178, 0x06F067AA72176FBA,
     0x0A637DC5A2C898A6, 0x113F9804BEF90DAE, 0x1B710B35131C471B,
     0x28DB77F523047D84, 0x32CAAB7B40C72493, 0x3C9EBE0A15C9BEBC,
     0x431D67C49C100D4C, 0x4CC5D4BECB3E42B6, 0x597F299CFC657E2A,
     0x5FCB6FAB3AD6FAEC, 0x6C44198C4A475817]"

definition rotr :: "nat \<Rightarrow> word64 \<Rightarrow> word64" where
  "rotr n x = drop_bit n x OR push_bit (64 - n) x"

definition big_sigma0 :: "word64 \<Rightarrow> word64" where
  "big_sigma0 x = rotr 28 x XOR rotr 34 x XOR rotr 39 x"

definition big_sigma1 :: "word64 \<Rightarrow> word64" where
  "big_sigma1 x = rotr 14 x XOR rotr 18 x XOR rotr 41 x"

definition small_sigma0 :: "word64 \<Rightarrow> word64" where
  "small_sigma0 x = rotr 1 x XOR rotr 8 x XOR drop_bit 7 x"

definition small_sigma1 :: "word64 \<Rightarrow> word64" where
  "small_sigma1 x = rotr 19 x XOR rotr 61 x XOR drop_bit 6 x"

definition sha_ch :: "word64 \<Rightarrow> word64 \<Rightarrow> word64 \<Rightarrow> word64" where
  "sha_ch x y z = (x AND y) XOR (NOT x AND z)"

definition sha_maj :: "word64 \<Rightarrow> word64 \<Rightarrow> word64 \<Rightarrow> word64" where
  "sha_maj x y z = (x AND y) XOR (x AND z) XOR (y AND z)"

text \<open>Big-endian bytes of a word and back.\<close>

definition word64_bytes :: "word64 \<Rightarrow> byte list" where
  "word64_bytes w = map (\<lambda>i. ucast (drop_bit (8 * (7 - i)) w)) [0..<8]"

definition bytes_word64 :: "byte list \<Rightarrow> word64" where
  "bytes_word64 bs = foldl (\<lambda>w b. push_bit 8 w OR ucast b) 0 bs"

text \<open>
  Padding: the byte 0x80, zero bytes up to 112 modulo 128, and the length in bits as
  a 128-bit number (its high half is 0 for every slice that fits in memory).
\<close>

definition sha_pad :: "byte list \<Rightarrow> byte list" where
  "sha_pad m =
     m @ 0x80 # replicate ((239 - length m mod 128) mod 128) 0
       @ replicate 8 0 @ word64_bytes (of_nat (8 * length m))"

fun sha_blocks :: "byte list \<Rightarrow> byte list list" where
  "sha_blocks bs = (if length bs < 128 then [] else take 128 bs # sha_blocks (drop 128 bs))"

declare sha_blocks.simps [simp del]

fun sha_words :: "nat \<Rightarrow> byte list \<Rightarrow> word64 list" where
  "sha_words 0 bs = []"
| "sha_words (Suc n) bs = bytes_word64 (take 8 bs) # sha_words n (drop 8 bs)"

text \<open>The schedule, newest word first: word \<open>t\<close> from words \<open>t-2\<close>, \<open>t-7\<close>, \<open>t-15\<close>, \<open>t-16\<close>.\<close>

fun sha_schedule :: "nat \<Rightarrow> word64 list \<Rightarrow> word64 list" where
  "sha_schedule 0 ws = ws"
| "sha_schedule (Suc n) ws =
     sha_schedule n ((small_sigma1 (ws ! 1) + ws ! 6 + small_sigma0 (ws ! 14) + ws ! 15) # ws)"

fun sha_round :: "word64 list \<Rightarrow> word64 \<times> word64 \<Rightarrow> word64 list" where
  "sha_round [a, b, c, d, e, f, g, h] (k, w) =
     (let t1 = h + big_sigma1 e + sha_ch e f g + k + w;
          t2 = big_sigma0 a + sha_maj a b c
      in [t1 + t2, a, b, c, d + t1, e, f, g])"
| "sha_round st kw = st"

definition sha_compress :: "word64 list \<Rightarrow> byte list \<Rightarrow> word64 list" where
  "sha_compress hs block =
     (let w = rev (sha_schedule 64 (rev (sha_words 16 block)))
      in map2 (+) hs (foldl sha_round hs (zip sha_k w)))"

definition sum512 :: "byte list \<Rightarrow> byte list" where
  "sum512 m = concat (map word64_bytes (foldl sha_compress sha_iv (sha_blocks (sha_pad m))))"

lemma sha_round_length: "length st = 8 \<Longrightarrow> length (sha_round st kw) = 8"
  by (cases "(st, kw)" rule: sha_round.cases) (auto simp: Let_def)

lemma sha_rounds_length: "length st = 8 \<Longrightarrow> length (foldl sha_round st kws) = 8"
  by (induction kws arbitrary: st) (auto simp: sha_round_length)

lemma sha_compress_length: "length hs = 8 \<Longrightarrow> length (sha_compress hs b) = 8"
  by (simp add: sha_compress_def Let_def sha_rounds_length)

lemma sha_fold_length: "length hs = 8 \<Longrightarrow> length (foldl sha_compress hs bs) = 8"
  by (induction bs arbitrary: hs) (auto simp: sha_compress_length)

lemma length_concat_word64_bytes: "length (concat (map word64_bytes ws)) = 8 * length ws"
  by (induction ws) (auto simp: word64_bytes_def)

lemma length_sum512: "length (sum512 m) = 64"
  by (simp add: sum512_def length_concat_word64_bytes sha_fold_length sha_iv_def)

end
