(* ===== verification/Utils.thy ===== *)
theory Utils
  imports Prelude Sha512
begin

text \<open>
  \<^verbatim>\<open>pkg/utils/utils.go\<close> and \<^verbatim>\<open>pkg/config/config.go\<close>: settings read from the environment,
  the hash of a chunk, and the layout of chunk files below the data directory.
  The environment is a function \<^verbatim>\<open>os.Getenv\<close> from names to values (the empty string where
  a variable is not set); a package variable that a function caches its value in is
  passed in and returned.
\<close>

type_synonym env = "string \<Rightarrow> string"

section \<open>Settings\<close>

definition DebugEnabled :: "env \<Rightarrow> bool" where
  "DebugEnabled getenv = (to_lower (getenv ''DEBUG'') = ''true'')"

text \<open>\<open>DataDir getenv v\<close>: \<open>v\<close> is the package variable \<^verbatim>\<open>DataDirValue\<close>.\<close>

definition DataDir :: "env \<Rightarrow> string \<Rightarrow> string \<times> string" where
  "DataDir getenv v =
     (if v \<noteq> [] then (v, v)
      else let dataDir = getenv ''DATA_DIR''
           in if dataDir = [] then (''/data'', ''/data'') else (dataDir, dataDir))"

definition HttpPort :: "env \<Rightarrow> string" where
  "HttpPort getenv = (let port = getenv ''PLUK_HTTP_PORT'' in if port = [] then ''8082'' else port)"

definition GrpcPort :: "env \<Rightarrow> string" where
  "GrpcPort getenv = (let port = getenv ''PLUK_GRPC_PORT'' in if port = [] then ''8085'' else port)"

definition FromEnv :: "env \<Rightarrow> string \<Rightarrow> string \<Rightarrow> string" where
  "FromEnv getenv varName defaultVal =
     (let val = getenv varName in if val = [] then defaultVal else val)"

definition DBName :: "env \<Rightarrow> string" where
  "DBName getenv = FromEnv getenv ''DB_NAME'' ''/pluk/pluke.db''"

definition DBHost :: "env \<Rightarrow> string" where
  "DBHost getenv = FromEnv getenv ''DB_HOST'' []"

definition DBUser :: "env \<Rightarrow> string" where
  "DBUser getenv = FromEnv getenv ''DB_USER'' []"

definition DBPassword :: "env \<Rightarrow> string" where
  "DBPassword getenv = FromEnv getenv ''DB_PASSWORD'' []"

definition DBPort :: "env \<Rightarrow> string" where
  "DBPort getenv = FromEnv getenv ''DB_PORT'' []"

text \<open>\<open>url\<close> is the package variable \<^verbatim>\<open>AuthURL\<close>, initially \<^verbatim>\<open>"unset"\<close>.\<close>

definition AuthValidationURL :: "env \<Rightarrow> string \<Rightarrow> string \<times> string" where
  "AuthValidationURL getenv url =
     (if url \<noteq> ''unset'' then (url, url)
      else (getenv ''AUTH_VALIDATION'', getenv ''AUTH_VALIDATION''))"

definition InternalKey :: "env \<Rightarrow> string" where
  "InternalKey getenv = getenv ''INTERNAL_KEY''"

definition ReadConcurrency :: "env \<Rightarrow> int" where
  "ReadConcurrency getenv =
     (case parse_int 64 (getenv ''READ_CONCURRENCY'') of (c, Some _) \<Rightarrow> 4 | (c, None) \<Rightarrow> c)"

definition DBType :: "env \<Rightarrow> string" where
  "DBType getenv = (let dbType = getenv ''DB_TYPE'' in if dbType = [] then ''sqlite3'' else dbType)"

definition UploadConcurrency :: "env \<Rightarrow> int" where
  "UploadConcurrency getenv =
     (case parse_int 64 (getenv ''UPLOAD_CONCURRENCY'') of
        (c, Some _) \<Rightarrow> if DBType getenv = ''sqlite3'' then 1 else 8
      | (c, None) \<Rightarrow> c)"

definition Masters :: "env \<Rightarrow> string list" where
  "Masters getenv =
     (let mastersRaw = getenv ''MASTERS'' in if mastersRaw = [] then [] else go_split (CHR '','') mastersRaw)"

definition SaveChunks :: "env \<Rightarrow> bool" where
  "SaveChunks getenv = (to_lower (getenv ''DO_NOT_SAVE_CHUNKS'') \<noteq> ''true'')"

definition HasMasters :: "env \<Rightarrow> bool" where
  "HasMasters getenv = (0 < length (Masters getenv))"

lemma HasMasters_iff: "HasMasters getenv \<longleftrightarrow> getenv ''MASTERS'' \<noteq> []"
  by (simp add: HasMasters_def Masters_def Let_def)

section \<open>Connection strings\<close>

text \<open>\<^verbatim>\<open>config.GetConnStringForName\<close>: \<open>None\<close> is the panic for an unknown database type.\<close>

definition GetConnStringForName :: "env \<Rightarrow> string \<Rightarrow> (string \<times> string) option" where
  "GetConnStringForName getenv dbname =
     (let dbType = DBType getenv in
      if dbType = ''mysql'' then
        Some (dbType, DBUser getenv @ '':'' @ DBPassword getenv @ ''@tcp('' @ DBHost getenv @ '')/''
                        @ dbname @ ''?charset=utf8&parseTime=True&loc=Local'')
      else if dbType = ''postgres'' then
        Some (dbType, ''host='' @ DBHost getenv @ '' user='' @ DBUser getenv @ '' dbname='' @ dbname
                        @ '' sslmode=disable password='' @ DBPassword getenv)
      else if dbType = ''sqlite3'' then Some (dbType, DBName getenv)
      else None)"

definition GetConnString :: "env \<Rightarrow> (string \<times> string) option" where
  "GetConnString getenv = GetConnStringForName getenv (DBName getenv)"

section \<open>Hashes and chunk paths\<close>

definition hex_digit :: "nat \<Rightarrow> char" where
  "hex_digit n = (if n < 10 then char_of (48 + n) else char_of (87 + n))"

definition hex_byte :: "byte \<Rightarrow> string" where
  "hex_byte b = [hex_digit (unat b div 16), hex_digit (unat b mod 16)]"

definition CalcHash :: "byte list \<Rightarrow> string" where
  "CalcHash data = concat (map hex_byte (sum512 data))"

definition GetHashedFilename :: "string \<Rightarrow> string \<Rightarrow> nat \<Rightarrow> string option" where
  "GetHashedFilename dataDir hash version =
     (if version = 2 then
        Option.bind (slice hash 0 2) (\<lambda>a. Option.bind (slice hash 2 4) (\<lambda>b.
        Option.bind (slice hash 4 (length hash)) (\<lambda>c.
          Some (dataDir @ ''/'' @ a @ ''/'' @ b @ ''/'' @ c))))
      else if version = 1 then
        Option.bind (slice hash 0 2) (\<lambda>a. Option.bind (slice hash 2 4) (\<lambda>b.
        Option.bind (slice hash 4 6) (\<lambda>c. Option.bind (slice hash 6 (length hash)) (\<lambda>d.
          Some (dataDir @ ''/'' @ a @ ''/'' @ b @ ''/'' @ c @ ''/'' @ d)))))
      else if version = 0 then
        Option.bind (slice hash 0 8) (\<lambda>hashDir. Option.bind (slice hash 8 (length hash)) (\<lambda>hashFile.
          Some (dataDir @ ''/'' @ hashDir @ ''/'' @ hashFile)))
      else Some [])"

definition GetHashFromPath :: "string \<Rightarrow> string \<Rightarrow> string \<times> nat" where
  "GetHashFromPath dataDir path =
     (let hash = trim_prefix path dataDir;
          cnt = count_list hash (CHR ''/'');
          version = (if cnt = 3 then 2 else if cnt = 4 then 1 else 0)
      in (remove_char (CHR ''/'') hash, version))"

definition GetFirstN :: "string list \<Rightarrow> int \<Rightarrow> string list option" where
  "GetFirstN s n =
     (let m = (if int (length s) < n then int (length s) else n)
      in if m < 0 then None else slice s 0 (nat m))"

text \<open>
  \<^verbatim>\<open>CheckVersion\<close>. The semver package is a parameter: \<open>newVersion\<close> parses, \<open>verString\<close>
  prints a parsed version.
\<close>

definition CheckVersion :: "(string \<Rightarrow> string + 'v) \<Rightarrow> ('v \<Rightarrow> string) \<Rightarrow> string \<Rightarrow> go_error option" where
  "CheckVersion newVersion verString version =
     (case newVersion version of
        Inl msg \<Rightarrow> Some (Errorf (version @ '': '' @ msg @
                   ''; version examples: 1.0.1, 1.5.0-dev, 1.8.1-alpha.1''))
      | Inr v \<Rightarrow>
          if verString v \<noteq> version
          then Some (Errorf (''Version must be a valid semantic version. Given '' @ version @
                      '', try to save as version '' @ verString v))
          else None)"

section \<open>Facts about hashes\<close>

definition hex_char :: "char \<Rightarrow> bool" where
  "hex_char c \<longleftrightarrow> c \<in> set ''0123456789abcdef''"

definition hex_string :: "string \<Rightarrow> bool" where
  "hex_string s \<longleftrightarrow> list_all hex_char s"

lemma hex_digit_char: "n < 16 \<Longrightarrow> hex_char (hex_digit n)"
proof -
  assume "n < 16"
  then have "n \<in> {0..<16}" by simp
  moreover have "\<forall>n \<in> {0..<16}. hex_char (hex_digit n)" by code_simp
  ultimately show ?thesis by blast
qed

lemma hex_string_append [simp]: "hex_string (a @ b) \<longleftrightarrow> hex_string a \<and> hex_string b"
  by (simp add: hex_string_def)

lemma hex_byte_hex: "hex_string (hex_byte b)"
proof -
  have "unat b < 256" using unsigned_less [of b, where 'a = nat] by simp
  then show ?thesis by (auto simp: hex_string_def hex_byte_def intro!: hex_digit_char)
qed

lemma hex_string_no_slash: "hex_string s \<Longrightarrow> CHR ''/'' \<notin> set s"
  by (auto simp: hex_string_def list_all_iff hex_char_def)

lemma concat_hex: "hex_string (concat (map hex_byte bs))"
proof (induction bs)
  case Nil
  show ?case by (simp add: hex_string_def)
next
  case (Cons b bs)
  then show ?case by (simp add: hex_byte_hex)
qed

lemma CalcHash_hex: "hex_string (CalcHash d)"
  by (simp add: CalcHash_def concat_hex)

lemma CalcHash_length: "length (CalcHash d) = 128"
proof -
  have "length (concat (map hex_byte bs)) = 2 * length bs" for bs
    by (induction bs) (auto simp: hex_byte_def)
  then show ?thesis by (simp add: CalcHash_def length_sum512)
qed

section \<open>Facts about chunk paths\<close>

text \<open>A stored hash: long enough for every layout and without a slash.\<close>

definition good_hash :: "string \<Rightarrow> bool" where
  "good_hash h \<longleftrightarrow> 8 \<le> length h \<and> CHR ''/'' \<notin> set h"

lemma CalcHash_good: "good_hash (CalcHash d)"
  using CalcHash_hex [of d] by (simp add: good_hash_def CalcHash_length hex_string_no_slash)

lemma count_list_slash_free: "c \<notin> set s \<Longrightarrow> count_list s c = 0"
  by (induction s) auto

lemma slash_free_take_drop: "c \<notin> set s \<Longrightarrow> c \<notin> set (take n s) \<and> c \<notin> set (drop m s) \<and> c \<notin> set (take n (drop m s))"
  by (meson in_set_dropD in_set_takeD)

lemma hashed_filename_v2:
  "4 \<le> length h \<Longrightarrow> GetHashedFilename d h 2 =
     Some (d @ ''/'' @ take 2 h @ ''/'' @ take 2 (drop 2 h) @ ''/'' @ drop 4 h)"
  by (simp add: GetHashedFilename_def slice_def)

lemma hashed_filename_v1:
  "6 \<le> length h \<Longrightarrow> GetHashedFilename d h (Suc 0) =
     Some (d @ ''/'' @ take 2 h @ ''/'' @ take 2 (drop 2 h) @ ''/'' @ take 2 (drop 4 h) @ ''/'' @ drop 6 h)"
  by (simp add: GetHashedFilename_def slice_def)

lemma hashed_filename_v0:
  "8 \<le> length h \<Longrightarrow> GetHashedFilename d h 0 = Some (d @ ''/'' @ take 8 h @ ''/'' @ drop 8 h)"
  by (simp add: GetHashedFilename_def slice_def)

lemma good_hash_filename: "good_hash h \<Longrightarrow> v \<le> 2 \<Longrightarrow> \<exists>p. GetHashedFilename d h v = Some p"
  by (cases "v = 0"; cases "v = 1"; cases "v = 2")
     (auto simp: good_hash_def hashed_filename_v2 hashed_filename_v1 hashed_filename_v0)

lemma hashed_filename_inverse:
  assumes "good_hash h" and "v \<le> 2" and "GetHashedFilename d h v = Some p"
  shows "GetHashFromPath d p = (h, v)"
proof -
  have len: "8 \<le> length h" and sl: "CHR ''/'' \<notin> set h" using assms(1) by (auto simp: good_hash_def)
  note free = slash_free_take_drop [OF sl]
  have cnt: "count_list (take n h) (CHR ''/'') = 0" "count_list (drop n h) (CHR ''/'') = 0"
    "count_list (take m (drop n h)) (CHR ''/'') = 0" for n m
    using free by (auto intro!: count_list_slash_free)
  have rm: "remove_char (CHR ''/'') (take n h) = take n h" "remove_char (CHR ''/'') (drop n h) = drop n h"
    "remove_char (CHR ''/'') (take m (drop n h)) = take m (drop n h)" for n m
    using free by (auto intro!: remove_char_id)
  have cut: "take m (drop n h) @ drop (n + m) h = drop n h" for n m
    by (metis add.commute append_take_drop_id drop_drop)
  have j2: "take 2 h @ take 2 (drop 2 h) @ drop 4 h = h"
    using cut [of 2 2] by simp
  have j1: "take 2 h @ take 2 (drop 2 h) @ take 2 (drop 4 h) @ drop 6 h = h"
    using cut [of 2 2] cut [of 2 4] by simp
  consider "v = 0" | "v = 1" | "v = 2" using assms(2) by linarith
  then show ?thesis
  proof cases
    case 1
    then show ?thesis using assms(3) len
      by (auto simp: hashed_filename_v0 GetHashFromPath_def Let_def cnt rm)
  next
    case 2
    then show ?thesis using assms(3) len j1
      by (auto simp: hashed_filename_v1 GetHashFromPath_def Let_def cnt rm)
  next
    case 3
    then show ?thesis using assms(3) len j2
      by (auto simp: hashed_filename_v2 GetHashFromPath_def Let_def cnt rm)
  qed
qed

lemma hashed_filename_inj:
  "good_hash h \<Longrightarrow> good_hash h' \<Longrightarrow> v \<le> 2 \<Longrightarrow> v' \<le> 2 \<Longrightarrow>
   GetHashedFilename d h v = Some p \<Longrightarrow> GetHashedFilename d h' v' = Some p \<Longrightarrow> h = h' \<and> v = v'"
  by (metis hashed_filename_inverse prod.inject)

end
