(* ===== verification/Types.thy ===== *)
theory Types
  imports Utils
begin

text \<open>
  \<^verbatim>\<open>pkg/types/types.go\<close>: the data that clients, slaves and masters exchange, and the order
  of dataset and version listings. Times are integers (nanoseconds), sizes are \<^verbatim>\<open>int64\<close>
  values, a file mode and a chunk version (a \<^verbatim>\<open>byte\<close>) are naturals.
\<close>

definition ChunkVersion :: nat where
  "ChunkVersion = 2"

record dataset_info =
  di_Workspace :: string
  di_Name :: string
  di_DType :: string

record version_info =
  vi_Version :: string
  vi_CreatedAt :: int
  vi_UpdatedAt :: int
  vi_SizeBytes :: int
  vi_FileCount :: int
  vi_Message :: string
  vi_Workspace :: string
  vi_Name :: string
  vi_DType :: string
  vi_Editing :: bool

record save_opts =
  so_Comment :: string
  so_Create :: bool
  so_Publish :: bool
  so_Editing :: bool

record hash_ref =
  h_Hash :: string
  h_Size :: int
  h_Version :: nat

record hashed_file =
  hf_Path :: string
  hf_Size :: int
  hf_Hashes :: "hash_ref list"
  hf_Mode :: nat
  hf_ModeTime :: int

type_synonym file_structure = "hashed_file list"

record chunk_check =
  cc_Hash :: string
  cc_Size :: int
  cc_Exists :: bool

text \<open>What is pushed to the hub: the values with a \<^verbatim>\<open>Type()\<close>.\<close>

datatype hub_message = Msg_Dataset dataset_info | Msg_Version version_info

section \<open>Listings\<close>

definition DataSetList_Less :: "dataset_info \<Rightarrow> dataset_info \<Rightarrow> bool" where
  "DataSetList_Less a b \<longleftrightarrow> di_Name a < di_Name b"

text \<open>
  Versions are compared by the semver package: \<open>newVersion\<close> parses (None is the error),
  \<open>svLess\<close> is its order.
\<close>

definition VersionArr_Less ::
  "(string \<Rightarrow> 'v option) \<Rightarrow> ('v \<Rightarrow> 'v \<Rightarrow> bool) \<Rightarrow> version_info \<Rightarrow> version_info \<Rightarrow> bool" where
  "VersionArr_Less newVersion svLess a b =
     (case newVersion (vi_Version a) of
        None \<Rightarrow> True
      | Some sv1 \<Rightarrow> (case newVersion (vi_Version b) of
            None \<Rightarrow> False
          | Some sv2 \<Rightarrow> svLess sv1 sv2))"

text \<open>\<^verbatim>\<open>sort.Reverse\<close> swaps the arguments of \<^verbatim>\<open>Less\<close>.\<close>

definition reverse_less :: "('a \<Rightarrow> 'a \<Rightarrow> bool) \<Rightarrow> 'a \<Rightarrow> 'a \<Rightarrow> bool" where
  "reverse_less lt a b = lt b a"

interpretation dataset_order: go_less DataSetList_Less
  by unfold_locales (auto simp: DataSetList_Less_def)

end
