(* ===== verification/Readers.thy ===== *)
theory Readers
  imports Prelude
begin

text \<open>
  Readers: the contract of \<^verbatim>\<open>io.Reader\<close> as a locale with the loops that read from one
  (\<^verbatim>\<open>io.Copy\<close>, \<^verbatim>\<open>utils.PreciseReader\<close>, \<^verbatim>\<open>io.ChunkedReader\<close>), and the two readers a chunk is
  served from: \<^verbatim>\<open>ChunkReader\<close> (\<^verbatim>\<open>pkg/io/reader.go\<close>) and an open file of the operating system.

  A reader with state \<open>'s\<close> is a function \<open>rd :: 's \<Rightarrow> nat \<Rightarrow> (byte list \<times> go_error option \<times> 's) option\<close>:
  \<open>rd s n\<close> is \<^verbatim>\<open>Read(p)\<close> with \<open>len(p) = n\<close>; it gives the bytes put into \<open>p\<close> (their number
  is the returned count), the error and the next state; \<open>None\<close> is a panic.
\<close>

section \<open>Reading loops\<close>

text \<open>
  \<^verbatim>\<open>io.Copy(dst, src)\<close> and \<^verbatim>\<open>ioutil.ReadAll\<close>: read with a buffer of \<open>b\<close> bytes until an
  error; \<^verbatim>\<open>EOF\<close> is the normal end. The result is what was written and the error.
\<close>

partial_function (option) io_copy ::
  "('s \<Rightarrow> nat \<Rightarrow> (byte list \<times> go_error option \<times> 's) option) \<Rightarrow> nat \<Rightarrow> 's \<Rightarrow> byte list \<Rightarrow>
   (byte list \<times> go_error option \<times> 's) option" where
  "io_copy rd b s acc =
     (case rd s b of
        None \<Rightarrow> None
      | Some (bs, e, s') \<Rightarrow>
          (case e of
             None \<Rightarrow> io_copy rd b s' (acc @ bs)
           | Some err \<Rightarrow> Some (acc @ bs, if err = Io_EOF then None else Some err, s')))"

text \<open>
  \<^verbatim>\<open>PreciseReader.Read(p)\<close> with \<open>remain\<close> bytes of \<open>p\<close> left. The result holds the bytes
  stored in \<open>p\<close>, the count returned (0 on a real error) and the error.
\<close>

partial_function (option) precise_loop ::
  "('s \<Rightarrow> nat \<Rightarrow> (byte list \<times> go_error option \<times> 's) option) \<Rightarrow> nat \<Rightarrow> 's \<Rightarrow> byte list \<Rightarrow>
   (byte list \<times> nat \<times> go_error option \<times> 's) option" where
  "precise_loop rd remain s acc =
     (case rd s remain of
        None \<Rightarrow> None
      | Some (bs, e, s') \<Rightarrow>
          if e \<noteq> None \<and> e \<noteq> Some Io_EOF then Some (acc @ bs, 0, e, s')
          else if remain - length bs = 0 then Some (acc @ bs, length (acc @ bs), None, s')
          else if e = Some Io_EOF then Some (acc @ bs, length (acc @ bs), e, s')
          else precise_loop rd (remain - length bs) s' (acc @ bs))"

definition PreciseReader_Read ::
  "('s \<Rightarrow> nat \<Rightarrow> (byte list \<times> go_error option \<times> 's) option) \<Rightarrow> 's \<Rightarrow> nat \<Rightarrow>
   (byte list \<times> nat \<times> go_error option \<times> 's) option" where
  "PreciseReader_Read rd s n = precise_loop rd n s []"

text \<open>
  \<^verbatim>\<open>ChunkedReader.NextChunk\<close>: one read of \<open>chunkSize\<close> bytes; a read with data gives the data
  and its hash, whatever the error.
\<close>

definition NextChunk ::
  "(byte list \<Rightarrow> string) \<Rightarrow> ('s \<Rightarrow> nat \<Rightarrow> (byte list \<times> go_error option \<times> 's) option) \<Rightarrow> nat \<Rightarrow> 's \<Rightarrow>
   ((byte list \<times> string) res \<times> 's) option" where
  "NextChunk hash rd chunkSize s =
     (case rd s chunkSize of
        None \<Rightarrow> None
      | Some (bs, e, s') \<Rightarrow>
          if 0 < length bs then Some (Inr (bs, hash bs), s')
          else (case e of Some err \<Rightarrow> Some (Inl err, s') | None \<Rightarrow> Some (Inl Io_EOF, s')))"

text \<open>What every read keeps, the copy keeps.\<close>

lemma io_copy_invariant:
  assumes "io_copy rd b s acc = Some y" and "\<And>s bs e s'. J s \<Longrightarrow> rd s b = Some (bs, e, s') \<Longrightarrow> J s'" and "J s"
  shows "J (snd (snd y))"
proof -
  let ?P = "\<lambda>rd b s acc y. (\<forall>s bs e s'. J s \<longrightarrow> rd s b = Some (bs, e, s') \<longrightarrow> J s') \<longrightarrow> J s \<longrightarrow> J (snd (snd y))"
  have "?P rd b s acc y"
  proof (rule io_copy.raw_induct [where P = ?P, OF _ assms(1)])
    fix g rd b s acc y
    assume ih: "\<And>rd b s acc y. g rd b s acc = Some y \<Longrightarrow> ?P rd b s acc y"
      and step: "(case rd s b of None \<Rightarrow> None
          | Some (bs, e, s') \<Rightarrow> (case e of None \<Rightarrow> g rd b s' (acc @ bs)
             | Some err \<Rightarrow> Some (acc @ bs, if err = Io_EOF then None else Some err, s'))) = Some y"
    show "?P rd b s acc y"
    proof (intro impI)
      assume keep: "\<forall>s bs e s'. J s \<longrightarrow> rd s b = Some (bs, e, s') \<longrightarrow> J s'" and s: "J s"
      obtain bs e s' where r: "rd s b = Some (bs, e, s')" using step by (auto split: option.splits)
      have s': "J s'" using keep s r by blast
      show "J (snd (snd y))"
      proof (cases e)
        case None
        then have "g rd b s' (acc @ bs) = Some y" using step r by simp
        from ih [OF this] show ?thesis using keep s' by blast
      next
        case (Some err)
        then show ?thesis using step r s' by auto
      qed
    qed
  qed
  then show ?thesis using assms(2,3) by blast
qed

section \<open>The contract of a reader\<close>

text \<open>
  What the loops rely on: a read of a positive number of bytes (at most \<open>lim\<close>, the longest
  buffer) in a good state returns a
  prefix of what is left, makes progress, and reports \<^verbatim>\<open>EOF\<close> only with the last bytes.
\<close>

locale go_reader =
  fixes rd :: "'s \<Rightarrow> nat \<Rightarrow> (byte list \<times> go_error option \<times> 's) option"
    and content :: "'s \<Rightarrow> byte list"
    and good :: "'s \<Rightarrow> bool"
    and lim :: nat
  assumes rd_some: "good s \<Longrightarrow> 0 < n \<Longrightarrow> n \<le> lim \<Longrightarrow> \<exists>bs e s'. rd s n = Some (bs, e, s') \<and> (e = None \<or> e = Some Io_EOF)"
    and rd_len: "good s \<Longrightarrow> 0 < n \<Longrightarrow> n \<le> lim \<Longrightarrow> rd s n = Some (bs, e, s') \<Longrightarrow> length bs \<le> n"
    and rd_more: "good s \<Longrightarrow> 0 < n \<Longrightarrow> n \<le> lim \<Longrightarrow> rd s n = Some (bs, None, s') \<Longrightarrow>
                  bs \<noteq> [] \<and> good s' \<and> content s = bs @ content s'"
    and rd_eof: "good s \<Longrightarrow> 0 < n \<Longrightarrow> n \<le> lim \<Longrightarrow> rd s n = Some (bs, Some Io_EOF, s') \<Longrightarrow> content s = bs"
begin

lemma io_copy_content:
  "good s \<Longrightarrow> 0 < b \<Longrightarrow> b \<le> lim \<Longrightarrow> \<exists>s'. io_copy rd b s acc = Some (acc @ content s, None, s')"
proof (induction "length (content s)" arbitrary: s acc rule: less_induct)
  case less
  obtain bs e s' where r: "rd s b = Some (bs, e, s')" and e: "e = None \<or> e = Some Io_EOF"
    using rd_some [OF less.prems] by blast
  show ?case
  proof (cases e)
    case None
    note m = rd_more [OF less.prems r [unfolded None]]
    then have "length (content s') < length (content s)" by simp
    from less.hyps [OF this _ less.prems(2,3)] m obtain t
      where "io_copy rd b s' (acc @ bs) = Some ((acc @ bs) @ content s', None, t)" by blast
    then show ?thesis using m by (subst io_copy.simps) (simp add: r None)
  next
    case (Some err)
    with e have "err = Io_EOF" by simp
    with rd_eof [OF less.prems] r Some show ?thesis
      by (subst io_copy.simps) simp
  qed
qed

text \<open>\<^verbatim>\<open>PreciseReader\<close> fills the buffer, or gives all that is left together with \<^verbatim>\<open>EOF\<close>.\<close>

lemma precise_loop_content:
  "good s \<Longrightarrow> 0 < n \<Longrightarrow> n \<le> lim \<Longrightarrow>
   \<exists>s'. precise_loop rd n s acc =
     Some (acc @ take n (content s), length (acc @ take n (content s)),
           if length (content s) < n then Some Io_EOF else None, s')
     \<and> (n < length (content s) \<longrightarrow> good s' \<and> content s = take n (content s) @ content s')"
proof (induction "length (content s)" arbitrary: s acc n rule: less_induct)
  case less
  obtain bs e s' where r: "rd s n = Some (bs, e, s')" and e: "e = None \<or> e = Some Io_EOF"
    using rd_some [OF less.prems] by blast
  have len: "length bs \<le> n" by (rule rd_len [OF less.prems r])
  show ?case
  proof (cases e)
    case (Some err)
    then have c: "content s = bs" using rd_eof [OF less.prems] r e by simp
    then show ?thesis using Some e r len
      by (subst precise_loop.simps) (auto simp: le_Suc_eq)
  next
    case None
    note m = rd_more [OF less.prems r [unfolded None]]
    show ?thesis
    proof (cases "length bs = n")
      case True
      then show ?thesis using m r None
        by (subst precise_loop.simps) auto
    next
      case False
      then have pos: "0 < n - length bs" using len by simp
      have "length (content s') < length (content s)" using m by simp
      moreover have "n - length bs \<le> lim" using less.prems(3) by simp
      ultimately obtain t where
        "precise_loop rd (n - length bs) s' (acc @ bs) =
           Some ((acc @ bs) @ take (n - length bs) (content s'),
                 length ((acc @ bs) @ take (n - length bs) (content s')),
                 if length (content s') < n - length bs then Some Io_EOF else None, t)
         \<and> (n - length bs < length (content s') \<longrightarrow>
              good t \<and> content s' = take (n - length bs) (content s') @ content t)"
        using less.hyps [of s' "n - length bs" "acc @ bs"] pos m by blast
      then show ?thesis using m r None len pos False
        by (subst precise_loop.simps) (auto simp: less_diff_conv)
    qed
  qed
qed

lemma NextChunk_content:
  assumes "good s" and "0 < n" and "n \<le> lim" and "content s \<noteq> []"
  shows "\<exists>bs s'. NextChunk hash rd n s = Some (Inr (bs, hash bs), s') \<and> bs \<noteq> [] \<and> length bs \<le> n
           \<and> prefix bs (content s)"
proof -
  obtain bs e s' where r: "rd s n = Some (bs, e, s')" and e: "e = None \<or> e = Some Io_EOF"
    using rd_some [OF assms(1,2,3)] by blast
  have "bs \<noteq> [] \<and> prefix bs (content s)"
    using e rd_more [OF assms(1,2,3)] rd_eof [OF assms(1,2,3)] r assms(4) by auto
  then show ?thesis using r rd_len [OF assms(1,2,3) r] by (auto simp: NextChunk_def)
qed

end

section \<open>The readers of chunk data\<close>

text \<open>\<^verbatim>\<open>ChunkReader\<close>: data in memory and an offset.\<close>

record chunk_reader =
  cr_data :: "byte list"
  cr_offset :: int

definition NewChunkReaderFromData :: "byte list \<Rightarrow> chunk_reader" where
  "NewChunkReaderFromData data = \<lparr>cr_data = data, cr_offset = 0\<rparr>"

definition ChunkReader_Read ::
  "chunk_reader \<Rightarrow> nat \<Rightarrow> (byte list \<times> go_error option \<times> chunk_reader) option" where
  "ChunkReader_Read r n =
     (let end0 = wrap64 (cr_offset r + int n);
          end1 = (if int (length (cr_data r)) < end0 then int (length (cr_data r)) else end0)
      in if wrap64 (end1 - cr_offset r) \<le> 0 then Some ([], Some Io_EOF, r)
         else if cr_offset r < 0 \<or> end1 < cr_offset r then None
         else Some (take (nat (end1 - cr_offset r)) (drop (nat (cr_offset r)) (cr_data r)),
                    None, r\<lparr>cr_offset := end1\<rparr>))"

definition ChunkReader_Seek :: "chunk_reader \<Rightarrow> int \<Rightarrow> chunk_reader" where
  "ChunkReader_Seek r offset = r\<lparr>cr_offset := offset\<rparr>"

text \<open>
  A regular file opened with \<^verbatim>\<open>os.Open\<close>: its data, the read position, and whether it was
  closed. \<^verbatim>\<open>Read\<close> gives the bytes that are there, \<^verbatim>\<open>EOF\<close> at the end; \<^verbatim>\<open>Seek\<close> to a negative
  position is an error and changes nothing.
\<close>

record os_file =
  of_data :: "byte list"
  of_pos :: nat
  of_closed :: bool

definition os_open :: "byte list \<Rightarrow> os_file" where
  "os_open data = \<lparr>of_data = data, of_pos = 0, of_closed = False\<rparr>"

definition os_read :: "os_file \<Rightarrow> nat \<Rightarrow> byte list \<times> go_error option \<times> os_file" where
  "os_read f n =
     (if of_closed f then ([], Some (Errorf ''file already closed''), f)
      else if n = 0 then ([], None, f)
      else if length (of_data f) \<le> of_pos f then ([], Some Io_EOF, f)
      else let bs = take n (drop (of_pos f) (of_data f))
           in (bs, None, f\<lparr>of_pos := of_pos f + length bs\<rparr>))"

definition os_seek :: "os_file \<Rightarrow> int \<Rightarrow> os_file" where
  "os_seek f offset = (if of_closed f \<or> offset < 0 then f else f\<lparr>of_pos := nat offset\<rparr>)"

text \<open>\<^verbatim>\<open>ReaderInterface\<close>: the values the source puts into it.\<close>

datatype reader = OsFile os_file | Mem chunk_reader

fun reader_read :: "reader \<Rightarrow> nat \<Rightarrow> (byte list \<times> go_error option \<times> reader) option" where
  "reader_read (OsFile f) n = (case os_read f n of (bs, e, f') \<Rightarrow> Some (bs, e, OsFile f'))"
| "reader_read (Mem r) n =
     (case ChunkReader_Read r n of None \<Rightarrow> None | Some (bs, e, r') \<Rightarrow> Some (bs, e, Mem r'))"

fun reader_seek :: "reader \<Rightarrow> int \<Rightarrow> reader" where
  "reader_seek (OsFile f) offset = OsFile (os_seek f offset)"
| "reader_seek (Mem r) offset = Mem (ChunkReader_Seek r offset)"

fun reader_close :: "reader \<Rightarrow> reader" where
  "reader_close (OsFile f) = OsFile (f\<lparr>of_closed := True\<rparr>)"
| "reader_close (Mem r) = Mem r"

fun reader_data :: "reader \<Rightarrow> byte list" where
  "reader_data (OsFile f) = of_data f"
| "reader_data (Mem r) = cr_data r"

fun reader_pos :: "reader \<Rightarrow> int" where
  "reader_pos (OsFile f) = int (of_pos f)"
| "reader_pos (Mem r) = cr_offset r"

fun reader_open :: "reader \<Rightarrow> bool" where
  "reader_open (OsFile f) = (\<not> of_closed f)"
| "reader_open (Mem r) = True"

text \<open>
  A reader is well placed when it is open, at a position that is not negative, over data
  whose length is an \<^verbatim>\<open>int64\<close> with room for one more buffer.
\<close>

definition reader_ok :: "reader \<Rightarrow> bool" where
  "reader_ok r \<longleftrightarrow> reader_open r \<and> 0 \<le> reader_pos r \<and> reader_pos r < 2 ^ 62
                 \<and> int (length (reader_data r)) < 2 ^ 62"

definition reader_left :: "reader \<Rightarrow> byte list" where
  "reader_left r = drop (nat (reader_pos r)) (reader_data r)"

lemma reader_read_data: "reader_read r n = Some (bs, e, r') \<Longrightarrow> reader_data r' = reader_data r \<and> reader_open r' = reader_open r"
  by (cases r) (auto simp: os_read_def ChunkReader_Read_def Let_def split: if_splits)

text \<open>A read in a good position: all that fits, with \<^verbatim>\<open>EOF\<close> exactly when nothing is left.\<close>

lemma reader_read_ok:
  assumes ok: "reader_ok r" and n: "0 < n" "int n < 2 ^ 62"
  shows "\<exists>r'. reader_read r n = Some (take n (reader_left r),
              if reader_left r = [] then Some Io_EOF else None, r')
           \<and> reader_pos r' = reader_pos r + int (length (take n (reader_left r)))
           \<and> reader_data r' = reader_data r \<and> reader_open r'"
proof (cases r)
  case (OsFile f)
  then show ?thesis using ok n
    by (auto simp: reader_ok_def reader_left_def os_read_def Let_def)
next
  case (Mem c)
  have off: "0 \<le> cr_offset c" "cr_offset c < 2 ^ 62" and len: "int (length (cr_data c)) < 2 ^ 62"
    using ok Mem by (auto simp: reader_ok_def)
  have w: "wrap64 (cr_offset c + int n) = cr_offset c + int n"
    using off n by (intro wrap64_id) (simp add: in64_def)
  let ?stop = "if int (length (cr_data c)) < cr_offset c + int n then int (length (cr_data c)) else cr_offset c + int n"
  have w2: "wrap64 (?stop - cr_offset c) = ?stop - cr_offset c"
    using off n len by (intro wrap64_id) (auto simp: in64_def)
  show ?thesis
  proof (cases "?stop \<le> cr_offset c")
    case True
    then have "int (length (cr_data c)) \<le> cr_offset c" using n by (auto split: if_splits)
    then have "reader_left r = []" using Mem by (simp add: reader_left_def nat_le_iff)
    then show ?thesis using Mem True w w2 by (auto simp: ChunkReader_Read_def Let_def)
  next
    case False
    then have lt: "cr_offset c < int (length (cr_data c))" by (auto split: if_splits)
    then have ne: "reader_left r \<noteq> []" using Mem off by (simp add: reader_left_def nat_less_iff)
    have len_left: "int (length (reader_left r)) = int (length (cr_data c)) - cr_offset c"
      using Mem lt off by (simp add: reader_left_def)
    have amount: "take (nat (?stop - cr_offset c)) (reader_left r) = take n (reader_left r)"
      using len_left by (auto intro: take_all [symmetric] simp: nat_le_iff)
    have endpos: "?stop = cr_offset c + int (length (take n (reader_left r)))"
      using len_left by auto
    show ?thesis using Mem False off ne w w2 amount
      by (auto simp: ChunkReader_Read_def Let_def reader_left_def endpos [symmetric])
  qed
qed

interpretation chunk_readers: go_reader reader_read reader_left reader_ok "2 ^ 62 - 1"
proof (unfold_locales, goal_cases)
  case (1 s n)
  then show ?case using reader_read_ok [of s n] by fastforce
next
  case (2 s n bs e s')
  then show ?case using reader_read_ok [of s n] by fastforce
next
  case (3 s n bs s')
  then obtain r' where r': "reader_left s \<noteq> []" "bs = take n (reader_left s)" "s' = r'"
      "reader_pos r' = reader_pos s + int (length bs)" "reader_data r' = reader_data s" "reader_open r'"
    using reader_read_ok [of s n] by (fastforce split: if_splits)
  have pos: "0 \<le> reader_pos s" and dl: "int (length (reader_data s)) < 2 ^ 62"
    using 3 by (auto simp: reader_ok_def)
  have "length bs \<le> length (reader_left s)" using r' by simp
  moreover have "int (length (reader_left s)) = int (length (reader_data s)) - reader_pos s"
    using r'(1) pos by (simp add: reader_left_def)
  ultimately have "reader_pos r' < 2 ^ 62" using r'(4) dl by simp
  then have ok: "reader_ok r'" using r' dl pos by (simp add: reader_ok_def)
  have "nat (reader_pos r') = length bs + nat (reader_pos s)" using r'(4) pos by simp
  then have "reader_left r' = drop (length bs) (reader_left s)"
    using r'(5) by (simp add: reader_left_def)
  moreover have "reader_left s = take (length bs) (reader_left s) @ drop (length bs) (reader_left s)"
    by simp
  moreover have "take (length bs) (reader_left s) = bs"
    using r'(2) by (cases "n \<le> length (reader_left s)") auto
  ultimately have "reader_left s = bs @ reader_left r'" by metis
  then show ?case using ok r'(1,2,3) 3(2) by auto
next
  case (4 s n bs s')
  then show ?case using reader_read_ok [of s n] by (fastforce split: if_splits)
qed

end
