(* ===== verification/ChunkStore.thy ===== *)
theory ChunkStore
  imports Utils Types Readers
begin

text \<open>
  \<^verbatim>\<open>pkg/io/chunks.go\<close>: chunk files below the data directory, with the master as the place a
  slave fetches missing chunks from and reports new ones to.

  The disk is the set of regular files (path and content), the set of directories and the
  paths on which the operating system refuses every operation. The master is the interface
  \<^verbatim>\<open>plukio.PlukClient\<close>: a record of the three calls made here, over a state \<open>'m\<close> of its own;
  what it answers is not fixed.
\<close>

section \<open>The disk\<close>

record disk =
  dk_files :: "(string \<times> byte list) list"
  dk_dirs :: "string list"
  dk_denied :: "string list"

definition denied :: go_error where
  "denied = Errorf ''permission denied''"

text \<open>\<^verbatim>\<open>os.Stat\<close> gives the size; a directory has the size of one block.\<close>

definition os_stat :: "disk \<Rightarrow> string \<Rightarrow> int res" where
  "os_stat d p =
     (if p \<in> set (dk_denied d) then Inl denied
      else case map_of (dk_files d) p of
             Some bs \<Rightarrow> Inr (int (length bs))
           | None \<Rightarrow> if p \<in> set (dk_dirs d) then Inr 4096 else Inl Not_Exist)"

definition os_Open :: "disk \<Rightarrow> string \<Rightarrow> reader res" where
  "os_Open d p =
     (if p \<in> set (dk_denied d) then Inl denied
      else case map_of (dk_files d) p of
             Some bs \<Rightarrow> Inr (OsFile (os_open bs))
           | None \<Rightarrow> if p \<in> set (dk_dirs d) then Inr (OsFile (os_open [])) else Inl Not_Exist)"

text \<open>The directories on the way to a path, itself included.\<close>

definition dir_prefixes :: "string \<Rightarrow> string list" where
  "dir_prefixes p = filter (\<lambda>q. q \<noteq> [])
     (map (\<lambda>i. join_path (take (Suc i) (split_path p))) [0..<length (split_path p)])"

definition os_MkdirAll :: "disk \<Rightarrow> string \<Rightarrow> go_error option \<times> disk" where
  "os_MkdirAll d p =
     (if p = [] then (Some Not_Exist, d)
      else if p \<in> set (dk_dirs d) then (None, d)
      else if \<exists>q \<in> set (dir_prefixes p). q \<in> set (dk_denied d) then (Some denied, d)
      else if \<exists>q \<in> set (dir_prefixes p). map_of (dk_files d) q \<noteq> None
        then (Some (Errorf ''not a directory''), d)
      else (None, d\<lparr>dk_dirs := remdups (dir_prefixes p @ dk_dirs d)\<rparr>))"

text \<open>\<^verbatim>\<open>os.Create\<close> truncates an existing file; its directory must exist.\<close>

definition parent_dir :: "string \<Rightarrow> string" where
  "parent_dir p = join_path (butlast (split_path p))"

definition os_Create :: "disk \<Rightarrow> string \<Rightarrow> go_error option \<times> disk" where
  "os_Create d p =
     (if p \<in> set (dk_denied d) then (Some denied, d)
      else if p \<in> set (dk_dirs d) then (Some (Errorf ''is a directory''), d)
      else if parent_dir p \<notin> set (dk_dirs d) then (Some Not_Exist, d)
      else (None, d\<lparr>dk_files := AList.update p [] (dk_files d)\<rparr>))"

definition os_write :: "disk \<Rightarrow> string \<Rightarrow> byte list \<Rightarrow> disk" where
  "os_write d p bs = d\<lparr>dk_files := AList.update p bs (dk_files d)\<rparr>"

section \<open>A node and its master\<close>

text \<open>
  The body of a request or a download: the bytes that can be read and the error reading
  them ends with, if any.
\<close>

type_synonym body = "byte list \<times> go_error option"

record 'm master =
  ms_CheckChunk :: "string \<Rightarrow> nat \<Rightarrow> 'm \<Rightarrow> chunk_check res \<times> 'm"
  ms_DownloadChunk :: "string \<Rightarrow> nat \<Rightarrow> 'm \<Rightarrow> body res \<times> 'm"
  ms_SaveChunk :: "string \<Rightarrow> byte list \<Rightarrow> nat \<Rightarrow> 'm \<Rightarrow> go_error option \<times> 'm"

text \<open>\<open>settings\<close>: \<^verbatim>\<open>DataDir()\<close>, \<^verbatim>\<open>HasMasters()\<close>, \<^verbatim>\<open>SaveChunks()\<close> of the process.\<close>

record settings =
  st_DataDir :: string
  st_HasMasters :: bool
  st_SaveChunks :: bool

record 'm node =
  nd_disk :: disk
  nd_remote :: 'm

definition CheckLocalChunk :: "settings \<Rightarrow> disk \<Rightarrow> string \<Rightarrow> nat \<Rightarrow> (int \<times> bool) option" where
  "CheckLocalChunk st d hash version =
     Option.bind (GetHashedFilename (st_DataDir st) hash version) (\<lambda>filePath.
       case os_stat d filePath of Inl _ \<Rightarrow> Some (0, False) | Inr sz \<Rightarrow> Some (sz, True))"

definition CheckChunk ::
  "settings \<Rightarrow> 'm master \<Rightarrow> string \<Rightarrow> nat \<Rightarrow> 'm node \<Rightarrow> (chunk_check res \<times> 'm node) option" where
  "CheckChunk st ms hash version nd =
     Option.bind (CheckLocalChunk st (nd_disk nd) hash version) (\<lambda>(sz, exists).
       if st_HasMasters st then
         (case ms_CheckChunk ms hash version (nd_remote nd) of
            (Inl err, m) \<Rightarrow> Some (Inl err, nd\<lparr>nd_remote := m\<rparr>)
          | (Inr check, m) \<Rightarrow>
              Some (Inr \<lparr>cc_Hash = hash,
                         cc_Size = (if cc_Size check \<noteq> sz then cc_Size check else sz),
                         cc_Exists = (exists \<and> cc_Exists check)\<rparr>,
                    nd\<lparr>nd_remote := m\<rparr>))
       else Some (Inr \<lparr>cc_Hash = hash, cc_Size = sz, cc_Exists = exists\<rparr>, nd))"

definition SaveChunk ::
  "settings \<Rightarrow> 'm master \<Rightarrow> string \<Rightarrow> nat \<Rightarrow> body \<Rightarrow> bool \<Rightarrow> 'm node \<Rightarrow> (go_error option \<times> 'm node) option" where
  "SaveChunk st ms hash version data sendToMaster nd =
     Option.bind (GetHashedFilename (st_DataDir st) hash version) (\<lambda>filePath.
       case os_MkdirAll (nd_disk nd) (join_path (butlast (split_path filePath))) of
         (Some err, d) \<Rightarrow> Some (Some err, nd\<lparr>nd_disk := d\<rparr>)
       | (None, d) \<Rightarrow>
          (case os_Create d filePath of
             (Some err, d) \<Rightarrow> Some (Some err, nd\<lparr>nd_disk := d\<rparr>)
           | (None, d) \<Rightarrow>
               let nd1 = nd\<lparr>nd_disk := os_write d filePath (fst data)\<rparr> in
               (case snd data of
                  Some err \<Rightarrow> Some (Some err, nd1)
                | None \<Rightarrow>
                    if st_HasMasters st \<and> sendToMaster then
                      (case ms_SaveChunk ms hash (fst data) version (nd_remote nd1) of
                         (r, m) \<Rightarrow> Some (r, nd1\<lparr>nd_remote := m\<rparr>))
                    else Some (None, nd1))))"

definition GetChunk ::
  "settings \<Rightarrow> 'm master \<Rightarrow> string \<Rightarrow> nat \<Rightarrow> 'm node \<Rightarrow> (reader res \<times> 'm node) option" where
  "GetChunk st ms chunkPath version nd =
     (case os_Open (nd_disk nd) chunkPath of
        Inr reader \<Rightarrow> Some (Inr reader, nd)
      | Inl err \<Rightarrow>
          let hash = fst (GetHashFromPath (st_DataDir st) chunkPath) in
          if err = Not_Exist \<and> st_HasMasters st then
            (case ms_DownloadChunk ms hash version (nd_remote nd) of
               (Inl err, m) \<Rightarrow> Some (Inl err, nd\<lparr>nd_remote := m\<rparr>)
             | (Inr (data, Some err), m) \<Rightarrow> Some (Inl err, nd\<lparr>nd_remote := m\<rparr>)
             | (Inr (data, None), m) \<Rightarrow>
                 let nd1 = nd\<lparr>nd_remote := m\<rparr> in
                 if st_SaveChunks st then
                   (case SaveChunk st ms hash version (data, None) False nd1 of
                      None \<Rightarrow> None
                    | Some (_, nd2) \<Rightarrow> Some (Inr (Mem (NewChunkReaderFromData data)), nd2))
                 else Some (Inr (Mem (NewChunkReaderFromData data)), nd1))
          else Some (Inl err, nd))"

definition GetChunkByHash ::
  "settings \<Rightarrow> 'm master \<Rightarrow> string \<Rightarrow> nat \<Rightarrow> 'm node \<Rightarrow> (reader res \<times> 'm node) option" where
  "GetChunkByHash st ms hash version nd =
     Option.bind (GetHashedFilename (st_DataDir st) hash version) (\<lambda>chunkPath.
       GetChunk st ms chunkPath version nd)"

section \<open>What the operations leave on the disk\<close>

lemma MkdirAll_frame:
  "os_MkdirAll d p = (e, d') \<Longrightarrow> dk_files d' = dk_files d \<and> dk_denied d' = dk_denied d"
  by (auto simp: os_MkdirAll_def split: if_splits)

lemma Create_frame:
  "os_Create d p = (e, d') \<Longrightarrow>
     dk_denied d' = dk_denied d \<and> dk_dirs d' = dk_dirs d \<and>
     (\<forall>q. q \<noteq> p \<longrightarrow> map_of (dk_files d') q = map_of (dk_files d) q) \<and> (e = None \<longrightarrow> p \<notin> set (dk_denied d))"
  by (auto simp: os_Create_def split: if_splits)

lemma write_frame:
  "dk_denied (os_write d p bs) = dk_denied d" "dk_dirs (os_write d p bs) = dk_dirs d"
  "map_of (dk_files (os_write d p bs)) q = (if q = p then Some bs else map_of (dk_files d) q)"
  by (auto simp: os_write_def)

text \<open>Whatever its outcome, \<^verbatim>\<open>SaveChunk\<close> touches one file only.\<close>

lemma SaveChunk_frame:
  assumes "SaveChunk st ms hash v data send nd = Some (r, nd')"
    and "GetHashedFilename (st_DataDir st) hash v = Some p"
  shows "dk_denied (nd_disk nd') = dk_denied (nd_disk nd)"
    and "q \<noteq> p \<Longrightarrow> map_of (dk_files (nd_disk nd')) q = map_of (dk_files (nd_disk nd)) q"
  using assms
  by (auto simp: SaveChunk_def Let_def write_frame split: prod.splits option.splits if_splits
      dest!: MkdirAll_frame Create_frame)

text \<open>A successful save leaves the whole body in the chunk's file.\<close>

lemma SaveChunk_stored:
  assumes "SaveChunk st ms hash v data send nd = Some (None, nd')"
  shows "\<exists>p. GetHashedFilename (st_DataDir st) hash v = Some p \<and> snd data = None
           \<and> map_of (dk_files (nd_disk nd')) p = Some (fst data) \<and> p \<notin> set (dk_denied (nd_disk nd'))"
  using assms
  by (auto simp: SaveChunk_def Let_def write_frame split: prod.splits option.splits if_splits bind_splits
      dest!: MkdirAll_frame Create_frame)

lemma GetChunk_local:
  "map_of (dk_files (nd_disk nd)) p = Some bs \<Longrightarrow> p \<notin> set (dk_denied (nd_disk nd)) \<Longrightarrow>
   GetChunk st ms p v nd = Some (Inr (OsFile (os_open bs)), nd)"
  by (simp add: GetChunk_def os_Open_def)

lemma CheckLocalChunk_stored:
  "GetHashedFilename (st_DataDir st) h v = Some p \<Longrightarrow> map_of (dk_files d) p = Some bs \<Longrightarrow>
   p \<notin> set (dk_denied d) \<Longrightarrow> CheckLocalChunk st d h v = Some (int (length bs), True)"
  by (simp add: CheckLocalChunk_def os_stat_def)

text \<open>What a path holds for a process that may read it.\<close>

definition stored :: "'m node \<Rightarrow> string \<Rightarrow> byte list option" where
  "stored nd p = (if p \<in> set (dk_denied (nd_disk nd)) then None else map_of (dk_files (nd_disk nd)) p)"

lemma GetChunk_stored:
  "stored nd p = Some bs \<Longrightarrow> GetChunk st ms p v nd = Some (Inr (OsFile (os_open bs)), nd)"
  by (auto simp: stored_def GetChunk_local split: if_splits)

lemma CheckLocalChunk_of_stored:
  "GetHashedFilename (st_DataDir st) h v = Some p \<Longrightarrow> stored nd p = Some bs \<Longrightarrow>
   CheckLocalChunk st (nd_disk nd) h v = Some (int (length bs), True)"
  by (auto simp: stored_def CheckLocalChunk_stored split: if_splits)

lemma SaveChunk_ok_stored:
  assumes "SaveChunk st ms h v data send nd = Some (None, nd')"
  shows "\<exists>p. GetHashedFilename (st_DataDir st) h v = Some p \<and> stored nd' p = Some (fst data)"
  using SaveChunk_stored [OF assms] by (auto simp: stored_def)

lemma SaveChunk_other_stored:
  assumes "SaveChunk st ms h v data send nd = Some (r, nd')"
    and "GetHashedFilename (st_DataDir st) h v = Some p" and "q \<noteq> p"
  shows "stored nd' q = stored nd q"
  using SaveChunk_frame [OF assms(1,2)] assms(3) by (simp add: stored_def)

text \<open>A path can be saved to when nothing on the way to it is refused or is a file.\<close>

definition writable :: "disk \<Rightarrow> string \<Rightarrow> bool" where
  "writable d p \<longleftrightarrow> parent_dir p \<noteq> [] \<and> p \<notin> set (dk_denied d) \<and> p \<notin> set (dk_dirs d)
     \<and> p \<notin> set (dir_prefixes (parent_dir p))
     \<and> (\<forall>q \<in> set (dir_prefixes (parent_dir p)). q \<notin> set (dk_denied d) \<and> map_of (dk_files d) q = None)"

lemma dir_prefixes_self:
  assumes "p \<noteq> []"
  shows "p \<in> set (dir_prefixes p)"
proof -
  obtain n where n: "length (split_path p) = Suc n" by (cases "split_path p") auto
  then have "join_path (take (Suc n) (split_path p)) = p" by (simp add: path_simps)
  then show ?thesis using assms unfolding dir_prefixes_def n
    by (auto intro!: rev_image_eqI [of n])
qed

lemma SaveChunk_writable:
  assumes "GetHashedFilename (st_DataDir st) h v = Some p" and "writable (nd_disk nd) p"
    and "\<not> (st_HasMasters st \<and> send)"
  shows "\<exists>nd'. SaveChunk st ms h v (bs, None) send nd = Some (None, nd') \<and> nd_remote nd' = nd_remote nd"
  using assms dir_prefixes_self [of "parent_dir p"]
  by (auto simp: SaveChunk_def writable_def os_MkdirAll_def os_Create_def parent_dir_def Let_def
      split: prod.splits option.splits)

section \<open>Properties\<close>


text \<open>C27: a server with a master that does not hold a chunk asks the master for it, answers the bytes
  that the master sent, and keeps them: the next request for the chunk is answered from the
  local file with the same bytes and without another call (the state of the master stays).\<close>

theorem fetch_from_master_is_cached:
  assumes "good_hash h" and "v \<le> 2" and "GetHashedFilename (st_DataDir st) h v = Some p"
    and "writable (nd_disk nd) p" and "map_of (dk_files (nd_disk nd)) p = None"
    and "st_HasMasters st" and "st_SaveChunks st"
    and "ms_DownloadChunk ms h v (nd_remote nd) = (Inr (bs, None), m)"
  shows "\<exists>nd'. GetChunkByHash st ms h v nd = Some (Inr (Mem (NewChunkReaderFromData bs)), nd')
           \<and> nd_remote nd' = m
           \<and> GetChunkByHash st ms h v nd' = Some (Inr (OsFile (os_open bs)), nd')"
proof -
  have open_fails: "os_Open (nd_disk nd) p = Inl Not_Exist"
    using assms(4,5) by (simp add: os_Open_def writable_def)
  have hash: "fst (GetHashFromPath (st_DataDir st) p) = h"
    using hashed_filename_inverse [OF assms(1-3)] by simp
  obtain nd' where s: "SaveChunk st ms h v (bs, None) False (nd\<lparr>nd_remote := m\<rparr>) = Some (None, nd')"
    and m: "nd_remote nd' = m"
    using SaveChunk_writable [OF assms(3), of "nd\<lparr>nd_remote := m\<rparr>" False ms bs] assms(4) by auto
  have "stored nd' p = Some bs"
    using SaveChunk_ok_stored [OF s] assms(3) by auto
  then show ?thesis
    using open_fails hash s m assms(3,6-8) GetChunk_stored
    by (auto simp: GetChunkByHash_def GetChunk_def Let_def)
qed

text \<open>\<^verbatim>\<open>CheckChunk\<close> on a server with a master reports the size and presence on the master, for
  a chunk that is stored locally with whatever size; the bytes that a download gets are still
  the local ones. A chunk that is truncated locally is therefore reported whole.\<close>

theorem check_takes_the_master_size:
  assumes "GetHashedFilename (st_DataDir st) h v = Some p" and "stored nd p = Some bs"
    and "st_HasMasters st" and "ms_CheckChunk ms h v (nd_remote nd) = (Inr check, m)"
  shows "\<exists>nd'. CheckChunk st ms h v nd =
               Some (Inr \<lparr>cc_Hash = h, cc_Size = cc_Size check, cc_Exists = cc_Exists check\<rparr>, nd')
           \<and> GetChunkByHash st ms h v nd' = Some (Inr (OsFile (os_open bs)), nd')"
proof -
  have "stored (nd\<lparr>nd_remote := m\<rparr>) p = Some bs" using assms(2) by (simp add: stored_def split: if_splits)
  then show ?thesis
    using assms(1,3,4) CheckLocalChunk_of_stored [OF assms(1,2)] GetChunk_stored
    by (fastforce simp: CheckChunk_def GetChunkByHash_def)
qed

section \<open>Witnesses\<close>

text \<open>A slave with an empty store, and a master that serves three bytes for every hash.\<close>

definition slave_settings :: settings where
  "slave_settings = \<lparr>st_DataDir = ''/d'', st_HasMasters = True, st_SaveChunks = True\<rparr>"

definition slave_node :: "nat node" where
  "slave_node = \<lparr>nd_disk = \<lparr>dk_files = [(''/d/11/11/old'', [9])], dk_dirs = [''/d''], dk_denied = []\<rparr>, nd_remote = 0\<rparr>"

definition three_bytes_master :: "nat master" where
  "three_bytes_master =
     \<lparr>ms_CheckChunk = \<lambda>h v m. (Inr \<lparr>cc_Hash = h, cc_Size = 3, cc_Exists = True\<rparr>, Suc m),
      ms_DownloadChunk = \<lambda>h v m. (Inr ([7, 8, 9], None), Suc m),
      ms_SaveChunk = \<lambda>h d v m. (None, Suc m)\<rparr>"

definition saved_node :: "nat node" where
  "saved_node = \<lparr>nd_disk = \<lparr>dk_files = [(''/d/11/11/old'', [9]), (''/d/aa/bb/ccdd'', [1, 2])],
                            dk_dirs = [''/d/aa'', ''/d/aa/bb'', ''/d''], dk_denied = []\<rparr>, nd_remote = 1\<rparr>"

lemma slave_saves:
  "SaveChunk slave_settings three_bytes_master ''aabbccdd'' 2 ([1, 2], None) True slave_node = Some (None, saved_node)"
  by code_simp


theorem fetch_from_master_is_cached_witness:
  "\<exists>nd'. GetChunkByHash slave_settings three_bytes_master ''aabbccdd'' 2 slave_node
           = Some (Inr (Mem (NewChunkReaderFromData [7, 8, 9])), nd') \<and> nd_remote nd' = 1
       \<and> GetChunkByHash slave_settings three_bytes_master ''aabbccdd'' 2 nd' = Some (Inr (OsFile (os_open [7, 8, 9])), nd')"
proof (rule fetch_from_master_is_cached)
  show "good_hash ''aabbccdd''" "writable (nd_disk slave_node) ''/d/aa/bb/ccdd''"
    "GetHashedFilename (st_DataDir slave_settings) ''aabbccdd'' 2 = Some ''/d/aa/bb/ccdd''"
    "map_of (dk_files (nd_disk slave_node)) ''/d/aa/bb/ccdd'' = None"
    by code_simp+
qed (simp_all add: slave_settings_def three_bytes_master_def slave_node_def)

theorem check_takes_the_master_size_witness:
  "\<exists>nd'. CheckChunk slave_settings three_bytes_master ''aabbccdd'' 2 saved_node
           = Some (Inr \<lparr>cc_Hash = ''aabbccdd'', cc_Size = 3, cc_Exists = True\<rparr>, nd')
       \<and> GetChunkByHash slave_settings three_bytes_master ''aabbccdd'' 2 nd' = Some (Inr (OsFile (os_open [1, 2])), nd')"
proof -
  have s: "GetHashedFilename (st_DataDir slave_settings) ''aabbccdd'' 2 = Some ''/d/aa/bb/ccdd''"
    "stored saved_node ''/d/aa/bb/ccdd'' = Some [1, 2]" by code_simp+
  show ?thesis
    using check_takes_the_master_size [OF s, of three_bytes_master "\<lparr>cc_Hash = ''aabbccdd'', cc_Size = 3, cc_Exists = True\<rparr>"]
    by (simp add: three_bytes_master_def slave_settings_def)
qed

end
