(* ===== verification/ChunkedFile.thy ===== *)
theory ChunkedFile
  imports ChunkStore
begin

text \<open>
  \<^verbatim>\<open>ChunkedFile\<close> of \<^verbatim>\<open>pkg/io/chunked_file.go\<close>: a file as a sequence of chunks, read and
  positioned through the reader of the current chunk. Opening a chunk is a call
  \<open>fetch path version\<close> on a state \<open>'w\<close> (the node, or the remote server behind gRPC).
\<close>

section \<open>State\<close>

record chunk =
  ck_Path :: string
  ck_Size :: int
  ck_Version :: nat

record chunked_file =
  cf_reader :: "reader option"
  cf_Chunks :: "chunk list"
  cf_Name :: string
  cf_Size :: int
  cf_Mode :: nat
  cf_Dir :: bool
  cf_ModTime :: int
  cf_currentChunk :: nat
  cf_offset :: int
  cf_chunkOffset :: int

type_synonym 'w fetch = "string \<Rightarrow> nat \<Rightarrow> 'w \<Rightarrow> (reader res \<times> 'w) option"

definition new_file :: "chunk list \<Rightarrow> string \<Rightarrow> int \<Rightarrow> nat \<Rightarrow> bool \<Rightarrow> int \<Rightarrow> chunked_file" where
  "new_file chunks name sz mode dir modtime =
     \<lparr>cf_reader = None, cf_Chunks = chunks, cf_Name = name, cf_Size = sz, cf_Mode = mode,
      cf_Dir = dir, cf_ModTime = modtime, cf_currentChunk = 0, cf_offset = 0, cf_chunkOffset = 0\<rparr>"

definition ChunkedFile_Close :: "chunked_file \<Rightarrow> chunked_file" where
  "ChunkedFile_Close f = f\<lparr>cf_reader := map_option reader_close (cf_reader f)\<rparr>"

definition ChunkedFile_Clone :: "chunked_file \<Rightarrow> chunked_file" where
  "ChunkedFile_Clone f =
     new_file (cf_Chunks f) (cf_Name f) (cf_Size f) (cf_Mode f) (cf_Dir f) (cf_ModTime f)"

text \<open>\<open>grpc\<close> is \<^verbatim>\<open>GrpcClient.GetChunk\<close>, \<open>get\<close> is \<^verbatim>\<open>GetChunk\<close>.\<close>

definition getChunkReader ::
  "bool \<Rightarrow> 'w fetch \<Rightarrow> (string \<Rightarrow> nat \<Rightarrow> 'w \<Rightarrow> byte list res \<times> 'w) \<Rightarrow> 'w fetch" where
  "getChunkReader useGrpc get grpc chunkPath version w =
     (if \<not> useGrpc then get chunkPath version w
      else case grpc chunkPath version w of
             (Inl err, w') \<Rightarrow> Some (Inl err, w')
           | (Inr bts, w') \<Rightarrow> Some (Inr (Mem (NewChunkReaderFromData bts)), w'))"

section \<open>Reading\<close>

lemma reader_read_progress:
  "reader_read r n = Some (bs, None, r') \<Longrightarrow> 0 < n \<Longrightarrow> bs \<noteq> []"
  by (cases r) (auto simp: os_read_def ChunkReader_Read_def Let_def wrap64_def split: if_splits)

text \<open>
  The loop of \<^verbatim>\<open>Read\<close>: \<open>n\<close> bytes of the buffer are left, \<open>acc\<close> is what was read. The local
  variable \<^verbatim>\<open>chunk\<close> always equals \<^verbatim>\<open>f.currentChunk\<close>, so the chunk offset always advances.
\<close>

function read_loop ::
  "'w fetch \<Rightarrow> nat \<Rightarrow> byte list \<Rightarrow> chunked_file \<Rightarrow> 'w \<Rightarrow>
   ((byte list \<times> go_error option) \<times> chunked_file \<times> 'w) option" where
  "read_loop fetch n acc f w =
     (case cf_reader f of
        None \<Rightarrow> None
      | Some rd \<Rightarrow>
         (case reader_read rd n of
            None \<Rightarrow> None
          | Some (bs, err, rd') \<Rightarrow>
              (let f1 = f\<lparr>cf_reader := Some rd', cf_chunkOffset := wrap64 (cf_chunkOffset f + int (length bs))\<rparr>
               in if err = None \<and> length bs < n then read_loop fetch (n - length bs) (acc @ bs) f1 w
                  else if err = Some Io_EOF \<and> Suc (cf_currentChunk f) < length (cf_Chunks f) \<and> length bs < n then
                    (let f2 = f1\<lparr>cf_currentChunk := Suc (cf_currentChunk f), cf_chunkOffset := 0\<rparr>;
                         c = cf_Chunks f ! Suc (cf_currentChunk f)
                     in case fetch (ck_Path c) (ck_Version c) w of
                          None \<Rightarrow> None
                        | Some (Inl _, w') \<Rightarrow> Some ((acc @ bs, Some Io_EOF), f2\<lparr>cf_reader := None\<rparr>, w')
                        | Some (Inr rd2, w') \<Rightarrow>
                            read_loop fetch (n - length bs) (acc @ bs) (f2\<lparr>cf_reader := Some rd2\<rparr>) w')
                  else if err = Some Io_EOF \<and> length (cf_Chunks f) \<le> Suc (cf_currentChunk f) then
                    Some ((acc @ bs, Some Io_EOF),
                          f1\<lparr>cf_currentChunk := 0, cf_chunkOffset := 0, cf_reader := None\<rparr>, w)
                  else Some ((acc @ bs, err), f1, w))))"
  by pat_completeness auto
termination
  by (relation "measure (\<lambda>(fetch, n, acc, f, w). n + (length (cf_Chunks f) - cf_currentChunk f))")
     (auto dest: reader_read_progress)

declare read_loop.simps [simp del]

definition ChunkedFile_Read ::
  "'w fetch \<Rightarrow> chunked_file \<Rightarrow> nat \<Rightarrow> 'w \<Rightarrow> ((byte list \<times> go_error option) \<times> chunked_file \<times> 'w) option" where
  "ChunkedFile_Read fetch f n w =
     (case cf_reader f of
        Some rd \<Rightarrow> read_loop fetch n [] (f\<lparr>cf_reader := Some (reader_seek rd (cf_chunkOffset f))\<rparr>) w
      | None \<Rightarrow>
          if cf_Chunks f = [] then Some (([], Some Io_EOF), f, w)
          else if length (cf_Chunks f) \<le> cf_currentChunk f then None
          else let c = cf_Chunks f ! cf_currentChunk f in
            (case fetch (ck_Path c) (ck_Version c) w of
               None \<Rightarrow> None
             | Some (Inl _, w') \<Rightarrow> Some (([], Some Io_EOF), f, w')
             | Some (Inr rd, w') \<Rightarrow>
                 read_loop fetch n [] (f\<lparr>cf_reader := Some (reader_seek rd (cf_chunkOffset f))\<rparr>) w'))"

section \<open>Positioning\<close>

definition SeekStart :: int where "SeekStart = 0"
definition SeekCurrent :: int where "SeekCurrent = 1"
definition SeekEnd :: int where "SeekEnd = 2"

text \<open>The chunk that holds an offset, with the offset inside it.\<close>

fun seek_scan :: "int \<Rightarrow> nat \<Rightarrow> chunk list \<Rightarrow> (nat \<times> int) option" where
  "seek_scan ofs i [] = None"
| "seek_scan ofs i (ch # chs) =
     (if wrap64 (ofs - ck_Size ch) < 0 then Some (i, ofs)
      else seek_scan (wrap64 (ofs - ck_Size ch)) (Suc i) chs)"

definition ChunkedFile_Seek :: "chunked_file \<Rightarrow> int \<Rightarrow> int \<Rightarrow> int res \<times> chunked_file" where
  "ChunkedFile_Seek f offset whence =
     (if (whence = SeekStart \<and> cf_Size f < offset) \<or> (whence = SeekEnd \<and> 0 < offset) then
        (Inl (Errorf (''offset '' @ show_int offset @ '' more than Size of the file'')), f)
      else if whence = SeekStart \<and> offset < 0 then
        (Inl (Errorf ''seek before the start of the file''), f)
      else
        let absoluteOffset =
              (if whence = SeekStart then offset
               else if whence = SeekCurrent then wrap64 (cf_offset f + offset)
               else if whence = SeekEnd then wrap64 (cf_Size f - offset)
               else 0);
            prev = cf_currentChunk f;
            f1 = (case seek_scan absoluteOffset 0 (cf_Chunks f) of
                    None \<Rightarrow> f
                  | Some (i, ofs) \<Rightarrow> f\<lparr>cf_currentChunk := i, cf_chunkOffset := ofs\<rparr>);
            f2 = f1\<lparr>cf_offset := absoluteOffset\<rparr>
        in (Inr absoluteOffset,
            if cf_reader f2 \<noteq> None \<and> prev \<noteq> cf_currentChunk f2 then f2\<lparr>cf_reader := None\<rparr> else f2))"

definition SeekAndRead ::
  "'w fetch \<Rightarrow> chunked_file \<Rightarrow> nat \<Rightarrow> int \<Rightarrow> 'w \<Rightarrow>
   ((byte list \<times> go_error option) \<times> chunked_file \<times> 'w) option" where
  "SeekAndRead fetch f n offset w =
     (case ChunkedFile_Seek f offset SeekStart of
        (Inl err, f1) \<Rightarrow> Some (([], Some err), f1, w)
      | (Inr _, f1) \<Rightarrow> ChunkedFile_Read fetch f1 n w)"

text \<open>A sequence of reads at given lengths and offsets, as the lock of \<^verbatim>\<open>SeekAndRead\<close> serialises them.\<close>

fun reads ::
  "'w fetch \<Rightarrow> chunked_file \<Rightarrow> (nat \<times> int) list \<Rightarrow> 'w \<Rightarrow> (byte list \<times> go_error option) list option" where
  "reads fetch f [] w = Some []"
| "reads fetch f ((n, off) # rs) w =
     (case SeekAndRead fetch f n off w of
        None \<Rightarrow> None
      | Some (out, f', w') \<Rightarrow> map_option (\<lambda>outs. out # outs) (reads fetch f' rs w'))"

section \<open>The contract of a source of chunks\<close>

text \<open>
  \<open>avail w p v\<close> is the data that chunk path \<open>p\<close> of version \<open>v\<close> stands for. Fetching an
  available chunk gives a fresh reader over its data and loses nothing that was available.
\<close>

locale chunk_source =
  fixes fetch :: "'w fetch"
    and avail :: "'w \<Rightarrow> string \<Rightarrow> nat \<Rightarrow> byte list option"
  assumes fetch_avail: "avail w p v = Some d \<Longrightarrow>
      \<exists>r w'. fetch p v w = Some (Inr r, w') \<and> reader_data r = d \<and> reader_pos r = 0 \<and> reader_open r"
    and fetch_keeps: "fetch p v w = Some (x, w') \<Longrightarrow> avail w q u = Some b \<Longrightarrow> avail w' q u = Some b"
begin

definition chunk_data :: "'w \<Rightarrow> chunk \<Rightarrow> byte list" where
  "chunk_data w c = (case avail w (ck_Path c) (ck_Version c) of Some d \<Rightarrow> d | None \<Rightarrow> [])"

definition file_content :: "'w \<Rightarrow> chunked_file \<Rightarrow> byte list" where
  "file_content w f = concat (map (chunk_data w) (cf_Chunks f))"

text \<open>Every chunk is available with the size the file records, and the whole fits in memory.\<close>

definition file_ok :: "'w \<Rightarrow> chunked_file \<Rightarrow> bool" where
  "file_ok w f \<longleftrightarrow>
     (\<forall>c \<in> set (cf_Chunks f). avail w (ck_Path c) (ck_Version c) \<noteq> None
                           \<and> ck_Size c = int (length (chunk_data w c)))
     \<and> int (length (file_content w f)) < 2 ^ 62"

text \<open>The position is inside the current chunk and an open reader is one over that chunk.\<close>

definition file_inv :: "'w \<Rightarrow> chunked_file \<Rightarrow> bool" where
  "file_inv w f \<longleftrightarrow>
     (cf_Chunks f \<noteq> [] \<longrightarrow> cf_currentChunk f < length (cf_Chunks f)
        \<and> 0 \<le> cf_chunkOffset f
        \<and> cf_chunkOffset f \<le> int (length (chunk_data w (cf_Chunks f ! cf_currentChunk f))))
     \<and> (case cf_reader f of None \<Rightarrow> True
        | Some r \<Rightarrow> cf_Chunks f \<noteq> [] \<and> reader_open r
                   \<and> reader_data r = chunk_data w (cf_Chunks f ! cf_currentChunk f))"

text \<open>What is left to read from the current position.\<close>

definition file_rest :: "'w \<Rightarrow> chunked_file \<Rightarrow> byte list" where
  "file_rest w f =
     (if cf_Chunks f = [] then []
      else drop (nat (cf_chunkOffset f)) (chunk_data w (cf_Chunks f ! cf_currentChunk f))
           @ concat (map (chunk_data w) (drop (Suc (cf_currentChunk f)) (cf_Chunks f))))"

lemma chunk_data_keeps:
  assumes "fetch p v w = Some (x, w')" and "file_ok w f" and "c \<in> set (cf_Chunks f)"
  shows "chunk_data w' c = chunk_data w c" and "avail w' (ck_Path c) (ck_Version c) \<noteq> None"
proof -
  from assms(2,3) obtain d where "avail w (ck_Path c) (ck_Version c) = Some d"
    by (auto simp: file_ok_def)
  moreover from fetch_keeps [OF assms(1) this] have "avail w' (ck_Path c) (ck_Version c) = Some d" .
  ultimately show "chunk_data w' c = chunk_data w c" and "avail w' (ck_Path c) (ck_Version c) \<noteq> None"
    by (auto simp: chunk_data_def)
qed

lemma file_ok_keeps:
  assumes "fetch p v w = Some (x, w')" and "file_ok w f"
  shows "file_ok w' f" and "file_content w' f = file_content w f"
proof -
  note k = chunk_data_keeps [OF assms]
  have m: "map (chunk_data w') (cf_Chunks f) = map (chunk_data w) (cf_Chunks f)"
    using k(1) by simp
  then show c: "file_content w' f = file_content w f" by (simp only: file_content_def m)
  show "file_ok w' f" using assms(2) k c by (auto simp: file_ok_def)
qed

lemma file_rest_keeps:
  assumes "fetch p v w = Some (x, w')" and "file_ok w f" and "cf_currentChunk f < length (cf_Chunks f)"
  shows "file_rest w' f = file_rest w f"
proof -
  note k = chunk_data_keeps(1) [OF assms(1,2)]
  have m: "map (chunk_data w') (drop (Suc (cf_currentChunk f)) (cf_Chunks f))
      = map (chunk_data w) (drop (Suc (cf_currentChunk f)) (cf_Chunks f))"
    using k by (auto dest: in_set_dropD)
  show ?thesis using k [of "cf_Chunks f ! cf_currentChunk f"] assms(3)
    by (simp only: file_rest_def m nth_mem)
qed

lemma file_ok_chunk:
  assumes "file_ok w f" and "i < length (cf_Chunks f)"
  shows "int (length (chunk_data w (cf_Chunks f ! i))) < 2 ^ 62"
    and "ck_Size (cf_Chunks f ! i) = int (length (chunk_data w (cf_Chunks f ! i)))"
    and "\<exists>d. avail w (ck_Path (cf_Chunks f ! i)) (ck_Version (cf_Chunks f ! i)) = Some d"
proof -
  have "length (chunk_data w (cf_Chunks f ! i)) \<le> length (file_content w f)"
    using length_concat_map_ge [of "cf_Chunks f ! i" "cf_Chunks f" "chunk_data w"] assms(2)
    by (simp add: file_content_def)
  then show "int (length (chunk_data w (cf_Chunks f ! i))) < 2 ^ 62"
    using assms(1) by (simp add: file_ok_def)
qed (use assms in \<open>auto simp: file_ok_def\<close>)

text \<open>
  One run of the loop from a reader placed at the chunk offset: the bytes that are left, up
  to the length of the buffer, with \<^verbatim>\<open>EOF\<close> exactly when they do not fill it.
\<close>

lemma read_loop_rest:
  assumes "file_ok w f" and "file_inv w f" and "cf_reader f = Some r"
    and "reader_pos r = cf_chunkOffset f" and "0 < n" and "int n < 2 ^ 62"
  shows "\<exists>f' w'. read_loop fetch n acc f w =
            Some ((acc @ take n (file_rest w f),
                   if length (file_rest w f) < n then Some Io_EOF else None), f', w')
          \<and> file_ok w' f' \<and> file_inv w' f' \<and> cf_Chunks f' = cf_Chunks f \<and> cf_Size f' = cf_Size f
          \<and> file_content w' f' = file_content w f
          \<and> (n \<le> length (file_rest w f) \<longrightarrow> file_rest w' f' = drop n (file_rest w f))"
  using assms
proof (induction "n + (length (cf_Chunks f) - cf_currentChunk f)" arbitrary: n acc f w r rule: less_induct)
  case less
  let ?c = "cf_Chunks f ! cf_currentChunk f"
  have ne: "cf_Chunks f \<noteq> []" and cur: "cf_currentChunk f < length (cf_Chunks f)"
    and off: "0 \<le> cf_chunkOffset f" "cf_chunkOffset f \<le> int (length (chunk_data w ?c))"
    and ro: "reader_open r" and rd: "reader_data r = chunk_data w ?c"
    using less.prems(2,3) by (auto simp: file_inv_def)
  note ck = file_ok_chunk [OF less.prems(1) cur]
  have ok: "reader_ok r"
    using ro rd off ck(1) less.prems(4) by (simp add: reader_ok_def)
  let ?left = "reader_left r"
  let ?tail = "concat (map (chunk_data w) (drop (Suc (cf_currentChunk f)) (cf_Chunks f)))"
  have left: "?left = drop (nat (cf_chunkOffset f)) (chunk_data w ?c)"
    by (simp add: reader_left_def rd less.prems(4))
  have rest: "file_rest w f = ?left @ ?tail"
    using ne by (simp add: file_rest_def left)
  obtain r' where rr: "reader_read r n = Some (take n ?left, if ?left = [] then Some Io_EOF else None, r')"
    and pos: "reader_pos r' = reader_pos r + int (length (take n ?left))"
    and dat: "reader_data r' = reader_data r" and op: "reader_open r'"
    using reader_read_ok [OF ok less.prems(5,6)] by blast
  let ?bs = "take n ?left"
  have len_left: "int (length ?left) = int (length (chunk_data w ?c)) - cf_chunkOffset f"
    using off by (simp add: left)
  have inc: "wrap64 (cf_chunkOffset f + int (length ?bs)) = cf_chunkOffset f + int (length ?bs)"
    using off ck(1) len_left by (intro wrap64_id) (simp add: in64_def)
  let ?f1 = "f\<lparr>cf_reader := Some r', cf_chunkOffset := cf_chunkOffset f + int (length ?bs)\<rparr>"
  have f1: "file_ok w ?f1" "file_inv w ?f1" "file_content w ?f1 = file_content w f"
    using less.prems(1,2) ne cur off len_left op dat rd
    by (auto simp: file_ok_def file_inv_def file_content_def)
  have rest1: "file_rest w ?f1 = drop (length ?bs) ?left @ ?tail"
    using ne off by (simp add: file_rest_def left nat_add_distrib add.commute)
  show ?case
  proof (cases "?left = []")
    case False
    show ?thesis
    proof (cases "length ?left < n")
      case True
      have pos1: "0 < n - length ?bs" "int (n - length ?bs) < 2 ^ 62"
        using True less.prems(5,6) by auto
      have dec: "n - length ?bs + (length (cf_Chunks ?f1) - cf_currentChunk ?f1)
          < n + (length (cf_Chunks f) - cf_currentChunk f)" using False less.prems(5) by simp
      have "reader_pos r' = cf_chunkOffset ?f1" using pos less.prems(4) by simp
      from less.hyps [OF dec f1(1,2) _ this pos1, of "acc @ ?bs"] obtain f' w' where
        ih: "read_loop fetch (n - length ?bs) (acc @ ?bs) ?f1 w =
            Some (((acc @ ?bs) @ take (n - length ?bs) (file_rest w ?f1),
                   if length (file_rest w ?f1) < n - length ?bs then Some Io_EOF else None), f', w')"
          and ih2: "file_ok w' f' \<and> file_inv w' f' \<and> cf_Chunks f' = cf_Chunks f \<and> cf_Size f' = cf_Size f
          \<and> file_content w' f' = file_content w f
          \<and> (n - length ?bs \<le> length (file_rest w ?f1) \<longrightarrow> file_rest w' f' = drop (n - length ?bs) (file_rest w ?f1))"
        using f1(3) by auto
      have "read_loop fetch n acc f w = read_loop fetch (n - length ?bs) (acc @ ?bs) ?f1 w"
        using less.prems(3) rr False True inc by (subst read_loop.simps) (simp add: Let_def)
      moreover have rest1': "file_rest w ?f1 = ?tail"
        using True by (subst rest1) simp
      ultimately show ?thesis using ih [unfolded rest1'] ih2 [unfolded rest1'] True
        by (auto simp: rest less_diff_conv le_diff_conv2)
    next
      case enough: False
      have "read_loop fetch n acc f w = Some ((acc @ ?bs, None), ?f1, w)"
        using less.prems(3) rr False enough inc by (subst read_loop.simps) (simp add: Let_def)
      moreover have "file_rest w ?f1 = drop n (file_rest w f)"
        using enough by (subst rest1) (simp add: rest)
      ultimately show ?thesis using f1 enough
        by (auto simp: rest)
    qed
  next
    case True
    show ?thesis
    proof (cases "Suc (cf_currentChunk f) < length (cf_Chunks f)")
      case False
      let ?f2 = "?f1\<lparr>cf_currentChunk := 0, cf_chunkOffset := 0, cf_reader := None\<rparr>"
      have "read_loop fetch n acc f w = Some ((acc, Some Io_EOF), ?f2, w)"
        using less.prems(3,5) rr True False inc by (subst read_loop.simps) (simp add: Let_def)
      moreover have "file_rest w f = []" using True False by (simp add: rest)
      moreover have "file_ok w ?f2" "file_inv w ?f2" "file_content w ?f2 = file_content w f"
        using f1 ne by (auto simp: file_ok_def file_inv_def file_content_def)
      ultimately show ?thesis using less.prems(5) by auto
    next
      case more: True
      let ?c2 = "cf_Chunks f ! Suc (cf_currentChunk f)"
      note ck2 = file_ok_chunk [OF less.prems(1) more]
      obtain d where d: "avail w (ck_Path ?c2) (ck_Version ?c2) = Some d" using ck2(3) by blast
      then have cd: "chunk_data w ?c2 = d" by (simp add: chunk_data_def)
      obtain r2 w2 where ft: "fetch (ck_Path ?c2) (ck_Version ?c2) w = Some (Inr r2, w2)"
        and r2: "reader_data r2 = d" "reader_pos r2 = 0" "reader_open r2"
        using fetch_avail [OF d] by blast
      let ?f3 = "f\<lparr>cf_currentChunk := Suc (cf_currentChunk f), cf_chunkOffset := 0, cf_reader := Some r2\<rparr>"
      have w2ok: "file_ok w2 f" "file_content w2 f = file_content w f"
        using file_ok_keeps [OF ft less.prems(1)] .
      have cd2: "chunk_data w2 ?c2 = d"
        using chunk_data_keeps(1) [OF ft less.prems(1)] more cd by simp
      have f3: "file_ok w2 ?f3" "file_inv w2 ?f3" "file_content w2 ?f3 = file_content w f"
        using w2ok ne more r2 cd2 by (auto simp: file_ok_def file_inv_def file_content_def)
      have g: "file_ok w ?f3" using less.prems(1) by (simp add: file_ok_def file_content_def)
      have "file_rest w2 ?f3 = file_rest w ?f3"
        by (rule file_rest_keeps [OF ft g]) (use more in simp)
      also have "\<dots> = ?tail"
        using more ne by (simp add: file_rest_def Cons_nth_drop_Suc [OF more, symmetric])
      also have "\<dots> = file_rest w f"
        using True by (simp add: rest)
      finally have rest3: "file_rest w2 ?f3 = file_rest w f" .
      have dec: "n + (length (cf_Chunks ?f3) - cf_currentChunk ?f3) < n + (length (cf_Chunks f) - cf_currentChunk f)"
        using more by simp
      have "read_loop fetch n acc f w = read_loop fetch n acc ?f3 w2"
        using less.prems(3,5) rr True more ft by (subst read_loop.simps) (simp add: Let_def)
      then show ?thesis
        using less.hyps [OF dec f3(1,2) _ _ less.prems(5,6), of r2 acc] r2(2) f3(3) rest3 by simp
    qed
  qed
qed

lemma reader_seek_facts:
  "reader_open r \<Longrightarrow> 0 \<le> off \<Longrightarrow> reader_open (reader_seek r off) \<and> reader_pos (reader_seek r off) = off
     \<and> reader_data (reader_seek r off) = reader_data r"
  by (cases r) (auto simp: os_seek_def ChunkReader_Seek_def)

lemma Read_rest:
  assumes "file_ok w f" and "file_inv w f" and "0 < n" and "int n < 2 ^ 62"
  shows "\<exists>f' w'. ChunkedFile_Read fetch f n w =
            Some ((take n (file_rest w f),
                   if length (file_rest w f) < n then Some Io_EOF else None), f', w')
          \<and> file_ok w' f' \<and> file_inv w' f' \<and> cf_Chunks f' = cf_Chunks f \<and> cf_Size f' = cf_Size f
          \<and> file_content w' f' = file_content w f
          \<and> (n \<le> length (file_rest w f) \<longrightarrow> file_rest w' f' = drop n (file_rest w f))"
proof (cases "cf_reader f")
  case (Some r)
  then have ne: "cf_Chunks f \<noteq> []" and off: "0 \<le> cf_chunkOffset f" and op: "reader_open r"
    using assms(2) by (auto simp: file_inv_def)
  let ?g = "f\<lparr>cf_reader := Some (reader_seek r (cf_chunkOffset f))\<rparr>"
  have g: "file_ok w ?g" "file_inv w ?g" "file_rest w ?g = file_rest w f" "file_content w ?g = file_content w f"
    using assms(1,2) Some reader_seek_facts [OF op off]
    by (auto simp: file_ok_def file_inv_def file_rest_def file_content_def)
  show ?thesis
    using read_loop_rest [OF g(1,2) _ _ assms(3,4), of "reader_seek r (cf_chunkOffset f)" "[]"]
      reader_seek_facts [OF op off] g(3,4) Some
    by (simp add: ChunkedFile_Read_def)
next
  case None
  show ?thesis
  proof (cases "cf_Chunks f = []")
    case True
    then show ?thesis using None assms by (simp add: ChunkedFile_Read_def file_rest_def)
  next
    case False
    then have cur: "cf_currentChunk f < length (cf_Chunks f)" and off: "0 \<le> cf_chunkOffset f"
      using assms(2) by (auto simp: file_inv_def)
    let ?c = "cf_Chunks f ! cf_currentChunk f"
    obtain d where d: "avail w (ck_Path ?c) (ck_Version ?c) = Some d"
      using file_ok_chunk(3) [OF assms(1) cur] by blast
    then have cd: "chunk_data w ?c = d" by (simp add: chunk_data_def)
    obtain r w1 where ft: "fetch (ck_Path ?c) (ck_Version ?c) w = Some (Inr r, w1)"
      and r: "reader_data r = d" "reader_open r" using fetch_avail [OF d] by blast
    let ?g = "f\<lparr>cf_reader := Some (reader_seek r (cf_chunkOffset f))\<rparr>"
    have w1: "file_ok w1 f" "file_content w1 f = file_content w f" "file_rest w1 f = file_rest w f"
      using file_ok_keeps [OF ft assms(1)] file_rest_keeps [OF ft assms(1) cur] by auto
    have cd1: "chunk_data w1 ?c = d" using chunk_data_keeps(1) [OF ft assms(1)] cur cd by simp
    have g: "file_ok w1 ?g" "file_inv w1 ?g" "file_rest w1 ?g = file_rest w f"
      "file_content w1 ?g = file_content w f"
      using w1 assms(2) False r cd cd1 reader_seek_facts [OF r(2) off]
      by (auto simp: file_ok_def file_inv_def file_rest_def file_content_def)
    show ?thesis
      using read_loop_rest [OF g(1,2) _ _ assms(3,4), of "reader_seek r (cf_chunkOffset f)" "[]"]
        reader_seek_facts [OF r(2) off] g(3,4) None False cur ft
      by (simp add: ChunkedFile_Read_def)
  qed
qed

text \<open>Scanning finds the chunk of an offset: what is left from there is the content from there.\<close>

lemma seek_scan_finds:
  assumes "\<forall>c \<in> set cs. ck_Size c = int (length (chunk_data w c))"
    and "0 \<le> ofs" and "ofs < int (length (concat (map (chunk_data w) cs)))"
    and "int (length (concat (map (chunk_data w) cs))) < 2 ^ 62"
  shows "\<exists>j o'. seek_scan ofs i cs = Some (i + j, o') \<and> j < length cs \<and> 0 \<le> o'
           \<and> o' \<le> int (length (chunk_data w (cs ! j)))
           \<and> drop (nat o') (chunk_data w (cs ! j)) @ concat (map (chunk_data w) (drop (Suc j) cs))
             = drop (nat ofs) (concat (map (chunk_data w) cs))"
  using assms
proof (induction cs arbitrary: ofs i)
  case Nil
  then show ?case by simp
next
  case (Cons c cs)
  let ?d = "chunk_data w c"
  have sz: "ck_Size c = int (length ?d)" using Cons.prems(1) by simp
  have small: "int (length ?d) < 2 ^ 62" using Cons.prems(4) by simp
  have w: "wrap64 (ofs - ck_Size c) = ofs - int (length ?d)"
    using Cons.prems(2,3,4) small by (subst sz) (intro wrap64_id, simp add: in64_def)
  show ?case
  proof (cases "ofs < int (length ?d)")
    case True
    then show ?thesis using Cons.prems(2) w
      by (intro exI [of _ 0] exI [of _ ofs]) (simp add: nat_le_iff)
  next
    case False
    have p: "\<forall>c \<in> set cs. ck_Size c = int (length (chunk_data w c))" "0 \<le> ofs - int (length ?d)"
      "ofs - int (length ?d) < int (length (concat (map (chunk_data w) cs)))"
      "int (length (concat (map (chunk_data w) cs))) < 2 ^ 62"
      using Cons.prems False by auto
    obtain j o' where ih: "seek_scan (ofs - int (length ?d)) (Suc i) cs = Some (Suc i + j, o')"
        "j < length cs" "0 \<le> o'" "o' \<le> int (length (chunk_data w (cs ! j)))"
        "drop (nat o') (chunk_data w (cs ! j)) @ concat (map (chunk_data w) (drop (Suc j) cs))
           = drop (nat (ofs - int (length ?d))) (concat (map (chunk_data w) cs))"
      using Cons.IH [OF p] by blast
    have "nat ofs = length ?d + nat (ofs - int (length ?d))" using False by simp
    then show ?thesis using ih False w
      by (intro exI [of _ "Suc j"] exI [of _ o']) simp
  qed
qed

lemma Seek_rest:
  assumes "file_ok w f" and "file_inv w f" and "0 \<le> off" and "off < int (length (file_content w f))"
    and "cf_Size f = int (length (file_content w f))"
  shows "\<exists>f'. ChunkedFile_Seek f off SeekStart = (Inr off, f') \<and> file_ok w f' \<and> file_inv w f'
           \<and> cf_Chunks f' = cf_Chunks f \<and> cf_Size f' = cf_Size f
           \<and> file_content w f' = file_content w f
           \<and> file_rest w f' = drop (nat off) (file_content w f)"
proof -
  have sizes: "\<forall>c \<in> set (cf_Chunks f). ck_Size c = int (length (chunk_data w c))"
    and lim: "int (length (file_content w f)) < 2 ^ 62"
    using assms(1) by (auto simp: file_ok_def)
  obtain j o' where sc: "seek_scan off 0 (cf_Chunks f) = Some (j, o')" and j: "j < length (cf_Chunks f)"
    and o': "0 \<le> o'" "o' \<le> int (length (chunk_data w (cf_Chunks f ! j)))"
    and dr: "drop (nat o') (chunk_data w (cf_Chunks f ! j))
              @ concat (map (chunk_data w) (drop (Suc j) (cf_Chunks f))) = drop (nat off) (file_content w f)"
    using seek_scan_finds [OF sizes assms(3), of 0] assms(4) lim
    by (auto simp: file_content_def)
  let ?f = "f\<lparr>cf_currentChunk := j, cf_chunkOffset := o', cf_offset := off\<rparr>"
  let ?f' = "if cf_reader f \<noteq> None \<and> cf_currentChunk f \<noteq> j then ?f\<lparr>cf_reader := None\<rparr> else ?f"
  have "ChunkedFile_Seek f off SeekStart = (Inr off, ?f')"
    using sc assms(3,4,5) by (simp add: ChunkedFile_Seek_def SeekStart_def SeekEnd_def Let_def)
  moreover have "file_ok w ?f'" "file_content w ?f' = file_content w f"
    using assms(1) by (auto simp: file_ok_def file_content_def)
  moreover have "file_inv w ?f'"
    using assms(2) j o' by (auto simp: file_inv_def split: option.splits)
  moreover have "file_rest w ?f' = drop (nat off) (file_content w f)"
    using j dr by (auto simp: file_rest_def)
  ultimately show ?thesis by (intro exI [of _ ?f']) simp
qed

text \<open>
  Positioning at the very end finds no chunk: only \<^verbatim>\<open>f.offset\<close> changes, and reading goes on
  where it was.
\<close>

lemma seek_scan_none:
  "\<forall>c \<in> set cs. 0 \<le> ck_Size c \<Longrightarrow> sum_list (map ck_Size cs) \<le> ofs \<Longrightarrow> ofs < 2 ^ 62 \<Longrightarrow>
   seek_scan ofs i cs = None"
proof (induction cs arbitrary: ofs i)
  case (Cons c cs)
  have s: "0 \<le> sum_list (map ck_Size cs)" using Cons.prems(1) by (induction cs) auto
  then have w: "wrap64 (ofs - ck_Size c) = ofs - ck_Size c"
    using Cons.prems by (intro wrap64_id) (simp add: in64_def)
  show ?case using Cons.IH [of "ofs - ck_Size c"] Cons.prems s w by simp
qed simp

lemma Seek_end:
  assumes "file_ok w f" and "cf_Size f = int (length (file_content w f))"
  shows "ChunkedFile_Seek f (cf_Size f) SeekStart = (Inr (cf_Size f), f\<lparr>cf_offset := cf_Size f\<rparr>)"
proof -
  have sizes: "\<forall>c \<in> set (cf_Chunks f). ck_Size c = int (length (chunk_data w c))"
    using assms(1) by (auto simp: file_ok_def)
  have "sum_list (map ck_Size (cf_Chunks f)) = cf_Size f"
    using sizes assms(2)
    by (simp add: file_content_def length_concat sum_list_of_nat [symmetric] comp_def cong: map_cong)
  then have "seek_scan (cf_Size f) 0 (cf_Chunks f) = None"
    using sizes assms by (intro seek_scan_none) (auto simp: file_ok_def)
  then show ?thesis using assms(2)
    by (simp add: ChunkedFile_Seek_def SeekStart_def SeekEnd_def Let_def)
qed

lemma offset_simps:
  "file_ok w (f\<lparr>cf_offset := x\<rparr>) = file_ok w f" "file_inv w (f\<lparr>cf_offset := x\<rparr>) = file_inv w f"
  "file_rest w (f\<lparr>cf_offset := x\<rparr>) = file_rest w f"
  by (simp_all add: file_ok_def file_content_def file_inv_def file_rest_def cong: option.case_cong)

lemma read_then_end:
  assumes "file_ok w f" and "file_inv w f" and "cf_Size f = int (length (file_content w f))"
    and "0 \<le> off" and "off + int n \<le> cf_Size f" and "0 < n" and "0 < m" and "int m < 2 ^ 62"
  shows "reads fetch f [(n, off), (m, cf_Size f)] w =
    Some [(take n (drop (nat off) (file_content w f)), None),
          (take m (drop (nat off + n) (file_content w f)),
           if cf_Size f - off - int n < int m then Some Io_EOF else None)]"
proof -
  have n62: "int n < 2 ^ 62" using assms(1,3-5) by (simp add: file_ok_def)
  obtain g where g: "ChunkedFile_Seek f off SeekStart = (Inr off, g)" "file_ok w g" "file_inv w g"
      "cf_Size g = cf_Size f" "file_content w g = file_content w f"
      "file_rest w g = drop (nat off) (file_content w f)"
    using Seek_rest [OF assms(1,2,4)] assms(3,5,6) by auto
  have len: "n \<le> length (file_rest w g)" using g(6) assms(3-5) by simp
  obtain f' w' where r: "ChunkedFile_Read fetch g n w = Some ((take n (file_rest w g), None), f', w')"
      and k: "file_ok w' f'" "file_inv w' f'" "cf_Size f' = cf_Size f" "file_content w' f' = file_content w f"
        "file_rest w' f' = drop n (file_rest w g)"
    using Read_rest [OF g(2,3) assms(6) n62] len g(4,5) by auto
  let ?h = "f'\<lparr>cf_offset := cf_Size f\<rparr>"
  have h: "file_ok w' ?h" "file_inv w' ?h" "file_rest w' ?h = drop (nat off + n) (file_content w f)"
    using k g(6) by (simp_all add: offset_simps add.commute)
  have "ChunkedFile_Seek f' (cf_Size f) SeekStart = (Inr (cf_Size f), ?h)"
    using Seek_end [OF k(1)] k(3,4) assms(3) by simp
  moreover have "length (drop (nat off + n) (file_content w f)) < m \<longleftrightarrow> cf_Size f - off - int n < int m"
    using assms(3-5) by auto
  ultimately show ?thesis
    using g r Read_rest [OF h(1,2) assms(7,8)] h(3) by (auto simp: SeekAndRead_def)
qed

lemma SeekAndRead_content:
  assumes "file_ok w f" and "file_inv w f" and "cf_Size f = int (length (file_content w f))"
    and "0 \<le> off" and "off < cf_Size f" and "0 < n" and "int n < 2 ^ 62"
  shows "\<exists>f' w'. SeekAndRead fetch f n off w =
            Some ((take n (drop (nat off) (file_content w f)),
                   if cf_Size f - off < int n then Some Io_EOF else None), f', w')
          \<and> file_ok w' f' \<and> file_inv w' f' \<and> cf_Size f' = cf_Size f
          \<and> file_content w' f' = file_content w f"
proof -
  obtain g where g: "ChunkedFile_Seek f off SeekStart = (Inr off, g)" "file_ok w g" "file_inv w g"
      "cf_Size g = cf_Size f" "file_content w g = file_content w f"
      "file_rest w g = drop (nat off) (file_content w f)"
    using Seek_rest [OF assms(1,2,4)] assms(3,5) by auto
  have "length (drop (nat off) (file_content w f)) < n \<longleftrightarrow> cf_Size f - off < int n"
    using assms(3,4,5) by auto
  then show ?thesis
    using Read_rest [OF g(2,3) assms(6,7)] g by (auto simp: SeekAndRead_def)
qed

lemma reads_content:
  assumes "file_ok w f" and "file_inv w f" and "cf_Size f = int (length (file_content w f))"
    and "\<forall>(n, off) \<in> set rs. 0 < n \<and> int n < 2 ^ 62 \<and> 0 \<le> off \<and> off < cf_Size f"
  shows "reads fetch f rs w =
    Some (map (\<lambda>(n, off). (take n (drop (nat off) (file_content w f)),
                           if cf_Size f - off < int n then Some Io_EOF else None)) rs)"
  using assms
proof (induction rs arbitrary: f w)
  case Nil
  show ?case by simp
next
  case (Cons r rs)
  obtain n off where r: "r = (n, off)" by (cases r)
  obtain f' w' where s: "SeekAndRead fetch f n off w =
            Some ((take n (drop (nat off) (file_content w f)),
                   if cf_Size f - off < int n then Some Io_EOF else None), f', w')"
      and k: "file_ok w' f'" "file_inv w' f'" "cf_Size f' = cf_Size f" "file_content w' f' = file_content w f"
    using SeekAndRead_content [OF Cons.prems(1-3), of off n] Cons.prems(4) r by auto
  have "cf_Size f' = int (length (file_content w' f'))" using k Cons.prems(3) by simp
  from Cons.IH [OF k(1,2) this] k Cons.prems(4) s r show ?case by simp
qed

end

section \<open>A chunked file is a reader of its content\<close>

text \<open>\<^verbatim>\<open>ChunkedFile\<close> as an \<^verbatim>\<open>io.Reader\<close>, for \<^verbatim>\<open>io.Copy\<close>.\<close>

definition ChunkedFile_reader ::
  "'w fetch \<Rightarrow> chunked_file \<times> 'w \<Rightarrow> nat \<Rightarrow> (byte list \<times> go_error option \<times> chunked_file \<times> 'w) option" where
  "ChunkedFile_reader fetch s n =
     map_option (\<lambda>((bs, e), f', w'). (bs, e, f', w')) (ChunkedFile_Read fetch (fst s) n (snd s))"

sublocale chunk_source \<subseteq> file_reader: go_reader "ChunkedFile_reader fetch"
  "\<lambda>(f, w). file_rest w f" "\<lambda>(f, w). file_ok w f \<and> file_inv w f" "2 ^ 62 - 1"
proof (unfold_locales, goal_cases)
  case (1 s n)
  then show ?case using Read_rest [of "snd s" "fst s" n] by (fastforce simp: ChunkedFile_reader_def split: if_splits)
next
  case (2 s n bs e s')
  then show ?case using Read_rest [of "snd s" "fst s" n] by (fastforce simp: ChunkedFile_reader_def)
next
  case (3 s n bs s')
  then show ?case using Read_rest [of "snd s" "fst s" n]
    by (fastforce simp: ChunkedFile_reader_def split: if_splits)
next
  case (4 s n bs s')
  then show ?case using Read_rest [of "snd s" "fst s" n]
    by (fastforce simp: ChunkedFile_reader_def split: if_splits)
qed

section \<open>Files whose chunks are on the local disk\<close>

definition stored_data :: "'m node \<Rightarrow> chunk \<Rightarrow> byte list" where
  "stored_data nd c = (case stored nd (ck_Path c) of Some d \<Rightarrow> d | None \<Rightarrow> [])"

definition stored_content :: "'m node \<Rightarrow> chunked_file \<Rightarrow> byte list" where
  "stored_content nd f = concat (map (stored_data nd) (cf_Chunks f))"

text \<open>Every chunk is on the disk with its recorded size, and the sizes add up to the file's.\<close>

definition file_stored :: "'m node \<Rightarrow> chunked_file \<Rightarrow> bool" where
  "file_stored nd f \<longleftrightarrow>
     (\<forall>c \<in> set (cf_Chunks f). stored nd (ck_Path c) \<noteq> None \<and> ck_Size c = int (length (stored_data nd c)))
     \<and> cf_Size f = int (length (stored_content nd f)) \<and> cf_Size f < 2 ^ 62"

text \<open>A server without masters.\<close>

definition standalone :: "settings \<Rightarrow> settings" where
  "standalone st = st\<lparr>st_HasMasters := False\<rparr>"

lemma standalone_simp [simp]: "\<not> st_HasMasters (standalone st)"
  by (simp add: standalone_def)

lemma GetChunk_no_master:
  "\<not> st_HasMasters st \<Longrightarrow> GetChunk st ms p v nd = Some (os_Open (nd_disk nd) p, nd)"
  by (auto simp: GetChunk_def Let_def split: sum.splits)

interpretation local_chunks: chunk_source "GetChunk (standalone st) ms" "\<lambda>nd p v. stored nd p"
  for st :: settings and ms :: "'m master"
proof
  fix nd :: "'m node" and p v d
  assume "stored nd p = Some d"
  then show "\<exists>r w'. GetChunk (standalone st) ms p v nd = Some (Inr r, w')
      \<and> reader_data r = d \<and> reader_pos r = 0 \<and> reader_open r"
    by (auto simp: stored_def GetChunk_local os_open_def split: if_splits)
qed (simp add: GetChunk_no_master)

lemma local_chunk_data: "local_chunks.chunk_data = stored_data"
  by (intro ext) (simp add: local_chunks.chunk_data_def stored_data_def)

lemma local_file_content: "local_chunks.file_content = stored_content"
  by (intro ext) (simp add: local_chunks.file_content_def stored_content_def local_chunk_data)

lemma Clone_fields [simp]:
  "cf_Chunks (ChunkedFile_Clone f) = cf_Chunks f" "cf_Size (ChunkedFile_Clone f) = cf_Size f"
  "cf_reader (ChunkedFile_Clone f) = None" "cf_currentChunk (ChunkedFile_Clone f) = 0"
  "cf_chunkOffset (ChunkedFile_Clone f) = 0" "cf_Name (ChunkedFile_Clone f) = cf_Name f"
  "cf_Mode (ChunkedFile_Clone f) = cf_Mode f" "cf_Dir (ChunkedFile_Clone f) = cf_Dir f"
  "cf_ModTime (ChunkedFile_Clone f) = cf_ModTime f"
  by (simp_all add: ChunkedFile_Clone_def new_file_def)

lemma file_stored_ok:
  assumes "file_stored nd f"
  shows "local_chunks.file_ok nd f" and "local_chunks.file_ok nd (ChunkedFile_Clone f)"
    and "local_chunks.file_inv nd (ChunkedFile_Clone f)"
    and "stored_content nd (ChunkedFile_Clone f) = stored_content nd f"
    and "cf_Chunks f \<noteq> [] \<Longrightarrow> local_chunks.file_rest nd (ChunkedFile_Clone f) = stored_content nd f"
  using assms
  by (auto simp: file_stored_def local_chunks.file_ok_def local_chunks.file_inv_def local_chunk_data
      local_file_content stored_content_def local_chunks.file_rest_def neq_Nil_conv)

text \<open>A source that changes nothing: reading changes the file's position only.\<close>

lemma read_loop_world:
  "\<forall>p v w x w'. fetch p v w = Some (x, w') \<longrightarrow> w' = w \<Longrightarrow> read_loop fetch n acc f w = Some (r, f', w') \<Longrightarrow> w' = w"
proof (induction fetch n acc f w rule: read_loop.induct)
  case (1 fetch n acc f w)
  obtain rd bs err rd' where r: "cf_reader f = Some rd" "reader_read rd n = Some (bs, err, rd')"
    using 1(4) by (subst (asm) read_loop.simps) (auto split: option.splits)
  let ?f1 = "f\<lparr>cf_reader := Some rd', cf_chunkOffset := wrap64 (cf_chunkOffset f + int (length bs))\<rparr>"
  consider (more) "err = None \<and> length bs < n"
    | (next_chunk) "\<not> (err = None \<and> length bs < n)"
        "err = Some Io_EOF \<and> Suc (cf_currentChunk f) < length (cf_Chunks f) \<and> length bs < n"
    | (stop) "\<not> (err = None \<and> length bs < n)"
        "\<not> (err = Some Io_EOF \<and> Suc (cf_currentChunk f) < length (cf_Chunks f) \<and> length bs < n)" by blast
  then show ?case
  proof cases
    case more
    then show ?thesis
      using 1(4) r by (intro 1(1) [OF r refl refl refl more 1(3)]) (subst (asm) read_loop.simps, simp add: Let_def)
  next
    case next_chunk
    let ?c = "cf_Chunks f ! Suc (cf_currentChunk f)"
    obtain x w1 where x: "fetch (ck_Path ?c) (ck_Version ?c) w = Some (x, w1)"
      using 1(4) r next_chunk by (subst (asm) read_loop.simps) (auto simp: Let_def split: option.splits)
    then have w1: "w1 = w" using 1(3) by blast
    show ?thesis
    proof (cases x)
      case (Inl e)
      then show ?thesis using 1(4) r next_chunk x w1 by (subst (asm) read_loop.simps) (auto simp: Let_def)
    next
      case (Inr rd2)
      have "w' = w1"
        by (rule 1(2) [OF r refl refl refl next_chunk refl refl x refl Inr 1(3)])
           (use 1(4) r next_chunk x Inr in \<open>subst (asm) read_loop.simps, simp add: Let_def\<close>)
      then show ?thesis using w1 by simp
    qed
  next
    case stop
    then show ?thesis using 1(4) r by (subst (asm) read_loop.simps) (auto simp: Let_def split: if_splits)
  qed
qed

lemma Read_world:
  assumes "\<forall>p v w x w'. fetch p v w = Some (x, w') \<longrightarrow> w' = w" and "ChunkedFile_Read fetch f n w = Some (r, f', w')"
  shows "w' = w"
proof (cases "cf_reader f")
  case (Some rd)
  then show ?thesis using assms(2) by (auto simp: ChunkedFile_Read_def dest: read_loop_world [OF assms(1)])
next
  case None
  show ?thesis
  proof (cases "cf_Chunks f = []")
    case True
    then show ?thesis using None assms(2) by (simp add: ChunkedFile_Read_def)
  next
    case False
    let ?c = "cf_Chunks f ! cf_currentChunk f"
    obtain x w1 where x: "fetch (ck_Path ?c) (ck_Version ?c) w = Some (x, w1)"
      using assms(2) None False by (auto simp: ChunkedFile_Read_def Let_def split: option.splits if_splits)
    then have w1: "w1 = w" using assms(1) by blast
    show ?thesis
      using assms(2) None False x w1
      by (cases x) (auto simp: ChunkedFile_Read_def Let_def dest: read_loop_world [OF assms(1)] split: if_splits)
  qed
qed

lemma io_copy_world:
  assumes "\<forall>p v w x w'. fetch p v w = Some (x, w') \<longrightarrow> w' = w"
    and "io_copy (ChunkedFile_reader fetch) b (f, w) acc = Some (bs, e, (f', w'))"
  shows "w' = w"
proof -
  have "(\<lambda>s. snd s = w) (snd (snd (bs, e, (f', w'))))"
    by (rule io_copy_invariant [OF assms(2)]) (use Read_world [OF assms(1)] in \<open>force simp: ChunkedFile_reader_def\<close>)+
  then show ?thesis by simp
qed

lemma file_copy:
  fixes ms :: "'m master" and nd :: "'m node"
  assumes "file_stored nd f" and "0 < b" and "b < 2 ^ 62"
  shows "\<exists>s'. io_copy (ChunkedFile_reader (GetChunk (standalone st) ms)) b
                (ChunkedFile_Clone f, nd) [] = Some (stored_content nd f, None, s')
           \<and> int (length (stored_content nd f)) = cf_Size f"
proof -
  have "local_chunks.file_rest nd (ChunkedFile_Clone f) = stored_content nd f"
    using file_stored_ok(5) [OF assms(1)]
    by (cases "cf_Chunks f = []") (auto simp: local_chunks.file_rest_def stored_content_def)
  then show ?thesis
    using local_chunks.file_reader.io_copy_content [where s = "(ChunkedFile_Clone f, nd)" and b = b and acc = "[]" and st = st and ms = ms]
      file_stored_ok [OF assms(1)] assms
    by (simp add: file_stored_def)
qed

section \<open>Properties\<close>


text \<open>C2: \<^verbatim>\<open>io.Copy\<close> from a clone of a stored file, with a buffer of any positive length, ends and
  without error, and delivers the concatenation of the chunks, as many bytes as \<^verbatim>\<open>Size\<close> says.\<close>

theorem copy_of_clone:
  fixes ms :: "'m master" and nd :: "'m node"
  assumes "file_stored nd f" and "0 < b" and "b < 2 ^ 62"
  shows "\<exists>s'. io_copy (ChunkedFile_reader (GetChunk (standalone st) ms)) b
                (ChunkedFile_Clone f, nd) [] = Some (stored_content nd f, None, s')
           \<and> int (length (stored_content nd f)) = cf_Size f"
  by (rule file_copy [OF assms])

text \<open>A read at the very end of a file does not report the end: after a read of \<open>n\<close> bytes at
  \<open>off\<close>, \<^verbatim>\<open>SeekAndRead\<close> at the offset \<^verbatim>\<open>Size\<close> gives the bytes that follow the previous read,
  because \<^verbatim>\<open>Seek\<close> finds no chunk that holds the offset and leaves the position as it was.\<close>

theorem read_at_end_is_stale:
  fixes ms :: "'m master" and nd :: "'m node"
  assumes "file_stored nd f" and "0 \<le> off" and "off + int n \<le> cf_Size f"
    and "0 < n" and "0 < m" and "int m < 2 ^ 62"
  shows "reads (GetChunk (standalone st) ms) (ChunkedFile_Clone f) [(n, off), (m, cf_Size f)] nd =
    Some [(take n (drop (nat off) (stored_content nd f)), None),
          (take m (drop (nat off + n) (stored_content nd f)),
           if cf_Size f - off - int n < int m then Some Io_EOF else None)]"
  using local_chunks.read_then_end [of nd "ChunkedFile_Clone f" off n m] file_stored_ok [OF assms(1)] assms
  by (simp add: local_file_content file_stored_def)

section \<open>Witnesses\<close>

definition sample_node :: "unit node" where
  "sample_node = \<lparr>nd_disk = \<lparr>dk_files = [(''/d/aa/bb/cc'', [1, 2, 3]), (''/d/aa/bb/dd'', [4, 5])],
                             dk_dirs = [''/d/aa/bb''], dk_denied = []\<rparr>, nd_remote = ()\<rparr>"

definition sample_file :: chunked_file where
  "sample_file = new_file [\<lparr>ck_Path = ''/d/aa/bb/cc'', ck_Size = 3, ck_Version = 2\<rparr>,
                           \<lparr>ck_Path = ''/d/aa/bb/dd'', ck_Size = 2, ck_Version = 2\<rparr>] ''f'' 5 420 False 0"

lemma sample_stored:
  "file_stored sample_node sample_file" "stored_content sample_node sample_file = [1, 2, 3, 4, 5]"
  by (simp_all add: file_stored_def stored_content_def stored_data_def stored_def sample_node_def
      sample_file_def new_file_def)

definition sample_settings :: settings where
  "sample_settings = \<lparr>st_DataDir = ''/d'', st_HasMasters = True, st_SaveChunks = True\<rparr>"

definition sample_master :: "unit master" where
  "sample_master = \<lparr>ms_CheckChunk = \<lambda>h v m. (Inl Not_Exist, m), ms_DownloadChunk = \<lambda>h v m. (Inl Not_Exist, m),
     ms_SaveChunk = \<lambda>h d v m. (None, m)\<rparr>"

lemma sample_size: "cf_Size sample_file = 5"
  by (simp add: sample_file_def new_file_def)


theorem copy_of_clone_witness:
  "\<exists>s'. io_copy (ChunkedFile_reader (GetChunk (standalone sample_settings) sample_master)) 32768
          (ChunkedFile_Clone sample_file, sample_node) [] = Some ([1, 2, 3, 4, 5], None, s')"
  using copy_of_clone [OF sample_stored(1), of 32768 sample_settings sample_master]
  by (auto simp: sample_stored(2))

theorem read_at_end_is_stale_witness:
  "reads (GetChunk (standalone sample_settings) sample_master)
     (ChunkedFile_Clone sample_file) [(2, 0), (8, 5)] sample_node
   = Some [([1, 2], None), ([3, 4, 5], Some Io_EOF)]"
  using read_at_end_is_stale [OF sample_stored(1), of 0 2 8 sample_settings sample_master]
  by (simp add: sample_stored(2) sample_size del: reads.simps)

end
