(* ===== verification/ChunkedFS.thy ===== *)
theory ChunkedFS
  imports ChunkedFile
begin

text \<open>
  \<^verbatim>\<open>ChunkedFileFS\<close> of \<^verbatim>\<open>pkg/io/chunked_file.go\<close>: the tree of a dataset version. A directory
  holds its root path, its object as a file (set by \<^verbatim>\<open>Prepare\<close>, \<open>None\<close> is the nil pointer), its
  directories and its files by name. Go maps are association lists, ranged over in list order
  (Go leaves that order open).
\<close>

section \<open>Directories\<close>

datatype fs = FS (fs_Root: string) (fs_AsFile: "chunked_file option")
                 (fs_Dirs: "(string \<times> fs) list") (fs_Files: "(string \<times> chunked_file) list")
                 (fs_ModTime: int)

definition new_dir :: "string \<Rightarrow> int \<Rightarrow> fs" where
  "new_dir path modtime = FS path None [] [] modtime"

definition dirObj :: "string \<Rightarrow> int \<Rightarrow> chunked_file" where
  "dirObj basename modtime = new_file [] basename 4096 509 True modtime"

fun descend :: "fs \<Rightarrow> string list \<Rightarrow> fs option" where
  "descend fs [] = Some fs"
| "descend fs (d # ds) =
     (case map_of (fs_Dirs fs) d of None \<Rightarrow> None | Some sub \<Rightarrow> descend sub ds)"

definition GetDir :: "fs \<Rightarrow> string \<Rightarrow> fs option" where
  "GetDir fs dirname =
     (if dirname = fs_Root fs \<or> dirname = ''.'' then Some fs
      else if dirname = [] then Some fs
      else descend fs (split_path dirname))"

definition GetFile :: "fs \<Rightarrow> string \<Rightarrow> chunked_file option" where
  "GetFile fs absname =
     (let splitted = split_path absname;
          dirname = join_path (butlast splitted);
          filename = last splitted
      in if absname = [] then fs_AsFile fs
         else case GetDir fs dirname of
                None \<Rightarrow> None
              | Some curDir \<Rightarrow>
                  (case map_of (fs_Dirs curDir) filename of
                     Some d \<Rightarrow> fs_AsFile d
                   | None \<Rightarrow> map_of (fs_Files curDir) filename))"

definition AddDir :: "fs \<Rightarrow> string \<Rightarrow> int \<Rightarrow> fs" where
  "AddDir fs path modtime =
     (let base = path_base path in
      case map_of (fs_Dirs fs) base of
        Some _ \<Rightarrow> fs
      | None \<Rightarrow> FS (fs_Root fs) (fs_AsFile fs) (AList.update base (new_dir path modtime) (fs_Dirs fs))
                    (fs_Files fs) (fs_ModTime fs))"

text \<open>\<^verbatim>\<open>Prepare\<close> on a directory whose \<^verbatim>\<open>AsFile\<close> is \<open>asf\<close>; it sets that of a directory's children first.\<close>

fun prepare_as :: "chunked_file option \<Rightarrow> fs \<Rightarrow> fs" where
  "prepare_as asf (FS r a ds fls t) =
     FS r (if r = ''/'' then Some (dirObj [] t) else asf)
        (map (\<lambda>(k, d). (k, prepare_as (Some (dirObj k (fs_ModTime d))) d)) ds) fls t"

definition Prepare :: "fs \<Rightarrow> fs" where
  "Prepare fs = prepare_as (fs_AsFile fs) fs"

text \<open>A cloned file shares the slice of chunks, which nothing writes to.\<close>

fun fs_Clone :: "fs \<Rightarrow> fs" where
  "fs_Clone (FS r a ds fls t) =
     FS r None (map (\<lambda>(k, d). (k, fs_Clone d)) ds) (map (\<lambda>(k, f). (k, ChunkedFile_Clone f)) fls) t"

section \<open>Listings\<close>

definition ChunkedFiles_Less :: "chunked_file \<Rightarrow> chunked_file \<Rightarrow> bool" where
  "ChunkedFiles_Less a b = (if cf_Dir a \<noteq> cf_Dir b then cf_Dir a else cf_Name a < cf_Name b)"

interpretation chunked_files_order: go_less ChunkedFiles_Less
  by unfold_locales (auto simp: ChunkedFiles_Less_def split: if_splits)

text \<open>
  \<open>None\<close> as a result is a panic: a count beyond the slice, or \<^verbatim>\<open>Less\<close> on the nil object of a
  directory that was not prepared.
\<close>

definition ReaddirFiles :: "fs \<Rightarrow> string \<Rightarrow> int \<Rightarrow> chunked_file option list res option" where
  "ReaddirFiles fs pre cnt =
     (case GetDir fs pre of
        None \<Rightarrow> Some (Inl (Errorf (''No such directory: '' @ pre)))
      | Some dir \<Rightarrow>
          let all = map (fs_AsFile \<circ> snd) (fs_Dirs dir) @ map (Some \<circ> snd) (fs_Files dir);
              n = (if cnt = 0 then int (length all) else cnt)
          in if n < 0 \<or> int (length all) < n then None
             else let result = take (nat n) all in
               if length result < 2 then Some (Inr result)
               else if None \<in> set result then None
               else Some (Inr (map Some (sort_by ChunkedFiles_Less (map the result)))))"

record file_info =
  fi_Dir :: bool
  fi_Name :: string
  fi_Size :: int
  fi_Mode :: nat
  fi_ModTime :: int

definition ChunkedFile_Stat :: "chunked_file \<Rightarrow> file_info" where
  "ChunkedFile_Stat f = \<lparr>fi_Dir = cf_Dir f, fi_Name = cf_Name f, fi_Size = cf_Size f,
                         fi_Mode = cf_Mode f, fi_ModTime = cf_ModTime f\<rparr>"

definition FileInfo_Clone :: "file_info \<Rightarrow> file_info" where
  "FileInfo_Clone i = \<lparr>fi_Dir = fi_Dir i, fi_Name = fi_Name i, fi_Size = fi_Size i,
                        fi_Mode = fi_Mode i, fi_ModTime = fi_ModTime i\<rparr>"

definition FileInfos_Less :: "file_info \<Rightarrow> file_info \<Rightarrow> bool" where
  "FileInfos_Less a b = (if fi_Dir a \<noteq> fi_Dir b then fi_Dir a else fi_Name a < fi_Name b)"

text \<open>
  \<open>cap\<close> is the capacity that \<^verbatim>\<open>append\<close> left the slice with: a count up to it shows nil entries.
\<close>

definition Readdir :: "nat \<Rightarrow> fs \<Rightarrow> string \<Rightarrow> int \<Rightarrow> file_info option list res option" where
  "Readdir cap fs pre cnt =
     (case GetDir fs pre of
        None \<Rightarrow> Some (Inl (Errorf (''No such directory: '' @ pre)))
      | Some dir \<Rightarrow>
          let all = map (\<lambda>(k, d). ChunkedFile_Stat (dirObj (fs_Root d) (fs_ModTime d))) (fs_Dirs dir)
                  @ map (ChunkedFile_Stat \<circ> snd) (fs_Files dir);
              n = (if cnt = 0 then int (length all) else cnt)
          in if n < 0 \<or> int (max cap (length all)) < n then None
             else Some (Inr (take (nat n) (map Some all @ replicate (cap - length all) None))))"

section \<open>Walking\<close>

text \<open>
  A callback takes a path and a file, changes a state \<open>'s\<close> and may return an error; \<open>None\<close> is a
  panic in it. \<open>walk_seq\<close> stops at the first error.
\<close>

type_synonym 's step = "'s \<Rightarrow> (go_error option \<times> 's) option"

definition walk_seq :: "'s step \<Rightarrow> 's step \<Rightarrow> 's step" where
  "walk_seq m k s = (case m s of None \<Rightarrow> None
     | Some (Some err, s') \<Rightarrow> Some (Some err, s')
     | Some (None, s') \<Rightarrow> k s')"

definition walk_done :: "'s step" where
  "walk_done s = Some (None, s)"

fun walk_files :: "(string \<Rightarrow> chunked_file \<Rightarrow> 's step) \<Rightarrow> string \<Rightarrow> (string \<times> chunked_file) list \<Rightarrow> 's step" where
  "walk_files cb root [] = walk_done"
| "walk_files cb root ((k, f) # fls) = walk_seq (cb (path_join [root, cf_Name f]) f) (walk_files cb root fls)"

text \<open>\<open>walk_dir d\<close> is \<^verbatim>\<open>d.Walk(d.Root, walkFunc)\<close>, the call for every directory below the first.\<close>

fun walk_dir :: "(string \<Rightarrow> chunked_file \<Rightarrow> 's step) \<Rightarrow> fs \<Rightarrow> 's step"
  and walk_dirs :: "(string \<Rightarrow> chunked_file \<Rightarrow> 's step) \<Rightarrow> (string \<times> fs) list \<Rightarrow> 's step" where
  "walk_dir cb (FS r a ds fls t) =
     walk_seq (cb r (dirObj r t)) (walk_seq (walk_dirs cb ds) (walk_files cb r fls))"
| "walk_dirs cb [] = walk_done"
| "walk_dirs cb ((k, d) # ds) = walk_seq (walk_dir cb d) (walk_dirs cb ds)"

definition Walk :: "(string \<Rightarrow> chunked_file \<Rightarrow> 's step) \<Rightarrow> fs \<Rightarrow> string \<Rightarrow> 's step" where
  "Walk cb fs root =
     (case GetDir fs root of
        None \<Rightarrow> (\<lambda>s. None)
      | Some rootDir \<Rightarrow>
          walk_seq (cb root (dirObj root (fs_ModTime rootDir)))
            (walk_seq (walk_dirs cb (fs_Dirs rootDir)) (walk_files cb (fs_Root rootDir) (fs_Files fs))))"

lemma walk_dir_is_Walk: "walk_dir cb d = Walk cb d (fs_Root d)"
  by (cases d) (simp add: Walk_def GetDir_def)

section \<open>What a walk visits\<close>

fun visits :: "fs \<Rightarrow> (string \<times> chunked_file) list" where
  "visits (FS r a ds fls t) =
     (r, dirObj r t) # concat (map (\<lambda>(k, d). visits d) ds)
       @ map (\<lambda>(k, f). (path_join [r, cf_Name f], f)) fls"

fun run_visits :: "(string \<Rightarrow> chunked_file \<Rightarrow> 's step) \<Rightarrow> (string \<times> chunked_file) list \<Rightarrow> 's step" where
  "run_visits cb [] = walk_done"
| "run_visits cb ((p, f) # vs) = walk_seq (cb p f) (run_visits cb vs)"

lemma walk_seq_assoc: "walk_seq (walk_seq a b) c = walk_seq a (walk_seq b c)"
  by (rule ext) (auto simp: walk_seq_def split: option.splits)

lemma walk_seq_done [simp]: "walk_seq walk_done m = m" "walk_seq m walk_done = m"
  by (rule ext, simp add: walk_seq_def walk_done_def split: option.splits)+

lemma run_visits_append: "run_visits cb (vs @ ws) = walk_seq (run_visits cb vs) (run_visits cb ws)"
  by (induction vs) (auto simp: walk_seq_assoc)

lemma walk_files_visits:
  "walk_files cb r fls = run_visits cb (map (\<lambda>(k, f). (path_join [r, cf_Name f], f)) fls)"
  by (induction fls) auto

lemma walk_dir_visits:
  "walk_dir cb d = run_visits cb (visits d)"
  "walk_dirs cb ds = run_visits cb (concat (map (\<lambda>(k, d). visits d) ds))"
proof (induction cb d and cb ds rule: walk_dir_walk_dirs.induct)
  case (1 cb r a ds fls t)
  then show ?case
    by (simp add: run_visits_append walk_files_visits case_prod_unfold)
qed (auto simp: run_visits_append)

text \<open>\<open>pure_step g\<close> is a callback that only updates the state.\<close>

lemma run_visits_pure:
  "run_visits (\<lambda>p f s. Some (None, g p f s)) vs s = Some (None, foldl (\<lambda>s (p, f). g p f s) s vs)"
  by (induction vs arbitrary: s) (auto simp: walk_seq_def walk_done_def)

section \<open>Looking up files\<close>

fun find_file :: "fs \<Rightarrow> string list \<Rightarrow> chunked_file option" where
  "find_file fs [] = None"
| "find_file fs [n] = map_of (fs_Files fs) n"
| "find_file fs (d # e # ds) =
     (case map_of (fs_Dirs fs) d of None \<Rightarrow> None | Some sub \<Rightarrow> find_file sub (e # ds))"

lemma find_file_descend:
  "cs \<noteq> [] \<Longrightarrow> find_file fs (ds @ cs) = Option.bind (descend fs ds) (\<lambda>sub. find_file sub cs)"
proof (induction ds arbitrary: fs)
  case (Cons d ds)
  obtain e es where e: "ds @ cs = e # es" using Cons.prems by (cases "ds @ cs") auto
  show ?case
    using Cons.IH [OF Cons.prems] e by (simp split: option.splits)
qed simp

lemma GetDir_descend:
  "plain_comps ds \<Longrightarrow> fs_Root fs \<noteq> join_path ds \<Longrightarrow> GetDir fs (join_path ds) = descend fs ds"
proof -
  assume p: "plain_comps ds" and r: "fs_Root fs \<noteq> join_path ds"
  have "join_path ds \<noteq> ''.''" using p split_join_plain [OF p] by (auto simp: plain_comps_def plain_comp_def)
  then show ?thesis using p r by (simp add: GetDir_def join_plain_nonempty split_join_plain)
qed

text \<open>In a tree rooted at \<^verbatim>\<open>/\<close> a name that is no directory is looked up as a file.\<close>

lemma GetFile_find:
  assumes "plain_comps cs" and "fs_Root fs = ''/''"
    and "descend fs cs = None"
  shows "GetFile fs (join_path cs) = find_file fs cs"
proof (cases "butlast cs = []")
  case True
  then obtain c where c: "cs = [c]" using assms(1) by (cases cs rule: rev_cases) auto
  then show ?thesis using assms
    by (auto simp: GetFile_def GetDir_def split_join_plain plain_comp_def go_split_no_sep split: option.splits)
next
  case False
  let ?ds = "butlast cs"
  have cs: "cs = ?ds @ [last cs]" using assms(1) by (cases cs rule: rev_cases) auto
  have p: "plain_comps ?ds" using assms(1) False by (subst (asm) cs) (auto simp: plain_comps_def)
  have r: "fs_Root fs \<noteq> join_path ?ds"
    using assms(2) hd_join_plain [OF p] by auto
  have nd: "\<forall>sub. descend fs ?ds = Some sub \<longrightarrow> map_of (fs_Dirs sub) (last cs) = None"
  proof -
    have "descend fs (xs @ [x]) = Option.bind (descend fs xs) (\<lambda>sub. map_of (fs_Dirs sub) x)" for xs x
      by (induction xs arbitrary: fs) (auto split: option.splits)
    from this [of ?ds "last cs"] cs assms(3) show ?thesis by auto
  qed
  have "find_file fs cs = Option.bind (descend fs ?ds) (\<lambda>sub. map_of (fs_Files sub) (last cs))"
    using find_file_descend [of "[last cs]" fs ?ds] cs by simp
  then show ?thesis
    using nd GetDir_descend [OF p r] join_plain_nonempty [OF assms(1)]
    by (auto simp: GetFile_def Let_def split_join_plain [OF assms(1)] split: option.splits)
qed

end
