(* ===== verification/Db.thy ===== *)
theory Db
  imports Types
begin

text \<open>
  The database of \<^verbatim>\<open>pkg/db\<close> (\<^verbatim>\<open>models.go\<close>, \<^verbatim>\<open>db.go\<close>): its five tables, transactions, and the
  statements that the managers issue through gorm. A table is the list of its rows in the
  order of insertion. What a statement does to the tables follows the SQL text, or the
  documented meaning of the gorm call (\<^verbatim>\<open>Create\<close>, \<^verbatim>\<open>Save\<close>, \<^verbatim>\<open>First\<close>, \<^verbatim>\<open>Find\<close>, \<^verbatim>\<open>Delete\<close>): a filter
  given as a struct compares its non-zero fields only, and \<^verbatim>\<open>First\<close> fails with
  \<^verbatim>\<open>record not found\<close>. Any statement may fail: \<open>db_faults\<close> holds the outcome of the statements
  to come, and a statement that fails changes nothing.
\<close>

section \<open>Tables\<close>

record file_row =
  f_ID :: nat
  f_Path :: string
  f_Size :: int
  f_Mode :: nat
  f_DatasetName :: string
  f_DatasetType :: string
  f_Workspace :: string
  f_Version :: string
  f_CreatedAt :: int
  f_UpdatedAt :: int

record chunk_row =
  c_ID :: nat
  c_Hash :: string
  c_Size :: int
  c_Version :: nat

record file_chunk =
  l_FileID :: nat
  l_ChunkID :: nat
  l_Index :: nat

record dataset_row =
  d_ID :: nat
  d_Workspace :: string
  d_Name :: string
  d_Type :: string
  d_Deleted :: bool
  d_CreatedAt :: int
  d_UpdatedAt :: int

record version_row =
  v_ID :: nat
  v_Workspace :: string
  v_Name :: string
  v_Version :: string
  v_Message :: string
  v_Type :: string
  v_Size :: int
  v_FileCount :: int
  v_Deleted :: bool
  v_Editing :: bool
  v_CreatedAt :: int
  v_UpdatedAt :: int

record tables =
  t_files :: "file_row list"
  t_chunks :: "chunk_row list"
  t_file_chunks :: "file_chunk list"
  t_datasets :: "dataset_row list"
  t_dataset_versions :: "version_row list"

text \<open>
  The state of a server process. \<open>db_saved\<close> holds the tables as they were at the \<^verbatim>\<open>Begin\<close> of
  each open transaction and \<open>db_now\<close> is the clock of the rows' time stamps. Beside the database
  there are the queues of the deletion loops (\<^verbatim>\<open>chunksBuf\<close> and the channel \<^verbatim>\<open>deleteCh\<close> of
  \<^verbatim>\<open>pkg/datasets/utils.go\<close>), the messages sent to \<^verbatim>\<open>utils.GCChan\<close> and to the hub, and the state \<open>'m\<close> of the
  master behind the client.
\<close>

record 'm db =
  db_tables :: tables
  db_type :: string
  db_saved :: "tables list"
  db_faults :: "go_error option list"
  db_now :: int
  db_chunksBuf :: "chunk_row list"
  db_deleteCh :: "string list"
  db_gc :: "string list"
  db_hub :: "hub_message list"
  db_remote :: 'm

section \<open>Programs over the database\<close>

text \<open>
  A program over a state \<open>'s\<close>: \<open>None\<close> is a panic; otherwise an error or a result, and the state
  after it. \<open>dbm\<close> are the programs over the database.
\<close>

type_synonym ('s, 'a) prog = "'s \<Rightarrow> ('a res \<times> 's) option"

type_synonym ('m, 'a) dbm = "('m db, 'a) prog"

definition ret :: "'a \<Rightarrow> ('s, 'a) prog" where
  "ret x = (\<lambda>d. Some (Inr x, d))"

definition fail :: "go_error \<Rightarrow> ('s, 'a) prog" where
  "fail e = (\<lambda>d. Some (Inl e, d))"

definition crash :: "('s, 'a) prog" where
  "crash = (\<lambda>d. None)"

definition attempt :: "('s, 'a) prog \<Rightarrow> ('a res \<Rightarrow> ('s, 'b) prog) \<Rightarrow> ('s, 'b) prog" where
  "attempt m k = (\<lambda>d. case m d of None \<Rightarrow> None | Some (r, d') \<Rightarrow> k r d')"

definition bnd :: "('s, 'a) prog \<Rightarrow> ('a \<Rightarrow> ('s, 'b) prog) \<Rightarrow> ('s, 'b) prog" where
  "bnd m k = attempt m (\<lambda>r. case r of Inl e \<Rightarrow> fail e | Inr x \<Rightarrow> k x)"

definition ask_type :: "('m, string) dbm" where
  "ask_type = (\<lambda>d. Some (Inr (db_type d), d))"

definition ask_now :: "('m, int) dbm" where
  "ask_now = (\<lambda>d. Some (Inr (db_now d), d))"

definition lift_option :: "'a option \<Rightarrow> ('s, 'a) prog" where
  "lift_option x = (case x of None \<Rightarrow> crash | Some y \<Rightarrow> ret y)"

fun for_each :: "('a \<Rightarrow> ('s, unit) prog) \<Rightarrow> 'a list \<Rightarrow> ('s, unit) prog" where
  "for_each body [] = ret ()"
| "for_each body (x # xs) = bnd (body x) (\<lambda>_. for_each body xs)"

fun map_each :: "('a \<Rightarrow> ('s, 'b) prog) \<Rightarrow> 'a list \<Rightarrow> ('s, 'b list) prog" where
  "map_each body [] = ret []"
| "map_each body (x # xs) = bnd (body x) (\<lambda>y. bnd (map_each body xs) (\<lambda>ys. ret (y # ys)))"

text \<open>One statement: it fails as the next entry of \<open>db_faults\<close> says, or with an error of its own.\<close>

definition stmt :: "(tables \<Rightarrow> ('a \<times> tables) res) \<Rightarrow> ('m, 'a) dbm" where
  "stmt f = (\<lambda>d.
     let d1 = d\<lparr>db_faults := tl (db_faults d)\<rparr> in
     (case db_faults d of
        Some e # _ \<Rightarrow> Some (Inl e, d1)
      | _ \<Rightarrow> (case f (db_tables d) of
                Inl e \<Rightarrow> Some (Inl e, d1)
              | Inr (x, t) \<Rightarrow> Some (Inr x, d1\<lparr>db_tables := t\<rparr>))))"

definition query :: "(tables \<Rightarrow> 'a) \<Rightarrow> ('m, 'a) dbm" where
  "query f = stmt (\<lambda>t. Inr (f t, t))"

definition exec :: "(tables \<Rightarrow> tables) \<Rightarrow> ('m, unit) dbm" where
  "exec f = stmt (\<lambda>t. Inr ((), f t))"

section \<open>Transactions\<close>

text \<open>
  \<^verbatim>\<open>Begin\<close>, \<^verbatim>\<open>Commit\<close> and \<^verbatim>\<open>Rollback\<close>. A commit that fails leaves the tables as they were at
  \<^verbatim>\<open>Begin\<close>; its error stays in the handle it returns, which no caller looks at.
\<close>

definition Begin :: "('m, unit) dbm" where
  "Begin = (\<lambda>d. Some (Inr (), d\<lparr>db_saved := db_tables d # db_saved d\<rparr>))"

definition Rollback :: "('m, unit) dbm" where
  "Rollback = (\<lambda>d. Some (Inr (), d\<lparr>db_tables := hd (db_saved d @ [db_tables d]), db_saved := tl (db_saved d)\<rparr>))"

definition Commit :: "('m, unit) dbm" where
  "Commit = (\<lambda>d.
     let d1 = d\<lparr>db_saved := tl (db_saved d), db_faults := tl (db_faults d)\<rparr> in
     (case db_faults d of
        Some e # _ \<Rightarrow> Some (Inr (), d1\<lparr>db_tables := hd (db_saved d @ [db_tables d])\<rparr>)
      | _ \<Rightarrow> Some (Inr (), d1)))"

text \<open>
  The \<^verbatim>\<open>defer\<close> of a function that opens a transaction: roll back when it returns an error,
  commit otherwise.
\<close>

definition in_tx :: "('m, 'a) dbm \<Rightarrow> ('m, 'a) dbm" where
  "in_tx body = bnd Begin (\<lambda>_. attempt body (\<lambda>r.
     case r of Inl e \<Rightarrow> bnd Rollback (\<lambda>_. fail e) | Inr x \<Rightarrow> bnd Commit (\<lambda>_. ret x)))"

section \<open>Filters and patterns\<close>

definition opt_nat :: "nat \<Rightarrow> nat \<Rightarrow> bool" where
  "opt_nat want x \<longleftrightarrow> want = 0 \<or> x = want"

definition opt_int :: "int \<Rightarrow> int \<Rightarrow> bool" where
  "opt_int want x \<longleftrightarrow> want = 0 \<or> x = want"

definition opt_str :: "string \<Rightarrow> string \<Rightarrow> bool" where
  "opt_str want x \<longleftrightarrow> want = [] \<or> x = want"

definition opt_bool :: "bool \<Rightarrow> bool \<Rightarrow> bool" where
  "opt_bool want x \<longleftrightarrow> want \<longrightarrow> x"

text \<open>
  \<^verbatim>\<open>LIKE\<close>: \<^verbatim>\<open>%\<close> stands for any sequence of characters, \<^verbatim>\<open>_\<close> for one. Sqlite and MySQL compare
  without case; Postgres and MySQL take a backslash as an escape.
\<close>

fun like_match :: "bool \<Rightarrow> bool \<Rightarrow> string \<Rightarrow> string \<Rightarrow> bool" where
  "like_match ci esc [] s = (s = [])"
| "like_match ci esc (p # ps) s =
     (if p = CHR ''%'' then
        (case s of [] \<Rightarrow> like_match ci esc ps []
         | c # cs \<Rightarrow> like_match ci esc ps s \<or> like_match ci esc (p # ps) cs)
      else if p = CHR 0x5C \<and> esc then
        (case ps of [] \<Rightarrow> s = [p]
         | q # qs \<Rightarrow> (case s of [] \<Rightarrow> False
             | c # cs \<Rightarrow> (if ci then to_lower [c] = to_lower [q] else c = q) \<and> like_match ci esc qs cs))
      else (case s of [] \<Rightarrow> False
         | c # cs \<Rightarrow> (p = CHR ''_'' \<or> (if ci then to_lower [c] = to_lower [p] else c = p))
                     \<and> like_match ci esc ps cs))"

definition sql_like :: "string \<Rightarrow> string \<Rightarrow> string \<Rightarrow> bool" where
  "sql_like dbtype pat s = like_match (dbtype \<noteq> ''postgres'') (dbtype \<noteq> ''sqlite3'') pat s"

text \<open>The condition on a path that the statements build from a prefix; no prefix, no condition.\<close>

definition path_cond :: "string \<Rightarrow> string \<Rightarrow> bool \<Rightarrow> string \<Rightarrow> bool" where
  "path_cond dbtype pre precise path \<longleftrightarrow>
     pre = [] \<or> (if precise then path = pre else sql_like dbtype (pre @ ''%'') path)"

text \<open>Gorm's auto-increment: one more than the largest key.\<close>

definition next_id :: "nat list \<Rightarrow> nat" where
  "next_id ids = Suc (foldl max 0 ids)"

section \<open>Running programs\<close>

named_theorems run_simps

lemma ret_run [run_simps]: "ret x d = Some (Inr x, d)" by (simp add: ret_def)
lemma fail_run [run_simps]: "fail e d = Some (Inl e, d)" by (simp add: fail_def)
lemma ask_run [run_simps]: "ask_type d = Some (Inr (db_type d), d)" "ask_now d = Some (Inr (db_now d), d)"
  by (simp_all add: ask_type_def ask_now_def)

lemma attempt_run [run_simps]: "m d = Some (r, d') \<Longrightarrow> attempt m k d = k r d'"
  by (simp add: attempt_def)

lemma bnd_run [run_simps]:
  "m d = Some (Inr x, d') \<Longrightarrow> bnd m k d = k x d'"
  "m d = Some (Inl e, d') \<Longrightarrow> bnd m k d = Some (Inl e, d')"
  by (simp_all add: bnd_def attempt_def fail_def)

lemma bnd_SomeD:
  "bnd m k d = Some (Inr y, d') \<Longrightarrow> \<exists>x d1. m d = Some (Inr x, d1) \<and> k x d1 = Some (Inr y, d')"
  by (auto simp: bnd_def attempt_def fail_def split: option.splits sum.splits)

text \<open>When no fault is to come, a statement does what it says and leaves the rest as it is.\<close>

lemma no_fault_self: "db_faults d = [] \<Longrightarrow> d\<lparr>db_faults := []\<rparr> = d"
  by simp

lemma stmt_run:
  "db_faults d = [] \<Longrightarrow>
   stmt f d = (case f (db_tables d) of Inl e \<Rightarrow> Some (Inl e, d) | Inr (x, t) \<Rightarrow> Some (Inr x, d\<lparr>db_tables := t\<rparr>))"
  by (simp add: stmt_def Let_def split: sum.splits)

lemma query_run [run_simps]: "db_faults d = [] \<Longrightarrow> query f d = Some (Inr (f (db_tables d)), d)"
  by (simp add: query_def stmt_run)

lemma exec_run [run_simps]: "db_faults d = [] \<Longrightarrow> exec f d = Some (Inr (), d\<lparr>db_tables := f (db_tables d)\<rparr>)"
  by (simp add: exec_def stmt_run)

text \<open>Whatever happens, a statement leaves type, clock and open transactions alone; one that fails, the tables.\<close>

lemma stmt_frame:
  "stmt f d = Some (r, d') \<Longrightarrow>
     db_type d' = db_type d \<and> db_saved d' = db_saved d \<and> db_now d' = db_now d
     \<and> (\<forall>e. r = Inl e \<longrightarrow> db_tables d' = db_tables d)"
  by (auto simp: stmt_def Let_def split: list.splits option.splits sum.splits)

text \<open>
  A transaction that returns an error has left the tables as they were, whatever its
  statements did, provided the body keeps to its own transaction.
\<close>

lemma in_tx_error:
  assumes "in_tx body d = Some (Inl e, d')"
    and "\<And>d1 r d2. body d1 = Some (r, d2) \<Longrightarrow> db_saved d2 = db_saved d1"
  shows "db_tables d' = db_tables d \<and> db_saved d' = db_saved d"
  using assms(1)
  by (auto simp: in_tx_def bnd_def attempt_def Begin_def Rollback_def Commit_def ret_def fail_def Let_def
      split: option.splits sum.splits list.splits dest!: assms(2))

end
