(* ===== verification/DbManagers.thy ===== *)
theory DbManagers
  imports Db
begin

text \<open>
  The managers of \<^verbatim>\<open>pkg/db\<close>: \<^verbatim>\<open>datasets.go\<close>, \<^verbatim>\<open>dataset_versions.go\<close>, \<^verbatim>\<open>files.go\<close>,
  \<^verbatim>\<open>chunks.go\<close> and the statements of \<^verbatim>\<open>filechunks.go\<close>. An object that Go passes by pointer and
  that the callee fills in is returned.
\<close>

section \<open>Datasets\<close>

definition blank_dataset :: dataset_row where
  "blank_dataset = \<lparr>d_ID = 0, d_Workspace = [], d_Name = [], d_Type = [], d_Deleted = False,
                    d_CreatedAt = 0, d_UpdatedAt = 0\<rparr>"

definition match_dataset :: "dataset_row \<Rightarrow> dataset_row \<Rightarrow> bool" where
  "match_dataset q d \<longleftrightarrow> opt_nat (d_ID q) (d_ID d) \<and> opt_str (d_Workspace q) (d_Workspace d)
     \<and> opt_str (d_Name q) (d_Name d) \<and> opt_str (d_Type q) (d_Type d) \<and> opt_bool (d_Deleted q) (d_Deleted d)"

definition first_row :: "('a \<Rightarrow> bool) \<Rightarrow> 'a list \<Rightarrow> 'a res" where
  "first_row P rows = (case find P rows of None \<Rightarrow> Inl Record_Not_Found | Some r \<Rightarrow> Inr r)"

definition CreateDataset :: "dataset_row \<Rightarrow> ('m, dataset_row) dbm" where
  "CreateDataset dataset = bnd ask_now (\<lambda>now. stmt (\<lambda>t.
     let d = dataset\<lparr>d_ID := next_id (map d_ID (t_datasets t)), d_CreatedAt := now, d_UpdatedAt := now\<rparr>
     in Inr (d, t\<lparr>t_datasets := t_datasets t @ [d]\<rparr>)))"

text \<open>\<^verbatim>\<open>Save\<close> writes every column of the row with the object's key, and creates it if there is none.\<close>

definition save_row :: "('a \<Rightarrow> nat) \<Rightarrow> 'a \<Rightarrow> 'a list \<Rightarrow> 'a list" where
  "save_row key x rows = (if key x \<in> set (map key rows) then map (\<lambda>r. if key r = key x then x else r) rows
                          else rows @ [x])"

definition UpdateDataset :: "dataset_row \<Rightarrow> ('m, dataset_row) dbm" where
  "UpdateDataset dataset = bnd ask_now (\<lambda>now. stmt (\<lambda>t.
     let d = dataset\<lparr>d_UpdatedAt := now\<rparr>
     in Inr (d, t\<lparr>t_datasets := save_row d_ID d (t_datasets t)\<rparr>)))"

definition RecoverDataset :: "dataset_row \<Rightarrow> ('m, unit) dbm" where
  "RecoverDataset dataset = exec (\<lambda>t. t\<lparr>t_datasets :=
     map (\<lambda>d. if d_Name d = d_Name dataset \<and> d_Type d = d_Type dataset \<and> d_Workspace d = d_Workspace dataset
              then d\<lparr>d_Deleted := False\<rparr> else d) (t_datasets t)\<rparr>)"

definition GetDataset :: "string \<Rightarrow> string \<Rightarrow> string \<Rightarrow> ('m, dataset_row) dbm" where
  "GetDataset dsType workspace name = stmt (\<lambda>t.
     case first_row (match_dataset (blank_dataset\<lparr>d_Type := dsType, d_Workspace := workspace, d_Name := name\<rparr>))
            (t_datasets t) of Inl e \<Rightarrow> Inl e | Inr d \<Rightarrow> Inr (d, t))"

definition GetDatasetByID :: "nat \<Rightarrow> ('m, dataset_row) dbm" where
  "GetDatasetByID datasetID = stmt (\<lambda>t.
     case first_row (match_dataset (blank_dataset\<lparr>d_ID := datasetID\<rparr>)) (t_datasets t) of
       Inl e \<Rightarrow> Inl e | Inr d \<Rightarrow> Inr (d, t))"

definition ListDatasets :: "dataset_row \<Rightarrow> ('m, dataset_row list) dbm" where
  "ListDatasets q = query (\<lambda>t.
     filter (\<lambda>d. match_dataset q d \<and> (\<not> d_Deleted q \<longrightarrow> \<not> d_Deleted d)) (t_datasets t))"

definition db_DeleteDataset :: "nat \<Rightarrow> ('m, unit) dbm" where
  "db_DeleteDataset i = exec (\<lambda>t. t\<lparr>t_datasets :=
     filter (\<lambda>d. \<not> match_dataset (blank_dataset\<lparr>d_ID := i\<rparr>) d) (t_datasets t)\<rparr>)"

section \<open>Versions\<close>

definition blank_version :: version_row where
  "blank_version = \<lparr>v_ID = 0, v_Workspace = [], v_Name = [], v_Version = [], v_Message = [], v_Type = [],
     v_Size = 0, v_FileCount = 0, v_Deleted = False, v_Editing = False, v_CreatedAt = 0, v_UpdatedAt = 0\<rparr>"

definition match_version :: "version_row \<Rightarrow> version_row \<Rightarrow> bool" where
  "match_version q v \<longleftrightarrow> opt_nat (v_ID q) (v_ID v) \<and> opt_str (v_Workspace q) (v_Workspace v)
     \<and> opt_str (v_Name q) (v_Name v) \<and> opt_str (v_Version q) (v_Version v) \<and> opt_str (v_Message q) (v_Message v)
     \<and> opt_str (v_Type q) (v_Type v) \<and> opt_int (v_Size q) (v_Size v) \<and> opt_int (v_FileCount q) (v_FileCount v)
     \<and> opt_bool (v_Deleted q) (v_Deleted v) \<and> opt_bool (v_Editing q) (v_Editing v)"

text \<open>The rows of one version, as the statements with all four columns select them.\<close>

definition is_version :: "string \<Rightarrow> string \<Rightarrow> string \<Rightarrow> string \<Rightarrow> version_row \<Rightarrow> bool" where
  "is_version dsType workspace name version v \<longleftrightarrow>
     v_Type v = dsType \<and> v_Workspace v = workspace \<and> v_Name v = name \<and> v_Version v = version"

definition CreateDatasetVersion :: "version_row \<Rightarrow> ('m, version_row) dbm" where
  "CreateDatasetVersion dsv = bnd ask_now (\<lambda>now. stmt (\<lambda>t.
     let v = dsv\<lparr>v_ID := next_id (map v_ID (t_dataset_versions t)), v_CreatedAt := now, v_UpdatedAt := now\<rparr>
     in Inr (v, t\<lparr>t_dataset_versions := t_dataset_versions t @ [v]\<rparr>)))"

definition UpdateDatasetVersion :: "version_row \<Rightarrow> ('m, version_row) dbm" where
  "UpdateDatasetVersion dsv = bnd ask_now (\<lambda>now. stmt (\<lambda>t.
     let v = dsv\<lparr>v_UpdatedAt := now\<rparr>
     in Inr (v, t\<lparr>t_dataset_versions := save_row v_ID v (t_dataset_versions t)\<rparr>)))"

definition RecoverDatasetVersion :: "version_row \<Rightarrow> ('m, unit) dbm" where
  "RecoverDatasetVersion dsv = exec (\<lambda>t. t\<lparr>t_dataset_versions :=
     map (\<lambda>v. if is_version (v_Type dsv) (v_Workspace dsv) (v_Name dsv) (v_Version dsv) v
              then v\<lparr>v_Deleted := False\<rparr> else v) (t_dataset_versions t)\<rparr>)"

definition version_filter :: "string \<Rightarrow> string \<Rightarrow> string \<Rightarrow> string \<Rightarrow> version_row" where
  "version_filter dsType workspace name version =
     blank_version\<lparr>v_Type := dsType, v_Workspace := workspace, v_Name := name, v_Version := version\<rparr>"

definition GetDatasetVersion :: "string \<Rightarrow> string \<Rightarrow> string \<Rightarrow> string \<Rightarrow> ('m, version_row) dbm" where
  "GetDatasetVersion dsType workspace name version = stmt (\<lambda>t.
     case first_row (match_version (version_filter dsType workspace name version)) (t_dataset_versions t) of
       Inl e \<Rightarrow> Inl e | Inr v \<Rightarrow> Inr (v, t))"

definition GetDatasetVersionByID :: "nat \<Rightarrow> ('m, version_row) dbm" where
  "GetDatasetVersionByID i = stmt (\<lambda>t.
     case first_row (match_version (blank_version\<lparr>v_ID := i\<rparr>)) (t_dataset_versions t) of
       Inl e \<Rightarrow> Inl e | Inr v \<Rightarrow> Inr (v, t))"

definition ListDatasetVersions :: "version_row \<Rightarrow> ('m, version_row list) dbm" where
  "ListDatasetVersions q = query (\<lambda>t.
     filter (\<lambda>v. match_version q v \<and> (\<not> v_Deleted q \<longrightarrow> \<not> v_Deleted v)) (t_dataset_versions t))"

definition DeleteDatasetVersion :: "nat \<Rightarrow> ('m, unit) dbm" where
  "DeleteDatasetVersion i = exec (\<lambda>t. t\<lparr>t_dataset_versions :=
     filter (\<lambda>v. \<not> match_version (blank_version\<lparr>v_ID := i\<rparr>) v) (t_dataset_versions t)\<rparr>)"

definition db_CommitVersion :: "string \<Rightarrow> string \<Rightarrow> string \<Rightarrow> string \<Rightarrow> string \<Rightarrow> ('m, version_row) dbm" where
  "db_CommitVersion dsType workspace name version message =
     bnd (exec (\<lambda>t. t\<lparr>t_dataset_versions :=
            map (\<lambda>v. if is_version dsType workspace name version v
                     then (if message \<noteq> [] then v\<lparr>v_Editing := False, v_Message := message\<rparr>
                           else v\<lparr>v_Editing := False\<rparr>)
                     else v) (t_dataset_versions t)\<rparr>))
       (\<lambda>_. GetDatasetVersion dsType workspace name version)"

text \<open>The sum over no rows is NULL, which the columns read back as 0.\<close>

definition version_files :: "tables \<Rightarrow> version_row \<Rightarrow> file_row list" where
  "version_files t v = filter (\<lambda>f. f_Workspace f = v_Workspace v \<and> f_DatasetName f = v_Name v
     \<and> f_Version f = v_Version v \<and> f_DatasetType f = v_Type v) (t_files t)"

definition UpdateDatasetVersionSize :: "string \<Rightarrow> string \<Rightarrow> string \<Rightarrow> string \<Rightarrow> ('m, unit) dbm" where
  "UpdateDatasetVersionSize dsType workspace name version = exec (\<lambda>t. t\<lparr>t_dataset_versions :=
     map (\<lambda>v. if is_version dsType workspace name version v
              then v\<lparr>v_Size := sum_list (map f_Size (version_files t v)),
                     v_FileCount := int (length (version_files t v))\<rparr>
              else v) (t_dataset_versions t)\<rparr>)"

section \<open>Files\<close>

definition blank_file :: file_row where
  "blank_file = \<lparr>f_ID = 0, f_Path = [], f_Size = 0, f_Mode = 0, f_DatasetName = [], f_DatasetType = [],
     f_Workspace = [], f_Version = [], f_CreatedAt = 0, f_UpdatedAt = 0\<rparr>"

definition match_file :: "file_row \<Rightarrow> file_row \<Rightarrow> bool" where
  "match_file q f \<longleftrightarrow> opt_nat (f_ID q) (f_ID f) \<and> opt_str (f_Path q) (f_Path f) \<and> opt_int (f_Size q) (f_Size f)
     \<and> opt_nat (f_Mode q) (f_Mode f) \<and> opt_str (f_DatasetName q) (f_DatasetName f)
     \<and> opt_str (f_DatasetType q) (f_DatasetType f) \<and> opt_str (f_Workspace q) (f_Workspace f)
     \<and> opt_str (f_Version q) (f_Version f)"

text \<open>The unique index \<^verbatim>\<open>idx_ws_name_version_path_type\<close>.\<close>

definition file_key :: "file_row \<Rightarrow> string \<times> string \<times> string \<times> string \<times> string" where
  "file_key f = (f_Workspace f, f_DatasetType f, f_DatasetName f, f_Version f, f_Path f)"

definition same_file :: "file_row \<Rightarrow> file_row \<Rightarrow> bool" where
  "same_file a b \<longleftrightarrow> file_key a = file_key b"

definition unique_violation :: go_error where
  "unique_violation = Db_Error"

definition create_file_row :: "file_row \<Rightarrow> ('m, file_row) dbm" where
  "create_file_row file = stmt (\<lambda>t.
     if \<exists>g \<in> set (t_files t). same_file g file then Inl unique_violation
     else let f = file\<lparr>f_ID := next_id (map f_ID (t_files t))\<rparr> in Inr (f, t\<lparr>t_files := t_files t @ [f]\<rparr>))"

definition CreateFile :: "file_row \<Rightarrow> ('m, file_row) dbm" where
  "CreateFile file = bnd ask_now (\<lambda>now. create_file_row (file\<lparr>f_CreatedAt := now, f_UpdatedAt := now\<rparr>))"

text \<open>
  \<^verbatim>\<open>INSERT INTO files ... ON CONFLICT (...) DO UPDATE SET size=excluded.size\<close>: sqlite takes the
  rows one after the other, Postgres refuses to touch a row twice in one statement.
\<close>

definition upsert_file :: "file_row \<Rightarrow> file_row list \<Rightarrow> file_row list" where
  "upsert_file f rows =
     (if \<exists>g \<in> set rows. same_file g f then map (\<lambda>g. if same_file g f then g\<lparr>f_Size := f_Size f\<rparr> else g) rows
      else rows @ [f\<lparr>f_ID := next_id (map f_ID rows)\<rparr>])"

definition syntax_error :: go_error where
  "syntax_error = Errorf ''syntax error''"

definition insert_files :: "string \<Rightarrow> file_row list \<Rightarrow> ('m, unit) dbm" where
  "insert_files dbtype files = stmt (\<lambda>t.
     if files = [] then Inl syntax_error
     else if dbtype = ''postgres'' \<and> \<not> distinct (map file_key files)
       then Inl (Errorf ''ON CONFLICT DO UPDATE command cannot affect row a second time'')
     else Inr ((), t\<lparr>t_files := fold upsert_file files (t_files t)\<rparr>))"

text \<open>Places each found row at the index its key has in the request; a place beyond the end panics.\<close>

fun place_rows :: "('r \<Rightarrow> nat) \<Rightarrow> 'r list \<Rightarrow> 'r option list \<Rightarrow> 'r option list option" where
  "place_rows place [] out = Some out"
| "place_rows place (r # rs) out =
     (if place r < length out then place_rows place rs (out[place r := Some r]) else None)"

text \<open>The index that the Go map of a key ends with: the last one; a key that is absent gives 0.\<close>

definition last_index :: "'k list \<Rightarrow> 'k \<Rightarrow> nat" where
  "last_index ks k = foldl (\<lambda>acc (i, x). if x = k then i else acc) 0 (zip [0..<length ks] ks)"

text \<open>The rows carry the columns that \<^verbatim>\<open>Select("id,path")\<close> asks for. The error comes with the rows.\<close>

definition ListFilesByPath ::
  "file_row list \<Rightarrow> string \<Rightarrow> string \<Rightarrow> string \<Rightarrow> string \<Rightarrow> ('m, (file_row option list \<times> go_error option)) dbm" where
  "ListFilesByPath files dsType workspace dsName version =
     attempt
       (if files = [] then stmt (\<lambda>t. Inl syntax_error) else query (\<lambda>t.
          map (\<lambda>f. blank_file\<lparr>f_ID := f_ID f, f_Path := f_Path f\<rparr>)
            (filter (\<lambda>f. f_Path f \<in> set (map f_Path files) \<and> f_DatasetType f = dsType \<and> f_Workspace f = workspace
                       \<and> f_DatasetName f = dsName \<and> f_Version f = version) (t_files t))))
       (\<lambda>r. let filesDB = (case r of Inl _ \<Rightarrow> [] | Inr rows \<Rightarrow> rows);
                err = (case r of Inl e \<Rightarrow> Some e | Inr _ \<Rightarrow> None)
            in bnd (lift_option (place_rows (\<lambda>f. last_index (map f_Path files) (f_Path f)) filesDB
                                   (replicate (length filesDB) None)))
                 (\<lambda>newFiles. ret (newFiles, err)))"

text \<open>\<^verbatim>\<open>f.ID = newFiles[i].ID\<close> for each file: a missing place or a nil entry panics.\<close>

fun assign_ids :: "file_row list \<Rightarrow> file_row option list \<Rightarrow> file_row list option" where
  "assign_ids [] rows = Some []"
| "assign_ids (f # fs) [] = None"
| "assign_ids (f # fs) (None # rows) = None"
| "assign_ids (f # fs) (Some r # rows) = map_option (\<lambda>gs. f\<lparr>f_ID := f_ID r\<rparr> # gs) (assign_ids fs rows)"

definition CreateFiles :: "file_row list \<Rightarrow> ('m, file_row list) dbm" where
  "CreateFiles files0 = bnd ask_now (\<lambda>now. bnd ask_type (\<lambda>dbtype.
     let files = map (\<lambda>f. f\<lparr>f_CreatedAt := now, f_UpdatedAt := now\<rparr>) files0 in
     if dbtype = ''postgres'' \<or> dbtype = ''sqlite3'' then
       bnd (insert_files dbtype files) (\<lambda>_.
         case files of [] \<Rightarrow> crash
         | f # _ \<Rightarrow>
             bnd (ListFilesByPath files (f_DatasetType f) (f_Workspace f) (f_DatasetName f) (f_Version f))
               (\<lambda>(newFiles, err). lift_option (assign_ids files newFiles)))
     else map_each create_file_row files))"

definition UpdateFile :: "file_row \<Rightarrow> ('m, file_row) dbm" where
  "UpdateFile file = bnd ask_now (\<lambda>now. stmt (\<lambda>t.
     let f = file\<lparr>f_UpdatedAt := now\<rparr> in Inr (f, t\<lparr>t_files := save_row f_ID f (t_files t)\<rparr>)))"

definition file_filter :: "string \<Rightarrow> string \<Rightarrow> string \<Rightarrow> string \<Rightarrow> string \<Rightarrow> file_row" where
  "file_filter workspace dataset dsType path version =
     blank_file\<lparr>f_Workspace := workspace, f_DatasetName := dataset, f_Version := version, f_Path := path,
                f_DatasetType := dsType\<rparr>"

definition db_GetFile :: "string \<Rightarrow> string \<Rightarrow> string \<Rightarrow> string \<Rightarrow> string \<Rightarrow> ('m, file_row) dbm" where
  "db_GetFile workspace dataset dsType path version = stmt (\<lambda>t.
     case first_row (match_file (file_filter workspace dataset dsType path version)) (t_files t) of
       Inl e \<Rightarrow> Inl e | Inr f \<Rightarrow> Inr (f, t))"

definition ForceCreateFile :: "file_row \<Rightarrow> ('m, file_row) dbm" where
  "ForceCreateFile file0 = bnd ask_now (\<lambda>now. bnd ask_type (\<lambda>dbtype.
     let file = file0\<lparr>f_CreatedAt := now, f_UpdatedAt := now\<rparr> in
     if dbtype = ''postgres'' then
       stmt (\<lambda>t. case find (\<lambda>g. same_file g file) (t_files t) of
           Some g \<Rightarrow> Inr (file\<lparr>f_ID := f_ID g\<rparr>,
             t\<lparr>t_files := map (\<lambda>h. if same_file h file
                                 then h\<lparr>f_Size := f_Size file, f_Mode := f_Mode file, f_UpdatedAt := now\<rparr> else h)
                         (t_files t)\<rparr>)
         | None \<Rightarrow> (let f = file\<lparr>f_ID := next_id (map f_ID (t_files t))\<rparr>
                   in Inr (f, t\<lparr>t_files := t_files t @ [f]\<rparr>)))
     else
       attempt (db_GetFile (f_Workspace file) (f_DatasetName file) (f_DatasetType file) (f_Path file) (f_Version file))
         (\<lambda>r. case r of
            Inl _ \<Rightarrow> create_file_row file
          | Inr old \<Rightarrow> UpdateFile (file\<lparr>f_ID := f_ID old, f_Size := f_Size old, f_Mode := f_Mode old\<rparr>))))"

definition ListFiles :: "file_row \<Rightarrow> ('m, file_row list) dbm" where
  "ListFiles q = query (\<lambda>t. filter (match_file q) (t_files t))"

definition DeleteFile :: "nat \<Rightarrow> ('m, unit) dbm" where
  "DeleteFile i = exec (\<lambda>t. t\<lparr>t_files := filter (\<lambda>f. \<not> match_file (blank_file\<lparr>f_ID := i\<rparr>) f) (t_files t)\<rparr>)"

section \<open>Chunks\<close>

text \<open>\<^verbatim>\<open>RawFile\<close>: a chunk of a file, as it is read from and sent to the database.\<close>

record raw_file =
  r_FileID :: nat
  r_ChunkID :: nat
  r_Path :: string
  r_FileSize :: int
  r_ChunkIndex :: nat
  r_FileMode :: nat
  r_ChunkSize :: int
  r_Hash :: string
  r_UpdatedAt :: int
  r_Version :: nat

definition blank_chunk :: chunk_row where
  "blank_chunk = \<lparr>c_ID = 0, c_Hash = [], c_Size = 0, c_Version = 0\<rparr>"

definition match_chunk :: "chunk_row \<Rightarrow> chunk_row \<Rightarrow> bool" where
  "match_chunk q c \<longleftrightarrow> opt_nat (c_ID q) (c_ID c) \<and> opt_str (c_Hash q) (c_Hash c) \<and> opt_int (c_Size q) (c_Size c)
     \<and> opt_nat (c_Version q) (c_Version c)"

text \<open>\<^verbatim>\<open>INSERT ... ON CONFLICT (hash) DO UPDATE\<close> with what the update sets.\<close>

definition upsert_chunk :: "(chunk_row \<Rightarrow> chunk_row) \<Rightarrow> chunk_row \<Rightarrow> chunk_row list \<Rightarrow> chunk_row list" where
  "upsert_chunk upd c rows =
     (if c_Hash c \<in> set (map c_Hash rows) then map (\<lambda>g. if c_Hash g = c_Hash c then upd g else g) rows
      else rows @ [c\<lparr>c_ID := next_id (map c_ID rows)\<rparr>])"

text \<open>\<^verbatim>\<open>First\<close> orders by the primary key, which is the hash here; the keys of the other tables grow with insertion.\<close>

definition chunks_by_key :: "tables \<Rightarrow> chunk_row list" where
  "chunks_by_key t = sort_by (\<lambda>a b. c_Hash a < c_Hash b) (t_chunks t)"

definition db_GetChunk :: "string \<Rightarrow> ('m, chunk_row) dbm" where
  "db_GetChunk hash = stmt (\<lambda>t. case first_row (match_chunk (blank_chunk\<lparr>c_Hash := hash\<rparr>)) (chunks_by_key t) of
       Inl e \<Rightarrow> Inl e | Inr c \<Rightarrow> Inr (c, t))"

definition create_chunk_row :: "chunk_row \<Rightarrow> ('m, chunk_row) dbm" where
  "create_chunk_row chunk = stmt (\<lambda>t.
     if c_Hash chunk \<in> set (map c_Hash (t_chunks t)) then Inl unique_violation
     else let c = chunk\<lparr>c_ID := next_id (map c_ID (t_chunks t))\<rparr> in Inr (c, t\<lparr>t_chunks := t_chunks t @ [c]\<rparr>))"

definition CreateChunk :: "chunk_row \<Rightarrow> ('m, chunk_row) dbm" where
  "CreateChunk chunk = bnd ask_type (\<lambda>dbtype.
     let upsert = upsert_chunk (\<lambda>g. g\<lparr>c_Size := c_Size chunk\<rparr>) chunk in
     if dbtype = ''postgres'' then
       stmt (\<lambda>t. let rows = upsert (t_chunks t) in
         case find (\<lambda>g. c_Hash g = c_Hash chunk) rows of
           None \<Rightarrow> Inl Record_Not_Found
         | Some g \<Rightarrow> Inr (chunk\<lparr>c_ID := c_ID g\<rparr>, t\<lparr>t_chunks := rows\<rparr>))
     else if dbtype = ''sqlite3'' then
       bnd (exec (\<lambda>t. t\<lparr>t_chunks := upsert (t_chunks t)\<rparr>))
         (\<lambda>_. bnd (db_GetChunk (c_Hash chunk)) (\<lambda>updated. ret (chunk\<lparr>c_ID := c_ID updated\<rparr>)))
     else create_chunk_row chunk)"

text \<open>The placeholders of an empty request are a slice \<^verbatim>\<open>[:-1]\<close>, which panics.\<close>

definition ListChunksByUniqueHash :: "raw_file list \<Rightarrow> ('m, chunk_row list) dbm" where
  "ListChunksByUniqueHash hashes =
     (if hashes = [] then crash
      else query (\<lambda>t. filter (\<lambda>c. c_Hash c \<in> set (map r_Hash hashes)) (t_chunks t)))"

definition ListChunksByHash :: "raw_file list \<Rightarrow> ('m, chunk_row option list) dbm" where
  "ListChunksByHash hashes =
     (if hashes = [] then crash
      else bnd (query (\<lambda>t. filter (\<lambda>c. c_Hash c \<in> set (map r_Hash hashes)) (t_chunks t)))
        (\<lambda>chunks. lift_option
           (place_rows (\<lambda>c. last_index (map r_Hash hashes) (c_Hash c)) chunks (replicate (length chunks) None))))"

text \<open>The maps \<^verbatim>\<open>exclusivesMap\<close> (the last record of each hash) and, through it, \<^verbatim>\<open>chunkMap\<close>.\<close>

definition exclusives :: "raw_file list \<Rightarrow> raw_file list" where
  "exclusives raws = map snd (fold (\<lambda>raw m. AList.update (r_Hash raw) raw m) raws [])"

definition chunk_of_raw :: "raw_file \<Rightarrow> chunk_row" where
  "chunk_of_raw raw = \<lparr>c_ID = 0, c_Hash = r_Hash raw, c_Size = r_ChunkSize raw, c_Version = r_Version raw\<rparr>"

definition insert_chunks :: "raw_file list \<Rightarrow> ('m, unit) dbm" where
  "insert_chunks raws = stmt (\<lambda>t.
     if raws = [] then Inl syntax_error
     else Inr ((), t\<lparr>t_chunks := fold (\<lambda>raw. upsert_chunk
            (\<lambda>g. g\<lparr>c_Size := r_ChunkSize raw, c_Version := r_Version raw\<rparr>) (chunk_of_raw raw)) raws (t_chunks t)\<rparr>))"

text \<open>Each found chunk gives its ID to the records of its hash; a nil entry panics.\<close>

definition assign_chunk_ids :: "chunk_row list \<Rightarrow> raw_file list \<Rightarrow> raw_file list" where
  "assign_chunk_ids chunks raws =
     fold (\<lambda>c. map (\<lambda>raw. if r_Hash raw = c_Hash c then raw\<lparr>r_ChunkID := c_ID c\<rparr> else raw)) chunks raws"

definition all_present :: "'a option list \<Rightarrow> 'a list option" where
  "all_present xs = (if None \<in> set xs then None else Some (map the xs))"

definition CreateChunks :: "raw_file list \<Rightarrow> ('m, raw_file list) dbm" where
  "CreateChunks raws = bnd ask_type (\<lambda>dbtype.
     let ex = exclusives raws in
     bnd (if dbtype = ''postgres'' \<or> dbtype = ''sqlite3'' then
            bnd (insert_chunks ex) (\<lambda>_. ListChunksByHash ex)
          else
            map_each (\<lambda>raw. bnd (CreateChunk (blank_chunk\<lparr>c_Hash := r_Hash raw, c_Size := r_ChunkSize raw\<rparr>))
                              (\<lambda>c. ret (Some c))) ex)
       (\<lambda>rows. bnd (lift_option (all_present rows)) (\<lambda>chunks. ret (assign_chunk_ids chunks raws))))"

definition UpdateChunk :: "chunk_row \<Rightarrow> ('m, chunk_row) dbm" where
  "UpdateChunk chunk = stmt (\<lambda>t. Inr (chunk, t\<lparr>t_chunks :=
     (if c_Hash chunk \<in> set (map c_Hash (t_chunks t))
      then map (\<lambda>c. if c_Hash c = c_Hash chunk then chunk else c) (t_chunks t)
      else t_chunks t @ [chunk])\<rparr>))"

definition GetChunkByID :: "nat \<Rightarrow> ('m, chunk_row) dbm" where
  "GetChunkByID chunkID = stmt (\<lambda>t. case first_row (match_chunk (blank_chunk\<lparr>c_ID := chunkID\<rparr>)) (chunks_by_key t) of
       Inl e \<Rightarrow> Inl e | Inr c \<Rightarrow> Inr (c, t))"

definition ListChunks :: "chunk_row \<Rightarrow> ('m, chunk_row list) dbm" where
  "ListChunks q = query (\<lambda>t. filter (match_chunk q) (t_chunks t))"

definition DeleteChunk :: "nat \<Rightarrow> ('m, unit) dbm" where
  "DeleteChunk i = exec (\<lambda>t. t\<lparr>t_chunks := filter (\<lambda>c. \<not> match_chunk (blank_chunk\<lparr>c_ID := i\<rparr>) c) (t_chunks t)\<rparr>)"

definition DeleteChunks :: "chunk_row list \<Rightarrow> ('m, unit) dbm" where
  "DeleteChunks chunks = exec (\<lambda>t. t\<lparr>t_chunks := filter (\<lambda>c. c_ID c \<notin> set (map c_ID chunks)) (t_chunks t)\<rparr>)"

section \<open>Links between files and chunks\<close>

definition match_link :: "file_chunk \<Rightarrow> file_chunk \<Rightarrow> bool" where
  "match_link q l \<longleftrightarrow> opt_nat (l_FileID q) (l_FileID l) \<and> opt_nat (l_ChunkID q) (l_ChunkID l)
     \<and> opt_nat (l_Index q) (l_Index l)"

text \<open>
  The conflict target of this statement, \<^verbatim>\<open>(file_id,chunk_id)\<close>, is not the unique index of the
  table (\<^verbatim>\<open>file_id, chunk_id, chunk_index\<close>): sqlite and Postgres reject the statement.
\<close>

definition create_link_row :: "file_chunk \<Rightarrow> ('m, unit) dbm" where
  "create_link_row l = stmt (\<lambda>t.
     if l \<in> set (t_file_chunks t) then Inl unique_violation
     else Inr ((), t\<lparr>t_file_chunks := t_file_chunks t @ [l]\<rparr>))"

definition CreateFileChunk :: "file_chunk \<Rightarrow> ('m, unit) dbm" where
  "CreateFileChunk file = bnd ask_type (\<lambda>dbtype.
     if dbtype = ''sqlite3'' \<or> dbtype = ''postgres''
     then stmt (\<lambda>t. Inl (Errorf ''ON CONFLICT clause does not match any PRIMARY KEY or UNIQUE constraint''))
     else create_link_row file)"

definition insert_link :: "file_chunk \<Rightarrow> file_chunk list \<Rightarrow> file_chunk list" where
  "insert_link l ls = (if l \<in> set ls then ls else ls @ [l])"

definition CreateFileChunks :: "file_chunk list \<Rightarrow> ('m, unit) dbm" where
  "CreateFileChunks fileChunks = bnd ask_type (\<lambda>dbtype.
     if dbtype = ''postgres'' \<or> dbtype = ''sqlite3'' then
       stmt (\<lambda>t. if fileChunks = [] then Inl syntax_error
                 else Inr ((), t\<lparr>t_file_chunks := fold insert_link fileChunks (t_file_chunks t)\<rparr>))
     else for_each (\<lambda>raw. create_link_row \<lparr>l_FileID = l_FileID raw, l_ChunkID = l_ChunkID raw, l_Index = 0\<rparr>)
            fileChunks)"

definition GetFileChunk :: "nat \<Rightarrow> nat \<Rightarrow> int \<Rightarrow> ('m, file_chunk) dbm" where
  "GetFileChunk fileID chunkID idx = stmt (\<lambda>t.
     case first_row (match_link \<lparr>l_FileID = fileID, l_ChunkID = chunkID,
                                  l_Index = (if idx \<noteq> - 1 then nat (idx mod 2 ^ 64) else 0)\<rparr>) (t_file_chunks t) of
       Inl e \<Rightarrow> Inl e | Inr l \<Rightarrow> Inr (l, t))"

definition ListFileChunks :: "file_chunk \<Rightarrow> ('m, file_chunk list) dbm" where
  "ListFileChunks q = query (\<lambda>t. filter (match_link q) (t_file_chunks t))"

definition ListFileChunksByChunks :: "chunk_row list \<Rightarrow> ('m, file_chunk list) dbm" where
  "ListFileChunksByChunks chunks =
     query (\<lambda>t. filter (\<lambda>l. l_ChunkID l \<in> set (map c_ID chunks)) (t_file_chunks t))"

definition DeleteFileChunk :: "nat \<Rightarrow> nat \<Rightarrow> ('m, unit) dbm" where
  "DeleteFileChunk fileID chunkID = exec (\<lambda>t. t\<lparr>t_file_chunks :=
     filter (\<lambda>l. \<not> match_link \<lparr>l_FileID = fileID, l_ChunkID = chunkID, l_Index = 0\<rparr> l) (t_file_chunks t)\<rparr>)"

text \<open>The condition on files shared by the next statements; no version, no condition on it.\<close>

definition file_cond :: "string \<Rightarrow> string \<Rightarrow> string \<Rightarrow> string \<Rightarrow> string \<Rightarrow> string \<Rightarrow> bool \<Rightarrow> file_row \<Rightarrow> bool" where
  "file_cond dbtype dsType workspace dataset version pre precise f \<longleftrightarrow>
     f_Workspace f = workspace \<and> f_DatasetName f = dataset \<and> f_DatasetType f = dsType
     \<and> (version = [] \<or> f_Version f = version) \<and> path_cond dbtype pre precise (f_Path f)"

definition ListRelatedChunksForFiles ::
  "string \<Rightarrow> string \<Rightarrow> string \<Rightarrow> string \<Rightarrow> string \<Rightarrow> bool \<Rightarrow> ('m, file_chunk list) dbm" where
  "ListRelatedChunksForFiles dsType workspace dataset version pre preciseName = bnd ask_type (\<lambda>dbtype.
     query (\<lambda>t. concat (map (\<lambda>l.
        map (\<lambda>f. l) (filter (\<lambda>f. file_cond dbtype dsType workspace dataset version pre preciseName f
                               \<and> l_FileID l = f_ID f) (t_files t))) (t_file_chunks t))))"

definition ListRelatedChunks :: "string \<Rightarrow> string \<Rightarrow> string \<Rightarrow> string \<Rightarrow> ('m, file_chunk list) dbm" where
  "ListRelatedChunks dsType workspace dataset version =
     ListRelatedChunksForFiles dsType workspace dataset version [] False"

definition db_DeleteFiles ::
  "string \<Rightarrow> string \<Rightarrow> string \<Rightarrow> string \<Rightarrow> string \<Rightarrow> bool \<Rightarrow> ('m, int) dbm" where
  "db_DeleteFiles dsType workspace dataset version pre preciseName = bnd ask_type (\<lambda>dbtype.
     let P = file_cond dbtype dsType workspace dataset version pre preciseName in
     bnd (exec (\<lambda>t. t\<lparr>t_file_chunks :=
            filter (\<lambda>l. l_FileID l \<notin> set (map f_ID (filter P (t_files t)))) (t_file_chunks t)\<rparr>))
       (\<lambda>_. stmt (\<lambda>t. Inr (int (length (filter P (t_files t))),
                        t\<lparr>t_files := filter (\<lambda>f. \<not> P f) (t_files t)\<rparr>))))"

definition DeleteRelatedFiles :: "string \<Rightarrow> string \<Rightarrow> string \<Rightarrow> string \<Rightarrow> ('m, int) dbm" where
  "DeleteRelatedFiles dsType workspace dataset version = db_DeleteFiles dsType workspace dataset version [] False"

text \<open>
  The join of links, files and chunks, ordered by the index of the chunk. Which of the rows of
  one index comes first is left open by SQL; here it is the older link.
\<close>

definition raw_of_rows :: "file_chunk \<Rightarrow> file_row \<Rightarrow> chunk_row \<Rightarrow> raw_file" where
  "raw_of_rows l f c = \<lparr>r_FileID = l_FileID l, r_ChunkID = l_ChunkID l, r_Path = f_Path f, r_FileSize = f_Size f,
     r_ChunkIndex = l_Index l, r_FileMode = f_Mode f, r_ChunkSize = c_Size c, r_Hash = c_Hash c,
     r_UpdatedAt = f_UpdatedAt f, r_Version = c_Version c\<rparr>"

definition joined :: "(file_row \<Rightarrow> bool) \<Rightarrow> tables \<Rightarrow> raw_file list" where
  "joined P t = concat (map (\<lambda>l. concat (map (\<lambda>f. map (\<lambda>c. raw_of_rows l f c)
       (filter (\<lambda>c. c_ID c = l_ChunkID l) (t_chunks t)))
       (filter (\<lambda>f. f_ID f = l_FileID l \<and> P f) (t_files t)))) (t_file_chunks t))"

definition raw_files :: "string \<Rightarrow> string \<Rightarrow> string \<Rightarrow> string \<Rightarrow> string \<Rightarrow> string \<Rightarrow> bool \<Rightarrow> tables \<Rightarrow> raw_file list" where
  "raw_files dbtype dsType workspace dataset version pre precise t =
     sort_key r_ChunkIndex (joined (file_cond dbtype dsType workspace dataset version pre precise) t)"

definition GetRawFiles ::
  "string \<Rightarrow> string \<Rightarrow> string \<Rightarrow> string \<Rightarrow> string \<Rightarrow> bool \<Rightarrow> ('m, raw_file list) dbm" where
  "GetRawFiles dsType workspace dataset version pre precise = bnd ask_type (\<lambda>dbtype.
     query (raw_files dbtype dsType workspace dataset version pre precise))"

end
