(* ===== verification/VersionFS.thy ===== *)
theory VersionFS
  imports ChunkedFS DbManagers
begin

text \<open>
  \<^verbatim>\<open>GetFS\<close> of \<^verbatim>\<open>pkg/db/filechunks.go\<close>: the tree of a version, built from the joined rows of
  its files and chunks. \<open>dataDir\<close> is the data directory that the chunk paths start with; a hash
  too short for its layout is a panic (\<open>None\<close>).
\<close>

section \<open>Building the tree\<close>

definition raw_chunk :: "string \<Rightarrow> raw_file \<Rightarrow> chunk option" where
  "raw_chunk dataDir raw = map_option
     (\<lambda>p. \<lparr>ck_Path = p, ck_Size = r_ChunkSize raw, ck_Version = r_Version raw\<rparr>)
     (GetHashedFilename dataDir (r_Hash raw) (r_Version raw))"

text \<open>The chunk joins the file of its name, or starts it.\<close>

definition raw_to_file :: "string \<Rightarrow> raw_file \<Rightarrow> chunk \<Rightarrow> chunked_file option \<Rightarrow> chunked_file" where
  "raw_to_file partPath raw ch old =
     (case old of Some f \<Rightarrow> f\<lparr>cf_Chunks := cf_Chunks f @ [ch]\<rparr>
      | None \<Rightarrow> new_file [ch] partPath (r_FileSize raw) (r_FileMode raw) False (r_UpdatedAt raw))"

definition set_Files :: "fs \<Rightarrow> string \<Rightarrow> chunked_file \<Rightarrow> fs" where
  "set_Files fs k f = FS (fs_Root fs) (fs_AsFile fs) (fs_Dirs fs) (AList.update k f (fs_Files fs)) (fs_ModTime fs)"

definition set_Dirs :: "fs \<Rightarrow> string \<Rightarrow> fs \<Rightarrow> fs" where
  "set_Dirs fs k d = FS (fs_Root fs) (fs_AsFile fs) (AList.update k d (fs_Dirs fs)) (fs_Files fs) (fs_ModTime fs)"

text \<open>
  The loop over the parts of a path: \<open>pre\<close> holds the parts already passed, \<open>fs\<close> is
  \<^verbatim>\<open>curDir\<close>. A change below a directory is a change of that directory in the tree.
\<close>

fun put_raw :: "string \<Rightarrow> raw_file \<Rightarrow> string list \<Rightarrow> string list \<Rightarrow> fs \<Rightarrow> fs option" where
  "put_raw dataDir raw pre [] fs = Some fs"
| "put_raw dataDir raw pre [partPath] fs =
     map_option (\<lambda>ch. set_Files fs partPath (raw_to_file partPath raw ch (map_of (fs_Files fs) partPath)))
       (raw_chunk dataDir raw)"
| "put_raw dataDir raw pre (partPath # q # rest) fs =
     (let dirname = join_path (pre @ [partPath]) in
      if dirname = ''/'' then put_raw dataDir raw (pre @ [partPath]) (q # rest) fs
      else let fs1 = AddDir fs dirname (r_UpdatedAt raw); base = path_base dirname in
        (case map_of (fs_Dirs fs1) base of
           None \<Rightarrow> None
         | Some sub \<Rightarrow> map_option (set_Dirs fs1 base) (put_raw dataDir raw (pre @ [partPath]) (q # rest) sub)))"

fun put_raws :: "string \<Rightarrow> raw_file list \<Rightarrow> fs \<Rightarrow> fs option" where
  "put_raws dataDir [] fs = Some fs"
| "put_raws dataDir (raw # raws) fs =
     Option.bind (put_raw dataDir raw [] (split_path (r_Path raw)) fs) (put_raws dataDir raws)"

definition new_fs :: "raw_file list \<Rightarrow> int \<Rightarrow> fs" where
  "new_fs rawFiles now =
     new_dir ''/'' (case rawFiles of [] \<Rightarrow> now - 3600000000000 | raw # _ \<Rightarrow> r_UpdatedAt raw)"

definition GetFS :: "string \<Rightarrow> string \<Rightarrow> string \<Rightarrow> string \<Rightarrow> string \<Rightarrow> ('m, fs) dbm" where
  "GetFS dataDir dsType workspace dataset version =
     bnd (GetRawFiles dsType workspace dataset version [] False) (\<lambda>rawFiles.
       bnd ask_now (\<lambda>now. lift_option (put_raws dataDir rawFiles (new_fs rawFiles now))))"

section \<open>One record\<close>

lemma map_of_AddDir:
  "map_of (fs_Dirs (AddDir fs path t)) k =
     (if k = path_base path \<and> map_of (fs_Dirs fs) k = None then Some (new_dir path t) else map_of (fs_Dirs fs) k)"
  "fs_Files (AddDir fs path t) = fs_Files fs" "fs_Root (AddDir fs path t) = fs_Root fs"
  by (auto simp: AddDir_def Let_def split: option.splits)

lemma set_fields [simp]:
  "fs_Files (set_Files fs k f) = AList.update k f (fs_Files fs)" "fs_Dirs (set_Files fs k f) = fs_Dirs fs"
  "fs_Files (set_Dirs fs k d) = fs_Files fs" "fs_Dirs (set_Dirs fs k d) = AList.update k d (fs_Dirs fs)"
  "fs_Root (set_Files fs k f) = fs_Root fs" "fs_Root (set_Dirs fs k d) = fs_Root fs"
  by (simp_all add: set_Files_def set_Dirs_def)

lemma plain_pre: "plain_comps (pre @ c # cs) \<Longrightarrow> plain_comps (pre @ [c]) \<and> plain_comp c"
  by (auto simp: plain_comps_def)

lemma plain_dirname:
  "plain_comps (pre @ [c]) \<Longrightarrow> join_path (pre @ [c]) \<noteq> ''/'' \<and> path_base (join_path (pre @ [c])) = c"
  using hd_join_plain [of "pre @ [c]"] by (auto simp: path_base_join)

lemma find_file_new_dir [simp]: "find_file (new_dir p t) cs = None"
proof (cases cs)
  case (Cons c ds)
  then show ?thesis by (cases ds) (simp_all add: new_dir_def)
qed simp

lemma Root_new_dir [simp]: "fs_Root (new_dir p t) = p"
  by (simp add: new_dir_def)

lemma descend_new_dir [simp]: "descend (new_dir p t) cs = (if cs = [] then Some (new_dir p t) else None)"
  by (cases cs) (simp_all add: new_dir_def)

lemma find_file_cong:
  "fs_Files a = fs_Files b \<Longrightarrow> fs_Dirs a = fs_Dirs b \<Longrightarrow> find_file a q = find_file b q"
  by (cases q rule: remdups_adj.cases) simp_all

lemma put_raw_find:
  assumes "raw_chunk dataDir raw = Some ch" and "plain_comps (pre @ cs)" and "cs \<noteq> []"
  shows "\<exists>fs'. put_raw dataDir raw pre cs fs = Some fs' \<and> fs_Root fs' = fs_Root fs
       \<and> (\<forall>q. find_file fs' q = (if q = cs then Some (raw_to_file (last cs) raw ch (find_file fs cs)) else find_file fs q))
       \<and> (\<forall>q. descend fs' q \<noteq> None \<longleftrightarrow> descend fs q \<noteq> None \<or> strict_prefix q cs)"
  using assms
proof (induction dataDir raw pre cs fs rule: put_raw.induct)
  case (2 dataDir raw pre part fs)
  let ?fs' = "set_Files fs part (raw_to_file part raw ch (map_of (fs_Files fs) part))"
  have f: "find_file ?fs' q = (if q = [part] then Some (raw_to_file part raw ch (find_file fs [part])) else find_file fs q)" for q
    by (cases q rule: remdups_adj.cases) simp_all
  have d: "descend ?fs' q \<noteq> None \<longleftrightarrow> descend fs q \<noteq> None \<or> strict_prefix q [part]" for q
    by (cases q) (auto simp: strict_prefix_def)
  show ?case using 2 f d by auto
next
  case (3 dataDir raw pre part q rest fs)
  note pl = plain_pre [OF 3(4)]
  let ?dn = "join_path (pre @ [part])"
  note dn = plain_dirname [OF pl [THEN conjunct1]]
  let ?fs1 = "AddDir fs ?dn (r_UpdatedAt raw)"
  obtain sub where sub: "map_of (fs_Dirs ?fs1) part = Some sub"
    and old: "sub = (case map_of (fs_Dirs fs) part of Some s \<Rightarrow> s | None \<Rightarrow> new_dir ?dn (r_UpdatedAt raw))"
    using dn by (auto simp: map_of_AddDir split: option.splits)
  have subf: "find_file sub (e # es) = find_file fs (part # e # es)" for e es
    by (simp add: old split: option.splits)
  have subd: "descend sub es \<noteq> None \<longleftrightarrow> descend fs (part # es) \<noteq> None \<or> es = []" for es
    by (simp add: old split: option.splits)
  have "\<exists>fs'. put_raw dataDir raw (pre @ [part]) (q # rest) sub = Some fs' \<and> fs_Root fs' = fs_Root sub
       \<and> (\<forall>p. find_file fs' p = (if p = q # rest then Some (raw_to_file (last (q # rest)) raw ch (find_file sub (q # rest)))
                                else find_file sub p))
       \<and> (\<forall>p. descend fs' p \<noteq> None \<longleftrightarrow> descend sub p \<noteq> None \<or> strict_prefix p (q # rest))"
    by (rule 3(2) [OF refl _ refl refl]) (use dn sub 3(3,4) in simp_all)
  then obtain s' where s': "put_raw dataDir raw (pre @ [part]) (q # rest) sub = Some s'"
    and ff: "\<And>p. find_file s' p = (if p = q # rest then Some (raw_to_file (last (q # rest)) raw ch (find_file sub (q # rest)))
                                else find_file sub p)"
    and dd: "\<And>p. descend s' p \<noteq> None \<longleftrightarrow> descend sub p \<noteq> None \<or> strict_prefix p (q # rest)"
    by blast
  let ?fs' = "set_Dirs ?fs1 part s'"
  have put: "put_raw dataDir raw pre (part # q # rest) fs = Some ?fs'"
    using dn sub s' by (simp add: Let_def)
  have f: "find_file ?fs' p = (if p = part # q # rest
      then Some (raw_to_file (last (part # q # rest)) raw ch (find_file fs (part # q # rest))) else find_file fs p)" for p
  proof (cases p rule: remdups_adj.cases)
    case (3 x y xs)
    then show ?thesis
      using ff [of "y # xs"] subf dn by (auto simp: map_of_AddDir simp del: find_file.simps(2))
  qed (simp_all add: map_of_AddDir)
  have d: "descend ?fs' p \<noteq> None \<longleftrightarrow> descend fs p \<noteq> None \<or> strict_prefix p (part # q # rest)" for p
  proof (cases p)
    case (Cons x xs)
    show ?thesis
    proof (cases "x = part")
      case True
      then show ?thesis using Cons dd [of xs] subd [of xs] by (auto simp: strict_prefix_def)
    next
      case False
      then show ?thesis using Cons dn by (simp add: map_of_AddDir strict_prefix_def)
    qed
  qed simp
  show ?case using put f d by (intro exI [of _ ?fs']) (simp add: map_of_AddDir)
qed simp

section \<open>All records\<close>

text \<open>A record that the tree can take: a path of plain parts and a hash long enough for its layout.\<close>

definition raw_ok :: "raw_file \<Rightarrow> bool" where
  "raw_ok raw \<longleftrightarrow> plain_comps (split_path (r_Path raw)) \<and> good_hash (r_Hash raw) \<and> r_Version raw \<le> 2"

lemma raw_ok_chunk: "raw_ok raw \<Longrightarrow> \<exists>ch. raw_chunk dataDir raw = Some ch"
  using good_hash_filename [of "r_Hash raw" "r_Version raw" dataDir] by (auto simp: raw_ok_def raw_chunk_def)

text \<open>The file that the records of one path make, after those already there.\<close>

definition file_of_raws :: "string \<Rightarrow> string \<Rightarrow> raw_file list \<Rightarrow> chunked_file option \<Rightarrow> chunked_file option" where
  "file_of_raws dataDir name raws old =
     foldl (\<lambda>f raw. Some (raw_to_file name raw (the (raw_chunk dataDir raw)) f)) old raws"

lemma file_of_raws_old:
  "file_of_raws dataDir name raws (Some f) = Some (f\<lparr>cf_Chunks := cf_Chunks f @ map (the \<circ> raw_chunk dataDir) raws\<rparr>)"
  by (induction raws arbitrary: f) (simp_all add: file_of_raws_def raw_to_file_def)

lemma file_of_raws_new:
  "file_of_raws dataDir name raws None =
     (case raws of [] \<Rightarrow> None
      | raw # _ \<Rightarrow> Some (new_file (map (the \<circ> raw_chunk dataDir) raws) name (r_FileSize raw) (r_FileMode raw) False
                          (r_UpdatedAt raw)))"
proof (cases raws)
  case (Cons raw rest)
  then have "file_of_raws dataDir name raws None =
      file_of_raws dataDir name rest (Some (raw_to_file name raw (the (raw_chunk dataDir raw)) None))"
    by (simp add: file_of_raws_def)
  then show ?thesis using Cons by (simp add: file_of_raws_old raw_to_file_def new_file_def)
qed (simp add: file_of_raws_def)

lemma split_path_eq: "split_path p = cs \<longleftrightarrow> cs \<noteq> [] \<and> list_all (\<lambda>c. CHR ''/'' \<notin> set c) cs \<and> p = join_path cs"
  by (auto simp: path_simps list_all_iff dest: go_split_pieces)

lemma put_raws_find:
  assumes "\<forall>raw \<in> set raws. raw_ok raw"
  shows "\<exists>fs'. put_raws dataDir raws fs = Some fs' \<and> fs_Root fs' = fs_Root fs
       \<and> (\<forall>cs. find_file fs' cs =
              file_of_raws dataDir (last cs) (filter (\<lambda>raw. split_path (r_Path raw) = cs) raws) (find_file fs cs))
       \<and> (\<forall>cs. descend fs' cs \<noteq> None \<longleftrightarrow>
              descend fs cs \<noteq> None \<or> (\<exists>raw \<in> set raws. strict_prefix cs (split_path (r_Path raw))))"
  using assms
proof (induction raws arbitrary: fs)
  case Nil
  then show ?case by (simp add: file_of_raws_def)
next
  case (Cons raw raws)
  have ok: "raw_ok raw" using Cons.prems by simp
  obtain ch where ch: "raw_chunk dataDir raw = Some ch" using raw_ok_chunk [OF ok] by blast
  let ?cs = "split_path (r_Path raw)"
  have "plain_comps ([] @ ?cs)" using ok by (simp add: raw_ok_def)
  from put_raw_find [OF ch this, of fs] obtain fs1 where
    p1: "put_raw dataDir raw [] ?cs fs = Some fs1" "fs_Root fs1 = fs_Root fs"
    and f1: "\<And>q. find_file fs1 q = (if q = ?cs then Some (raw_to_file (last ?cs) raw ch (find_file fs ?cs)) else find_file fs q)"
    and d1: "\<And>q. descend fs1 q \<noteq> None \<longleftrightarrow> descend fs q \<noteq> None \<or> strict_prefix q ?cs"
    by auto
  obtain fs2 where p2: "put_raws dataDir raws fs1 = Some fs2" "fs_Root fs2 = fs_Root fs1"
    and f2: "\<And>cs. find_file fs2 cs =
              file_of_raws dataDir (last cs) (filter (\<lambda>raw. split_path (r_Path raw) = cs) raws) (find_file fs1 cs)"
    and d2: "\<And>cs. descend fs2 cs \<noteq> None \<longleftrightarrow>
              descend fs1 cs \<noteq> None \<or> (\<exists>raw \<in> set raws. strict_prefix cs (split_path (r_Path raw)))"
    using Cons.IH [of fs1] Cons.prems by auto
  have step: "file_of_raws dataDir name (raw # rs) old =
      file_of_raws dataDir name rs (Some (raw_to_file name raw ch old))" for name rs old
    by (simp add: file_of_raws_def ch)
  show ?case
    using p1 p2 f1 f2 d1 d2 step by (intro exI [of _ fs2]) auto
qed

lemma find_file_of_version:
  assumes "\<forall>raw \<in> set raws. raw_ok raw" and "put_raws dataDir raws (new_fs raws now) = Some fs"
  shows "find_file fs cs = file_of_raws dataDir (last cs) (filter (\<lambda>raw. split_path (r_Path raw) = cs) raws) None"
    and "descend fs cs \<noteq> None \<longleftrightarrow> cs = [] \<or> (\<exists>raw \<in> set raws. strict_prefix cs (split_path (r_Path raw)))"
    and "fs_Root fs = ''/''"
  using put_raws_find [OF assms(1), of dataDir "new_fs raws now"] assms(2)
  by (auto simp: new_fs_def)

section \<open>The shape of the tree and what a walk over it visits\<close>

text \<open>\<open>fs_wf pre\<close>: the tree below the directory of parts \<open>pre\<close> carries the paths and names of its place.\<close>

fun fs_wf :: "string list \<Rightarrow> fs \<Rightarrow> bool" where
  "fs_wf pre (FS r a ds fls t) \<longleftrightarrow>
     r = (if pre = [] then ''/'' else join_path pre) \<and> distinct (map fst ds) \<and> distinct (map fst fls)
     \<and> (\<forall>(k, f) \<in> set fls. cf_Name f = k \<and> \<not> cf_Dir f \<and> plain_comp k)
     \<and> (\<forall>(k, d) \<in> set ds. plain_comp k \<and> fs_wf (pre @ [k]) d)"

fun files_of :: "string list \<Rightarrow> fs \<Rightarrow> (string list \<times> chunked_file) list" where
  "files_of pre (FS r a ds fls t) =
     concat (map (\<lambda>(k, d). files_of (pre @ [k]) d) ds) @ map (\<lambda>(k, f). (pre @ [k], f)) fls"

lemma fs_wf_sel:
  "fs_wf pre fs \<longleftrightarrow>
     fs_Root fs = (if pre = [] then ''/'' else join_path pre)
     \<and> distinct (map fst (fs_Dirs fs)) \<and> distinct (map fst (fs_Files fs))
     \<and> (\<forall>k f. map_of (fs_Files fs) k = Some f \<longrightarrow> cf_Name f = k \<and> \<not> cf_Dir f \<and> plain_comp k)
     \<and> (\<forall>k d. map_of (fs_Dirs fs) k = Some d \<longrightarrow> plain_comp k \<and> fs_wf (pre @ [k]) d)"
  by (cases fs) (auto simp: map_of_eq_Some_iff)

lemma distinct_AddDir: "distinct (map fst (fs_Dirs fs)) \<Longrightarrow> distinct (map fst (fs_Dirs (AddDir fs path t)))"
  by (auto simp: AddDir_def Let_def distinct_update split: option.splits)

lemma fs_wf_new_dir: "plain_comps (pre @ [c]) \<Longrightarrow> fs_wf (pre @ [c]) (new_dir (join_path (pre @ [c])) t)"
  by (simp add: new_dir_def)

lemma put_raw_wf:
  assumes "fs_wf pre fs" and "plain_comps (pre @ cs)" and "cs \<noteq> []" and "put_raw dataDir raw pre cs fs = Some fs'"
  shows "fs_wf pre fs'"
  using assms
proof (induction dataDir raw pre cs fs arbitrary: fs' rule: put_raw.induct)
  case (2 dataDir raw pre part fs)
  from 2(4) obtain ch where fs': "fs' = set_Files fs part (raw_to_file part raw ch (map_of (fs_Files fs) part))"
    by auto
  have "plain_comp part" using 2(2) by (simp add: plain_comps_def)
  then show ?case
    using 2(1) [unfolded fs_wf_sel [of pre fs]] unfolding fs'
    by (subst fs_wf_sel) (auto simp: distinct_update raw_to_file_def new_file_def split: if_splits option.splits)
next
  case (3 dataDir raw pre part q rest fs)
  note pl = plain_pre [OF 3(4)]
  let ?dn = "join_path (pre @ [part])"
  note dn = plain_dirname [OF pl [THEN conjunct1]]
  let ?fs1 = "AddDir fs ?dn (r_UpdatedAt raw)"
  have w1: "fs_wf pre ?fs1"
    using 3(3) [unfolded fs_wf_sel [of pre fs]] dn pl fs_wf_new_dir [of pre part "r_UpdatedAt raw"]
    by (subst fs_wf_sel) (auto simp: map_of_AddDir distinct_AddDir)
  from 3(6) dn obtain sub s' where sub: "map_of (fs_Dirs ?fs1) part = Some sub"
    and s': "put_raw dataDir raw (pre @ [part]) (q # rest) sub = Some s'" and fs': "fs' = set_Dirs ?fs1 part s'"
    by (auto simp: Let_def split: option.splits)
  have ws: "fs_wf (pre @ [part]) sub" using w1 sub unfolding fs_wf_sel [of pre ?fs1] by blast
  have w': "fs_wf (pre @ [part]) s'"
    by (rule 3(2) [OF refl _ refl refl]) (use dn sub s' ws 3(4) in simp_all)
  show ?case
    using w1 [unfolded fs_wf_sel [of pre ?fs1]] w' pl unfolding fs'
    by (subst fs_wf_sel) (auto simp: distinct_update split: if_splits)
qed simp

lemma put_raws_wf:
  "fs_wf [] fs \<Longrightarrow> \<forall>raw \<in> set raws. raw_ok raw \<Longrightarrow> put_raws dataDir raws fs = Some fs' \<Longrightarrow> fs_wf [] fs'"
  by (induction raws arbitrary: fs)
     (auto simp: raw_ok_def split: bind_splits dest!: put_raw_wf [rotated 3])

definition visit_path :: "string list \<Rightarrow> string" where
  "visit_path cs = (if length cs = 1 then ''/'' @ hd cs else join_path cs)"

lemma file_path_join:
  assumes "plain_comp n" and "list_all plain_comp pre"
  shows "path_join [if pre = [] then ''/'' else join_path pre, n] = visit_path (pre @ [n])"
proof (cases "pre = []")
  case True
  have "path_clean ''//'' = ''/''" by code_simp
  have "path_clean (CHR ''/'' # CHR ''/'' # n) = CHR ''/'' # n"
    using assms(1) by (simp add: path_clean_def Let_def go_split_no_sep plain_comp_def)
  then show ?thesis using True by (simp add: visit_path_def)
next
  case False
  have p: "plain_comps pre" "plain_comps (pre @ [n])" using False assms by (auto simp: plain_comps_def)
  have "join_path [join_path pre, n] = join_path (pre @ [n])"
    using False by (simp add: go_join_snoc)
  then show ?thesis using p False join_plain_nonempty [OF p(1)]
    by (simp add: visit_path_def path_clean_plain)
qed

text \<open>A walk passes the files of the tree to the callback, each with the path of its place.\<close>

lemma visits_files:
  "fs_wf pre fs \<Longrightarrow> list_all plain_comp pre \<Longrightarrow>
   filter (\<lambda>(p, f). \<not> cf_Dir f) (visits fs) = map (\<lambda>(cs, f). (visit_path cs, f)) (files_of pre fs)"
proof (induction pre fs rule: files_of.induct)
  case (1 pre r a ds fls t)
  have r: "r = (if pre = [] then ''/'' else join_path pre)" using 1(2) by simp
  have d: "filter (\<lambda>(p, f). \<not> cf_Dir f) (concat (map (\<lambda>(k, d). visits d) xs))
      = map (\<lambda>(cs, f). (visit_path cs, f)) (concat (map (\<lambda>(k, d). files_of (pre @ [k]) d) xs))"
    if "set xs \<subseteq> set ds" for xs
    using that
  proof (induction xs)
    case (Cons x xs)
    obtain k d where x: "x = (k, d)" by (cases x)
    have "fs_wf (pre @ [k]) d" "plain_comp k" using 1(2) Cons.prems x by auto
    then have "filter (\<lambda>(p, f). \<not> cf_Dir f) (visits d) = map (\<lambda>(cs, f). (visit_path cs, f)) (files_of (pre @ [k]) d)"
      using Cons.prems x 1(3) by (intro 1(1) [OF _ x [symmetric]]) auto
    then show ?case using Cons x by simp
  qed simp
  have f: "filter (\<lambda>(p, f). \<not> cf_Dir f) (map (\<lambda>(k, f). (path_join [r, cf_Name f], f)) xs)
      = map (\<lambda>(cs, f). (visit_path cs, f)) (map (\<lambda>(k, f). (pre @ [k], f)) xs)"
    if "set xs \<subseteq> set fls" for xs
    using that
  proof (induction xs)
    case (Cons x xs)
    obtain k g where x: "x = (k, g)" by (cases x)
    have "cf_Name g = k" "\<not> cf_Dir g" "plain_comp k" using 1(2) Cons.prems x by auto
    moreover from this have "path_join [r, k] = visit_path (pre @ [k])"
      using file_path_join [OF _ 1(3), of k] r by (simp only:)
    ultimately show ?case using Cons x by (simp del: path_join.simps)
  qed simp
  show ?case using d [OF subset_refl] f [OF subset_refl] by (simp add: dirObj_def new_file_def)
qed

lemma files_of_prefix: "(cs, f) \<in> set (files_of pre fs) \<Longrightarrow> \<exists>q. q \<noteq> [] \<and> cs = pre @ q"
  by (induction pre fs rule: files_of.induct) fastforce

lemma files_of_distinct: "fs_wf pre fs \<Longrightarrow> distinct (map fst (files_of pre fs))"
proof (induction pre fs rule: files_of.induct)
  case (1 pre r a ds fls t)
  have keys: "distinct (map fst ds)" "distinct (map fst fls)" using 1(2) by auto
  let ?sub = "\<lambda>kd. files_of (pre @ [fst kd]) (snd kd)"
  have starts: "\<exists>q. q \<noteq> [] \<and> cs = pre @ fst kd # q" if "cs \<in> fst ` set (?sub kd)" for cs kd
    using that files_of_prefix [of cs _ "pre @ [fst kd]" "snd kd"] by fastforce
  have "distinct (map fst (concat (map ?sub xs)))" if "set xs \<subseteq> set ds" "distinct (map fst xs)" for xs
    using that
  proof (induction xs)
    case (Cons x xs)
    have "fs_wf (pre @ [fst x]) (snd x)" using 1(2) Cons.prems(1) by (cases x) auto
    then have "distinct (map fst (?sub x))"
      using Cons.prems(1) by (intro 1(1) [of x]) auto
    moreover have "fst ` set (?sub x) \<inter> fst ` set (?sub y) = {}" if "y \<in> set xs" for y
      using starts [of _ x] starts [of _ y] Cons.prems(2) that by fastforce
    ultimately show ?case using Cons by (auto simp: image_iff)
  qed simp
  from this [OF subset_refl keys(1)] have d: "distinct (map fst (concat (map ?sub ds)))" .
  have f: "distinct (map fst (map (\<lambda>(k, f). (pre @ [k], f)) fls))"
    using keys(2) by (simp add: distinct_map inj_on_def case_prod_unfold comp_def)
  have disj: "fst ` set (concat (map ?sub ds)) \<inter> fst ` set (map (\<lambda>(k, f). (pre @ [k], f)) fls) = {}"
    using starts by fastforce
  show ?case
    using d f disj unfolding files_of.simps map_append distinct_append by (simp only: set_map case_prod_unfold)
qed

lemma files_of_find:
  "fs_wf pre fs \<Longrightarrow> (pre @ q, f) \<in> set (files_of pre fs) \<longleftrightarrow> find_file fs q = Some f"
proof (induction q arbitrary: pre fs)
  case Nil
  then show ?case using files_of_prefix [of pre f pre fs] by auto
next
  case (Cons k q)
  obtain r a ds fls t where fs: "fs = FS r a ds fls t" by (cases fs)
  have keys: "distinct (map fst ds)" "distinct (map fst fls)" using Cons.prems fs by auto
  show ?case
  proof (cases q)
    case Nil
    have "(pre @ [k], f) \<notin> set (files_of (pre @ [j]) d)" for j d
      using files_of_prefix [of "pre @ [k]" f "pre @ [j]" d] by auto
    then show ?thesis using Nil fs keys(2) by (auto simp: map_of_eq_Some_iff)
  next
    case (Cons e es)
    have sub: "(pre @ k # q, f) \<in> set (files_of (pre @ [j]) d) \<longleftrightarrow> j = k \<and> find_file d q = Some f"
      if "(j, d) \<in> set ds" for j d
    proof -
      have "fs_wf (pre @ [j]) d" using Cons.prems that fs by auto
      from Cons.IH [OF this] show ?thesis
        using files_of_prefix [of "pre @ k # q" f "pre @ [j]" d] by auto
    qed
    have "find_file fs (k # q) = Some f \<longleftrightarrow> (\<exists>d. (k, d) \<in> set ds \<and> find_file d q = Some f)"
    proof -
      have "find_file fs (k # q) = Option.bind (map_of ds k) (\<lambda>d. find_file d q)"
        unfolding Cons fs by (simp split: option.splits)
      then show ?thesis by (auto simp: bind_eq_Some_conv map_of_eq_Some_iff [OF keys(1)])
    qed
    moreover have "(pre @ k # q, f) \<in> set (files_of pre fs) \<longleftrightarrow> (\<exists>(j, d) \<in> set ds. (pre @ k # q, f) \<in> set (files_of (pre @ [j]) d))"
      unfolding fs using Cons by auto
    ultimately show ?thesis using sub by blast
  qed
qed

end
