(* ===== verification/Catalog.thy ===== *)
theory Catalog
  imports VersionFS
begin

text \<open>
  What the tables say about a version, as an abstract catalogue: for each path the file's
  size, mode and the chunks that make it up, in order. The operations on versions are
  specified over it, and the tree that \<^verbatim>\<open>GetFS\<close> builds is its image.
\<close>

section \<open>The catalogue of a version\<close>

text \<open>A version is named by workspace, type, dataset name and version.\<close>

type_synonym version_key = "string \<times> string \<times> string \<times> string"

fun in_version :: "version_key \<Rightarrow> file_row \<Rightarrow> bool" where
  "in_version (ws, ty, ds, ver) f \<longleftrightarrow>
     f_Workspace f = ws \<and> f_DatasetType f = ty \<and> f_DatasetName f = ds \<and> f_Version f = ver"

definition the_file :: "tables \<Rightarrow> version_key \<Rightarrow> string \<Rightarrow> file_row option" where
  "the_file t key path = find (\<lambda>f. in_version key f \<and> f_Path f = path) (t_files t)"

definition ref_of :: "chunk_row \<Rightarrow> hash_ref" where
  "ref_of c = \<lparr>h_Hash = c_Hash c, h_Size = c_Size c, h_Version = c_Version c\<rparr>"

definition links_of :: "tables \<Rightarrow> nat \<Rightarrow> file_chunk list" where
  "links_of t i = sort_key l_Index (filter (\<lambda>l. l_FileID l = i) (t_file_chunks t))"

definition linked_chunks :: "tables \<Rightarrow> file_chunk \<Rightarrow> chunk_row list" where
  "linked_chunks t l = filter (\<lambda>c. c_ID c = l_ChunkID l) (t_chunks t)"

definition chunk_refs :: "tables \<Rightarrow> nat \<Rightarrow> hash_ref list" where
  "chunk_refs t i = map ref_of (concat (map (linked_chunks t) (links_of t i)))"

record entry =
  e_Size :: int
  e_Mode :: nat
  e_Chunks :: "hash_ref list"

definition catalog :: "tables \<Rightarrow> version_key \<Rightarrow> string \<Rightarrow> entry option" where
  "catalog t key path = map_option
     (\<lambda>f. \<lparr>e_Size = f_Size f, e_Mode = f_Mode f, e_Chunks = chunk_refs t (f_ID f)\<rparr>) (the_file t key path)"

text \<open>The keys and unique indexes of the tables, and links only between rows that exist.\<close>

definition db_wf :: "tables \<Rightarrow> bool" where
  "db_wf t \<longleftrightarrow> distinct (map f_ID (t_files t)) \<and> distinct (map file_key (t_files t))
     \<and> distinct (map c_ID (t_chunks t)) \<and> distinct (map c_Hash (t_chunks t))
     \<and> distinct (t_file_chunks t)
     \<and> (\<forall>l \<in> set (t_file_chunks t). l_FileID l \<in> set (map f_ID (t_files t))
                                    \<and> l_ChunkID l \<in> set (map c_ID (t_chunks t)))
     \<and> 0 \<notin> set (map f_ID (t_files t)) \<and> 0 \<notin> set (map c_ID (t_chunks t))"

section \<open>The rows behind a path\<close>

lemma sort_key_concat:
  assumes "\<And>l x. l \<in> set ls \<Longrightarrow> x \<in> set (g l) \<Longrightarrow> f x = h l"
  shows "sort_key f (concat (map g ls)) = concat (map g (sort_key h ls))"
proof (rule properties_for_sort_key)
  show "mset (concat (map g (sort_key h ls))) = mset (concat (map g ls))"
    unfolding mset_concat sum_mset_sum_list [symmetric] by simp
next
  have fl: "filter (\<lambda>x. k = f x) (concat (map g ms)) = concat (map g (filter (\<lambda>l. h l = k) ms))"
    if "set ms \<subseteq> set ls" for ms k
    using that
  proof (induction ms)
    case (Cons m ms)
    have "filter (\<lambda>x. k = f x) (g m) = (if h m = k then g m else [])"
      using assms [of m] Cons.prems by (auto simp: filter_empty_conv intro!: filter_True)
    then show ?case using Cons by simp
  qed simp
  fix k assume "k \<in> set (concat (map g (sort_key h ls)))"
  show "filter (\<lambda>x. f k = f x) (concat (map g (sort_key h ls))) = filter (\<lambda>x. f k = f x) (concat (map g ls))"
    using fl [of ls "f k"] fl [of "sort_key h ls" "f k"] by (simp add: sort_key_stable)
next
  have "sorted (map f (concat (map g ms)))" if "sorted (map h ms)" "set ms \<subseteq> set ls" for ms
    using that
  proof (induction ms)
    case (Cons m ms)
    have "sorted (map f (g m))" using assms [of m] Cons.prems(2)
      by (auto simp: sorted_iff_nth_mono)
    then show ?case
      using Cons assms by (auto simp: sorted_append)
  qed simp
  then show "sorted (map f (concat (map g (sort_key h ls))))" by simp
qed

lemma find_unique:
  "distinct (map k xs) \<Longrightarrow> x \<in> set xs \<Longrightarrow> P x \<Longrightarrow> (\<And>y. y \<in> set xs \<Longrightarrow> P y \<Longrightarrow> k y = k x) \<Longrightarrow>
   find P xs = Some x \<and> filter P xs = [x]"
proof (induction xs)
  case (Cons y ys)
  show ?case
  proof (cases "y = x")
    case True
    have "\<not> P z" if "z \<in> set ys" for z
      using Cons.prems(1) Cons.prems(4) [of z] True that by (auto simp: image_iff)
    then show ?thesis using True Cons.prems(3) by (simp add: filter_empty_conv)
  next
    case False
    then have x: "x \<in> set ys" using Cons.prems(2) by simp
    have np: "\<not> P y" using Cons.prems(1) Cons.prems(4) [of y] x by (auto simp: image_iff)
    have "find P ys = Some x \<and> filter P ys = [x]"
    proof (rule Cons.IH [OF _ x Cons.prems(3)])
      show "distinct (map k ys)" using Cons.prems(1) by simp
    qed (rule Cons.prems(4), simp)
    then show ?thesis using np by simp
  qed
qed simp

lemma filter_concat_map:
  "(\<And>x. x \<in> set xs \<Longrightarrow> filter Q (g x) = (if R x then g x else [])) \<Longrightarrow>
   filter Q (concat (map g xs)) = concat (map g (filter R xs))"
  by (induction xs) auto

lemma in_version_key:
  "in_version key a \<Longrightarrow> in_version key b \<Longrightarrow> f_Path a = f_Path b \<Longrightarrow> file_key a = file_key b"
  by (cases key) (auto simp: file_key_def)

lemma the_file_SomeD:
  "the_file t key p = Some f \<Longrightarrow> f \<in> set (t_files t) \<and> in_version key f \<and> f_Path f = p"
  unfolding the_file_def by (metis (mono_tags, lifting) find_Some_iff nth_mem)

lemma the_file_eq:
  assumes "distinct (map file_key (t_files t))" and "f \<in> set (t_files t)" and "in_version key f"
  shows "the_file t key (f_Path f) = Some f"
  unfolding the_file_def
  by (rule find_unique [where k = file_key, THEN conjunct1])
     (use assms in \<open>auto intro: in_version_key\<close>)

lemma the_file_None: "the_file t key p = None \<longleftrightarrow> (\<forall>f \<in> set (t_files t). in_version key f \<longrightarrow> f_Path f \<noteq> p)"
  by (auto simp: the_file_def find_None_iff)

text \<open>The joined rows of one path are those of its file, link by link.\<close>

definition file_raws :: "tables \<Rightarrow> file_row \<Rightarrow> raw_file list" where
  "file_raws t f = concat (map (\<lambda>l. map (raw_of_rows l f) (linked_chunks t l)) (links_of t (f_ID f)))"

lemma joined_path:
  assumes "distinct (map file_key (t_files t))" and "distinct (map f_ID (t_files t))"
    and "the_file t key p = Some f"
  shows "filter (\<lambda>r. r_Path r = p) (joined (in_version key) t) =
     concat (map (\<lambda>l. map (raw_of_rows l f) (linked_chunks t l)) (filter (\<lambda>l. l_FileID l = f_ID f) (t_file_chunks t)))"
proof -
  note f = the_file_SomeD [OF assms(3)]
  let ?rows = "\<lambda>l g. map (raw_of_rows l g) (linked_chunks t l)"
  let ?G = "\<lambda>l. concat (map (?rows l) (filter (\<lambda>g. f_ID g = l_FileID l \<and> in_version key g) (t_files t)))"
  have G: "filter (\<lambda>r. r_Path r = p) (?G l) = (if l_FileID l = f_ID f then ?rows l f else [])" for l
  proof -
    have "filter (\<lambda>r. r_Path r = p) (?G l)
        = concat (map (?rows l) (filter (\<lambda>g. f_Path g = p) (filter (\<lambda>g. f_ID g = l_FileID l \<and> in_version key g) (t_files t))))"
      by (rule filter_concat_map) (auto simp: raw_of_rows_def filter_empty_conv intro!: filter_True)
    also have "filter (\<lambda>g. f_Path g = p) (filter (\<lambda>g. f_ID g = l_FileID l \<and> in_version key g) (t_files t))
        = filter (\<lambda>g. (f_ID g = l_FileID l \<and> in_version key g) \<and> f_Path g = p) (t_files t)"
      by (simp add: conj_commute)
    also have "\<dots> = (if l_FileID l = f_ID f then [f] else [])"
    proof (cases "l_FileID l = f_ID f")
      case True
      have "filter (\<lambda>g. (f_ID g = l_FileID l \<and> in_version key g) \<and> f_Path g = p) (t_files t) = [f]"
        by (rule find_unique [where k = file_key, THEN conjunct2, OF assms(1)])
           (use f True in \<open>auto intro: in_version_key\<close>)
      then show ?thesis using True by simp
    next
      case False
      have "\<not> ((f_ID g = l_FileID l \<and> in_version key g) \<and> f_Path g = p)" if "g \<in> set (t_files t)" for g
        using False f assms(1) that in_version_key [of key g f] by (auto simp: distinct_map inj_on_def)
      then show ?thesis using False by (simp add: filter_empty_conv)
    qed
    finally show ?thesis by simp
  qed
  have "joined (in_version key) t = concat (map ?G (t_file_chunks t))"
    by (simp add: joined_def linked_chunks_def)
  moreover have "filter (\<lambda>r. r_Path r = p) (concat (map ?G ls))
      = concat (map (\<lambda>l. ?rows l f) (filter (\<lambda>l. l_FileID l = f_ID f) ls))" for ls
    by (induction ls) (simp_all add: G)
  ultimately show ?thesis by simp
qed

lemma file_cond_version:
  "ver \<noteq> [] \<Longrightarrow> file_cond dbtype ty ws ds ver [] precise = in_version (ws, ty, ds, ver)"
  by (rule ext) (auto simp: file_cond_def path_cond_def)

lemma raws_of_path:
  assumes "db_wf t" and "ver \<noteq> []" and "the_file t (ws, ty, ds, ver) p = Some f"
  shows "filter (\<lambda>r. r_Path r = p) (raw_files dbtype ty ws ds ver [] precise t) = file_raws t f"
proof -
  have "filter (\<lambda>r. r_Path r = p) (raw_files dbtype ty ws ds ver [] precise t)
      = sort_key r_ChunkIndex (filter (\<lambda>r. r_Path r = p) (joined (in_version (ws, ty, ds, ver)) t))"
    using assms(2) by (simp add: raw_files_def file_cond_version filter_sort)
  also have "\<dots> = sort_key r_ChunkIndex (concat (map (\<lambda>l. map (raw_of_rows l f) (linked_chunks t l))
                   (filter (\<lambda>l. l_FileID l = f_ID f) (t_file_chunks t))))"
    using joined_path [OF _ _ assms(3)] assms(1) by (simp add: db_wf_def)
  also have "\<dots> = file_raws t f"
    unfolding file_raws_def links_of_def by (rule sort_key_concat) (auto simp: raw_of_rows_def)
  finally show ?thesis .
qed

lemma raws_of_no_path:
  assumes "ver \<noteq> []" and "the_file t (ws, ty, ds, ver) p = None"
  shows "filter (\<lambda>r. r_Path r = p) (raw_files dbtype ty ws ds ver [] precise t) = []"
  using assms
  by (auto simp: raw_files_def file_cond_version joined_def the_file_None filter_empty_conv raw_of_rows_def)

section \<open>The tree is the image of the catalogue\<close>

definition chunk_at :: "string \<Rightarrow> hash_ref \<Rightarrow> chunk" where
  "chunk_at dataDir r = \<lparr>ck_Path = the (GetHashedFilename dataDir (h_Hash r) (h_Version r)),
                         ck_Size = h_Size r, ck_Version = h_Version r\<rparr>"

text \<open>The file a row stands for in the tree; a file without chunks is not in it.\<close>

definition tree_file :: "string \<Rightarrow> tables \<Rightarrow> file_row \<Rightarrow> chunked_file option" where
  "tree_file dataDir t f =
     (if chunk_refs t (f_ID f) = [] then None
      else Some (new_file (map (chunk_at dataDir) (chunk_refs t (f_ID f))) (last (split_path (f_Path f)))
                  (f_Size f) (f_Mode f) False (f_UpdatedAt f)))"

definition chunks_ok :: "tables \<Rightarrow> bool" where
  "chunks_ok t \<longleftrightarrow> (\<forall>c \<in> set (t_chunks t). good_hash (c_Hash c) \<and> c_Version c \<le> 2)"

definition paths_ok :: "tables \<Rightarrow> version_key \<Rightarrow> bool" where
  "paths_ok t key \<longleftrightarrow> (\<forall>f \<in> set (t_files t). in_version key f \<longrightarrow> plain_comps (split_path (f_Path f)))"

lemma file_raws_refs: "map (\<lambda>r. \<lparr>h_Hash = r_Hash r, h_Size = r_ChunkSize r, h_Version = r_Version r\<rparr>) (file_raws t f)
    = chunk_refs t (f_ID f)"
  by (simp add: file_raws_def chunk_refs_def map_concat comp_def raw_of_rows_def ref_of_def [abs_def])

lemma file_raws_in:
  "r \<in> set (file_raws t f) \<Longrightarrow>
     r_Path r = f_Path f \<and> r_FileSize r = f_Size f \<and> r_FileMode r = f_Mode f \<and> r_UpdatedAt r = f_UpdatedAt f
     \<and> (\<exists>c \<in> set (t_chunks t). r_Hash r = c_Hash c \<and> r_Version r = c_Version c)"
  by (auto simp: file_raws_def raw_of_rows_def linked_chunks_def)

lemma raw_chunk_at:
  "good_hash (r_Hash r) \<Longrightarrow> r_Version r \<le> 2 \<Longrightarrow>
   raw_chunk dataDir r = Some (chunk_at dataDir \<lparr>h_Hash = r_Hash r, h_Size = r_ChunkSize r, h_Version = r_Version r\<rparr>)"
  using good_hash_filename [of "r_Hash r" "r_Version r" dataDir] by (auto simp: raw_chunk_def chunk_at_def)

lemma file_raws_chunks:
  assumes "chunks_ok t"
  shows "map (the \<circ> raw_chunk dataDir) (file_raws t f) = map (chunk_at dataDir) (chunk_refs t (f_ID f))"
proof -
  have "raw_chunk dataDir r = Some (chunk_at dataDir \<lparr>h_Hash = r_Hash r, h_Size = r_ChunkSize r, h_Version = r_Version r\<rparr>)"
    if "r \<in> set (file_raws t f)" for r
    using file_raws_in [OF that] assms by (intro raw_chunk_at) (auto simp: chunks_ok_def)
  then show ?thesis unfolding file_raws_refs [symmetric] by simp
qed

lemma raw_files_in:
  assumes "ver \<noteq> []" and "r \<in> set (raw_files dbtype ty ws ds ver [] precise t)"
  shows "\<exists>l f c. r = raw_of_rows l f c \<and> l \<in> set (t_file_chunks t) \<and> f \<in> set (t_files t) \<and> c \<in> set (t_chunks t)
      \<and> l_FileID l = f_ID f \<and> l_ChunkID l = c_ID c \<and> in_version (ws, ty, ds, ver) f"
  using assms(2) unfolding raw_files_def file_cond_version [OF assms(1)] by (fastforce simp: joined_def)

lemma raw_files_ok:
  assumes "chunks_ok t" and "paths_ok t (ws, ty, ds, ver)" and "ver \<noteq> []"
  shows "\<forall>r \<in> set (raw_files dbtype ty ws ds ver [] precise t). raw_ok r"
proof
  fix r assume "r \<in> set (raw_files dbtype ty ws ds ver [] precise t)"
  from raw_files_in [OF assms(3) this] show "raw_ok r"
    using assms(1,2) by (auto simp: raw_ok_def chunks_ok_def paths_ok_def raw_of_rows_def)
qed

text \<open>A path that is a directory of the tree: a proper prefix of the path of a file with chunks.\<close>

definition is_dir_path :: "tables \<Rightarrow> version_key \<Rightarrow> string \<Rightarrow> bool" where
  "is_dir_path t key path \<longleftrightarrow>
     (\<exists>f \<in> set (t_files t). in_version key f \<and> strict_prefix (split_path path) (split_path (f_Path f)))"

lemma split_path_inj: "split_path a = split_path b \<longleftrightarrow> a = b"
  by (metis go_join_split)

lemma find_file_catalog:
  assumes "db_wf t" and "chunks_ok t" and "paths_ok t (ws, ty, ds, ver)" and "ver \<noteq> []"
    and "raws = raw_files dbtype ty ws ds ver [] False t"
  shows "\<exists>fs. put_raws dataDir raws (new_fs raws now) = Some fs \<and> fs_Root fs = ''/''
     \<and> (\<forall>path. find_file fs (split_path path) = Option.bind (the_file t (ws, ty, ds, ver) path) (tree_file dataDir t))
     \<and> (\<forall>path. \<not> is_dir_path t (ws, ty, ds, ver) path \<longrightarrow> descend fs (split_path path) = None)"
proof -
  have ok: "\<forall>r \<in> set raws. raw_ok r" using raw_files_ok [OF assms(2,3,4)] assms(5) by simp
  obtain fs where fs: "put_raws dataDir raws (new_fs raws now) = Some fs"
    using put_raws_find [OF ok] by blast
  note ff = find_file_of_version [OF ok fs]
  have "find_file fs (split_path path) = Option.bind (the_file t (ws, ty, ds, ver) path) (tree_file dataDir t)" for path
  proof (cases "the_file t (ws, ty, ds, ver) path")
    case None
    then have "filter (\<lambda>raw. split_path (r_Path raw) = split_path path) raws = []"
      using raws_of_no_path [OF assms(4)] assms(5) by (simp add: split_path_inj)
    then show ?thesis using ff(1) None by (simp add: file_of_raws_new)
  next
    case (Some f)
    have fr: "filter (\<lambda>raw. split_path (r_Path raw) = split_path path) raws = file_raws t f"
      using raws_of_path [OF assms(1,4) Some] assms(5) by (simp add: split_path_inj)
    have e: "file_raws t f = [] \<longleftrightarrow> chunk_refs t (f_ID f) = []"
      by (simp add: file_raws_refs [symmetric])
    have p: "f_Path f = path" using the_file_SomeD [OF Some] by simp
    show ?thesis
    proof (cases "file_raws t f")
      case Nil
      then show ?thesis using ff(1) Some e by (simp add: fr file_of_raws_new tree_file_def)
    next
      case (Cons r rs)
      have "r \<in> set (file_raws t f)" using Cons by simp
      from file_raws_in [OF this] show ?thesis
        using ff(1) Some e Cons p file_raws_chunks [OF assms(2), of dataDir f]
        by (simp add: fr file_of_raws_new tree_file_def)
    qed
  qed
  moreover have "descend fs (split_path path) = None" if nd: "\<not> is_dir_path t (ws, ty, ds, ver) path" for path
  proof (rule ccontr)
    assume "descend fs (split_path path) \<noteq> None"
    then obtain r where r: "r \<in> set raws" "strict_prefix (split_path path) (split_path (r_Path r))"
      using ff(2) by auto
    from raw_files_in [OF assms(4) r(1) [unfolded assms(5)]] r(2) nd show False
      by (auto simp: is_dir_path_def raw_of_rows_def)
  qed
  ultimately show ?thesis using fs ff(3) by blast
qed

section \<open>Removing files\<close>

definition remove_files :: "(file_row \<Rightarrow> bool) \<Rightarrow> tables \<Rightarrow> tables" where
  "remove_files P t = t\<lparr>t_file_chunks := filter (\<lambda>l. l_FileID l \<notin> set (map f_ID (filter P (t_files t)))) (t_file_chunks t),
                        t_files := filter (\<lambda>f. \<not> P f) (t_files t)\<rparr>"

lemma db_DeleteFiles_run:
  "db_faults d = [] \<Longrightarrow>
   db_DeleteFiles ty ws ds ver pre precise d =
     Some (Inr (int (length (filter (file_cond (db_type d) ty ws ds ver pre precise) (t_files (db_tables d))))),
           d\<lparr>db_tables := remove_files (file_cond (db_type d) ty ws ds ver pre precise) (db_tables d)\<rparr>)"
  by (simp add: db_DeleteFiles_def run_simps stmt_run remove_files_def Let_def)

lemma the_file_remove:
  assumes "distinct (map file_key (t_files t))"
  shows "the_file (remove_files P t) key path =
     (case the_file t key path of None \<Rightarrow> None | Some f \<Rightarrow> if P f then None else Some f)"
proof (cases "the_file t key path")
  case None
  then have "the_file (remove_files P t) key path = None"
    by (auto simp: the_file_None remove_files_def)
  then show ?thesis using None by simp
next
  case (Some f)
  note f = the_file_SomeD [OF Some]
  have same: "g = f" if "g \<in> set (t_files t)" "in_version key g" "f_Path g = path" for g
    using in_version_key [of key g f] f that assms by (auto simp: distinct_map inj_on_def)
  show ?thesis
  proof (cases "P f")
    case True
    then have "the_file (remove_files P t) key path = None"
      using same by (auto simp: the_file_None remove_files_def)
    then show ?thesis using Some True by simp
  next
    case False
    have "distinct (map file_key (t_files (remove_files P t)))"
      using assms by (simp add: remove_files_def distinct_map_filter)
    moreover have "f \<in> set (t_files (remove_files P t))" using f False by (simp add: remove_files_def)
    ultimately have "the_file (remove_files P t) key path = Some f"
      using the_file_eq [of "remove_files P t" f key] f by simp
    then show ?thesis using Some False by simp
  qed
qed

lemma chunk_refs_remove:
  assumes "distinct (map f_ID (t_files t))" and "f \<in> set (t_files t)" and "\<not> P f"
  shows "chunk_refs (remove_files P t) (f_ID f) = chunk_refs t (f_ID f)"
proof -
  have "f_ID f \<noteq> f_ID g" if "g \<in> set (t_files t)" "P g" for g
    using assms that by (auto simp: distinct_map inj_on_def)
  then have "filter (\<lambda>l. l_FileID l = f_ID f) (t_file_chunks (remove_files P t)) = filter (\<lambda>l. l_FileID l = f_ID f) (t_file_chunks t)"
    unfolding remove_files_def by simp (rule filter_cong, force+)
  then show ?thesis
    by (simp add: chunk_refs_def links_of_def linked_chunks_def [abs_def]) (simp add: remove_files_def)
qed

lemma catalog_remove:
  assumes "db_wf t"
  shows "catalog (remove_files P t) key path =
     (case the_file t key path of None \<Rightarrow> None | Some f \<Rightarrow> if P f then None else catalog t key path)"
proof -
  have d: "distinct (map file_key (t_files t))" "distinct (map f_ID (t_files t))" using assms by (auto simp: db_wf_def)
  show ?thesis
  proof (cases "the_file t key path")
    case None
    then show ?thesis by (simp add: catalog_def the_file_remove [OF d(1)])
  next
    case (Some f)
    then show ?thesis
      using chunk_refs_remove [OF d(2), of f P] the_file_SomeD [OF Some]
      by (simp add: catalog_def the_file_remove [OF d(1)])
  qed
qed

lemma remove_files_wf:
  assumes "db_wf t"
  shows "db_wf (remove_files P t)"
proof -
  have "l_FileID l \<in> f_ID ` set (filter (\<lambda>f. \<not> P f) (t_files t))"
    if "l \<in> set (t_file_chunks t)" "l_FileID l \<notin> f_ID ` set (filter P (t_files t))" for l
  proof -
    have "l_FileID l \<in> f_ID ` set (t_files t)" using assms that(1) by (simp add: db_wf_def)
    then obtain f where f: "f \<in> set (t_files t)" "l_FileID l = f_ID f" by blast
    moreover from this that(2) have "\<not> P f" by force
    ultimately show ?thesis by auto
  qed
  then show ?thesis using assms unfolding db_wf_def remove_files_def by (simp add: distinct_map_filter) blast
qed

section \<open>Properties\<close>


section \<open>Witnesses\<close>

definition sample_tables :: tables where
  "sample_tables = \<lparr>
     t_files = [blank_file\<lparr>f_ID := 1, f_Path := ''a/x'', f_Size := 5, f_Mode := 420, f_DatasetName := ''d'',
                           f_DatasetType := ''dataset'', f_Workspace := ''w'', f_Version := ''1.0.0''\<rparr>,
                blank_file\<lparr>f_ID := 2, f_Path := ''y'', f_Size := 3, f_Mode := 420, f_DatasetName := ''d'',
                           f_DatasetType := ''dataset'', f_Workspace := ''w'', f_Version := ''1.0.0''\<rparr>],
     t_chunks = [\<lparr>c_ID = 1, c_Hash = ''aabbccdd'', c_Size = 3, c_Version = 2\<rparr>,
                 \<lparr>c_ID = 2, c_Hash = ''11223344'', c_Size = 2, c_Version = 2\<rparr>],
     t_file_chunks = [\<lparr>l_FileID = 1, l_ChunkID = 2, l_Index = 1\<rparr>, \<lparr>l_FileID = 1, l_ChunkID = 1, l_Index = 0\<rparr>,
                      \<lparr>l_FileID = 2, l_ChunkID = 1, l_Index = 0\<rparr>],
     t_datasets = [], t_dataset_versions = []\<rparr>"

definition sample_db :: "tables \<Rightarrow> unit db" where
  "sample_db t = \<lparr>db_tables = t, db_type = ''sqlite3'', db_saved = [], db_faults = [], db_now = 7,
     db_chunksBuf = [], db_deleteCh = [], db_gc = [], db_hub = [], db_remote = ()\<rparr>"

lemma sample_tables_ok:
  "db_wf sample_tables" "chunks_ok sample_tables" "paths_ok sample_tables (''w'', ''dataset'', ''d'', ''1.0.0'')"
  by (simp_all add: db_wf_def chunks_ok_def paths_ok_def sample_tables_def blank_file_def file_key_def good_hash_def
      plain_comp_def)


end
