(* ===== verification/Deletion.thy ===== *)
theory Deletion
  imports Catalog
begin

text \<open>
  \<^verbatim>\<open>pkg/datasets/utils.go\<close>: chunks that may have lost their last link are sent to the loop
  \<^verbatim>\<open>RunChunkDBDeleteLoop\<close>, which buffers them (\<open>db_chunksBuf\<close>) until a trigger; those without links are
  removed from the table, and the paths of their files are queued (\<open>db_deleteCh\<close>) for
  \<^verbatim>\<open>RunDeleteLoop\<close>. A send to a loop and its receipt are one step here: the channels of chunks
  and triggers are unbuffered or answered before the sender goes on.
\<close>

section \<open>Deleting chunk rows\<close>

definition CheckAndDeleteChunk :: "chunk_row \<Rightarrow> ('m, unit) dbm" where
  "CheckAndDeleteChunk chunk = (\<lambda>d. Some (Inr (), d\<lparr>db_chunksBuf := db_chunksBuf d @ [chunk]\<rparr>))"

definition SendDeletePath :: "string \<Rightarrow> ('m, unit) dbm" where
  "SendDeletePath path = (\<lambda>d. Some (Inr (), d\<lparr>db_deleteCh := db_deleteCh d @ [path]\<rparr>))"

text \<open>\<^verbatim>\<open>chunkMap\<close>: by ID, less the chunks that some link refers to.\<close>

definition unlinked :: "chunk_row list \<Rightarrow> file_chunk list \<Rightarrow> chunk_row list" where
  "unlinked chunks links =
     map snd (fold (\<lambda>l m. AList.delete (l_ChunkID l) m) links
                (fold (\<lambda>c m. AList.update (c_ID c) c m) chunks []))"

definition deleteChunks :: "settings \<Rightarrow> chunk_row list \<Rightarrow> ('m, int) dbm" where
  "deleteChunks st chunks = attempt (ListFileChunksByChunks chunks) (\<lambda>r.
     case r of
       Inl _ \<Rightarrow> ret 0
     | Inr fileChunks \<Rightarrow>
         let dels = unlinked chunks fileChunks in
         bnd (for_each (\<lambda>c. bnd (lift_option (GetHashedFilename (st_DataDir st) (c_Hash c) (c_Version c))) SendDeletePath) dels)
           (\<lambda>_. attempt (if dels \<noteq> [] then DeleteChunks dels else ret ())
             (\<lambda>_. ret (int (length dels)))))"

text \<open>The buffer is cut into batches of \<^verbatim>\<open>deleteBatch\<close> = 250.\<close>

fun delete_batches :: "settings \<Rightarrow> nat \<Rightarrow> chunk_row list \<Rightarrow> ('m, int) dbm" where
  "delete_batches st n chunks =
     (if chunks = [] \<or> n = 0 then ret 0
      else bnd (deleteChunks st (take n chunks)) (\<lambda>k.
             bnd (delete_batches st n (drop n chunks)) (\<lambda>m. ret (k + m))))"

declare delete_batches.simps [simp del]

definition TriggerDeleteChunks :: "settings \<Rightarrow> ('m, int) dbm" where
  "TriggerDeleteChunks st = (\<lambda>d.
     bnd (delete_batches st 250 (db_chunksBuf d)) (\<lambda>k d'. Some (Inr k, d'\<lparr>db_chunksBuf := []\<rparr>)) d)"

definition chunk_of_loaded :: "raw_file \<Rightarrow> chunk_row" where
  "chunk_of_loaded raw = \<lparr>c_ID = r_ChunkID raw, c_Hash = r_Hash raw, c_Size = r_ChunkSize raw, c_Version = 0\<rparr>"

text \<open>The chunk sent for deletion is built without the version of its file name.\<close>

definition DeleteFiles ::
  "settings \<Rightarrow> string \<Rightarrow> string \<Rightarrow> string \<Rightarrow> string \<Rightarrow> string \<Rightarrow> bool \<Rightarrow> bool \<Rightarrow> ('m, unit) dbm" where
  "DeleteFiles st eType ws dataset version pre preciseName strict =
     bnd (GetRawFiles eType ws dataset version pre preciseName) (\<lambda>rawFiles.
       bnd (db_DeleteFiles eType ws dataset version pre preciseName) (\<lambda>rows.
         if rawFiles = [] \<and> strict then
           fail (Status 404 (''Path '' @ eType @ '' not found in '' @ pre @ '' '' @ ws @ ''/'' @ dataset @ '':'' @ version))
         else bnd (for_each (\<lambda>raw. CheckAndDeleteChunk (chunk_of_loaded raw)) rawFiles)
                (\<lambda>_. bnd (TriggerDeleteChunks st) (\<lambda>deleted. ret ()))))"

section \<open>Deleting files of the disk\<close>

text \<open>
  One path of \<^verbatim>\<open>RunDeleteLoop\<close>. \<open>readdir_fails\<close>: the directory cannot be read (its error is not
  looked at, and it then counts as empty).
\<close>

definition children :: "disk \<Rightarrow> string \<Rightarrow> string list" where
  "children d dir = filter (\<lambda>p. parent_dir p = dir) (map fst (dk_files d) @ dk_dirs d)"

definition os_Remove :: "disk \<Rightarrow> string \<Rightarrow> disk" where
  "os_Remove d p =
     (if p \<in> set (dk_denied d) then d
      else if map_of (dk_files d) p \<noteq> None then d\<lparr>dk_files := AList.delete p (dk_files d)\<rparr>
      else if p \<in> set (dk_dirs d) \<and> children d p = [] then d\<lparr>dk_dirs := removeAll p (dk_dirs d)\<rparr>
      else d)"

definition below :: "string \<Rightarrow> string \<Rightarrow> bool" where
  "below dir p \<longleftrightarrow> p = dir \<or> prefix (dir @ ''/'') p"

definition os_RemoveAll :: "disk \<Rightarrow> string \<Rightarrow> disk" where
  "os_RemoveAll d dir =
     d\<lparr>dk_files := filter (\<lambda>(p, _). \<not> (below dir p \<and> p \<notin> set (dk_denied d))) (dk_files d),
       dk_dirs := filter (\<lambda>p. \<not> (below dir p \<and> p \<notin> set (dk_denied d))) (dk_dirs d)\<rparr>"

definition delete_path :: "bool \<Rightarrow> string \<Rightarrow> disk \<Rightarrow> disk" where
  "delete_path readdir_fails path d =
     (let d1 = os_Remove d path;
          dirName = path_dir path;
          remainFiles = (if readdir_fails then [] else children d1 dirName)
      in if remainFiles = [] then os_RemoveAll d1 dirName else d1)"

fun RunDeleteLoop :: "(bool \<times> string) list \<Rightarrow> disk \<Rightarrow> disk" where
  "RunDeleteLoop [] d = d"
| "RunDeleteLoop ((readdir_fails, path) # paths) d = RunDeleteLoop paths (delete_path readdir_fails path d)"

section \<open>What deletion leaves\<close>

text \<open>
  \<open>swept t t'\<close>: the tables differ in rows of chunks only, and no chunk that a link refers to is
  gone.
\<close>

definition swept :: "tables \<Rightarrow> tables \<Rightarrow> bool" where
  "swept t t' \<longleftrightarrow> (\<exists>P. t' = t\<lparr>t_chunks := filter P (t_chunks t)\<rparr>
     \<and> (\<forall>c \<in> set (t_chunks t). c_ID c \<in> l_ChunkID ` set (t_file_chunks t) \<longrightarrow> P c))"

lemma swept_refl: "swept t t"
  unfolding swept_def by (intro exI [of _ "\<lambda>_. True"]) simp

lemma swept_trans: "swept t u \<Longrightarrow> swept u v \<Longrightarrow> swept t v"
proof -
  assume "swept t u" and "swept u v"
  then obtain P Q where "u = t\<lparr>t_chunks := filter P (t_chunks t)\<rparr>" "v = u\<lparr>t_chunks := filter Q (t_chunks u)\<rparr>"
    "\<forall>c \<in> set (t_chunks t). c_ID c \<in> l_ChunkID ` set (t_file_chunks t) \<longrightarrow> P c"
    "\<forall>c \<in> set (t_chunks u). c_ID c \<in> l_ChunkID ` set (t_file_chunks u) \<longrightarrow> Q c"
    by (auto simp: swept_def)
  then show ?thesis unfolding swept_def by (intro exI [of _ "\<lambda>c. P c \<and> Q c"]) (auto simp: conj_commute)
qed

lemma filter_keeps: "(\<And>x. x \<in> set xs \<Longrightarrow> Q x \<Longrightarrow> P x) \<Longrightarrow> filter Q (filter P xs) = filter Q xs"
  by (induction xs) auto

text \<open>So every version reads as before.\<close>

lemma swept_catalog:
  assumes "swept t t'"
  shows "catalog t' = catalog t" and "the_file t' = the_file t" and "links_of t' = links_of t"
proof -
  obtain P where t': "t' = t\<lparr>t_chunks := filter P (t_chunks t)\<rparr>"
    and P: "\<And>c. c \<in> set (t_chunks t) \<Longrightarrow> c_ID c \<in> l_ChunkID ` set (t_file_chunks t) \<Longrightarrow> P c"
    using assms by (auto simp: swept_def)
  show lo: "links_of t' = links_of t" by (rule ext) (simp add: links_of_def t')
  show tf: "the_file t' = the_file t" by (intro ext) (simp add: the_file_def t')
  have lc: "linked_chunks t' l = linked_chunks t l" if "l \<in> set (t_file_chunks t)" for l
  proof -
    have "filter (\<lambda>c. c_ID c = l_ChunkID l) (filter P (t_chunks t)) = filter (\<lambda>c. c_ID c = l_ChunkID l) (t_chunks t)"
      by (rule filter_keeps) (use that P in auto)
    then show ?thesis unfolding linked_chunks_def t' by (simp del: filter_filter)
  qed
  have "chunk_refs t' i = chunk_refs t i" for i
  proof -
    have "set (links_of t i) \<subseteq> set (t_file_chunks t)" by (auto simp: links_of_def)
    then have "map (linked_chunks t') (links_of t i) = map (linked_chunks t) (links_of t i)"
      using lc by (intro map_cong) auto
    then show ?thesis by (simp only: chunk_refs_def lo)
  qed
  then show "catalog t' = catalog t" by (intro ext) (simp add: catalog_def tf)
qed

lemma swept_wf: "swept t t' \<Longrightarrow> db_wf t \<Longrightarrow> db_wf t'"
proof -
  assume "swept t t'" and wf: "db_wf t"
  then obtain P where t': "t' = t\<lparr>t_chunks := filter P (t_chunks t)\<rparr>"
    and P: "\<And>c. c \<in> set (t_chunks t) \<Longrightarrow> c_ID c \<in> l_ChunkID ` set (t_file_chunks t) \<Longrightarrow> P c"
    by (auto simp: swept_def)
  have "l_ChunkID l \<in> c_ID ` set (filter P (t_chunks t))" if l: "l \<in> set (t_file_chunks t)" for l
  proof -
    obtain c where "c \<in> set (t_chunks t)" "l_ChunkID l = c_ID c" using wf l by (auto simp: db_wf_def)
    moreover from this have "P c" by (intro P) (use l in \<open>auto intro: rev_image_eqI\<close>)
    ultimately show ?thesis by auto
  qed
  then show ?thesis using wf unfolding t' by (auto simp: db_wf_def distinct_map_filter)
qed

lemma swept_chunks_ok: "swept t t' \<Longrightarrow> chunks_ok t \<Longrightarrow> chunks_ok t'"
  by (auto simp: swept_def chunks_ok_def)

lemma fold_update_snd:
  "x \<in> set (map snd (fold (\<lambda>c m. AList.update (k c) c m) cs m)) \<Longrightarrow> x \<in> set cs \<or> x \<in> snd ` set m"
proof (induction cs arbitrary: m)
  case (Cons c cs)
  have "snd ` set (AList.update (k c) c m) \<subseteq> insert c (snd ` set m)" by (induction m) auto
  then show ?case using Cons by (fastforce simp del: set_map)
qed auto

lemma fold_update_keys:
  "(\<forall>(i, c) \<in> set m. i = k c) \<Longrightarrow> (\<forall>(i, c) \<in> set (fold (\<lambda>c m. AList.update (k c) c m) cs m). i = k c)"
proof (induction cs arbitrary: m)
  case (Cons c cs)
  have "\<forall>(i, d) \<in> set (AList.update (k c) c m). i = k d" using Cons.prems by (induction m) auto
  then show ?case using Cons.IH by simp
qed simp

lemma fold_delete_set: "set (fold (\<lambda>l m. AList.delete (k l) m) ls m) = {p \<in> set m. fst p \<notin> k ` set ls}"
proof (induction ls arbitrary: m)
  case (Cons l ls)
  have "set (AList.delete (k l) m) = {p \<in> set m. fst p \<noteq> k l}" by (auto simp: AList.delete_eq)
  then show ?case using Cons by auto
qed simp

lemma unlinked_in: "c \<in> set (unlinked chunks links) \<Longrightarrow> c \<in> set chunks \<and> c_ID c \<notin> l_ChunkID ` set links"
  using fold_update_snd [of c c_ID chunks "[]"] fold_update_keys [of "[]" c_ID chunks]
  unfolding unlinked_def set_map fold_delete_set by force

text \<open>
  The files a step queues for deletion are those of chunks among \<open>B\<close> that no link refers to.
\<close>

definition queues :: "settings \<Rightarrow> chunk_row list \<Rightarrow> 'm db \<Rightarrow> 'm db \<Rightarrow> bool" where
  "queues st B d d' \<longleftrightarrow> (\<exists>ps. db_deleteCh d' = db_deleteCh d @ ps
     \<and> (\<forall>p \<in> set ps. \<exists>c \<in> set B. c_ID c \<notin> l_ChunkID ` set (t_file_chunks (db_tables d))
                         \<and> GetHashedFilename (st_DataDir st) (c_Hash c) (c_Version c) = Some p))"

text \<open>\<open>sweeps st B d d'\<close>: a step of a server without faults that only sweeps.\<close>

definition sweeps :: "settings \<Rightarrow> chunk_row list \<Rightarrow> 'm db \<Rightarrow> 'm db \<Rightarrow> bool" where
  "sweeps st B d d' \<longleftrightarrow> swept (db_tables d) (db_tables d') \<and> queues st B d d' \<and> db_faults d' = []
     \<and> db_type d' = db_type d \<and> db_now d' = db_now d \<and> db_saved d' = db_saved d \<and> db_gc d' = db_gc d \<and> db_hub d' = db_hub d
     \<and> db_remote d' = db_remote d"

lemma queues_refl: "db_deleteCh d' = db_deleteCh d \<Longrightarrow> queues st B d d'"
  by (simp add: queues_def)

lemma queues_mono: "queues st A d d' \<Longrightarrow> set A \<subseteq> set B \<Longrightarrow> queues st B d d'"
  by (fastforce simp: queues_def)

lemma sweeps_mono: "sweeps st A d d' \<Longrightarrow> set A \<subseteq> set B \<Longrightarrow> sweeps st B d d'"
  by (auto simp: sweeps_def intro: queues_mono)

lemma queues_trans:
  assumes "queues st B a b" and "queues st B b c" and "t_file_chunks (db_tables b) = t_file_chunks (db_tables a)"
  shows "queues st B a c"
proof -
  obtain ps qs where "db_deleteCh b = db_deleteCh a @ ps" "db_deleteCh c = db_deleteCh b @ qs"
    "\<forall>p \<in> set (ps @ qs). \<exists>c \<in> set B. c_ID c \<notin> l_ChunkID ` set (t_file_chunks (db_tables a))
                         \<and> GetHashedFilename (st_DataDir st) (c_Hash c) (c_Version c) = Some p"
    using assms unfolding queues_def by (metis Un_iff set_append)
  then show ?thesis unfolding queues_def by (intro exI [of _ "ps @ qs"]) simp
qed

lemma sweeps_trans:
  assumes "sweeps st B a b" and "sweeps st B b c"
  shows "sweeps st B a c"
proof -
  have "t_file_chunks (db_tables b) = t_file_chunks (db_tables a)"
    using assms(1) by (auto simp: sweeps_def swept_def)
  then show ?thesis using assms queues_trans [of st B a b c] by (auto simp: sweeps_def intro: swept_trans)
qed

definition long_hash :: "chunk_row \<Rightarrow> bool" where
  "long_hash c \<longleftrightarrow> 8 \<le> length (c_Hash c)"

lemma GetHashedFilename_long: "8 \<le> length h \<Longrightarrow> \<exists>p. GetHashedFilename dir h v = Some p"
  by (auto simp: GetHashedFilename_def slice_def)

lemma send_paths:
  "\<forall>c \<in> set cs. long_hash c \<Longrightarrow>
   \<exists>ps. for_each (\<lambda>c. bnd (lift_option (GetHashedFilename dir (c_Hash c) (c_Version c))) SendDeletePath) cs d
       = Some (Inr (), d\<lparr>db_deleteCh := db_deleteCh d @ ps\<rparr>)
     \<and> map Some ps = map (\<lambda>c. GetHashedFilename dir (c_Hash c) (c_Version c)) cs"
proof (induction cs arbitrary: d)
  case (Cons c cs)
  obtain p where p: "GetHashedFilename dir (c_Hash c) (c_Version c) = Some p"
    using Cons.prems GetHashedFilename_long [of "c_Hash c" dir "c_Version c"] by (auto simp: long_hash_def)
  show ?case
    using Cons.IH [of "d\<lparr>db_deleteCh := db_deleteCh d @ [p]\<rparr>"] Cons.prems p
    by (auto simp: run_simps lift_option_def SendDeletePath_def)
qed (simp add: run_simps)

lemma deleteChunks_sweeps:
  assumes "db_faults d = []" and "\<forall>c \<in> set chunks. long_hash c"
  shows "\<exists>n d'. deleteChunks st chunks d = Some (Inr n, d') \<and> sweeps st chunks d d' \<and> db_chunksBuf d' = db_chunksBuf d"
proof -
  let ?links = "filter (\<lambda>l. l_ChunkID l \<in> set (map c_ID chunks)) (t_file_chunks (db_tables d))"
  let ?dels = "unlinked chunks ?links"
  have long: "\<forall>c \<in> set ?dels. long_hash c" using unlinked_in assms(2) by blast
  obtain ps where ps: "for_each (\<lambda>c. bnd (lift_option (GetHashedFilename (st_DataDir st) (c_Hash c) (c_Version c))) SendDeletePath) ?dels d
       = Some (Inr (), d\<lparr>db_deleteCh := db_deleteCh d @ ps\<rparr>)"
        and paths: "map Some ps = map (\<lambda>c. GetHashedFilename (st_DataDir st) (c_Hash c) (c_Version c)) ?dels"
    using send_paths [OF long] by blast
  let ?d1 = "d\<lparr>db_deleteCh := db_deleteCh d @ ps\<rparr>"
  let ?t = "db_tables d"
  let ?t' = "?t\<lparr>t_chunks := filter (\<lambda>c. c_ID c \<notin> set (map c_ID ?dels)) (t_chunks ?t)\<rparr>"
  have qs: "queues st chunks d d'" if "db_deleteCh d' = db_deleteCh d @ ps" for d' :: "'a db"
    unfolding queues_def
  proof (intro exI [of _ ps] conjI ballI that)
    fix p assume "p \<in> set ps"
    then have "Some p \<in> set (map Some ps)" by simp
    then obtain c where c: "c \<in> set ?dels" "GetHashedFilename (st_DataDir st) (c_Hash c) (c_Version c) = Some p"
      unfolding paths by auto
    from unlinked_in [OF c(1)] have cc: "c \<in> set chunks" "c_ID c \<notin> l_ChunkID ` set ?links" by auto
    then have "c_ID c \<notin> l_ChunkID ` set (t_file_chunks (db_tables d))"
      by (force simp: image_iff)
    then show "\<exists>c \<in> set chunks. c_ID c \<notin> l_ChunkID ` set (t_file_chunks (db_tables d))
                \<and> GetHashedFilename (st_DataDir st) (c_Hash c) (c_Version c) = Some p"
      using cc(1) c(2) by blast
  qed
  have sw: "swept ?t ?t'"
    unfolding swept_def
  proof (intro exI conjI ballI impI)
    fix c assume "c_ID c \<in> l_ChunkID ` set (t_file_chunks ?t)"
    then obtain l where l: "l \<in> set (t_file_chunks ?t)" "c_ID c = l_ChunkID l" by blast
    show "c_ID c \<notin> set (map c_ID ?dels)"
    proof
      assume "c_ID c \<in> set (map c_ID ?dels)"
      then obtain e where e: "e \<in> set ?dels" "c_ID e = c_ID c" by auto
      from unlinked_in [OF e(1)] have "e \<in> set chunks" "c_ID e \<notin> l_ChunkID ` set ?links" by auto
      moreover have "l \<in> set ?links" using e l \<open>e \<in> set chunks\<close> by (auto intro: rev_image_eqI)
      ultimately show False using e(2) l(2) by (auto intro: rev_image_eqI)
    qed
  qed simp
  show ?thesis
  proof (cases "?dels = []")
    case True
    then show ?thesis using assms(1) ps
      by (simp add: deleteChunks_def ListFileChunksByChunks_def run_simps Let_def sweeps_def swept_refl queues_refl)
  next
    case False
    then show ?thesis using assms(1) ps sw
      by (simp add: deleteChunks_def ListFileChunksByChunks_def DeleteChunks_def run_simps Let_def sweeps_def qs)
  qed
qed

lemma delete_batches_sweeps:
  "db_faults d = [] \<Longrightarrow> \<forall>c \<in> set chunks. long_hash c \<Longrightarrow>
   \<exists>n d'. delete_batches st k chunks d = Some (Inr n, d') \<and> sweeps st chunks d d' \<and> db_chunksBuf d' = db_chunksBuf d"
proof (induction st k chunks arbitrary: d rule: delete_batches.induct)
  case (1 st k chunks)
  show ?case
  proof (cases "chunks = [] \<or> k = 0")
    case True
    then show ?thesis using 1(2) by (subst delete_batches.simps) (auto simp: run_simps sweeps_def swept_refl queues_refl)
  next
    case False
    obtain n d1 where d1: "deleteChunks st (take k chunks) d = Some (Inr n, d1)" "sweeps st (take k chunks) d d1"
        "db_chunksBuf d1 = db_chunksBuf d"
      using deleteChunks_sweeps [OF 1(2), of "take k chunks" st] 1(3) by (auto dest: in_set_takeD)
    obtain m d2 where d2: "delete_batches st k (drop k chunks) d1 = Some (Inr m, d2)" "sweeps st (drop k chunks) d1 d2"
        "db_chunksBuf d2 = db_chunksBuf d1"
      using 1(1) [OF False, of d1] d1(2) 1(3) by (auto simp: sweeps_def dest: in_set_dropD)
    have "sweeps st chunks d d2"
      using sweeps_trans [OF sweeps_mono [OF d1(2)] sweeps_mono [OF d2(2)]]
      by (meson set_drop_subset set_take_subset)
    then show ?thesis using False d1 d2 by (subst delete_batches.simps) (auto simp: run_simps)
  qed
qed

lemma TriggerDeleteChunks_sweeps:
  assumes "db_faults d = []" and "\<forall>c \<in> set (db_chunksBuf d). long_hash c"
  shows "\<exists>n d'. TriggerDeleteChunks st d = Some (Inr n, d') \<and> sweeps st (db_chunksBuf d) d d' \<and> db_chunksBuf d' = []"
proof -
  obtain n d' where "delete_batches st 250 (db_chunksBuf d) d = Some (Inr n, d')" "sweeps st (db_chunksBuf d) d d'"
    using delete_batches_sweeps [OF assms] by blast
  then show ?thesis by (auto simp: TriggerDeleteChunks_def run_simps sweeps_def queues_def)
qed

lemma send_chunks:
  "for_each (\<lambda>raw. CheckAndDeleteChunk (g raw)) raws d = Some (Inr (), d\<lparr>db_chunksBuf := db_chunksBuf d @ map g raws\<rparr>)"
  by (induction raws arbitrary: d) (simp_all add: run_simps CheckAndDeleteChunk_def)

section \<open>Deleting files of a version\<close>

lemma chunks_ok_raws_long:
  assumes "chunks_ok t" and "r \<in> set (raw_files dbtype ty ws ds ver pre precise t)"
  shows "long_hash (chunk_of_loaded r)"
  using assms
  by (auto simp: raw_files_def joined_def raw_of_rows_def chunks_ok_def good_hash_def long_hash_def chunk_of_loaded_def)

lemma DeleteFiles_run:
  fixes d :: "'m db"
  assumes "db_faults d = []" and "chunks_ok (db_tables d)" and "\<forall>c \<in> set (db_chunksBuf d). long_hash c"
  shows "\<exists>r d'. DeleteFiles st ty ws ds ver pre precise strict d = Some (r, d')
    \<and> (r = Inr () \<or> strict)
    \<and> swept (remove_files (file_cond (db_type d) ty ws ds ver pre precise) (db_tables d)) (db_tables d')
    \<and> db_faults d' = [] \<and> db_type d' = db_type d \<and> db_now d' = db_now d \<and> db_saved d' = db_saved d
    \<and> db_gc d' = db_gc d \<and> db_hub d' = db_hub d \<and> db_remote d' = db_remote d \<and> (\<forall>c \<in> set (db_chunksBuf d'). long_hash c)
    \<and> (\<exists>t. queues st (db_chunksBuf d @ map chunk_of_loaded (raw_files (db_type d) ty ws ds ver pre precise (db_tables d)))
             (d\<lparr>db_tables := t\<rparr>) d')"
proof -
  let ?P = "file_cond (db_type d) ty ws ds ver pre precise"
  let ?raws = "raw_files (db_type d) ty ws ds ver pre precise (db_tables d)"
  let ?d1 = "d\<lparr>db_tables := remove_files ?P (db_tables d)\<rparr>"
  have get: "GetRawFiles ty ws ds ver pre precise d = Some (Inr ?raws, d)"
    using assms(1) by (simp add: GetRawFiles_def run_simps)
  note del = db_DeleteFiles_run [OF assms(1), of ty ws ds ver pre precise]
  show ?thesis
  proof (cases "?raws = [] \<and> strict")
    case True
    then show ?thesis using get del assms by (simp add: DeleteFiles_def run_simps swept_refl queues_refl)
  next
    case False
    let ?d2 = "?d1\<lparr>db_chunksBuf := db_chunksBuf d @ map chunk_of_loaded ?raws\<rparr>"
    have sent: "for_each (\<lambda>raw. CheckAndDeleteChunk (chunk_of_loaded raw)) ?raws ?d1 = Some (Inr (), ?d2)"
      using send_chunks [of chunk_of_loaded ?raws ?d1] by simp
    have "\<forall>c \<in> set (db_chunksBuf ?d2). long_hash c"
      using assms(3) chunks_ok_raws_long [OF assms(2)] by auto
    from TriggerDeleteChunks_sweeps [OF _ this, of st] assms(1) obtain n d' where
      trig: "TriggerDeleteChunks st ?d2 = Some (Inr n, d')" and sw: "sweeps st (db_chunksBuf ?d2) ?d2 d'" "db_chunksBuf d' = []" by auto
    have "DeleteFiles st ty ws ds ver pre precise strict d = Some (Inr (), d')"
      using get del False sent trig by (auto simp: DeleteFiles_def run_simps)
    moreover from sw have "queues st (db_chunksBuf d @ map chunk_of_loaded ?raws) ?d1 d'" by (simp add: sweeps_def queues_def)
    ultimately show ?thesis using sw by (auto simp: sweeps_def)
  qed
qed

lemma file_cond_key:
  "ver \<noteq> [] \<Longrightarrow> in_version key f \<Longrightarrow>
   file_cond dbtype ty ws ds ver pre precise f \<longleftrightarrow> key = (ws, ty, ds, ver) \<and> path_cond dbtype pre precise (f_Path f)"
  by (cases key) (auto simp: file_cond_def)

lemma catalog_DeleteFiles:
  assumes "db_wf t" and "ver \<noteq> []" and "swept (remove_files (file_cond dbtype ty ws ds ver pre precise) t) t'"
  shows "catalog t' key path =
     (if key = (ws, ty, ds, ver) \<and> path_cond dbtype pre precise path then None else catalog t key path)"
proof -
  have "catalog t' key path = (case the_file t key path of None \<Rightarrow> None
      | Some f \<Rightarrow> if file_cond dbtype ty ws ds ver pre precise f then None else catalog t key path)"
    using swept_catalog(1) [OF assms(3)] catalog_remove [OF assms(1)] by simp
  also have "\<dots> = (if key = (ws, ty, ds, ver) \<and> path_cond dbtype pre precise path then None else catalog t key path)"
  proof (cases "the_file t key path")
    case None
    then show ?thesis by (simp add: catalog_def)
  next
    case (Some f)
    show ?thesis
      using file_cond_key [OF assms(2), of key f] the_file_SomeD [OF Some] by (simp add: Some)
  qed
  finally show ?thesis .
qed

text \<open>Whatever starts with the prefix is matched, at a boundary of path elements or not.\<close>

lemma like_match_any: "like_match ci esc ''%'' s"
  by (induction s) auto

lemma like_match_cons:
  assumes "like_match ci esc ps cs" and "p = CHR 0x5C \<Longrightarrow> \<not> esc"
  shows "like_match ci esc (p # ps) (p # cs)"
proof (cases "p = CHR ''%''")
  case True
  have "like_match ci esc (CHR ''%'' # ps) cs"
    using assms(1) by (cases cs) simp_all
  then show ?thesis by (simp add: True)
next
  case False
  then show ?thesis using assms by auto
qed

lemma like_match_prefix:
  "CHR 0x5C \<notin> set pre \<Longrightarrow> like_match ci esc (pre @ ''%'') (pre @ rest)"
proof (induction pre)
  case Nil
  show ?case using like_match_any by simp
next
  case (Cons p pre)
  then have "like_match ci esc (pre @ ''%'') (pre @ rest)" and "p \<noteq> CHR 0x5C" by auto
  then have "like_match ci esc (p # (pre @ ''%'')) (p # (pre @ rest))" by (intro like_match_cons) auto
  then show ?case by (simp only: append_Cons)
qed

section \<open>Properties\<close>

text \<open>C15: deleting files of a version by a prefix, or by an exact name, ends; afterwards the paths
  that the condition matches are gone from that version and every other path of it, and every
  other version, lists the file, its size, its mode and its chunks as before; the tables stay
  well formed. Only with \<^verbatim>\<open>strict\<close> an error is answered, when nothing was loaded.\<close>

theorem deletion_removes_the_matched_files:
  assumes "db_wf (db_tables d)" and "chunks_ok (db_tables d)" and "\<forall>c \<in> set (db_chunksBuf d). long_hash c"
    and "db_faults d = []" and "ver \<noteq> []"
  shows "\<exists>r d'. DeleteFiles st ty ws ds ver pre precise strict d = Some (r, d')
    \<and> (r = Inr () \<or> strict) \<and> db_wf (db_tables d')
    \<and> (\<forall>key path. catalog (db_tables d') key path =
         (if key = (ws, ty, ds, ver) \<and> path_cond (db_type d) pre precise path then None
          else catalog (db_tables d) key path))"
proof -
  obtain r d' where r: "DeleteFiles st ty ws ds ver pre precise strict d = Some (r, d')" "r = Inr () \<or> strict"
    and sw: "swept (remove_files (file_cond (db_type d) ty ws ds ver pre precise) (db_tables d)) (db_tables d')"
    using DeleteFiles_run [OF assms(4,2,3)] by blast
  moreover have "db_wf (db_tables d')" using swept_wf [OF sw remove_files_wf [OF assms(1)]] .
  ultimately show ?thesis using catalog_DeleteFiles [OF assms(1,5) sw] by blast
qed

text \<open>C39: a prefix is not compared at a boundary of path elements: deleting by a prefix without
  a backslash removes from the version every path that starts with its characters, so that
  deleting the directory \<^verbatim>\<open>a\<close> deletes the file \<^verbatim>\<open>ab\<close> too.\<close>

theorem deletion_by_prefix_overshoots:
  assumes "db_wf (db_tables d)" and "chunks_ok (db_tables d)" and "\<forall>c \<in> set (db_chunksBuf d). long_hash c"
    and "db_faults d = []" and "ver \<noteq> []" and "CHR 0x5C \<notin> set pre"
  shows "\<exists>r d'. DeleteFiles st ty ws ds ver pre False strict d = Some (r, d')
    \<and> (\<forall>rest. catalog (db_tables d') (ws, ty, ds, ver) (pre @ rest) = None)"
proof -
  obtain r d' where r: "DeleteFiles st ty ws ds ver pre False strict d = Some (r, d')" "r = Inr () \<or> strict"
    and sw: "swept (remove_files (file_cond (db_type d) ty ws ds ver pre False) (db_tables d)) (db_tables d')"
    using DeleteFiles_run [OF assms(4,2,3)] by blast
  have "path_cond (db_type d) pre False (pre @ rest)" for rest
    using like_match_prefix [OF assms(6)] by (simp add: path_cond_def sql_like_def)
  then show ?thesis using r catalog_DeleteFiles [OF assms(1,5) sw] by auto
qed

text \<open>C16: the sweep of chunks is safe: when the buffered chunks are triggered, every version reads
  as before, the tables stay well formed, and the files queued for removal from the disk are
  only those of buffered chunks that no file refers to.\<close>

theorem sweep_of_chunks_is_safe:
  assumes "db_faults d = []" and "\<forall>c \<in> set (db_chunksBuf d). long_hash c" and "db_wf (db_tables d)"
  shows "\<exists>n d'. TriggerDeleteChunks st d = Some (Inr n, d') \<and> db_chunksBuf d' = []
    \<and> catalog (db_tables d') = catalog (db_tables d) \<and> db_wf (db_tables d')
    \<and> queues st (db_chunksBuf d) d d'"
proof -
  obtain n d' where t: "TriggerDeleteChunks st d = Some (Inr n, d')" "sweeps st (db_chunksBuf d) d d'" "db_chunksBuf d' = []"
    using TriggerDeleteChunks_sweeps [OF assms(1,2)] by blast
  then have sw: "swept (db_tables d) (db_tables d')" and "queues st (db_chunksBuf d) d d'" by (auto simp: sweeps_def)
  then show ?thesis using t swept_catalog(1) [OF sw] swept_wf [OF sw assms(3)] by blast
qed

section \<open>Witnesses\<close>

definition sample_settings_of :: "string \<Rightarrow> settings" where
  "sample_settings_of dir = \<lparr>st_DataDir = dir, st_HasMasters = False, st_SaveChunks = True\<rparr>"

lemma sample_db_ok:
  "db_wf (db_tables (sample_db sample_tables))" "chunks_ok (db_tables (sample_db sample_tables))"
  "\<forall>c \<in> set (db_chunksBuf (sample_db sample_tables)). long_hash c" "db_faults (sample_db sample_tables) = []"
  using sample_tables_ok by (simp_all add: sample_db_def)

theorem deletion_removes_the_matched_files_witness:
  "\<exists>r d'. DeleteFiles (sample_settings_of ''/d'') ''dataset'' ''w'' ''d'' ''1.0.0'' ''a/x'' True True (sample_db sample_tables) = Some (r, d')
     \<and> catalog (db_tables d') (''w'', ''dataset'', ''d'', ''1.0.0'') ''a/x'' = None
     \<and> catalog (db_tables d') (''w'', ''dataset'', ''d'', ''1.0.0'') ''y''
         = Some \<lparr>e_Size = 3, e_Mode = 420, e_Chunks = [\<lparr>h_Hash = ''aabbccdd'', h_Size = 3, h_Version = 2\<rparr>]\<rparr>"
proof -
  let ?k = "(''w'', ''dataset'', ''d'', ''1.0.0'')" and ?t = "db_tables (sample_db sample_tables)"
  have y: "catalog ?t ?k ''y'' = Some \<lparr>e_Size = 3, e_Mode = 420, e_Chunks = [\<lparr>h_Hash = ''aabbccdd'', h_Size = 3, h_Version = 2\<rparr>]\<rparr>"
    by code_simp
  have "''1.0.0'' \<noteq> ([] :: string)" by simp
  from deletion_removes_the_matched_files [OF sample_db_ok this, of "sample_settings_of ''/d''" "''dataset''" "''w''" "''d''" "''a/x''" True True]
  obtain r d' where r: "DeleteFiles (sample_settings_of ''/d'') ''dataset'' ''w'' ''d'' ''1.0.0'' ''a/x'' True True (sample_db sample_tables) = Some (r, d')"
    and c: "\<And>key path. catalog (db_tables d') key path =
         (if key = ?k \<and> path_cond (db_type (sample_db sample_tables)) ''a/x'' True path then None else catalog ?t key path)"
    by blast
  have "catalog (db_tables d') ?k ''a/x'' = None" "catalog (db_tables d') ?k ''y'' = catalog ?t ?k ''y''"
    unfolding c by (simp_all add: path_cond_def)
  then show ?thesis using r y by metis
qed

theorem deletion_by_prefix_overshoots_witness:
  "\<exists>r d'. DeleteFiles (sample_settings_of ''/d'') ''dataset'' ''w'' ''d'' ''1.0.0'' ''a'' False True (sample_db sample_tables) = Some (r, d')
     \<and> catalog (db_tables d') (''w'', ''dataset'', ''d'', ''1.0.0'') ''a/x'' = None"
  using deletion_by_prefix_overshoots [OF sample_db_ok, of "''1.0.0''" "''a''" "sample_settings_of ''/d''" "''dataset''" "''w''" "''d''" True]
  by fastforce

definition buffered_db :: "unit db" where
  "buffered_db = (sample_db (sample_tables\<lparr>t_chunks := t_chunks sample_tables
       @ [\<lparr>c_ID = 3, c_Hash = ''55667788'', c_Size = 4, c_Version = 2\<rparr>]\<rparr>))
     \<lparr>db_chunksBuf := [\<lparr>c_ID = 3, c_Hash = ''55667788'', c_Size = 4, c_Version = 0\<rparr>]\<rparr>"

theorem sweep_of_chunks_is_safe_witness:
  "\<exists>n d'. TriggerDeleteChunks (sample_settings_of ''/d'') buffered_db = Some (Inr n, d')
     \<and> catalog (db_tables d') = catalog (db_tables buffered_db)"
proof -
  have "db_faults buffered_db = []" "\<forall>c \<in> set (db_chunksBuf buffered_db). long_hash c" "db_wf (db_tables buffered_db)"
    by (simp_all add: buffered_db_def sample_db_def long_hash_def db_wf_def sample_tables_def blank_file_def file_key_def)
  from sweep_of_chunks_is_safe [OF this, of "sample_settings_of ''/d''"] show ?thesis by blast
qed

end
