(* ===== verification/Masters.thy ===== *)
theory Masters
  imports ChunkedFS
begin

text \<open>
  The interface \<^verbatim>\<open>PlukClient\<close> of \<^verbatim>\<open>pkg/io/chunked_file.go\<close> and the client of several
  masters of \<^verbatim>\<open>pkg/plukclient/masters.go\<close>. A client is a record of its calls; each call goes
  through the network, whose state is \<open>'m\<close>, and gives what the Go method gives: a result,
  which may be \<^verbatim>\<open>nil\<close> (\<open>None\<close>), and an error. Of a workspace only the name is kept, a posted
  specification is the text of its JSON, and a body that a call reads is given back with what
  is left to read.
\<close>

section \<open>The interface\<close>

type_synonym ('m, 'a) call = "'m \<Rightarrow> ('a option \<times> go_error option) \<times> 'm"

type_synonym 'm action = "'m \<Rightarrow> go_error option \<times> 'm"

record 'm client =
  cl_CheckWorkspace :: "string \<Rightarrow> ('m, string) call"
  cl_CheckEntityPermission :: "string \<Rightarrow> string \<Rightarrow> string \<Rightarrow> bool \<Rightarrow> ('m, dataset_info) call"
  cl_CheckEntityExists :: "string \<Rightarrow> string \<Rightarrow> string \<Rightarrow> ('m, dataset_info) call"
  cl_ListEntities :: "string \<Rightarrow> string \<Rightarrow> ('m, dataset_info list) call"
  cl_GetEntity :: "string \<Rightarrow> string \<Rightarrow> string \<Rightarrow> ('m, dataset_info) call"
  cl_GetVersion :: "string \<Rightarrow> string \<Rightarrow> string \<Rightarrow> string \<Rightarrow> ('m, version_info) call"
  cl_CreateEntity :: "string \<Rightarrow> string \<Rightarrow> string \<Rightarrow> ('m, dataset_info) call"
  cl_CreateVersion :: "string \<Rightarrow> string \<Rightarrow> string \<Rightarrow> string \<Rightarrow> ('m, version_info) call"
  cl_ListVersions :: "string \<Rightarrow> string \<Rightarrow> string \<Rightarrow> ('m, version_info list) call"
  cl_DownloadChunk :: "string \<Rightarrow> nat \<Rightarrow> ('m, body) call"
  cl_GetFSStructure :: "string \<Rightarrow> string \<Rightarrow> string \<Rightarrow> string \<Rightarrow> ('m, fs) call"
  cl_CheckChunk :: "string \<Rightarrow> nat \<Rightarrow> ('m, chunk_check) call"
  cl_PostEntitySpec :: "string \<Rightarrow> string \<Rightarrow> string \<Rightarrow> string \<Rightarrow> 'm action"
  cl_PostEntitySpecForVersion :: "string \<Rightarrow> string \<Rightarrow> string \<Rightarrow> string \<Rightarrow> string \<Rightarrow> 'm action"
  cl_DeleteEntity :: "string \<Rightarrow> string \<Rightarrow> string \<Rightarrow> bool \<Rightarrow> 'm action"
  cl_DeleteVersion :: "string \<Rightarrow> string \<Rightarrow> string \<Rightarrow> string \<Rightarrow> 'm action"
  cl_SaveChunk :: "string \<Rightarrow> byte list \<Rightarrow> nat \<Rightarrow> 'm action"
  cl_DeleteFile :: "string \<Rightarrow> string \<Rightarrow> string \<Rightarrow> string \<Rightarrow> string \<Rightarrow> 'm action"
  cl_SaveFileStructure :: "file_structure \<Rightarrow> string \<Rightarrow> string \<Rightarrow> string \<Rightarrow> string \<Rightarrow> save_opts \<Rightarrow> 'm action"
  cl_SaveChunkReader :: "string \<Rightarrow> body \<Rightarrow> nat \<Rightarrow> 'm \<Rightarrow> (go_error option \<times> body) \<times> 'm"
  cl_UploadFile :: "string \<Rightarrow> string \<Rightarrow> string \<Rightarrow> string \<Rightarrow> string \<Rightarrow> body \<Rightarrow> 'm \<Rightarrow> ((hashed_file option \<times> go_error option) \<times> body) \<times> 'm"
  cl_DownloadFile :: "string \<Rightarrow> string \<Rightarrow> string \<Rightarrow> string \<Rightarrow> string \<Rightarrow> ('m, body) call"
  cl_DownloadEntity :: "string \<Rightarrow> string \<Rightarrow> string \<Rightarrow> string \<Rightarrow> 'm \<Rightarrow> (byte list \<times> go_error option) \<times> 'm"
  cl_EntityTarSize :: "string \<Rightarrow> string \<Rightarrow> string \<Rightarrow> string \<Rightarrow> 'm \<Rightarrow> (int \<times> go_error option) \<times> 'm"
  cl_WebdavAuth :: "string \<Rightarrow> string \<Rightarrow> string \<Rightarrow> 'm \<Rightarrow> (bool \<times> go_error option) \<times> 'm"

section \<open>The loops over the masters\<close>

text \<open>The first answer without error; the error of the last client if there is none.\<close>

fun first_ok :: "('c \<Rightarrow> ('m, 'a) call) \<Rightarrow> 'c list \<Rightarrow> go_error option \<Rightarrow> ('m, 'a) call" where
  "first_ok call [] err m = ((None, err), m)"
| "first_ok call (cl # cs) err m =
     (case call cl m of
        ((res, Some e), m') \<Rightarrow> first_ok call cs (Some e) m'
      | ((res, None), m') \<Rightarrow> ((res, None), m'))"

fun first_done :: "('c \<Rightarrow> 'm action) \<Rightarrow> 'c list \<Rightarrow> go_error option \<Rightarrow> 'm action" where
  "first_done call [] err m = (err, m)"
| "first_done call (cl # cs) err m =
     (case call cl m of
        (Some e, m') \<Rightarrow> first_done call cs (Some e) m'
      | (None, m') \<Rightarrow> (None, m'))"

text \<open>The loops that return at the head of the next turn when there is an error.\<close>

fun first_only :: "('c \<Rightarrow> ('m, 'a) call) \<Rightarrow> 'c list \<Rightarrow> go_error option \<Rightarrow> ('m, 'a) call" where
  "first_only call [] err m = ((None, err), m)"
| "first_only call (cl # cs) err m =
     (if err \<noteq> None then ((None, err), m)
      else case call cl m of
        ((res, Some e), m') \<Rightarrow> first_only call cs (Some e) m'
      | ((res, None), m') \<Rightarrow> ((res, None), m'))"

fun only_done :: "('c \<Rightarrow> 'm action) \<Rightarrow> 'c list \<Rightarrow> go_error option \<Rightarrow> 'm action" where
  "only_done call [] err m = (err, m)"
| "only_done call (cl # cs) err m =
     (if err \<noteq> None then (err, m)
      else case call cl m of
        (Some e, m') \<Rightarrow> only_done call cs (Some e) m'
      | (None, m') \<Rightarrow> (None, m'))"

text \<open>Every client in turn, up to the first error.\<close>

fun all_done :: "('c \<Rightarrow> 'm action) \<Rightarrow> 'c list \<Rightarrow> go_error option \<Rightarrow> 'm action" where
  "all_done call [] err m = (err, m)"
| "all_done call (cl # cs) err m =
     (if err \<noteq> None then (err, m)
      else case call cl m of
        (Some e, m') \<Rightarrow> (Some e, m')
      | (None, m') \<Rightarrow> all_done call cs None m')"

section \<open>The calls\<close>

text \<open>\<^verbatim>\<open>SaveFileStructure\<close> does not leave at an error but at the head of the next turn: the same loop.\<close>

definition mm_CheckWorkspace ::
  "'m client list \<Rightarrow> string \<Rightarrow> ('m, string) call" where
  "mm_CheckWorkspace cs workspace = first_ok (\<lambda>cl. cl_CheckWorkspace cl workspace) cs None"

definition mm_CheckEntityPermission ::
  "'m client list \<Rightarrow> string \<Rightarrow> string \<Rightarrow> string \<Rightarrow> bool \<Rightarrow> ('m, dataset_info) call" where
  "mm_CheckEntityPermission cs entityType workspace name write = first_ok (\<lambda>cl. cl_CheckEntityPermission cl entityType workspace name write) cs None"

definition mm_CheckEntityExists ::
  "'m client list \<Rightarrow> string \<Rightarrow> string \<Rightarrow> string \<Rightarrow> ('m, dataset_info) call" where
  "mm_CheckEntityExists cs entityType workspace name = first_ok (\<lambda>cl. cl_CheckEntityExists cl entityType workspace name) cs None"

definition mm_ListEntities ::
  "'m client list \<Rightarrow> string \<Rightarrow> string \<Rightarrow> ('m, dataset_info list) call" where
  "mm_ListEntities cs entityType workspace = first_ok (\<lambda>cl. cl_ListEntities cl entityType workspace) cs None"

definition mm_GetEntity ::
  "'m client list \<Rightarrow> string \<Rightarrow> string \<Rightarrow> string \<Rightarrow> ('m, dataset_info) call" where
  "mm_GetEntity cs entityType workspace name = first_ok (\<lambda>cl. cl_GetEntity cl entityType workspace name) cs None"

definition mm_GetVersion ::
  "'m client list \<Rightarrow> string \<Rightarrow> string \<Rightarrow> string \<Rightarrow> string \<Rightarrow> ('m, version_info) call" where
  "mm_GetVersion cs entityType workspace name version = first_ok (\<lambda>cl. cl_GetVersion cl entityType workspace name version) cs None"

definition mm_CreateEntity ::
  "'m client list \<Rightarrow> string \<Rightarrow> string \<Rightarrow> string \<Rightarrow> ('m, dataset_info) call" where
  "mm_CreateEntity cs entityType workspace name = first_ok (\<lambda>cl. cl_CreateEntity cl entityType workspace name) cs None"

definition mm_CreateVersion ::
  "'m client list \<Rightarrow> string \<Rightarrow> string \<Rightarrow> string \<Rightarrow> string \<Rightarrow> ('m, version_info) call" where
  "mm_CreateVersion cs entityType workspace name version = first_ok (\<lambda>cl. cl_CreateVersion cl entityType workspace name version) cs None"

definition mm_ListVersions ::
  "'m client list \<Rightarrow> string \<Rightarrow> string \<Rightarrow> string \<Rightarrow> ('m, version_info list) call" where
  "mm_ListVersions cs entityType workspace name = first_ok (\<lambda>cl. cl_ListVersions cl entityType workspace name) cs None"

definition mm_DownloadChunk ::
  "'m client list \<Rightarrow> string \<Rightarrow> nat \<Rightarrow> ('m, body) call" where
  "mm_DownloadChunk cs hash version = first_ok (\<lambda>cl. cl_DownloadChunk cl hash version) cs None"

definition mm_GetFSStructure ::
  "'m client list \<Rightarrow> string \<Rightarrow> string \<Rightarrow> string \<Rightarrow> string \<Rightarrow> ('m, fs) call" where
  "mm_GetFSStructure cs entityType workspace name version = first_only (\<lambda>cl. cl_GetFSStructure cl entityType workspace name version) cs None"

definition mm_CheckChunk ::
  "'m client list \<Rightarrow> string \<Rightarrow> nat \<Rightarrow> ('m, chunk_check) call" where
  "mm_CheckChunk cs hash version = first_only (\<lambda>cl. cl_CheckChunk cl hash version) cs None"

definition mm_PostEntitySpec ::
  "'m client list \<Rightarrow> string \<Rightarrow> string \<Rightarrow> string \<Rightarrow> string \<Rightarrow> 'm action" where
  "mm_PostEntitySpec cs entityType workspace name spec = first_done (\<lambda>cl. cl_PostEntitySpec cl entityType workspace name spec) cs None"

definition mm_PostEntitySpecForVersion ::
  "'m client list \<Rightarrow> string \<Rightarrow> string \<Rightarrow> string \<Rightarrow> string \<Rightarrow> string \<Rightarrow> 'm action" where
  "mm_PostEntitySpecForVersion cs entityType workspace name version spec = first_done (\<lambda>cl. cl_PostEntitySpecForVersion cl entityType workspace name version spec) cs None"

definition mm_DeleteEntity ::
  "'m client list \<Rightarrow> string \<Rightarrow> string \<Rightarrow> string \<Rightarrow> bool \<Rightarrow> 'm action" where
  "mm_DeleteEntity cs entityType workspace name force = only_done (\<lambda>cl. cl_DeleteEntity cl entityType workspace name force) cs None"

definition mm_DeleteVersion ::
  "'m client list \<Rightarrow> string \<Rightarrow> string \<Rightarrow> string \<Rightarrow> string \<Rightarrow> 'm action" where
  "mm_DeleteVersion cs entityType workspace name version = only_done (\<lambda>cl. cl_DeleteVersion cl entityType workspace name version) cs None"

definition mm_SaveChunk ::
  "'m client list \<Rightarrow> string \<Rightarrow> byte list \<Rightarrow> nat \<Rightarrow> 'm action" where
  "mm_SaveChunk cs hash data version = all_done (\<lambda>cl. cl_SaveChunk cl hash data version) cs None"

definition mm_DeleteFile ::
  "'m client list \<Rightarrow> string \<Rightarrow> string \<Rightarrow> string \<Rightarrow> string \<Rightarrow> string \<Rightarrow> 'm action" where
  "mm_DeleteFile cs entityType workspace name version fileName = all_done (\<lambda>cl. cl_DeleteFile cl entityType workspace name version fileName) cs None"

definition mm_SaveFileStructure ::
  "'m client list \<Rightarrow> file_structure \<Rightarrow> string \<Rightarrow> string \<Rightarrow> string \<Rightarrow> string \<Rightarrow> save_opts \<Rightarrow> 'm action" where
  "mm_SaveFileStructure cs structure entityType workspace name version opts = all_done (\<lambda>cl. cl_SaveFileStructure cl structure entityType workspace name version opts) cs None"

text \<open>One reader is handed to the clients one after the other.\<close>

fun mm_SaveChunkReader ::
  "'m client list \<Rightarrow> string \<Rightarrow> body \<Rightarrow> nat \<Rightarrow> 'm \<Rightarrow> (go_error option \<times> body) \<times> 'm" where
  "mm_SaveChunkReader [] hash reader version m = ((None, reader), m)"
| "mm_SaveChunkReader (cl # cs) hash reader version m =
     (case cl_SaveChunkReader cl hash reader version m of
        ((Some e, reader'), m') \<Rightarrow> ((Some e, reader'), m')
      | ((None, reader'), m') \<Rightarrow> mm_SaveChunkReader cs hash reader' version m')"

text \<open>What the last client answers is returned with an error only; otherwise the result is \<^verbatim>\<open>nil\<close>.\<close>

fun mm_UploadFile ::
  "'m client list \<Rightarrow> string \<Rightarrow> string \<Rightarrow> string \<Rightarrow> string \<Rightarrow> string \<Rightarrow> body
     \<Rightarrow> 'm \<Rightarrow> ((hashed_file option \<times> go_error option) \<times> body) \<times> 'm" where
  "mm_UploadFile [] entityType workspace name version fileName body m = (((None, None), body), m)"
| "mm_UploadFile (cl # cs) entityType workspace name version fileName body m =
     (case cl_UploadFile cl entityType workspace name version fileName body m of
        (((f, Some e), body'), m') \<Rightarrow> (((f, Some e), body'), m')
      | (((f, None), body'), m') \<Rightarrow> mm_UploadFile cs entityType workspace name version fileName body' m')"

fun mm_DownloadFile ::
  "'m client list \<Rightarrow> string \<Rightarrow> string \<Rightarrow> string \<Rightarrow> string \<Rightarrow> string \<Rightarrow> ('m, body) call" where
  "mm_DownloadFile [] entityType workspace name version fileName m = ((None, None), m)"
| "mm_DownloadFile (cl # cs) entityType workspace name version fileName m =
     (case cl_DownloadFile cl entityType workspace name version fileName m of
        ((res, Some e), m') \<Rightarrow> ((res, Some e), m')
      | ((res, None), m') \<Rightarrow> mm_DownloadFile cs entityType workspace name version fileName m')"

text \<open>What was written to \<^verbatim>\<open>w\<close>, and the error.\<close>

fun mm_download ::
  "'m client list \<Rightarrow> string \<Rightarrow> string \<Rightarrow> string \<Rightarrow> string \<Rightarrow> byte list \<Rightarrow> go_error option \<Rightarrow> 'm
     \<Rightarrow> (byte list \<times> go_error option) \<times> 'm" where
  "mm_download [] entityType workspace name version w err m = ((w, err), m)"
| "mm_download (cl # cs) entityType workspace name version w err m =
     (if err \<noteq> None then ((w, err), m)
      else case cl_DownloadEntity cl entityType workspace name version m of
        ((bs, Some e), m') \<Rightarrow> mm_download cs entityType workspace name version (w @ bs) (Some e) m'
      | ((bs, None), m') \<Rightarrow> ((w @ bs, None), m'))"

definition mm_DownloadEntity ::
  "'m client list \<Rightarrow> string \<Rightarrow> string \<Rightarrow> string \<Rightarrow> string \<Rightarrow> 'm \<Rightarrow> (byte list \<times> go_error option) \<times> 'm" where
  "mm_DownloadEntity cs entityType workspace name version = mm_download cs entityType workspace name version [] None"

fun mm_tar_size ::
  "'m client list \<Rightarrow> string \<Rightarrow> string \<Rightarrow> string \<Rightarrow> string \<Rightarrow> int \<Rightarrow> go_error option \<Rightarrow> 'm \<Rightarrow> (int \<times> go_error option) \<times> 'm" where
  "mm_tar_size [] entityType workspace name version res err m = ((res, err), m)"
| "mm_tar_size (cl # cs) entityType workspace name version res err m =
     (if err \<noteq> None then ((0, err), m)
      else case cl_EntityTarSize cl entityType workspace name version m of
        ((res', Some e), m') \<Rightarrow> mm_tar_size cs entityType workspace name version res' (Some e) m'
      | ((res', None), m') \<Rightarrow> ((0, None), m'))"

definition mm_EntityTarSize ::
  "'m client list \<Rightarrow> string \<Rightarrow> string \<Rightarrow> string \<Rightarrow> string \<Rightarrow> 'm \<Rightarrow> (int \<times> go_error option) \<times> 'm" where
  "mm_EntityTarSize cs entityType workspace name version = mm_tar_size cs entityType workspace name version 0 None"

fun mm_auth :: "'m client list \<Rightarrow> string \<Rightarrow> string \<Rightarrow> string \<Rightarrow> bool \<Rightarrow> go_error option \<Rightarrow> 'm \<Rightarrow> (bool \<times> go_error option) \<times> 'm" where
  "mm_auth [] user pass path yes err m = ((yes, err), m)"
| "mm_auth (cl # cs) user pass path yes err m =
     (if err \<noteq> None then ((False, err), m)
      else case cl_WebdavAuth cl user pass path m of
        ((yes', Some e), m') \<Rightarrow> mm_auth cs user pass path yes' (Some e) m'
      | ((yes', None), m') \<Rightarrow> ((yes', None), m'))"

definition mm_WebdavAuth :: "'m client list \<Rightarrow> string \<Rightarrow> string \<Rightarrow> string \<Rightarrow> 'm \<Rightarrow> (bool \<times> go_error option) \<times> 'm" where
  "mm_WebdavAuth cs user pass path = mm_auth cs user pass path False None"

text \<open>The client of the masters is itself a client.\<close>

definition MultiMasterClient :: "'m client list \<Rightarrow> 'm client" where
  "MultiMasterClient cs = \<lparr>cl_CheckWorkspace = mm_CheckWorkspace cs,
     cl_CheckEntityPermission = mm_CheckEntityPermission cs,
     cl_CheckEntityExists = mm_CheckEntityExists cs,
     cl_ListEntities = mm_ListEntities cs,
     cl_GetEntity = mm_GetEntity cs,
     cl_GetVersion = mm_GetVersion cs,
     cl_CreateEntity = mm_CreateEntity cs,
     cl_CreateVersion = mm_CreateVersion cs,
     cl_ListVersions = mm_ListVersions cs,
     cl_DownloadChunk = mm_DownloadChunk cs,
     cl_GetFSStructure = mm_GetFSStructure cs,
     cl_CheckChunk = mm_CheckChunk cs,
     cl_PostEntitySpec = mm_PostEntitySpec cs,
     cl_PostEntitySpecForVersion = mm_PostEntitySpecForVersion cs,
     cl_DeleteEntity = mm_DeleteEntity cs,
     cl_DeleteVersion = mm_DeleteVersion cs,
     cl_SaveChunk = mm_SaveChunk cs,
     cl_DeleteFile = mm_DeleteFile cs,
     cl_SaveFileStructure = mm_SaveFileStructure cs,
     cl_SaveChunkReader = mm_SaveChunkReader cs,
     cl_UploadFile = mm_UploadFile cs,
     cl_DownloadFile = mm_DownloadFile cs,
     cl_DownloadEntity = mm_DownloadEntity cs,
     cl_EntityTarSize = mm_EntityTarSize cs,
     cl_WebdavAuth = mm_WebdavAuth cs\<rparr>"

section \<open>Which masters there are\<close>

record auth_opts =
  au_Token :: string
  au_Cookie :: string
  au_InternalKey :: string
  au_Workspace :: string
  au_Secret :: string
  au_InsecureSkipVerify :: bool

definition no_auth :: auth_opts where
  "no_auth = \<lparr>au_Token = [], au_Cookie = [], au_InternalKey = [], au_Workspace = [], au_Secret = [],
              au_InsecureSkipVerify = False\<rparr>"

text \<open>A master whose address \<^verbatim>\<open>NewClient\<close> refuses is left out.\<close>

definition initAllClients :: "(string \<Rightarrow> auth_opts \<Rightarrow> 'm client res) \<Rightarrow> string list \<Rightarrow> auth_opts \<Rightarrow> 'm client list" where
  "initAllClients newClient masters auth =
     concat (map (\<lambda>m. case newClient m auth of Inl _ \<Rightarrow> [] | Inr cl \<Rightarrow> [cl]) masters)"

definition NewInternalMasterClient ::
  "(string \<Rightarrow> auth_opts \<Rightarrow> 'm client res) \<Rightarrow> env \<Rightarrow> 'm client list option" where
  "NewInternalMasterClient newClient getenv =
     (let masters = Masters getenv in
      if length masters = 0 then None
      else Some (initAllClients newClient masters
                   (no_auth\<lparr>au_InternalKey := InternalKey getenv, au_InsecureSkipVerify := True\<rparr>)))"

definition NewMasterClientWithSecret ::
  "(string \<Rightarrow> auth_opts \<Rightarrow> 'm client res) \<Rightarrow> env \<Rightarrow> string \<Rightarrow> string \<Rightarrow> 'm client list" where
  "NewMasterClientWithSecret newClient getenv workspace secret =
     initAllClients newClient (Masters getenv) (no_auth\<lparr>au_Workspace := workspace, au_Secret := secret\<rparr>)"

text \<open>\<open>headers\<close>: \<^verbatim>\<open>http.Header.Get\<close>.\<close>

definition auth_of_headers :: "(string \<Rightarrow> string) \<Rightarrow> auth_opts" where
  "auth_of_headers headers = \<lparr>au_Token = trim_prefix (headers ''Authorization'') ''Bearer '', au_Cookie = headers ''Cookie'',
     au_InternalKey = [], au_Workspace = headers ''X-Workspace-Name'', au_Secret = headers ''X-Workspace-Secret'',
     au_InsecureSkipVerify = True\<rparr>"

definition NewMasterClientFromHeaders ::
  "(string \<Rightarrow> auth_opts \<Rightarrow> 'm client res) \<Rightarrow> env \<Rightarrow> (string \<Rightarrow> string) \<Rightarrow> 'm client list" where
  "NewMasterClientFromHeaders newClient getenv headers =
     initAllClients newClient (Masters getenv) (auth_of_headers headers)"

section \<open>What the loops come to\<close>

text \<open>The state of the network after calls that all fail, and after calls that all succeed.\<close>

fun failing :: "('c \<Rightarrow> ('m, 'a) call) \<Rightarrow> 'c list \<Rightarrow> 'm \<Rightarrow> 'm option" where
  "failing call [] m = Some m"
| "failing call (cl # cs) m =
     (case call cl m of ((_, Some e), m') \<Rightarrow> failing call cs m' | ((_, None), _) \<Rightarrow> None)"

fun succeeding :: "('c \<Rightarrow> 'm action) \<Rightarrow> 'c list \<Rightarrow> 'm \<Rightarrow> 'm option" where
  "succeeding call [] m = Some m"
| "succeeding call (cl # cs) m =
     (case call cl m of (None, m') \<Rightarrow> succeeding call cs m' | (Some e, _) \<Rightarrow> None)"

lemma first_ok_answer:
  "failing call pre m = Some m1 \<Longrightarrow> call cl m1 = ((res, None), m2) \<Longrightarrow>
   first_ok call (pre @ cl # post) err m = ((res, None), m2)"
  by (induction call pre err m rule: first_ok.induct) (auto split: prod.splits option.splits)

lemma first_ok_error:
  "failing call cs m = Some m1 \<Longrightarrow> cs \<noteq> [] \<Longrightarrow> \<exists>e. first_ok call cs err m = ((None, Some e), m1)"
proof (induction call cs err m rule: first_ok.induct)
  case (2 call cl cs err m)
  then show ?case by (cases cs) (auto split: prod.splits option.splits)
qed simp

lemma first_only_head: "first_only call (cl # cs) None m = first_only call [cl] None m"
  by (cases cs) (auto split: prod.splits option.splits)

lemma only_done_head: "only_done call (cl # cs) None m = only_done call [cl] None m"
  by (cases cs) (auto split: prod.splits option.splits)

lemma all_done_ok: "all_done call cs None m = (None, m') \<longleftrightarrow> succeeding call cs m = Some m'"
  by (induction cs arbitrary: m) (auto split: prod.splits option.splits)

lemma all_done_stops:
  "all_done call cs None m = (Some e, m') \<longleftrightarrow>
   (\<exists>pre cl post m1. cs = pre @ cl # post \<and> succeeding call pre m = Some m1 \<and> call cl m1 = (Some e, m'))"
proof (induction cs arbitrary: m)
  case (Cons c cs)
  show ?case
  proof (cases "call c m")
    case (Pair r m1)
    show ?thesis
    proof (cases r)
      case None
      have "(\<exists>pre cl post m2. c # cs = pre @ cl # post \<and> succeeding call pre m = Some m2 \<and> call cl m2 = (Some e, m'))
        \<longleftrightarrow> (\<exists>pre cl post m2. cs = pre @ cl # post \<and> succeeding call pre m1 = Some m2 \<and> call cl m2 = (Some e, m'))"
        (is "?L \<longleftrightarrow> ?R")
      proof
        assume ?L
        then obtain pre cl post m2 where p: "c # cs = pre @ cl # post" "succeeding call pre m = Some m2" "call cl m2 = (Some e, m')"
          by blast
        then show ?R using Pair None by (cases pre) auto
      next
        assume ?R
        then obtain pre cl post m2 where "cs = pre @ cl # post" "succeeding call pre m1 = Some m2" "call cl m2 = (Some e, m')"
          by blast
        then show ?L using Pair None by (intro exI [of _ "c # pre"] exI [of _ cl] exI [of _ post] exI [of _ m2]) simp
      qed
      then show ?thesis using Pair None Cons.IH [of m1] by simp
    next
      case (Some e')
      show ?thesis
      proof
        assume "all_done call (c # cs) None m = (Some e, m')"
        then show "\<exists>pre cl post m1. c # cs = pre @ cl # post \<and> succeeding call pre m = Some m1 \<and> call cl m1 = (Some e, m')"
          using Pair Some by (intro exI [of _ "[]"]) simp
      next
        assume "\<exists>pre cl post m1. c # cs = pre @ cl # post \<and> succeeding call pre m = Some m1 \<and> call cl m1 = (Some e, m')"
        then obtain pre cl post m2 where p: "c # cs = pre @ cl # post" "succeeding call pre m = Some m2" "call cl m2 = (Some e, m')"
          by blast
        then show "all_done call (c # cs) None m = (Some e, m')" using Pair Some by (cases pre) auto
      qed
    qed
  qed
qed simp

section \<open>Properties\<close>

text \<open>A read falls over: while the first masters answer with an error, the next ones are asked,
  and the answer of the first that has no error is returned without asking the ones after it;
  when all fail, an error is returned and no result.\<close>

theorem reads_fall_over:
  assumes "failing (\<lambda>cl. cl_ListVersions cl ty ws name) pre m = Some m1"
    and "cl_ListVersions cl ty ws name m1 = ((res, None), m2)"
    and "failing (\<lambda>cl. cl_DownloadChunk cl h v) pre' m = Some m1'" and "pre' \<noteq> []"
  shows "mm_ListVersions (pre @ cl # post) ty ws name m = ((res, None), m2)
    \<and> (\<exists>e. mm_DownloadChunk pre' h v m = ((None, Some e), m1'))
    \<and> (\<forall>res' m2'. cl_DownloadChunk cl h v m1' = ((res', None), m2') \<longrightarrow>
         mm_DownloadChunk (pre' @ cl # post) h v m = ((res', None), m2'))"
  using assms first_ok_error [OF assms(3,4)]
  by (simp add: mm_ListVersions_def mm_DownloadChunk_def first_ok_answer)

text \<open>A chunk is saved to every master or an error is returned: \<^verbatim>\<open>SaveChunk\<close> returns no error
  exactly when all masters accepted the chunk one after the other, and an error exactly when
  some master refused it after all before it accepted, with no call to the ones after it.\<close>

theorem chunk_is_saved_to_all_masters:
  "(mm_SaveChunk cs h data v m = (None, m') \<longleftrightarrow> succeeding (\<lambda>cl. cl_SaveChunk cl h data v) cs m = Some m')
   \<and> (mm_SaveChunk cs h data v m = (Some e, m') \<longleftrightarrow>
       (\<exists>pre cl post m1. cs = pre @ cl # post \<and> succeeding (\<lambda>cl. cl_SaveChunk cl h data v) pre m = Some m1
          \<and> cl_SaveChunk cl h data v m1 = (Some e, m')))"
  by (simp add: mm_SaveChunk_def all_done_ok all_done_stops)

text \<open>In these calls the second master is never asked: with any further masters the file
  structure of a version, the check of a chunk, and the deletion of a dataset or a version answer
  what the first master alone answers, its errors included.\<close>

theorem only_the_first_master_is_asked:
  "mm_GetFSStructure (cl # cs) ty ws name ver m = mm_GetFSStructure [cl] ty ws name ver m
   \<and> mm_CheckChunk (cl # cs) h v m = mm_CheckChunk [cl] h v m
   \<and> mm_DeleteEntity (cl # cs) ty ws name force m = mm_DeleteEntity [cl] ty ws name force m
   \<and> mm_DeleteVersion (cl # cs) ty ws name ver m = mm_DeleteVersion [cl] ty ws name ver m"
  unfolding mm_GetFSStructure_def mm_CheckChunk_def mm_DeleteEntity_def mm_DeleteVersion_def
  by (intro conjI first_only_head only_done_head)

lemma lost_size: "mm_tar_size cs ty ws name ver 0 None m = ((n, None), m') \<Longrightarrow> n = 0"
  by (cases cs; cases "tl cs") (auto split: prod.splits option.splits if_splits)

lemma lost_download: "mm_DownloadFile cs ty ws name ver file m = ((res, None), m') \<Longrightarrow> res = None"
  by (induction cs arbitrary: m) (auto split: prod.splits option.splits)

lemma lost_upload: "mm_UploadFile cs ty ws name ver file body m = (((f, None), body'), m') \<Longrightarrow> f = None"
  by (induction cs arbitrary: m body) (auto split: prod.splits option.splits)

text \<open>The results of these calls are lost: when \<^verbatim>\<open>EntityTarSize\<close> returns no error its size is 0,
  and when \<^verbatim>\<open>DownloadFile\<close> or \<^verbatim>\<open>UploadFile\<close> returns no error its result is \<^verbatim>\<open>nil\<close>, whatever the
  masters answered.\<close>

theorem successful_results_are_lost:
  "(mm_EntityTarSize cs ty ws name ver m = ((n, None), m') \<longrightarrow> n = 0)
   \<and> (mm_DownloadFile cs ty ws name ver file m = ((res, None), m') \<longrightarrow> res = None)
   \<and> (mm_UploadFile cs ty ws name ver file body m = (((f, None), body'), m') \<longrightarrow> f = None)"
  unfolding mm_EntityTarSize_def
  by (intro conjI impI) (erule lost_size, erule lost_download, erule lost_upload)

section \<open>Witnesses\<close>

text \<open>The state of the network is the number of calls. One master is down, one answers.\<close>

definition down :: "nat \<Rightarrow> ('a option \<times> go_error option) \<times> nat" where
  "down m = ((None, Some (Errorf ''connection refused'')), m + 1)"

definition refused :: "nat \<Rightarrow> go_error option \<times> nat" where
  "refused m = (Some (Errorf ''connection refused''), m + 1)"

definition dead_master :: "nat client" where
  "dead_master = \<lparr>cl_CheckWorkspace = \<lambda>_. down,
     cl_CheckEntityPermission = \<lambda>_ _ _ _. down,
     cl_CheckEntityExists = \<lambda>_ _ _. down,
     cl_ListEntities = \<lambda>_ _. down,
     cl_GetEntity = \<lambda>_ _ _. down,
     cl_GetVersion = \<lambda>_ _ _ _. down,
     cl_CreateEntity = \<lambda>_ _ _. down,
     cl_CreateVersion = \<lambda>_ _ _ _. down,
     cl_ListVersions = \<lambda>_ _ _. down,
     cl_DownloadChunk = \<lambda>_ _. down,
     cl_GetFSStructure = \<lambda>_ _ _ _. down,
     cl_CheckChunk = \<lambda>_ _. down,
     cl_PostEntitySpec = \<lambda>_ _ _ _. refused,
     cl_PostEntitySpecForVersion = \<lambda>_ _ _ _ _. refused,
     cl_DeleteEntity = \<lambda>_ _ _ _. refused,
     cl_DeleteVersion = \<lambda>_ _ _ _. refused,
     cl_SaveChunk = \<lambda>_ _ _. refused,
     cl_DeleteFile = \<lambda>_ _ _ _ _. refused,
     cl_SaveFileStructure = \<lambda>_ _ _ _ _ _. refused,
     cl_SaveChunkReader = \<lambda>_ b _ m. ((Some (Errorf ''connection refused''), b), m + 1),
     cl_UploadFile = \<lambda>_ _ _ _ _ b m. (((None, Some (Errorf ''connection refused'')), b), m + 1),
     cl_DownloadFile = \<lambda>_ _ _ _ _. down,
     cl_DownloadEntity = \<lambda>_ _ _ _ m. (([], Some (Errorf ''connection refused'')), m + 1),
     cl_EntityTarSize = \<lambda>_ _ _ _ m. ((0, Some (Errorf ''connection refused'')), m + 1),
     cl_WebdavAuth = \<lambda>_ _ _ m. ((False, Some (Errorf ''connection refused'')), m + 1)\<rparr>"

definition live_master :: "nat client" where
  "live_master = dead_master\<lparr>cl_ListVersions := \<lambda>_ _ _ m. ((Some [], None), m + 1),
     cl_DownloadChunk := \<lambda>_ _ m. ((Some ([7], None), None), m + 1),
     cl_EntityTarSize := \<lambda>_ _ _ _ m. ((2048, None), m + 1),
     cl_DownloadFile := \<lambda>_ _ _ _ _ m. ((Some ([7], None), None), m + 1)\<rparr>"

theorem reads_fall_over_witness:
  "mm_ListVersions [dead_master, live_master, dead_master] ''dataset'' ''w'' ''d'' 0 = ((Some [], None), 2)
   \<and> mm_DownloadChunk [dead_master, live_master] ''aa'' 2 0 = ((Some ([7], None), None), 2)"
proof -
  have "failing (\<lambda>cl. cl_ListVersions cl ''dataset'' ''w'' ''d'') [dead_master] 0 = Some 1"
    "cl_ListVersions live_master ''dataset'' ''w'' ''d'' 1 = ((Some [], None), 2)"
    "failing (\<lambda>cl. cl_DownloadChunk cl ''aa'' 2) [dead_master] 0 = Some 1"
    "cl_DownloadChunk live_master ''aa'' 2 1 = ((Some ([7], None), None), 2)"
    by (simp_all add: dead_master_def live_master_def down_def)
  then show ?thesis
    using reads_fall_over [of "''dataset''" "''w''" "''d''" "[dead_master]" 0 1 live_master "Some []" 2 "''aa''" 2 "[dead_master]" 1]
    by simp
qed

theorem successful_results_are_lost_witness:
  "mm_EntityTarSize [live_master] ''dataset'' ''w'' ''d'' ''1.0.0'' 0 = ((0, None), 1)
   \<and> mm_DownloadFile [live_master] ''dataset'' ''w'' ''d'' ''1.0.0'' ''f'' 0 = ((None, None), 1)"
proof -
  obtain n where n: "mm_EntityTarSize [live_master] ''dataset'' ''w'' ''d'' ''1.0.0'' 0 = ((n, None), 1)"
    by (simp add: mm_EntityTarSize_def live_master_def)
  obtain res where res: "mm_DownloadFile [live_master] ''dataset'' ''w'' ''d'' ''1.0.0'' ''f'' 0 = ((res, None), 1)"
    by (simp add: live_master_def)
  from successful_results_are_lost [of "[live_master]" "''dataset''" "''w''" "''d''" "''1.0.0''" 0 n 1 "''f''" res "([], None)" None]
  show ?thesis using n res by simp
qed

end
