(* ===== verification/Datasets.thy ===== *)
theory Datasets
  imports Deletion Masters
begin

text \<open>
  \<^verbatim>\<open>pkg/datasets/dataset.go\<close>: saving a file structure as a version, reading a version back,
  listing, deleting, committing and cloning versions. A dataset is its row; \<open>ms\<close> is its
  \<^verbatim>\<open>MasterClient\<close> (\<open>None\<close>: \<^verbatim>\<open>nil\<close>), a record of calls over the state \<open>db_remote\<close>.

  Two functions here hand their data from a goroutine to a receiving loop over unbuffered
  channels. The model runs the schedule in which the loop finishes with what it received
  before the sender goes on; the statements that another schedule would interleave touch
  different files.
\<close>

section \<open>Calls to the master\<close>

definition remote :: "('m \<Rightarrow> 'a \<times> 'm) \<Rightarrow> ('m, 'a) dbm" where
  "remote f = (\<lambda>d. case f (db_remote d) of (r, m) \<Rightarrow> Some (Inr r, d\<lparr>db_remote := m\<rparr>))"

text \<open>A call of an interface that is \<^verbatim>\<open>nil\<close> panics.\<close>

definition on_master :: "'m client option \<Rightarrow> ('m client \<Rightarrow> 'm \<Rightarrow> 'a \<times> 'm) \<Rightarrow> ('m, 'a) dbm" where
  "on_master ms f = (case ms of None \<Rightarrow> crash | Some cl \<Rightarrow> remote (f cl))"

text \<open>An error that is dropped.\<close>

definition ignore :: "('m, 'a) dbm \<Rightarrow> ('m, unit) dbm" where
  "ignore m = attempt m (\<lambda>_. ret ())"

section \<open>Saving a file structure\<close>

definition createConnections :: "raw_file list \<Rightarrow> ('m, unit) dbm" where
  "createConnections raws =
     (if raws = [] then ret ()
      else bnd (CreateChunks raws) (\<lambda>raws'.
             CreateFileChunks (map (\<lambda>raw. \<lparr>l_FileID = r_FileID raw, l_ChunkID = r_ChunkID raw, l_Index = r_ChunkIndex raw\<rparr>) raws')))"

text \<open>The version row as the caller's object is left.\<close>

definition SaveDatasetVersion :: "version_row \<Rightarrow> ('m, version_row) dbm" where
  "SaveDatasetVersion dsv = attempt (GetDatasetVersion (v_Type dsv) (v_Workspace dsv) (v_Name dsv) (v_Version dsv)) (\<lambda>r.
     case r of
       Inl _ \<Rightarrow> CreateDatasetVersion dsv
     | Inr dsvOld \<Rightarrow>
         let msg = (if v_Message dsv \<noteq> [] then v_Message dsv else v_Message dsvOld) in
         if v_Deleted dsvOld then
           bnd (RecoverDatasetVersion (dsvOld\<lparr>v_Deleted := False, v_Size := v_Size dsv, v_Message := msg\<rparr>))
             (\<lambda>_. ret (dsv\<lparr>v_Deleted := False\<rparr>))
         else
           let editing = (v_Editing dsv \<or> v_Editing dsvOld) in
           bnd (UpdateDatasetVersion (dsvOld\<lparr>v_Size := v_Size dsv, v_Editing := editing,
                                             v_FileCount := v_FileCount dsv, v_Message := msg\<rparr>))
             (\<lambda>_. ret (dsv\<lparr>v_Editing := editing\<rparr>)))"

text \<open>The chunks of the file as it was that no chunk of the new one repeats, one per hash.\<close>

definition stale_chunks :: "raw_file list \<Rightarrow> hash_ref list \<Rightarrow> raw_file list" where
  "stale_chunks exChunks hashes =
     map snd (fold (\<lambda>h m. AList.delete (h_Hash h) m) hashes
                (fold (\<lambda>ex m. AList.update (r_Hash ex) ex m) exChunks []))"

definition ClearExtraChunks :: "version_row \<Rightarrow> string \<Rightarrow> hashed_file \<Rightarrow> ('m, unit) dbm" where
  "ClearExtraChunks dsv path replacement =
     bnd (GetRawFiles (v_Type dsv) (v_Workspace dsv) (v_Name dsv) (v_Version dsv) path True) (\<lambda>exChunks.
       for_each (\<lambda>candidate.
           bnd (DeleteFileChunk (r_FileID candidate) (r_ChunkID candidate))
             (\<lambda>_. CheckAndDeleteChunk (chunk_of_loaded candidate)))
         (stale_chunks exChunks (hf_Hashes replacement)))"

text \<open>Every error of \<^verbatim>\<open>GetFile\<close> counts as a file that is not there.\<close>

definition CheckAndQueueFile :: "version_row \<Rightarrow> hashed_file \<Rightarrow> ('m, unit) dbm" where
  "CheckAndQueueFile dsv f =
     attempt (db_GetFile (v_Workspace dsv) (v_Name dsv) (v_Type dsv) (hf_Path f) (v_Version dsv)) (\<lambda>r.
       case r of Inl _ \<Rightarrow> ret () | Inr _ \<Rightarrow> ClearExtraChunks dsv (hf_Path f) f)"

text \<open>\<^verbatim>\<open>buffer\<close>, \<^verbatim>\<open>bufFiles\<close> and \<^verbatim>\<open>fileMap\<close> of the receiving loop.\<close>

record save_buffers =
  sv_buffer :: "raw_file list"
  sv_bufFiles :: "file_row list"
  sv_fileMap :: "(string \<times> raw_file list) list"

definition tryFlushBuffer :: "settings \<Rightarrow> raw_file option \<Rightarrow> bool \<Rightarrow> raw_file list \<Rightarrow> ('m, raw_file list) dbm" where
  "tryFlushBuffer st chunk force buffer0 =
     (let buffer = buffer0 @ (case chunk of None \<Rightarrow> [] | Some c \<Rightarrow> [c]) in
      if 250 \<le> length buffer \<or> force then
        bnd (TriggerDeleteChunks st) (\<lambda>_. bnd (createConnections buffer) (\<lambda>_. ret []))
      else ret buffer)"

fun flush_raws :: "settings \<Rightarrow> raw_file list \<Rightarrow> raw_file list \<Rightarrow> ('m, raw_file list) dbm" where
  "flush_raws st [] buffer = ret buffer"
| "flush_raws st (raw # raws) buffer =
     bnd (tryFlushBuffer st (Some raw) False buffer) (flush_raws st raws)"

definition raws_of_files :: "(string \<times> raw_file list) list \<Rightarrow> file_row list \<Rightarrow> raw_file list" where
  "raws_of_files fileMap files = concat (map (\<lambda>bufFile.
     map (\<lambda>raw. raw\<lparr>r_FileID := f_ID bufFile\<rparr>) (case map_of fileMap (f_Path bufFile) of None \<Rightarrow> [] | Some raws \<Rightarrow> raws)) files)"

definition flushFileBuffer :: "settings \<Rightarrow> save_buffers \<Rightarrow> ('m, raw_file list) dbm" where
  "flushFileBuffer st sv =
     (if sv_bufFiles sv = [] then ret (sv_buffer sv)
      else bnd (CreateFiles (sv_bufFiles sv)) (\<lambda>files.
             flush_raws st (raws_of_files (sv_fileMap sv) files) (sv_buffer sv)))"

definition file_of_hashed :: "version_row \<Rightarrow> hashed_file \<Rightarrow> file_row" where
  "file_of_hashed dsv f = blank_file\<lparr>f_Size := hf_Size f, f_Path := hf_Path f, f_Version := v_Version dsv,
     f_Workspace := v_Workspace dsv, f_DatasetName := v_Name dsv, f_DatasetType := v_Type dsv, f_Mode := hf_Mode f mod 2 ^ 32\<rparr>"

definition raw_of_hash :: "string \<Rightarrow> nat \<Rightarrow> hash_ref \<Rightarrow> raw_file" where
  "raw_of_hash path i h = \<lparr>r_FileID = 0, r_ChunkID = 0, r_Path = path, r_FileSize = 0, r_ChunkIndex = i, r_FileMode = 0,
     r_ChunkSize = h_Size h, r_Hash = h_Hash h, r_UpdatedAt = 0, r_Version = h_Version h\<rparr>"

definition raws_of_hashed :: "hashed_file \<Rightarrow> raw_file list" where
  "raws_of_hashed f = map (\<lambda>(i, h). raw_of_hash (hf_Path f) i h) (zip [0..<length (hf_Hashes f)] (hf_Hashes f))"

text \<open>A file whose chunks are none has no entry in \<^verbatim>\<open>fileMap\<close>.\<close>

definition add_raws :: "hashed_file \<Rightarrow> (string \<times> raw_file list) list \<Rightarrow> (string \<times> raw_file list) list" where
  "add_raws f m =
     (if hf_Hashes f = [] then m
      else AList.update (hf_Path f)
             ((case map_of m (hf_Path f) of None \<Rightarrow> [] | Some raws \<Rightarrow> raws) @ raws_of_hashed f) m)"

definition receive_file :: "settings \<Rightarrow> version_row \<Rightarrow> hashed_file \<Rightarrow> save_buffers \<Rightarrow> ('m, save_buffers) dbm" where
  "receive_file st dsv f sv =
     (let sv1 = sv\<lparr>sv_bufFiles := sv_bufFiles sv @ [file_of_hashed dsv f], sv_fileMap := add_raws f (sv_fileMap sv)\<rparr> in
      if 100 \<le> length (sv_bufFiles sv1) then
        bnd (flushFileBuffer st sv1) (\<lambda>buffer. ret \<lparr>sv_buffer = buffer, sv_bufFiles = [], sv_fileMap = []\<rparr>)
      else ret sv1)"

fun receiveFileToSave :: "settings \<Rightarrow> version_row \<Rightarrow> file_structure \<Rightarrow> save_buffers \<Rightarrow> ('m, unit) dbm" where
  "receiveFileToSave st dsv [] sv =
     bnd (flushFileBuffer st sv) (\<lambda>buffer. bnd (tryFlushBuffer st None True buffer) (\<lambda>_. ret ()))"
| "receiveFileToSave st dsv (f # fs) sv =
     bnd (CheckAndQueueFile dsv f) (\<lambda>_. bnd (receive_file st dsv f sv) (receiveFileToSave st dsv fs))"

definition add_size :: "string \<Rightarrow> int \<Rightarrow> int \<times> (string \<times> int) list \<Rightarrow> int \<times> (string \<times> int) list" where
  "add_size path sz acc = (wrap64 (fst acc + sz), AList.update path sz (snd acc))"

text \<open>Total size and sizes by path: the new files, then the others that the version has.\<close>

definition version_sizes :: "file_structure \<Rightarrow> file_row list \<Rightarrow> int \<times> (string \<times> int) list" where
  "version_sizes structure files =
     fold (\<lambda>f acc. if map_of (snd acc) (f_Path f) = None then add_size (f_Path f) (f_Size f) acc else acc) files
       (fold (\<lambda>f. add_size (hf_Path f) (hf_Size f)) structure (0, []))"

definition version_of :: "dataset_row \<Rightarrow> string \<Rightarrow> file_structure \<Rightarrow> file_row list \<Rightarrow> version_row" where
  "version_of d version structure files =
     (let (totalSize, fileSizeMap) = version_sizes structure files in
      blank_version\<lparr>v_Size := totalSize, v_FileCount := int (length fileSizeMap), v_Version := version,
        v_Name := d_Name d, v_Workspace := d_Workspace d, v_Type := d_Type d\<rparr>)"

definition SaveFSToDB :: "settings \<Rightarrow> dataset_row \<Rightarrow> file_structure \<Rightarrow> string \<Rightarrow> ('m, unit) dbm" where
  "SaveFSToDB st d structure version = in_tx
     (bnd (ListFiles (file_filter (d_Workspace d) (d_Name d) (d_Type d) [] version)) (\<lambda>files.
        bnd (SaveDatasetVersion (version_of d version structure files)) (\<lambda>dsv.
          receiveFileToSave st dsv structure \<lparr>sv_buffer = [], sv_bufFiles = [], sv_fileMap = []\<rparr>)))"

definition Save ::
  "settings \<Rightarrow> 'm client option \<Rightarrow> dataset_row \<Rightarrow> file_structure \<Rightarrow> string \<Rightarrow> string
     \<Rightarrow> bool \<Rightarrow> bool \<Rightarrow> bool \<Rightarrow> bool \<Rightarrow> ('m, unit) dbm" where
  "Save st ms d structure version comment create publish editing masterSave =
     bnd (SaveFSToDB st d structure version) (\<lambda>_.
       if st_HasMasters st \<and> masterSave then
         bnd (on_master ms (\<lambda>cl. cl_SaveFileStructure cl structure (d_Type d) (d_Workspace d) (d_Name d) version
                \<lparr>so_Comment = comment, so_Create = create, so_Publish = publish, so_Editing = editing\<rparr>))
           (\<lambda>_. ret ())
       else ret ())"

section \<open>Reading a version\<close>

definition GetFSFromDB :: "settings \<Rightarrow> dataset_row \<Rightarrow> string \<Rightarrow> ('m, fs) dbm" where
  "GetFSFromDB st d version = GetFS (st_DataDir st) (d_Type d) (d_Workspace d) (d_Name d) version"

definition hashed_of_file :: "settings \<Rightarrow> string \<Rightarrow> chunked_file \<Rightarrow> hashed_file" where
  "hashed_of_file st path f = \<lparr>hf_Path = trim_prefix path ''/'', hf_Size = cf_Size f,
     hf_Hashes = map (\<lambda>c. case GetHashFromPath (st_DataDir st) (ck_Path c) of (hash, version) \<Rightarrow>
                        \<lparr>h_Hash = hash, h_Size = ck_Size c, h_Version = version\<rparr>) (cf_Chunks f),
     hf_Mode = cf_Mode f, hf_ModeTime = cf_ModTime f\<rparr>"

definition collect_file :: "settings \<Rightarrow> string \<Rightarrow> chunked_file \<Rightarrow> file_structure step" where
  "collect_file st path f dest = Some (None, if cf_Dir f then dest else dest @ [hashed_of_file st path f])"

definition SaveFSLocally :: "settings \<Rightarrow> 'm client option \<Rightarrow> dataset_row \<Rightarrow> fs \<Rightarrow> string \<Rightarrow> ('m, unit) dbm" where
  "SaveFSLocally st ms d src version =
     bnd (lift_option (Walk (collect_file st) src ''/'' [])) (\<lambda>(err, dest).
       case err of
         Some e \<Rightarrow> fail e
       | None \<Rightarrow> Save st ms d dest version [] False False False False)"

text \<open>The copy is saved by a goroutine of its own; here it is done before the tree is handed on.\<close>

definition getFSStructureFromMaster :: "settings \<Rightarrow> 'm client option \<Rightarrow> dataset_row \<Rightarrow> string \<Rightarrow> ('m, fs) dbm" where
  "getFSStructureFromMaster st ms d version =
     bnd (on_master ms (\<lambda>cl. cl_GetFSStructure cl (d_Type d) (d_Workspace d) (d_Name d) version)) (\<lambda>(fs, err).
       case err of
         Some e \<Rightarrow> fail e
       | None \<Rightarrow> bnd (lift_option fs) (\<lambda>fs. bnd (ignore (SaveFSLocally st ms d fs version)) (\<lambda>_. ret fs)))"

definition GetFSStructure :: "settings \<Rightarrow> 'm client option \<Rightarrow> dataset_row \<Rightarrow> string \<Rightarrow> ('m, fs) dbm" where
  "GetFSStructure st ms d version = attempt (GetDatasetVersion (d_Type d) (d_Workspace d) (d_Name d) version) (\<lambda>r.
     bnd (case r of
            Inr _ \<Rightarrow> GetFSFromDB st d version
          | Inl _ \<Rightarrow>
              if \<not> st_HasMasters st
              then fail (Errorf (''Version '' @ version @ '' not found in '' @ d_Type d @ '' '' @ d_Workspace d @ ''/'' @ d_Name d @ ''.''))
              else getFSStructureFromMaster st ms d version)
       (\<lambda>fs. ret (Prepare fs)))"

section \<open>Versions of a dataset\<close>

definition info_of_version :: "version_row \<Rightarrow> version_info" where
  "info_of_version dsv = \<lparr>vi_Version = v_Version dsv, vi_CreatedAt = v_CreatedAt dsv, vi_UpdatedAt = v_UpdatedAt dsv,
     vi_SizeBytes = v_Size dsv, vi_FileCount = v_FileCount dsv, vi_Message = v_Message dsv, vi_Workspace = v_Workspace dsv,
     vi_Name = v_Name dsv, vi_DType = v_Type dsv, vi_Editing = v_Editing dsv\<rparr>"

definition version_of_info :: "dataset_row \<Rightarrow> version_info \<Rightarrow> version_row" where
  "version_of_info d v = blank_version\<lparr>v_Version := vi_Version v, v_Editing := vi_Editing v, v_Type := vi_DType v,
     v_Size := vi_SizeBytes v, v_Message := vi_Message v, v_Name := d_Name d, v_Workspace := d_Workspace d,
     v_FileCount := vi_FileCount v\<rparr>"

text \<open>The loop over the master's list; a version that is not known yet is created, errors aside.\<close>

fun sync_versions ::
  "dataset_row \<Rightarrow> version_info list \<Rightarrow> (string \<times> version_info) list \<Rightarrow> ('m, (string \<times> version_info) list) dbm" where
  "sync_versions d [] versionMap = ret versionMap"
| "sync_versions d (v # vs) versionMap =
     bnd (if map_of versionMap (vi_Version v) = None then ignore (CreateDatasetVersion (version_of_info d v)) else ret ())
       (\<lambda>_. sync_versions d vs (AList.update (vi_Version v) v versionMap))"

text \<open>\<open>vless\<close> is \<open>VersionArr_Less\<close> with the semver package; a list that is \<^verbatim>\<open>nil\<close> panics.\<close>

definition Versions ::
  "(version_info \<Rightarrow> version_info \<Rightarrow> bool) \<Rightarrow> settings \<Rightarrow> 'm client option \<Rightarrow> dataset_row \<Rightarrow> ('m, version_info list) dbm" where
  "Versions vless st ms d =
     bnd (ListDatasetVersions (blank_version\<lparr>v_Workspace := d_Workspace d, v_Name := d_Name d, v_Type := d_Type d\<rparr>)) (\<lambda>dsvs.
       let versionMap = fold (\<lambda>dsv. AList.update (v_Version dsv) (info_of_version dsv)) dsvs [] in
       bnd (case ms of
              Some cl \<Rightarrow>
                if st_HasMasters st then
                  bnd (remote (cl_ListVersions cl (d_Type d) (d_Workspace d) (d_Name d))) (\<lambda>(vList, err).
                    case err of
                      Some e \<Rightarrow> fail e
                    | None \<Rightarrow> bnd (lift_option vList) (\<lambda>vs. sync_versions d vs versionMap))
                else ret versionMap
            | None \<Rightarrow> ret versionMap)
         (\<lambda>versionMap. ret (sort_by (reverse_less vless) (map snd versionMap))))"

definition ds_CheckVersion ::
  "(version_info \<Rightarrow> version_info \<Rightarrow> bool) \<Rightarrow> settings \<Rightarrow> 'm client option \<Rightarrow> dataset_row \<Rightarrow> string \<Rightarrow> ('m, bool) dbm" where
  "ds_CheckVersion vless st ms d version =
     bnd (Versions vless st ms d) (\<lambda>versions. ret (\<exists>v \<in> set versions. vi_Version v = version))"

definition send_gc :: "string \<Rightarrow> ('m, unit) dbm" where
  "send_gc msg = (\<lambda>d. Some (Inr (), d\<lparr>db_gc := db_gc d @ [msg]\<rparr>))"

definition ds_DeleteVersion ::
  "(version_info \<Rightarrow> version_info \<Rightarrow> bool) \<Rightarrow> settings \<Rightarrow> 'm client option \<Rightarrow> dataset_row \<Rightarrow> string \<Rightarrow> bool \<Rightarrow> ('m, unit) dbm" where
  "ds_DeleteVersion vless st ms d version force =
     bnd (attempt (GetDatasetVersion (d_Type d) (d_Workspace d) (d_Name d) version) (\<lambda>r.
            case r of
              Inl _ \<Rightarrow> attempt (ds_CheckVersion vless st ms d version) (\<lambda>ok.
                if ok = Inr True then ret () else fail (Status 404 (''Version '' @ version @ '' not found'')))
            | Inr dsv \<Rightarrow> bnd (UpdateDatasetVersion (dsv\<lparr>v_Deleted := True\<rparr>)) (\<lambda>_. ret ())))
       (\<lambda>_. bnd (case ms of
                   Some cl \<Rightarrow>
                     if st_HasMasters st
                     then bnd (remote (cl_DeleteVersion cl (d_Type d) (d_Workspace d) (d_Name d) version)) (\<lambda>_. ret ())
                     else ret ()
                 | None \<Rightarrow> ret ())
         (\<lambda>_. if force then send_gc (''Clean version of '' @ d_Workspace d @ ''/'' @ d_Name d @ '':'' @ version) else ret ()))"

text \<open>An error of \<^verbatim>\<open>CheckVersion\<close> comes with \<^verbatim>\<open>false\<close> and is reported as a version that is not there.\<close>

definition CommitVersion ::
  "(version_info \<Rightarrow> version_info \<Rightarrow> bool) \<Rightarrow> settings \<Rightarrow> 'm client option \<Rightarrow> dataset_row \<Rightarrow> string \<Rightarrow> string
     \<Rightarrow> ('m, version_row) dbm" where
  "CommitVersion vless st ms d version message =
     attempt (ds_CheckVersion vless st ms d version) (\<lambda>r.
       if r = Inr True then db_CommitVersion (d_Type d) (d_Workspace d) (d_Name d) version message
       else fail (Errorf (''Version '' @ version @ '' for dataset '' @ d_Workspace d @ ''/'' @ d_Name d @ '' doesn't exist.'')))"

section \<open>Cloning a version\<close>

text \<open>\<^verbatim>\<open>fileChunksMap\<close>: the links by file.\<close>

definition links_by_file :: "file_chunk list \<Rightarrow> (nat \<times> file_chunk list) list" where
  "links_by_file fileChunks = fold (\<lambda>fc m.
     AList.update (l_FileID fc) ((case map_of m (l_FileID fc) of None \<Rightarrow> [] | Some ls \<Rightarrow> ls) @ [fc]) m) fileChunks []"

definition flushChunksBuffer :: "file_chunk list \<Rightarrow> ('m, unit) dbm" where
  "flushChunksBuffer fcBuf = (if fcBuf = [] then ret () else CreateFileChunks fcBuf)"

fun send_links :: "file_chunk list \<Rightarrow> file_chunk list \<Rightarrow> ('m, file_chunk list) dbm" where
  "send_links [] fcBuf = ret fcBuf"
| "send_links (fc # fcs) fcBuf =
     (let fcBuf' = fcBuf @ [fc] in
      if 250 \<le> length fcBuf' then bnd (flushChunksBuffer fcBuf') (\<lambda>_. send_links fcs [])
      else send_links fcs fcBuf')"

text \<open>A \<^verbatim>\<open>ClonedFile\<close> is the pair of \<^verbatim>\<open>oldID\<close> and \<^verbatim>\<open>newFile\<close>.\<close>

definition new_links :: "(nat \<times> file_chunk list) list \<Rightarrow> nat \<Rightarrow> nat \<Rightarrow> file_chunk list" where
  "new_links fileChunksMap oldID newID =
     map (\<lambda>oldFC. \<lparr>l_FileID = newID, l_ChunkID = l_ChunkID oldFC, l_Index = l_Index oldFC\<rparr>)
       (case map_of fileChunksMap oldID of None \<Rightarrow> [] | Some ls \<Rightarrow> ls)"

definition flush_clones ::
  "(nat \<times> file_chunk list) list \<Rightarrow> (nat \<times> file_row) list \<Rightarrow> file_chunk list \<Rightarrow> ('m, file_chunk list) dbm" where
  "flush_clones fileChunksMap fileBuf fcBuf =
     bnd (CreateFiles (map snd fileBuf)) (\<lambda>files.
       send_links (concat (map (\<lambda>((oldID, _), f). new_links fileChunksMap oldID (f_ID f)) (zip fileBuf files))) fcBuf)"

definition clone_file :: "dataset_row \<Rightarrow> string \<Rightarrow> file_row \<Rightarrow> nat \<times> file_row" where
  "clone_file target targetVersion f =
     (f_ID f, blank_file\<lparr>f_Workspace := d_Workspace target, f_Version := targetVersion, f_DatasetName := d_Name target,
        f_Size := f_Size f, f_Path := f_Path f, f_DatasetType := d_Type target, f_Mode := f_Mode f\<rparr>)"

fun clone_files ::
  "dataset_row \<Rightarrow> string \<Rightarrow> (nat \<times> file_chunk list) list \<Rightarrow> file_row list \<Rightarrow> (nat \<times> file_row) list \<Rightarrow> file_chunk list
     \<Rightarrow> ('m, unit) dbm" where
  "clone_files target targetVersion fileChunksMap [] fileBuf fcBuf = flushChunksBuffer fcBuf"
| "clone_files target targetVersion fileChunksMap (f # fs) fileBuf fcBuf =
     (let fileBuf' = fileBuf @ [clone_file target targetVersion f] in
      if 100 \<le> length fileBuf' \<or> fs = [] then
        bnd (flush_clones fileChunksMap fileBuf' fcBuf) (clone_files target targetVersion fileChunksMap fs [])
      else clone_files target targetVersion fileChunksMap fs fileBuf' fcBuf)"

definition clone_version :: "dataset_row \<Rightarrow> string \<Rightarrow> string \<Rightarrow> version_row \<Rightarrow> version_row" where
  "clone_version target targetVersion message sourceVersion =
     blank_version\<lparr>v_Version := targetVersion, v_Size := v_Size sourceVersion, v_Name := d_Name target,
       v_Workspace := d_Workspace target, v_Type := d_Type target, v_Editing := True, v_Message := message,
       v_FileCount := v_FileCount sourceVersion\<rparr>"

definition CloneVersionTo ::
  "settings \<Rightarrow> dataset_row \<Rightarrow> dataset_row \<Rightarrow> string \<Rightarrow> string \<Rightarrow> string \<Rightarrow> ('m, version_row) dbm" where
  "CloneVersionTo st d target version targetVersion message = in_tx
     (bnd (ignore (DeleteFiles st (d_Type target) (d_Workspace target) (d_Name target) targetVersion [] False False)) (\<lambda>_.
      bnd (ListFiles (file_filter (d_Workspace d) (d_Name d) (d_Type d) [] version)) (\<lambda>files.
      bnd (ListRelatedChunks (d_Type d) (d_Workspace d) (d_Name d) version) (\<lambda>fileChunks.
      bnd (clone_files target targetVersion (links_by_file fileChunks) files [] []) (\<lambda>_.
      bnd (GetDatasetVersion (d_Type d) (d_Workspace d) (d_Name d) version) (\<lambda>sourceVersion.
        SaveDatasetVersion (clone_version target targetVersion message sourceVersion)))))))"

definition CloneVersion :: "settings \<Rightarrow> dataset_row \<Rightarrow> string \<Rightarrow> string \<Rightarrow> string \<Rightarrow> ('m, version_row) dbm" where
  "CloneVersion st d version targetVersion message = CloneVersionTo st d d version targetVersion message"

end
