(* ===== verification/RowEffects.thy ===== *)
theory RowEffects
  imports Datasets
begin

text \<open>
  What the batch statements do to the catalogue, when no statement fails: files that are
  created or updated, chunks that are upserted, links that are added.
\<close>

section \<open>Places of rows\<close>

lemma zip_upt_Cons:
  "zip [n..<n + length (x # xs)] (x # xs) = (n, x) # zip [Suc n..<Suc n + length xs] xs"
  by (simp add: upt_conv_Cons del: upt_Suc)

lemma last_index_distinct:
  assumes "distinct ks" and "i < length ks"
  shows "last_index ks (ks ! i) = i"
proof -
  have step: "foldl (\<lambda>acc (i, x). if x = k then i else acc) a (zip [n..<n + length xs] xs) = a"
    if "k \<notin> set xs" for k :: 'a and a n xs
    using that
  proof (induction xs arbitrary: a n)
    case (Cons x xs)
    show ?case unfolding zip_upt_Cons using Cons.IH [of a "Suc n"] Cons.prems by (simp del: upt_Suc) blast
  qed simp
  have "foldl (\<lambda>acc (j, x). if x = xs ! i then j else acc) a (zip [n..<n + length xs] xs) = n + i"
    if "distinct xs" "i < length xs" for xs :: "'a list" and i a n
    using that
  proof (induction xs arbitrary: i a n)
    case (Cons x xs)
    show ?case
    proof (cases i)
      case 0
      then show ?thesis using Cons.prems step [of x xs n "Suc n"] unfolding zip_upt_Cons by (simp del: upt_Suc)
    next
      case (Suc j)
      then have "x \<noteq> xs ! j" using Cons.prems by (auto simp: nth_mem)
      then show ?thesis using Cons.IH [of j a "Suc n"] Cons.prems Suc unfolding zip_upt_Cons by (simp del: upt_Suc)
    qed
  qed simp
  from this [OF assms, of 0 0] show ?thesis by (simp add: last_index_def)
qed

lemma place_rows_sets:
  "(\<forall>r \<in> set rows. pl r < length out) \<Longrightarrow> distinct (map pl rows) \<Longrightarrow>
   \<exists>out'. place_rows pl rows out = Some out' \<and> length out' = length out
     \<and> (\<forall>r \<in> set rows. out' ! pl r = Some r) \<and> (\<forall>i. i \<notin> pl ` set rows \<longrightarrow> out' ! i = out ! i)"
proof (induction rows arbitrary: out)
  case (Cons r rows)
  have "\<forall>s \<in> set rows. pl s < length (out[pl r := Some r])" using Cons.prems(1) by simp
  from Cons.IH [OF this] Cons.prems(2) obtain out' where o:
    "place_rows pl rows (out[pl r := Some r]) = Some out'" "length out' = length out"
    "\<forall>s \<in> set rows. out' ! pl s = Some s" "\<forall>i. i \<notin> pl ` set rows \<longrightarrow> out' ! i = out[pl r := Some r] ! i"
    by auto
  have "out' ! pl r = Some r" using o(4) Cons.prems by (auto simp: nth_list_update)
  then show ?case using o Cons.prems by (auto simp: nth_list_update)
qed simp

text \<open>Rows with the keys \<open>ks\<close>, each once, are placed in the order of \<open>ks\<close>.\<close>

lemma place_rows_keys:
  assumes "distinct ks" and "distinct (map kf rows)" and "set (map kf rows) = set ks"
  shows "\<exists>out. place_rows (\<lambda>r. last_index ks (kf r)) rows (replicate (length rows) None) = Some (map Some out)
    \<and> map kf out = ks \<and> set out = set rows"
proof -
  have len: "length rows = length ks"
    using assms by (metis distinct_card length_map)
  let ?pl = "\<lambda>r. last_index ks (kf r)"
  have pl: "?pl r < length ks \<and> ks ! ?pl r = kf r" if "r \<in> set rows" for r
  proof -
    have "kf r \<in> set ks" using assms(3) that by auto
    then obtain i where "i < length ks" "ks ! i = kf r" by (auto simp: in_set_conv_nth)
    then show ?thesis using last_index_distinct [OF assms(1)] by metis
  qed
  have dist: "distinct (map ?pl rows)"
    unfolding distinct_map
  proof (intro conjI inj_onI)
    show "distinct rows" using assms(2) by (simp add: distinct_map)
    fix r s assume "r \<in> set rows" "s \<in> set rows" "?pl r = ?pl s"
    then have "kf r = kf s" using pl by metis
    then show "r = s" using assms(2) \<open>r \<in> set rows\<close> \<open>s \<in> set rows\<close> by (auto simp: distinct_map inj_on_def)
  qed
  obtain out' where o: "place_rows ?pl rows (replicate (length rows) None) = Some out'" "length out' = length rows"
    "\<forall>r \<in> set rows. out' ! ?pl r = Some r"
    using place_rows_sets [of rows ?pl "replicate (length rows) None"] pl dist len by auto
  have ex: "\<exists>r \<in> set rows. ?pl r = i" if "i < length ks" for i
  proof -
    have "ks ! i \<in> kf ` set rows" using assms(3) that by auto
    then obtain r where "r \<in> set rows" "kf r = ks ! i" by auto
    then show ?thesis using last_index_distinct [OF assms(1) that] by (intro bexI [of _ r]) simp_all
  qed
  define out where "out = map the out'"
  have some: "out' ! i = Some (out ! i) \<and> out ! i \<in> set rows \<and> kf (out ! i) = ks ! i" if lt: "i < length ks" for i
  proof -
    obtain r where r: "r \<in> set rows" "?pl r = i" using ex [OF lt] by blast
    then have "out' ! i = Some r" using o(3) by auto
    then show ?thesis using r pl lt o(2) len by (auto simp: out_def)
  qed
  have "out' = map Some out"
    using some o(2) len by (intro nth_equalityI) (auto simp: out_def)
  moreover have "map kf out = ks"
    using some o(2) len by (intro nth_equalityI) (auto simp: out_def)
  moreover have "set out = set rows"
  proof
    show "set out \<subseteq> set rows" using some o(2) len by (auto simp: in_set_conv_nth out_def)
    show "set rows \<subseteq> set out"
    proof
      fix r assume r: "r \<in> set rows"
      then have "out' ! ?pl r = Some r" using o(3) by blast
      then have "out ! ?pl r = r" using some pl [OF r] by (metis option.inject)
      moreover have "?pl r < length out" using pl [OF r] o(2) len by (simp add: out_def)
      ultimately show "r \<in> set out" by (metis nth_mem)
    qed
  qed
  ultimately show ?thesis using o(1) by blast
qed

section \<open>Creating files\<close>

lemma foldl_max_ge: "(a :: nat) \<le> foldl max a ids \<and> (\<forall>i \<in> set ids. i \<le> foldl max a ids)"
proof (induction ids arbitrary: a)
  case (Cons i ids)
  have "max a i \<le> foldl max (max a i) ids \<and> (\<forall>j \<in> set ids. j \<le> foldl max (max a i) ids)" by (rule Cons.IH)
  then show ?case by (auto elim: order_trans [rotated])
qed simp

lemma next_id_fresh: "next_id ids \<notin> set ids" and next_id_pos: "0 < next_id ids"
  using foldl_max_ge [of 0 ids] by (auto simp: next_id_def)

definition rows_ok :: "file_row list \<Rightarrow> bool" where
  "rows_ok rows \<longleftrightarrow> distinct (map f_ID rows) \<and> distinct (map file_key rows) \<and> 0 \<notin> set (map f_ID rows)"

definition find_key :: "string \<times> string \<times> string \<times> string \<times> string \<Rightarrow> file_row list \<Rightarrow> file_row option" where
  "find_key k rows = find (\<lambda>g. file_key g = k) rows"

lemma the_file_find_key: "the_file t (ws, ty, ds, ver) path = find_key (ws, ty, ds, ver, path) (t_files t)"
proof -
  have "(\<lambda>f. in_version (ws, ty, ds, ver) f \<and> f_Path f = path) = (\<lambda>f. file_key f = (ws, ty, ds, ver, path))"
    by (rule ext) (auto simp: file_key_def)
  then show ?thesis by (simp add: the_file_def find_key_def)
qed

lemma find_key_SomeD: "find_key k rows = Some g \<Longrightarrow> g \<in> set rows \<and> file_key g = k"
  unfolding find_key_def by (metis (mono_tags, lifting) find_Some_iff nth_mem)

lemma find_key_None: "find_key k rows = None \<longleftrightarrow> k \<notin> file_key ` set rows"
  by (auto simp: find_key_def find_None_iff)

lemma find_key_eq: "distinct (map file_key rows) \<Longrightarrow> g \<in> set rows \<Longrightarrow> find_key (file_key g) rows = Some g"
  unfolding find_key_def by (rule find_unique [where k = file_key, THEN conjunct1]) auto

lemma find_append: "find P (xs @ ys) = (case find P xs of None \<Rightarrow> find P ys | Some x \<Rightarrow> Some x)"
  by (induction xs) auto

lemma find_map: "find P (map f xs) = map_option f (find (P \<circ> f) xs)"
  by (induction xs) auto

lemma file_key_ID [simp]: "file_key (f\<lparr>f_ID := i\<rparr>) = file_key f" "file_key (f\<lparr>f_Size := s\<rparr>) = file_key f"
  "file_key (f\<lparr>f_CreatedAt := a\<rparr>) = file_key f" "file_key (f\<lparr>f_UpdatedAt := a\<rparr>) = file_key f"
  by (simp_all add: file_key_def)

lemma upsert_old:
  "file_key f \<in> file_key ` set rows \<Longrightarrow>
   upsert_file f rows = map (\<lambda>g. if file_key g = file_key f then g\<lparr>f_Size := f_Size f\<rparr> else g) rows"
  by (auto simp: upsert_file_def same_file_def image_iff)

lemma upsert_new:
  "file_key f \<notin> file_key ` set rows \<Longrightarrow> upsert_file f rows = rows @ [f\<lparr>f_ID := next_id (map f_ID rows)\<rparr>]"
  by (auto simp: upsert_file_def same_file_def image_iff)

lemma upsert_ids: "set (map f_ID rows) \<subseteq> set (map f_ID (upsert_file f rows))"
  by (cases "file_key f \<in> file_key ` set rows") (auto simp: upsert_old upsert_new image_image)

lemma upsert_rows_ok: "rows_ok rows \<Longrightarrow> rows_ok (upsert_file f rows)"
proof (cases "file_key f \<in> file_key ` set rows")
  case True
  have "map f_ID (upsert_file f rows) = map f_ID rows" "map file_key (upsert_file f rows) = map file_key rows"
    by (simp_all add: upsert_old [OF True])
  then show "rows_ok rows \<Longrightarrow> rows_ok (upsert_file f rows)" unfolding rows_ok_def by metis
next
  case False
  then show "rows_ok rows \<Longrightarrow> rows_ok (upsert_file f rows)"
    using next_id_fresh [of "map f_ID rows"] next_id_pos [of "map f_ID rows"]
    by (auto simp: upsert_new rows_ok_def)
qed

lemma upsert_find:
  "find_key k (upsert_file f rows) =
     (if k = file_key f then
        (case find_key k rows of
           Some g \<Rightarrow> Some (g\<lparr>f_Size := f_Size f\<rparr>)
         | None \<Rightarrow> Some (f\<lparr>f_ID := next_id (map f_ID rows)\<rparr>))
      else find_key k rows)"
proof (cases "file_key f \<in> file_key ` set rows")
  case True
  let ?u = "\<lambda>g. if file_key g = file_key f then g\<lparr>f_Size := f_Size f\<rparr> else g"
  have "(\<lambda>g. file_key g = k) \<circ> ?u = (\<lambda>g. file_key g = k)" by (rule ext) simp
  then have "find_key k (upsert_file f rows) = map_option ?u (find_key k rows)"
    by (simp add: upsert_old [OF True] find_key_def find_map del: comp_apply)
  then show ?thesis using True find_key_None [of k rows] find_key_SomeD [of k rows]
    by (auto split: option.splits)
next
  case False
  then show ?thesis using find_key_None [of "file_key f" rows]
    by (auto simp: upsert_new find_key_def find_append split: option.splits)
qed

text \<open>After a batch with distinct keys, each of its files has its row and no other row is touched.\<close>

lemma upserts_find:
  assumes "distinct (map file_key fs)"
  shows "k \<notin> file_key ` set fs \<Longrightarrow> find_key k (fold upsert_file fs rows) = find_key k rows"
    and "f \<in> set fs \<Longrightarrow> \<exists>g. find_key (file_key f) (fold upsert_file fs rows) = Some g
       \<and> (case find_key (file_key f) rows of
             Some old \<Rightarrow> g = old\<lparr>f_Size := f_Size f\<rparr>
           | None \<Rightarrow> f_ID g \<notin> f_ID ` set rows \<and> g = f\<lparr>f_ID := f_ID g\<rparr>)"
proof -
  have "(k \<notin> file_key ` set fs \<longrightarrow> find_key k (fold upsert_file fs rows) = find_key k rows)
    \<and> (f \<in> set fs \<longrightarrow> (\<exists>g. find_key (file_key f) (fold upsert_file fs rows) = Some g
       \<and> (case find_key (file_key f) rows of
             Some old \<Rightarrow> g = old\<lparr>f_Size := f_Size f\<rparr>
           | None \<Rightarrow> f_ID g \<notin> f_ID ` set rows \<and> g = f\<lparr>f_ID := f_ID g\<rparr>)))" for k
    using assms
  proof (induction fs arbitrary: rows k)
    case (Cons h fs)
    have IH1: "k \<notin> file_key ` set fs \<Longrightarrow> find_key k (fold upsert_file fs (upsert_file h rows)) = find_key k (upsert_file h rows)" for k
      using Cons by simp
    show ?case
    proof (intro conjI impI)
      assume "k \<notin> file_key ` set (h # fs)"
      then show "find_key k (fold upsert_file (h # fs) rows) = find_key k rows" using IH1 [of k] by (simp add: upsert_find)
    next
      assume f: "f \<in> set (h # fs)"
      show "\<exists>g. find_key (file_key f) (fold upsert_file (h # fs) rows) = Some g
       \<and> (case find_key (file_key f) rows of
             Some old \<Rightarrow> g = old\<lparr>f_Size := f_Size f\<rparr>
           | None \<Rightarrow> f_ID g \<notin> f_ID ` set rows \<and> g = f\<lparr>f_ID := f_ID g\<rparr>)"
      proof (cases "f = h")
        case True
        then have "file_key f \<notin> file_key ` set fs" using Cons.prems by auto
        then show ?thesis using IH1 [of "file_key f"] True next_id_fresh [of "map f_ID rows"]
          by (auto simp: upsert_find split: option.splits)
      next
        case False
        then have fs: "f \<in> set fs" using f by simp
        then have ne: "file_key f \<noteq> file_key h" using Cons.prems by (auto simp: image_iff)
        have "f_ID ` set rows \<subseteq> f_ID ` set (upsert_file h rows)" using upsert_ids [of rows h] by simp
        moreover have "find_key (file_key f) (upsert_file h rows) = find_key (file_key f) rows"
          using ne by (simp add: upsert_find)
        moreover have "distinct (map file_key fs)" using Cons.prems by simp
        from Cons.IH [OF this, THEN conjunct2, rule_format, OF fs, of "upsert_file h rows"]
        obtain g where "find_key (file_key f) (fold upsert_file fs (upsert_file h rows)) = Some g"
          "case find_key (file_key f) (upsert_file h rows) of
             Some old \<Rightarrow> g = old\<lparr>f_Size := f_Size f\<rparr>
           | None \<Rightarrow> f_ID g \<notin> f_ID ` set (upsert_file h rows) \<and> g = f\<lparr>f_ID := f_ID g\<rparr>" by blast
        ultimately show ?thesis by (auto split: option.splits)
      qed
    qed
  qed simp
  then show "k \<notin> file_key ` set fs \<Longrightarrow> find_key k (fold upsert_file fs rows) = find_key k rows"
    and "f \<in> set fs \<Longrightarrow> \<exists>g. find_key (file_key f) (fold upsert_file fs rows) = Some g
       \<and> (case find_key (file_key f) rows of
             Some old \<Rightarrow> g = old\<lparr>f_Size := f_Size f\<rparr>
           | None \<Rightarrow> f_ID g \<notin> f_ID ` set rows \<and> g = f\<lparr>f_ID := f_ID g\<rparr>)" by blast+
qed

lemma upserts_rows:
  "rows_ok rows \<Longrightarrow> rows_ok (fold upsert_file fs rows)"
  "set (map f_ID rows) \<subseteq> set (map f_ID (fold upsert_file fs rows))"
proof -
  show "rows_ok rows \<Longrightarrow> rows_ok (fold upsert_file fs rows)"
    by (induction fs arbitrary: rows) (auto intro: upsert_rows_ok)
  show "set (map f_ID rows) \<subseteq> set (map f_ID (fold upsert_file fs rows))"
  proof (induction fs arbitrary: rows)
    case (Cons f fs)
    then show ?case using upsert_ids [of rows f] by fastforce
  qed simp
qed

abbreviation batch_type :: "string \<Rightarrow> bool" where
  "batch_type dbtype \<equiv> dbtype = ''postgres'' \<or> dbtype = ''sqlite3''"

definition stamp :: "int \<Rightarrow> file_row \<Rightarrow> file_row" where
  "stamp now f = f\<lparr>f_CreatedAt := now, f_UpdatedAt := now\<rparr>"

lemma stamp_simps [simp]:
  "file_key (stamp now f) = file_key f" "f_Path (stamp now f) = f_Path f" "f_Size (stamp now f) = f_Size f"
  "f_Mode (stamp now f) = f_Mode f" "in_version key (stamp now f) = in_version key f"
  by (cases key; simp add: stamp_def)+

definition put_files :: "int \<Rightarrow> file_row list \<Rightarrow> tables \<Rightarrow> tables" where
  "put_files now fs t = t\<lparr>t_files := fold upsert_file (map (stamp now) fs) (t_files t)\<rparr>"

lemma assign_ids_all:
  "length fs = length out \<Longrightarrow>
   assign_ids fs (map Some out) = Some (map (\<lambda>(f, r). f\<lparr>f_ID := f_ID r\<rparr>) (zip fs out))"
  by (induction fs out rule: list_induct2) auto

lemma in_version_file_key:
  "in_version (ws, ty, ds, ver) f \<longleftrightarrow> file_key f = (ws, ty, ds, ver, f_Path f)"
  by (auto simp: file_key_def)

lemma CreateFiles_run:
  fixes d :: "'m db"
  assumes "db_faults d = []" and "batch_type (db_type d)" and "fs \<noteq> []" and "\<forall>f \<in> set fs. in_version (ws, ty, ds, ver) f"
    and "distinct (map f_Path fs)" and "rows_ok (t_files (db_tables d))"
  shows "\<exists>fs'. CreateFiles fs d = Some (Inr fs', d\<lparr>db_tables := put_files (db_now d) fs (db_tables d)\<rparr>)
    \<and> list_all2 (\<lambda>f f'. \<exists>g. find_key (file_key f) (t_files (put_files (db_now d) fs (db_tables d))) = Some g
                            \<and> f' = (stamp (db_now d) f)\<lparr>f_ID := f_ID g\<rparr>) fs fs'"
proof -
  let ?now = "db_now d" and ?t = "db_tables d"
  let ?fs = "map (stamp ?now) fs"
  let ?rows = "fold upsert_file ?fs (t_files ?t)"
  let ?d1 = "d\<lparr>db_tables := put_files ?now fs ?t\<rparr>"
  have keys: "file_key f = (ws, ty, ds, ver, f_Path f)" if "f \<in> set fs" for f
    using assms(4) that in_version_file_key by blast
  have dk: "distinct (map file_key ?fs)"
    unfolding map_map distinct_map
  proof (intro conjI inj_onI)
    show "distinct fs" using assms(5) by (simp add: distinct_map)
    fix a b assume "a \<in> set fs" "b \<in> set fs" "(file_key \<circ> stamp ?now) a = (file_key \<circ> stamp ?now) b"
    then have "f_Path a = f_Path b" using keys by auto
    then show "a = b" using assms(5) \<open>a \<in> set fs\<close> \<open>b \<in> set fs\<close> by (auto simp: distinct_map inj_on_def)
  qed
  have ok: "rows_ok ?rows" using upserts_rows(1) [OF assms(6)] .
  have row: "\<exists>g. find_key (file_key f) ?rows = Some g" if "f \<in> set fs" for f
    using upserts_find(2) [OF dk, of "stamp ?now f" "t_files ?t"] that by auto
  have ins: "insert_files (db_type d) ?fs d = Some (Inr (), ?d1)"
    using assms(1,3) dk by (simp add: insert_files_def stmt_run put_files_def)
  define found where "found = map (\<lambda>f. blank_file\<lparr>f_ID := f_ID f, f_Path := f_Path f\<rparr>)
    (filter (\<lambda>f. f_Path f \<in> set (map f_Path ?fs) \<and> f_DatasetType f = ty \<and> f_Workspace f = ws
               \<and> f_DatasetName f = ds \<and> f_Version f = ver) ?rows)"
  have found: "distinct (map f_Path found)" "set (map f_Path found) = set (map f_Path fs)"
    and found_id: "r \<in> set found \<Longrightarrow> \<exists>g. find_key (ws, ty, ds, ver, f_Path r) ?rows = Some g \<and> f_ID r = f_ID g" for r
  proof -
    let ?sel = "filter (\<lambda>f. f_Path f \<in> set (map f_Path ?fs) \<and> f_DatasetType f = ty \<and> f_Workspace f = ws
               \<and> f_DatasetName f = ds \<and> f_Version f = ver) ?rows"
    have sel: "g \<in> set ?sel \<Longrightarrow> g \<in> set ?rows \<and> file_key g = (ws, ty, ds, ver, f_Path g)" for g
      by (auto simp: file_key_def)
    have "inj_on f_Path (set ?sel)"
    proof (rule inj_onI)
      fix a b assume ab: "a \<in> set ?sel" "b \<in> set ?sel" "f_Path a = f_Path b"
      from sel [OF ab(1)] sel [OF ab(2)] ab(3)
      have "a \<in> set ?rows" "b \<in> set ?rows" "file_key a = file_key b" by simp_all
      moreover have "inj_on file_key (set ?rows)" using ok by (simp add: rows_ok_def distinct_map)
      ultimately show "a = b" by (meson inj_onD)
    qed
    moreover have "distinct ?rows" using ok by (simp add: rows_ok_def distinct_map)
    then have "distinct ?sel" by (rule distinct_filter)
    ultimately have "distinct (map f_Path ?sel)" by (simp only: distinct_map simp_thms)
    moreover have "map f_Path found = map f_Path ?sel" by (simp add: found_def)
    ultimately show "distinct (map f_Path found)" by metis
    have "f_Path ` set ?sel = f_Path ` set fs"
    proof
      show "f_Path ` set fs \<subseteq> f_Path ` set ?sel"
      proof
        fix p assume "p \<in> f_Path ` set fs"
        then obtain f where f: "f \<in> set fs" "p = f_Path f" by blast
        obtain g where g: "find_key (file_key f) ?rows = Some g" using row [OF f(1)] by blast
        from find_key_SomeD [OF g] keys [OF f(1)] have "g \<in> set ?rows" "file_key g = (ws, ty, ds, ver, p)" using f(2) by auto
        then have "g \<in> set ?sel" "f_Path g = p" using f by (auto simp: file_key_def)
        then show "p \<in> f_Path ` set ?sel" by blast
      qed
    qed auto
    then show "set (map f_Path found) = set (map f_Path fs)"
      unfolding \<open>map f_Path found = map f_Path ?sel\<close> by simp
    show "r \<in> set found \<Longrightarrow> \<exists>g. find_key (ws, ty, ds, ver, f_Path r) ?rows = Some g \<and> f_ID r = f_ID g"
    proof -
      assume "r \<in> set found"
      then have "r \<in> (\<lambda>f. blank_file\<lparr>f_ID := f_ID f, f_Path := f_Path f\<rparr>) ` set ?sel" by (simp only: found_def set_map)
      then obtain g where g: "g \<in> set ?sel" "r = blank_file\<lparr>f_ID := f_ID g, f_Path := f_Path g\<rparr>" by (rule imageE)
      from sel [OF g(1)] find_key_eq [of ?rows g] ok have "find_key (file_key g) ?rows = Some g" by (simp add: rows_ok_def)
      then show ?thesis using sel [OF g(1)] g(2) by auto
    qed
  qed
  obtain out where out: "place_rows (\<lambda>r. last_index (map f_Path fs) (f_Path r)) found (replicate (length found) None) = Some (map Some out)"
    "map f_Path out = map f_Path fs" "set out = set found"
    using place_rows_keys [OF assms(5) found(1)] found(2) by blast
  obtain f0 fr where fs0: "fs = f0 # fr" using assms(3) by (cases fs) auto
  have v0: "f_DatasetType f0 = ty" "f_Workspace f0 = ws" "f_DatasetName f0 = ds" "f_Version f0 = ver"
    using assms(4) fs0 by auto
  have paths: "map f_Path ?fs = map f_Path fs" by simp
  have list: "ListFilesByPath ?fs ty ws ds ver ?d1 = Some (Inr (map Some out, None), ?d1)"
    using assms(1,3) out(1) unfolding ListFilesByPath_def paths
    by (simp add: run_simps attempt_def put_files_def found_def lift_option_def Let_def)
  have len: "length ?fs = length out" using out(2) by (metis length_map)
  let ?fs' = "map (\<lambda>(f, r). f\<lparr>f_ID := f_ID r\<rparr>) (zip ?fs out)"
  have "CreateFiles fs d = Some (Inr ?fs', ?d1)"
    using assms(2) ins list assign_ids_all [OF len] v0
    by (auto simp: CreateFiles_def run_simps Let_def fs0 lift_option_def stamp_def [abs_def])
  moreover have "list_all2 (\<lambda>f f'. \<exists>g. find_key (file_key f) ?rows = Some g
                            \<and> f' = (stamp ?now f)\<lparr>f_ID := f_ID g\<rparr>) fs ?fs'"
    unfolding list_all2_conv_all_nth
  proof (intro conjI allI impI)
    show "length fs = length ?fs'" using len by simp
    fix i assume i: "i < length fs"
    have "out ! i \<in> set found" using i len out(3) by (metis length_map nth_mem)
    from found_id [OF this] obtain g where g: "find_key (ws, ty, ds, ver, f_Path (out ! i)) ?rows = Some g" "f_ID (out ! i) = f_ID g"
      by blast
    moreover have "f_Path (out ! i) = f_Path (fs ! i)" using out(2) i by (metis length_map nth_map)
    ultimately show "\<exists>g. find_key (file_key (fs ! i)) ?rows = Some g \<and> ?fs' ! i = (stamp ?now (fs ! i))\<lparr>f_ID := f_ID g\<rparr>"
      using keys [of "fs ! i"] i len by auto
  qed
  ultimately show ?thesis by (auto simp: put_files_def)
qed

section \<open>Creating chunks and links\<close>

definition raw_ref :: "raw_file \<Rightarrow> hash_ref" where
  "raw_ref raw = \<lparr>h_Hash = r_Hash raw, h_Size = r_ChunkSize raw, h_Version = r_Version raw\<rparr>"

lemma raw_ref_hash [simp]: "h_Hash (raw_ref raw) = r_Hash raw" by (simp add: raw_ref_def)
lemma ref_of_hash [simp]: "h_Hash (ref_of c) = c_Hash c" by (simp add: ref_of_def)

text \<open>A hash names one size and one version, in the table and in what is added.\<close>

definition agree :: "hash_ref set \<Rightarrow> bool" where
  "agree R \<longleftrightarrow> (\<forall>a \<in> R. \<forall>b \<in> R. h_Hash a = h_Hash b \<longrightarrow> a = b)"

lemma agreeD: "agree R \<Longrightarrow> a \<in> R \<Longrightarrow> b \<in> R \<Longrightarrow> h_Hash a = h_Hash b \<Longrightarrow> a = b"
  by (simp add: agree_def)

definition table_refs :: "tables \<Rightarrow> hash_ref set" where
  "table_refs t = ref_of ` set (t_chunks t)"

definition chunk_rows_ok :: "chunk_row list \<Rightarrow> bool" where
  "chunk_rows_ok rows \<longleftrightarrow> distinct (map c_ID rows) \<and> distinct (map c_Hash rows) \<and> 0 \<notin> set (map c_ID rows)"

definition add_chunk :: "raw_file \<Rightarrow> chunk_row list \<Rightarrow> chunk_row list" where
  "add_chunk raw rows = (if r_Hash raw \<in> c_Hash ` set rows then rows
                         else rows @ [(chunk_of_raw raw)\<lparr>c_ID := next_id (map c_ID rows)\<rparr>])"

lemma upsert_agreeing:
  assumes "agree (ref_of ` set rows \<union> {raw_ref raw})"
  shows "upsert_chunk (\<lambda>g. g\<lparr>c_Size := r_ChunkSize raw, c_Version := r_Version raw\<rparr>) (chunk_of_raw raw) rows = add_chunk raw rows"
proof -
  have "g\<lparr>c_Size := r_ChunkSize raw, c_Version := r_Version raw\<rparr> = g" if "g \<in> set rows" "c_Hash g = r_Hash raw" for g
  proof -
    have "ref_of g = raw_ref raw" by (rule agreeD [OF assms]) (use that in auto)
    then show ?thesis by (cases g) (simp add: ref_of_def raw_ref_def)
  qed
  then have "map (\<lambda>g. if c_Hash g = r_Hash raw then g\<lparr>c_Size := r_ChunkSize raw, c_Version := r_Version raw\<rparr> else g) rows = rows"
    by (intro map_idI) auto
  then show ?thesis by (simp add: upsert_chunk_def add_chunk_def chunk_of_raw_def)
qed

lemma ref_of_new [simp]: "ref_of ((chunk_of_raw raw)\<lparr>c_ID := i\<rparr>) = raw_ref raw"
  by (simp add: ref_of_def chunk_of_raw_def raw_ref_def)

lemma add_chunk_refs: "ref_of ` set (add_chunk raw rows) \<subseteq> ref_of ` set rows \<union> {raw_ref raw}"
  by (auto simp: add_chunk_def)

lemma agree_mono: "agree B \<Longrightarrow> A \<subseteq> B \<Longrightarrow> agree A"
  by (auto simp: agree_def)

lemma upserts_agreeing:
  "agree (ref_of ` set rows \<union> raw_ref ` set raws) \<Longrightarrow>
   fold (\<lambda>raw. upsert_chunk (\<lambda>g. g\<lparr>c_Size := r_ChunkSize raw, c_Version := r_Version raw\<rparr>) (chunk_of_raw raw)) raws rows
   = fold add_chunk raws rows"
proof (induction raws arbitrary: rows)
  case (Cons raw raws)
  have "agree (ref_of ` set (add_chunk raw rows) \<union> raw_ref ` set raws)"
    by (rule agree_mono [OF Cons.prems]) (use add_chunk_refs [of raw rows] in auto)
  moreover have "agree (ref_of ` set rows \<union> {raw_ref raw})" by (rule agree_mono [OF Cons.prems]) auto
  ultimately show ?case using Cons.IH by (simp add: upsert_agreeing)
qed simp

lemma add_chunk_ok: "chunk_rows_ok rows \<Longrightarrow> chunk_rows_ok (add_chunk raw rows)"
  using next_id_fresh [of "map c_ID rows"] next_id_pos [of "map c_ID rows"]
  by (auto simp: chunk_rows_ok_def add_chunk_def chunk_of_raw_def)

lemma add_chunks:
  "\<exists>news. fold add_chunk raws rows = rows @ news"
  "c_Hash ` set (fold add_chunk raws rows) = c_Hash ` set rows \<union> r_Hash ` set raws"
  "ref_of ` set (fold add_chunk raws rows) \<subseteq> ref_of ` set rows \<union> raw_ref ` set raws"
  "chunk_rows_ok rows \<Longrightarrow> chunk_rows_ok (fold add_chunk raws rows)"
proof -
  show "\<exists>news. fold add_chunk raws rows = rows @ news"
  proof (induction raws arbitrary: rows)
    case (Cons raw raws)
    obtain news where "fold add_chunk raws (add_chunk raw rows) = add_chunk raw rows @ news" using Cons by blast
    moreover have "\<exists>one. add_chunk raw rows = rows @ one"
      unfolding add_chunk_def by (cases "r_Hash raw \<in> c_Hash ` set rows") simp_all
    ultimately show ?case by auto
  qed simp
  show "c_Hash ` set (fold add_chunk raws rows) = c_Hash ` set rows \<union> r_Hash ` set raws"
  proof (induction raws arbitrary: rows)
    case (Cons raw raws)
    have "c_Hash ` set (add_chunk raw rows) = insert (r_Hash raw) (c_Hash ` set rows)"
      by (auto simp: add_chunk_def chunk_of_raw_def)
    then show ?case using Cons by auto
  qed simp
  show "ref_of ` set (fold add_chunk raws rows) \<subseteq> ref_of ` set rows \<union> raw_ref ` set raws"
  proof (induction raws arbitrary: rows)
    case (Cons raw raws)
    show ?case using Cons.IH [of "add_chunk raw rows"] add_chunk_refs [of raw rows] by auto
  qed simp
  show "chunk_rows_ok rows \<Longrightarrow> chunk_rows_ok (fold add_chunk raws rows)"
    by (induction raws arbitrary: rows) (auto intro: add_chunk_ok)
qed

lemma fst_update: "fst ` set (AList.update k v m) = insert k (fst ` set m)"
  by (induction m) auto

lemma fold_update_dom:
  "distinct (map fst m) \<Longrightarrow> distinct (map fst (fold (\<lambda>c m. AList.update (k c) c m) cs m))
     \<and> fst ` set (fold (\<lambda>c m. AList.update (k c) c m) cs m) = fst ` set m \<union> k ` set cs"
proof (induction cs arbitrary: m)
  case (Cons c cs)
  then show ?case using Cons.IH [of "AList.update (k c) c m"] by (simp add: distinct_update fst_update)
qed simp

lemma exclusives_props:
  "distinct (map r_Hash (exclusives raws))" "set (exclusives raws) \<subseteq> set raws"
  "r_Hash ` set (exclusives raws) = r_Hash ` set raws"
proof -
  let ?m = "fold (\<lambda>raw m. AList.update (r_Hash raw) raw m) raws []"
  have "\<forall>(i, c) \<in> set ?m. i = r_Hash c" by (rule fold_update_keys) simp
  then have keys: "map r_Hash (exclusives raws) = map fst ?m" by (auto simp: exclusives_def)
  then show "distinct (map r_Hash (exclusives raws))" using fold_update_dom [of "[]" r_Hash raws] by simp
  have "r_Hash ` set (exclusives raws) = fst ` set ?m" using keys by (metis list.set_map)
  then show "r_Hash ` set (exclusives raws) = r_Hash ` set raws" using fold_update_dom [of "[]" r_Hash raws] by simp
  show "set (exclusives raws) \<subseteq> set raws"
    using fold_update_snd [of _ r_Hash raws "[]"] by (auto simp: exclusives_def)
qed

lemma assign_fold:
  "assign_chunk_ids chunks raws =
   map (\<lambda>raw. fold (\<lambda>c raw. if r_Hash raw = c_Hash c then raw\<lparr>r_ChunkID := c_ID c\<rparr> else raw) chunks raw) raws"
  unfolding assign_chunk_ids_def by (induction chunks arbitrary: raws) (auto simp: comp_def)

lemma assign_one:
  "distinct (map c_Hash chunks) \<Longrightarrow> c \<in> set chunks \<Longrightarrow> c_Hash c = r_Hash raw \<Longrightarrow>
   fold (\<lambda>c raw. if r_Hash raw = c_Hash c then raw\<lparr>r_ChunkID := c_ID c\<rparr> else raw) chunks raw = raw\<lparr>r_ChunkID := c_ID c\<rparr>"
proof (induction chunks arbitrary: raw)
  case (Cons x chunks)
  have other: "fold (\<lambda>c raw. if r_Hash raw = c_Hash c then raw\<lparr>r_ChunkID := c_ID c\<rparr> else raw) cs r = r"
    if "r_Hash r \<notin> c_Hash ` set cs" for cs r
    using that by (induction cs) auto
  show ?case
  proof (cases "c = x")
    case True
    then show ?thesis using Cons.prems other [of "raw\<lparr>r_ChunkID := c_ID x\<rparr>" chunks] by auto
  next
    case False
    then have "c \<in> set chunks" using Cons.prems(2) by simp
    moreover from this have "c_Hash x \<noteq> r_Hash raw" using Cons.prems by (auto simp: image_iff)
    ultimately show ?thesis using Cons by auto
  qed
qed simp

lemma all_present_Some: "all_present (map Some xs) = Some xs"
  by (auto simp: all_present_def)

lemma image_filter_cover: "A \<subseteq> f ` B \<Longrightarrow> f ` {x \<in> B. f x \<in> A} = A"
  by blast

definition add_chunks_to :: "raw_file list \<Rightarrow> tables \<Rightarrow> tables" where
  "add_chunks_to raws t = t\<lparr>t_chunks := fold add_chunk (exclusives raws) (t_chunks t)\<rparr>"

lemma CreateChunks_run:
  fixes d :: "'m db"
  assumes "db_faults d = []" and "batch_type (db_type d)" and "raws \<noteq> []" and "chunk_rows_ok (t_chunks (db_tables d))"
    and "agree (table_refs (db_tables d) \<union> raw_ref ` set raws)"
  shows "\<exists>raws'. CreateChunks raws d = Some (Inr raws', d\<lparr>db_tables := add_chunks_to raws (db_tables d)\<rparr>)
    \<and> list_all2 (\<lambda>raw raw'. \<exists>c \<in> set (t_chunks (add_chunks_to raws (db_tables d))).
                   c_Hash c = r_Hash raw \<and> raw' = raw\<lparr>r_ChunkID := c_ID c\<rparr>) raws raws'"
proof -
  let ?t = "db_tables d" and ?ex = "exclusives raws"
  let ?rows = "fold add_chunk ?ex (t_chunks ?t)" and ?d1 = "d\<lparr>db_tables := add_chunks_to raws (db_tables d)\<rparr>"
  note ex = exclusives_props [of raws]
  have ne: "?ex \<noteq> []" using ex(3) assms(3) by auto
  have "agree (ref_of ` set (t_chunks ?t) \<union> raw_ref ` set ?ex)"
    by (rule agree_mono [OF assms(5)]) (use ex(2) in \<open>auto simp: table_refs_def\<close>)
  then have ins: "insert_chunks ?ex d = Some (Inr (), ?d1)"
    using assms(1) ne by (simp add: insert_chunks_def stmt_run upserts_agreeing add_chunks_to_def)
  have ok: "chunk_rows_ok ?rows" using add_chunks(4) [OF assms(4)] .
  define found where "found = filter (\<lambda>c. c_Hash c \<in> set (map r_Hash ?ex)) ?rows"
  have dist: "distinct (map c_Hash found)"
    using ok by (simp add: found_def chunk_rows_ok_def distinct_map_filter)
  have "r_Hash ` set ?ex \<subseteq> c_Hash ` set ?rows" using add_chunks(2) [of ?ex "t_chunks ?t"] by auto
  then have keys: "set (map c_Hash found) = set (map r_Hash ?ex)"
    using image_filter_cover [of "r_Hash ` set ?ex" c_Hash "set ?rows"] by (simp add: found_def)
  obtain out where out: "place_rows (\<lambda>c. last_index (map r_Hash ?ex) (c_Hash c)) found (replicate (length found) None) = Some (map Some out)"
    "map c_Hash out = map r_Hash ?ex" "set out = set found"
    using place_rows_keys [OF ex(1) dist keys] by blast
  have "ListChunksByHash ?ex ?d1 = Some (Inr (map Some out), ?d1)"
    using ne assms(1) out(1)
    by (simp add: ListChunksByHash_def run_simps lift_option_def found_def add_chunks_to_def)
  then have run: "CreateChunks raws d = Some (Inr (assign_chunk_ids out raws), ?d1)"
    using assms(2) ins by (auto simp: CreateChunks_def run_simps Let_def lift_option_def all_present_Some)
  have "\<exists>c \<in> set ?rows. c_Hash c = r_Hash raw
      \<and> fold (\<lambda>c raw. if r_Hash raw = c_Hash c then raw\<lparr>r_ChunkID := c_ID c\<rparr> else raw) out raw = raw\<lparr>r_ChunkID := c_ID c\<rparr>"
    if raw: "raw \<in> set raws" for raw
  proof -
    have "r_Hash raw \<in> c_Hash ` set out"
      using raw ex(3) out(2) by (metis image_eqI list.set_map)
    then obtain c where c: "c \<in> set out" "c_Hash c = r_Hash raw" by auto
    have "distinct (map c_Hash out)" using out(2) ex(1) by simp
    from assign_one [OF this c] have
      "fold (\<lambda>c raw. if r_Hash raw = c_Hash c then raw\<lparr>r_ChunkID := c_ID c\<rparr> else raw) out raw = raw\<lparr>r_ChunkID := c_ID c\<rparr>" .
    moreover have "c \<in> set ?rows" using c(1) out(3) by (simp add: found_def)
    ultimately show ?thesis using c(2) by blast
  qed
  then have "list_all2 (\<lambda>raw raw'. \<exists>c \<in> set ?rows. c_Hash c = r_Hash raw \<and> raw' = raw\<lparr>r_ChunkID := c_ID c\<rparr>)
      raws (assign_chunk_ids out raws)"
    unfolding assign_fold list.rel_map by (intro list.rel_refl_strong) blast
  then show ?thesis using run by (auto simp: add_chunks_to_def)
qed

section \<open>What a file is made of\<close>

text \<open>The chunks of a file as a set of places; for tables that are well formed a place has one chunk.\<close>

definition linkset :: "tables \<Rightarrow> nat \<Rightarrow> (nat \<times> hash_ref) set" where
  "linkset t i = {(l_Index l, ref_of c) | l c. l \<in> set (t_file_chunks t) \<and> l_FileID l = i
                                             \<and> c \<in> set (t_chunks t) \<and> c_ID c = l_ChunkID l}"

lemma linksetI:
  "l \<in> set (t_file_chunks t) \<Longrightarrow> c \<in> set (t_chunks t) \<Longrightarrow> c_ID c = l_ChunkID l \<Longrightarrow> l_FileID l = i \<Longrightarrow>
   (l_Index l, ref_of c) \<in> linkset t i"
  by (auto simp: linkset_def)

lemma linked_chunk:
  assumes "db_wf t" and "l \<in> set (t_file_chunks t)"
  obtains c where "c \<in> set (t_chunks t)" "c_ID c = l_ChunkID l" "linked_chunks t l = [c]"
proof -
  obtain c where c: "c \<in> set (t_chunks t)" "c_ID c = l_ChunkID l" using assms by (auto simp: db_wf_def)
  have "linked_chunks t l = [c]"
    unfolding linked_chunks_def
    by (rule find_unique [where k = c_ID, THEN conjunct2]) (use assms c in \<open>auto simp: db_wf_def\<close>)
  then show ?thesis using that c by blast
qed

lemma nth_places: "sorted xs \<Longrightarrow> distinct xs \<Longrightarrow> set xs = {0..<n} \<Longrightarrow> xs = [0..<n]"
  by (rule sorted_distinct_set_unique) auto

lemma chunk_refs_of_linkset:
  assumes wf: "db_wf t" and ls: "linkset t i = {(k, refs ! k) | k. k < length refs}"
  shows "chunk_refs t i = refs"
proof -
  let ?L = "links_of t i"
  have L: "set ?L = {l \<in> set (t_file_chunks t). l_FileID l = i}" by (auto simp: links_of_def)
  have at: "\<exists>c \<in> set (t_chunks t). c_ID c = l_ChunkID l \<and> linked_chunks t l = [c] \<and> l_Index l < length refs \<and> ref_of c = refs ! l_Index l"
    if l: "l \<in> set ?L" for l
  proof -
    have l': "l \<in> set (t_file_chunks t)" "l_FileID l = i" using l L by auto
    obtain c where c: "c \<in> set (t_chunks t)" "c_ID c = l_ChunkID l" "linked_chunks t l = [c]"
      using linked_chunk [OF wf l'(1)] .
    from linksetI [OF l'(1) c(1,2) l'(2)] ls have "l_Index l < length refs \<and> ref_of c = refs ! l_Index l" by auto
    then show ?thesis using c by blast
  qed
  have inj: "inj_on l_Index (set ?L)"
  proof (rule inj_onI)
    fix l m assume lm: "l \<in> set ?L" "m \<in> set ?L" "l_Index l = l_Index m"
    obtain c e where c: "c \<in> set (t_chunks t)" "c_ID c = l_ChunkID l" "ref_of c = refs ! l_Index l"
      and e: "e \<in> set (t_chunks t)" "c_ID e = l_ChunkID m" "ref_of e = refs ! l_Index m"
      using at [OF lm(1)] at [OF lm(2)] by blast
    have "ref_of c = ref_of e" using c(3) e(3) lm(3) by simp
    then have "c_Hash c = c_Hash e" by (metis ref_of_hash)
    then have "c = e" using wf c(1) e(1) by (auto simp: db_wf_def distinct_map inj_on_def)
    moreover have "l_FileID l = l_FileID m" using lm L by auto
    ultimately show "l = m" using lm(3) c(2) e(2) by simp
  qed
  have "distinct ?L" using wf by (simp add: links_of_def db_wf_def)
  then have dist: "distinct (map l_Index ?L)" using inj by (simp add: distinct_map)
  have "l_Index ` set ?L = {0..<length refs}"
  proof
    show "l_Index ` set ?L \<subseteq> {0..<length refs}" using at by fastforce
    show "{0..<length refs} \<subseteq> l_Index ` set ?L"
    proof
      fix k assume "k \<in> {0..<length refs}"
      then have "(k, refs ! k) \<in> linkset t i" using ls by auto
      then show "k \<in> l_Index ` set ?L" using L by (auto simp: linkset_def)
    qed
  qed
  then have idx: "map l_Index ?L = [0..<length refs]"
    using dist by (intro nth_places) (simp_all add: links_of_def)
  have "map (linked_chunks t) ?L = map (\<lambda>l. linked_chunks t l) ?L" by simp
  have "map ref_of (concat (map (linked_chunks t) ls)) = map (\<lambda>l. refs ! l_Index l) ls" if "set ls \<subseteq> set ?L" for ls
    using that
  proof (induction ls)
    case (Cons l ls)
    obtain c where "linked_chunks t l = [c]" "ref_of c = refs ! l_Index l" using at [of l] Cons.prems by auto
    then show ?case using Cons by simp
  qed simp
  from this [of ?L] have "chunk_refs t i = map ((!) refs) (map l_Index ?L)" by (simp add: chunk_refs_def comp_def)
  then show ?thesis unfolding idx by (simp add: map_nth)
qed

section \<open>Connecting files and chunks\<close>

lemma list_all2_left: "list_all2 P xs ys \<Longrightarrow> x \<in> set xs \<Longrightarrow> \<exists>y \<in> set ys. P x y"
  by (induction xs ys rule: list_all2_induct) auto

lemma list_all2_right: "list_all2 P xs ys \<Longrightarrow> y \<in> set ys \<Longrightarrow> \<exists>x \<in> set xs. P x y"
  by (induction xs ys rule: list_all2_induct) auto

lemma insert_links:
  "set (fold insert_link ls xs) = set xs \<union> set ls"
  "distinct xs \<Longrightarrow> distinct (fold insert_link ls xs)"
  "\<forall>l \<in> set ls. \<not> P l \<Longrightarrow> filter P (fold insert_link ls xs) = filter P xs"
proof -
  show "set (fold insert_link ls xs) = set xs \<union> set ls"
    by (induction ls arbitrary: xs) (auto simp: insert_link_def)
  show "distinct xs \<Longrightarrow> distinct (fold insert_link ls xs)"
    by (induction ls arbitrary: xs) (auto simp: insert_link_def)
  show "\<forall>l \<in> set ls. \<not> P l \<Longrightarrow> filter P (fold insert_link ls xs) = filter P xs"
    by (induction ls arbitrary: xs) (auto simp: insert_link_def)
qed

definition link_of_raw :: "raw_file \<Rightarrow> file_chunk" where
  "link_of_raw raw = \<lparr>l_FileID = r_FileID raw, l_ChunkID = r_ChunkID raw, l_Index = r_ChunkIndex raw\<rparr>"

lemma db_wf_chunk_rows: "db_wf t \<Longrightarrow> chunk_rows_ok (t_chunks t)"
  by (simp add: db_wf_def chunk_rows_ok_def)

lemma db_wf_rows: "db_wf t \<Longrightarrow> rows_ok (t_files t)"
  by (simp add: db_wf_def rows_ok_def)

text \<open>Rows of chunks are added, those that were there stay as they are.\<close>

lemma more_chunks:
  assumes wf: "db_wf t" and t': "t' = t\<lparr>t_chunks := t_chunks t @ news\<rparr>" and ok: "chunk_rows_ok (t_chunks t @ news)"
  shows "db_wf t'" and "linkset t' = linkset t" and "chunk_refs t' = chunk_refs t" and "the_file t' = the_file t"
proof -
  show "db_wf t'" using wf ok unfolding t' by (auto simp: db_wf_def chunk_rows_ok_def)
  have none: "filter (\<lambda>c. c_ID c = l_ChunkID l) news = []" if "l \<in> set (t_file_chunks t)" for l
  proof -
    have "l_ChunkID l \<in> c_ID ` set (t_chunks t)" using wf that by (simp add: db_wf_def)
    moreover have "c_ID ` set (t_chunks t) \<inter> c_ID ` set news = {}" using ok by (simp add: chunk_rows_ok_def)
    ultimately show ?thesis by (metis (mono_tags, lifting) IntI empty_iff filter_empty_conv imageI)
  qed
  have lo: "links_of t' = links_of t" unfolding t' by (rule ext) (simp add: links_of_def)
  have lc: "linked_chunks t' l = linked_chunks t l" if "l \<in> set (t_file_chunks t)" for l
    using none [OF that] unfolding t' by (simp add: linked_chunks_def)
  have "linkset u i = {(l_Index l, ref_of c) | l c. l \<in> set (t_file_chunks u) \<and> l_FileID l = i \<and> c \<in> set (linked_chunks u l)}" for u i
    by (auto simp: linkset_def linked_chunks_def)
  moreover have "t_file_chunks t' = t_file_chunks t" by (simp add: t')
  ultimately show "linkset t' = linkset t" using lc by (intro ext) (auto cong: conj_cong)
  show "chunk_refs t' = chunk_refs t"
  proof
    fix i
    have "set (links_of t i) \<subseteq> set (t_file_chunks t)" by (auto simp: links_of_def)
    then have "map (linked_chunks t') (links_of t i) = map (linked_chunks t) (links_of t i)"
      using lc by (intro map_cong) auto
    then show "chunk_refs t' i = chunk_refs t i" by (simp only: chunk_refs_def lo)
  qed
  show "the_file t' = the_file t" unfolding t' by (intro ext) (simp add: the_file_def)
qed

text \<open>Links are added.\<close>

lemma more_links:
  assumes wf: "db_wf t" and t': "t' = t\<lparr>t_file_chunks := fold insert_link ls (t_file_chunks t)\<rparr>"
    and ok: "\<forall>l \<in> set ls. l_FileID l \<in> f_ID ` set (t_files t) \<and> l_ChunkID l \<in> c_ID ` set (t_chunks t)"
  shows "db_wf t'" and "the_file t' = the_file t"
    and "linkset t' i = linkset t i \<union> {(l_Index l, ref_of c) | l c. l \<in> set ls \<and> l_FileID l = i
                                             \<and> c \<in> set (t_chunks t) \<and> c_ID c = l_ChunkID l}"
    and "i \<notin> l_FileID ` set ls \<Longrightarrow> chunk_refs t' i = chunk_refs t i"
proof -
  show "db_wf t'" using wf ok insert_links(1) [of ls "t_file_chunks t"] insert_links(2) [of "t_file_chunks t" ls] unfolding t' by (auto simp: db_wf_def)
  show "the_file t' = the_file t" unfolding t' by (intro ext) (simp add: the_file_def)
  show "linkset t' i = linkset t i \<union> {(l_Index l, ref_of c) | l c. l \<in> set ls \<and> l_FileID l = i
                                             \<and> c \<in> set (t_chunks t) \<and> c_ID c = l_ChunkID l}"
    using insert_links(1) [of ls "t_file_chunks t"] unfolding linkset_def t' by auto
  show "chunk_refs t' i = chunk_refs t i" if "i \<notin> l_FileID ` set ls"
  proof -
    have "\<forall>l \<in> set ls. \<not> l_FileID l = i" using that by auto
    from insert_links(3) [OF this] have "links_of t' i = links_of t i" by (simp add: links_of_def t')
    moreover have "linked_chunks t' = linked_chunks t" by (rule ext) (simp add: linked_chunks_def t')
    ultimately show ?thesis by (simp add: chunk_refs_def)
  qed
qed

lemma createConnections_run:
  fixes d :: "'m db"
  assumes "db_faults d = []" and "batch_type (db_type d)" and wf: "db_wf (db_tables d)"
    and agr: "agree (table_refs (db_tables d) \<union> raw_ref ` set raws)"
    and ids: "r_FileID ` set raws \<subseteq> f_ID ` set (t_files (db_tables d))"
  shows "\<exists>t'. createConnections raws d = Some (Inr (), d\<lparr>db_tables := t'\<rparr>)
    \<and> db_wf t' \<and> t_files t' = t_files (db_tables d) \<and> t_datasets t' = t_datasets (db_tables d)
    \<and> t_dataset_versions t' = t_dataset_versions (db_tables d)
    \<and> table_refs t' \<subseteq> table_refs (db_tables d) \<union> raw_ref ` set raws
    \<and> (\<forall>i. linkset t' i = linkset (db_tables d) i \<union> {(r_ChunkIndex r, raw_ref r) | r. r \<in> set raws \<and> r_FileID r = i})
    \<and> (\<forall>i. i \<notin> r_FileID ` set raws \<longrightarrow> chunk_refs t' i = chunk_refs (db_tables d) i)"
proof (cases "raws = []")
  case True
  then show ?thesis using wf by (intro exI [of _ "db_tables d"]) (simp add: createConnections_def run_simps)
next
  case False
  let ?t = "db_tables d"
  let ?t1 = "add_chunks_to raws ?t"
  obtain raws' where cr: "CreateChunks raws d = Some (Inr raws', d\<lparr>db_tables := ?t1\<rparr>)"
    and raws': "list_all2 (\<lambda>raw raw'. \<exists>c \<in> set (t_chunks ?t1). c_Hash c = r_Hash raw \<and> raw' = raw\<lparr>r_ChunkID := c_ID c\<rparr>) raws raws'"
    using CreateChunks_run [OF assms(1,2) False db_wf_chunk_rows [OF wf] agr] by blast
  let ?ls = "map link_of_raw raws'"
  let ?t' = "?t1\<lparr>t_file_chunks := fold insert_link ?ls (t_file_chunks ?t1)\<rparr>"
  have ne: "raws' \<noteq> []" using raws' False by auto
  have fc: "(\<lambda>raw. \<lparr>l_FileID = r_FileID raw, l_ChunkID = r_ChunkID raw, l_Index = r_ChunkIndex raw\<rparr>) = link_of_raw"
    by (rule ext) (simp add: link_of_raw_def)
  have run: "createConnections raws d = Some (Inr (), d\<lparr>db_tables := ?t'\<rparr>)"
    using False cr ne assms(1,2) unfolding createConnections_def fc
    by (simp add: run_simps CreateFileChunks_def stmt_run)
  obtain news where news: "t_chunks ?t1 = t_chunks ?t @ news"
    using add_chunks(1) [of "exclusives raws" "t_chunks ?t"] by (auto simp: add_chunks_to_def)
  have ok1: "chunk_rows_ok (t_chunks ?t @ news)"
    using add_chunks(4) [OF db_wf_chunk_rows [OF wf], of "exclusives raws"] news by (simp add: add_chunks_to_def)
  have t1: "?t1 = ?t\<lparr>t_chunks := t_chunks ?t @ news\<rparr>" using news by (simp add: add_chunks_to_def)
  note m1 = more_chunks [OF wf t1 ok1]
  have refs1: "table_refs ?t1 \<subseteq> table_refs ?t \<union> raw_ref ` set raws"
    using add_chunks(3) [of "exclusives raws" "t_chunks ?t"] exclusives_props(2) [of raws]
    by (auto simp: table_refs_def add_chunks_to_def)
  have each: "\<exists>raw \<in> set raws. \<exists>c \<in> set (t_chunks ?t1). ref_of c = raw_ref raw \<and> raw' = raw\<lparr>r_ChunkID := c_ID c\<rparr>"
    if mem: "raw' \<in> set raws'" for raw'
  proof -
    obtain raw c where r: "raw \<in> set raws" "c \<in> set (t_chunks ?t1)" "c_Hash c = r_Hash raw" "raw' = raw\<lparr>r_ChunkID := c_ID c\<rparr>"
      using list_all2_right [OF raws' mem] by blast
    have "ref_of c = raw_ref raw"
      by (rule agreeD [OF agr]) (use r refs1 in \<open>auto simp: table_refs_def\<close>)
    then show ?thesis using r by blast
  qed
  have covered: "\<exists>raw' \<in> set raws'. \<exists>c \<in> set (t_chunks ?t1). ref_of c = raw_ref raw \<and> raw' = raw\<lparr>r_ChunkID := c_ID c\<rparr>"
    if mem: "raw \<in> set raws" for raw
  proof -
    obtain raw' c where r: "raw' \<in> set raws'" "c \<in> set (t_chunks ?t1)" "c_Hash c = r_Hash raw" "raw' = raw\<lparr>r_ChunkID := c_ID c\<rparr>"
      using list_all2_left [OF raws' mem] by blast
    have "ref_of c = raw_ref raw"
      by (rule agreeD [OF agr]) (use r mem refs1 in \<open>auto simp: table_refs_def\<close>)
    then show ?thesis using r by blast
  qed
  have lok: "\<forall>l \<in> set ?ls. l_FileID l \<in> f_ID ` set (t_files ?t1) \<and> l_ChunkID l \<in> c_ID ` set (t_chunks ?t1)"
  proof
    fix l assume "l \<in> set ?ls"
    then obtain raw' where "raw' \<in> set raws'" "l = link_of_raw raw'" by auto
    then obtain raw c where r: "raw \<in> set raws" "c \<in> set (t_chunks ?t1)" "l = link_of_raw (raw\<lparr>r_ChunkID := c_ID c\<rparr>)"
      using each by blast
    have "r_FileID raw \<in> f_ID ` set (t_files ?t)" using r(1) ids by blast
    then show "l_FileID l \<in> f_ID ` set (t_files ?t1) \<and> l_ChunkID l \<in> c_ID ` set (t_chunks ?t1)"
      using r by (simp add: link_of_raw_def add_chunks_to_def)
  qed
  note m2 = more_links [OF m1(1) refl lok]
  have fileids: "l_FileID ` set ?ls = r_FileID ` set raws"
  proof -
    have "map l_FileID ?ls = map r_FileID raws"
      using raws' by (auto simp: list_all2_conv_all_nth link_of_raw_def intro!: nth_equalityI)
    then show ?thesis by (metis list.set_map)
  qed
  have "{(l_Index l, ref_of c) | l c. l \<in> set ?ls \<and> l_FileID l = i \<and> c \<in> set (t_chunks ?t1) \<and> c_ID c = l_ChunkID l}
      = {(r_ChunkIndex r, raw_ref r) | r. r \<in> set raws \<and> r_FileID r = i}" (is "?A = ?B") for i
  proof
    have uniq: "c = e" if "c \<in> set (t_chunks ?t1)" "e \<in> set (t_chunks ?t1)" "c_ID c = c_ID e" for c e
      using m1(1) that by (auto simp: db_wf_def distinct_map inj_on_def)
    show "?A \<subseteq> ?B"
    proof
      fix x assume "x \<in> ?A"
      then obtain raw' c where x: "x = (r_ChunkIndex raw', ref_of c)" "raw' \<in> set raws'" "r_FileID raw' = i"
        "c \<in> set (t_chunks ?t1)" "c_ID c = r_ChunkID raw'" by (auto simp: link_of_raw_def)
      then obtain raw e where r: "raw \<in> set raws" "e \<in> set (t_chunks ?t1)" "ref_of e = raw_ref raw" "raw' = raw\<lparr>r_ChunkID := c_ID e\<rparr>"
        using each by blast
      have "c = e" using uniq x(4,5) r(2,4) by simp
      then show "x \<in> ?B" using x r by auto
    qed
    show "?B \<subseteq> ?A"
    proof
      fix x assume "x \<in> ?B"
      then obtain raw where x: "x = (r_ChunkIndex raw, raw_ref raw)" "raw \<in> set raws" "r_FileID raw = i" by blast
      obtain raw' c where r: "raw' \<in> set raws'" "c \<in> set (t_chunks ?t1)" "ref_of c = raw_ref raw" "raw' = raw\<lparr>r_ChunkID := c_ID c\<rparr>"
        using covered [OF x(2)] by blast
      have "link_of_raw raw' \<in> set ?ls" using r(1) by simp
      then show "x \<in> ?A" using x r
        by (intro CollectI exI [of _ "link_of_raw raw'"] exI [of _ c]) (simp add: link_of_raw_def)
    qed
  qed
  then have ls: "linkset ?t' i = linkset ?t i \<union> {(r_ChunkIndex r, raw_ref r) | r. r \<in> set raws \<and> r_FileID r = i}" for i
    using m2(3) [of i] m1(2) by simp
  have "chunk_refs ?t' i = chunk_refs ?t i" if "i \<notin> r_FileID ` set raws" for i
    using m2(4) [of i] that fileids m1(3) by simp
  then show ?thesis using run m2(1) ls refs1
    by (intro exI [of _ ?t']) (simp add: add_chunks_to_def table_refs_def)
qed

end
