(* ===== verification/SaveFS.thy ===== *)
theory SaveFS
  imports RowEffects
begin

text \<open>
  What \<^verbatim>\<open>SaveFSToDB\<close> makes of a version, over the abstract catalogue: the files of the
  structure with their chunks, the other files as they were.
\<close>

section \<open>The single steps\<close>

definition named_key :: "version_key \<Rightarrow> bool" where
  "named_key key = (case key of (ws, ty, ds, ver) \<Rightarrow> ws \<noteq> [] \<and> ty \<noteq> [] \<and> ds \<noteq> [] \<and> ver \<noteq> [])"

lemma linkset_fresh: "db_wf t \<Longrightarrow> i \<notin> f_ID ` set (t_files t) \<Longrightarrow> linkset t i = {}"
  by (auto simp: db_wf_def linkset_def)

lemma put_files_tables [simp]:
  "t_chunks (put_files now fs t) = t_chunks t" "t_file_chunks (put_files now fs t) = t_file_chunks t"
  "t_datasets (put_files now fs t) = t_datasets t" "t_dataset_versions (put_files now fs t) = t_dataset_versions t"
  "linkset (put_files now fs t) = linkset t" "chunk_refs (put_files now fs t) = chunk_refs t"
  "table_refs (put_files now fs t) = table_refs t"
  by (simp_all add: put_files_def linkset_def [abs_def] chunk_refs_def [abs_def] links_of_def linked_chunks_def [abs_def] table_refs_def)

lemma put_files_wf: "db_wf t \<Longrightarrow> db_wf (put_files now fs t)"
proof -
  assume wf: "db_wf t"
  let ?rows = "fold upsert_file (map (stamp now) fs) (t_files t)"
  have "rows_ok ?rows" "set (map f_ID (t_files t)) \<subseteq> set (map f_ID ?rows)"
    using upserts_rows db_wf_rows [OF wf] by blast+
  then show ?thesis using wf unfolding put_files_def by (auto simp: db_wf_def rows_ok_def)
qed

lemma put_files_find:
  assumes "\<forall>f \<in> set fs. in_version (ws, ty, ds, ver) f" and "distinct (map f_Path fs)"
  shows "(w, y, n, v, p) \<notin> file_key ` set fs \<Longrightarrow> the_file (put_files now fs t) (w, y, n, v) p = the_file t (w, y, n, v) p"
    and "f \<in> set fs \<Longrightarrow> \<exists>g. find_key (file_key f) (t_files (put_files now fs t)) = Some g
       \<and> (case find_key (file_key f) (t_files t) of
             Some old \<Rightarrow> g = old\<lparr>f_Size := f_Size f\<rparr>
           | None \<Rightarrow> f_ID g \<notin> f_ID ` set (t_files t) \<and> f_Size g = f_Size f \<and> f_Mode g = f_Mode f)"
proof -
  let ?fs = "map (stamp now) fs"
  have "inj_on file_key (set fs)"
  proof (rule inj_onI)
    fix a b assume "a \<in> set fs" "b \<in> set fs" "file_key a = file_key b"
    then show "a = b" using assms(2) by (auto simp: file_key_def distinct_map inj_on_def)
  qed
  moreover have "map file_key ?fs = map file_key fs" by simp
  ultimately have dk: "distinct (map file_key ?fs)" using assms(2) by (simp only: distinct_map simp_thms)
  note up = upserts_find [OF dk, where rows = "t_files t"]
  have keys: "file_key ` set ?fs = file_key ` set fs" by (auto simp: image_image)
  show "(w, y, n, v, p) \<notin> file_key ` set fs \<Longrightarrow> the_file (put_files now fs t) (w, y, n, v) p = the_file t (w, y, n, v) p"
    using up(1) [of "(w, y, n, v, p)"] unfolding keys by (simp add: the_file_find_key put_files_def)
  assume "f \<in> set fs"
  then have "stamp now f \<in> set ?fs" by simp
  from up(2) [OF this] obtain g where g: "find_key (file_key f) (fold upsert_file ?fs (t_files t)) = Some g"
    "case find_key (file_key f) (t_files t) of
       Some old \<Rightarrow> g = old\<lparr>f_Size := f_Size f\<rparr>
     | None \<Rightarrow> f_ID g \<notin> f_ID ` set (t_files t) \<and> g = (stamp now f)\<lparr>f_ID := f_ID g\<rparr>"
    by (auto split: option.splits)
  have new: "g = (stamp now f)\<lparr>f_ID := i\<rparr> \<Longrightarrow> f_Size g = f_Size f \<and> f_Mode g = f_Mode f" for i by simp
  show "\<exists>g. find_key (file_key f) (t_files (put_files now fs t)) = Some g
       \<and> (case find_key (file_key f) (t_files t) of
             Some old \<Rightarrow> g = old\<lparr>f_Size := f_Size f\<rparr>
           | None \<Rightarrow> f_ID g \<notin> f_ID ` set (t_files t) \<and> f_Size g = f_Size f \<and> f_Mode g = f_Mode f)"
  proof (intro exI conjI)
    show "find_key (file_key f) (t_files (put_files now fs t)) = Some g" using g(1) by (simp add: put_files_def)
    show "case find_key (file_key f) (t_files t) of
             Some old \<Rightarrow> g = old\<lparr>f_Size := f_Size f\<rparr>
           | None \<Rightarrow> f_ID g \<notin> f_ID ` set (t_files t) \<and> f_Size g = f_Size f \<and> f_Mode g = f_Mode f"
      using g(2) new [of "f_ID g"] by (simp split: option.splits)
  qed
qed

text \<open>Removing the links of a file to some chunks.\<close>

definition cut_links :: "nat \<Rightarrow> nat set \<Rightarrow> tables \<Rightarrow> tables" where
  "cut_links i C t = t\<lparr>t_file_chunks := filter (\<lambda>l. \<not> (l_FileID l = i \<and> l_ChunkID l \<in> C)) (t_file_chunks t)\<rparr>"

lemma cut_links_wf: "db_wf t \<Longrightarrow> db_wf (cut_links i C t)"
  by (auto simp: db_wf_def cut_links_def)

lemma cut_links_other:
  assumes "j \<noteq> i"
  shows "linkset (cut_links i C t) j = linkset t j" and "chunk_refs (cut_links i C t) j = chunk_refs t j"
proof -
  show "linkset (cut_links i C t) j = linkset t j" using assms by (auto simp: linkset_def cut_links_def)
  have "filter (\<lambda>l. l_FileID l = j) (t_file_chunks (cut_links i C t)) = filter (\<lambda>l. l_FileID l = j) (t_file_chunks t)"
    unfolding cut_links_def by simp (rule filter_cong, use assms in auto)
  then show "chunk_refs (cut_links i C t) j = chunk_refs t j"
    by (simp add: chunk_refs_def links_of_def linked_chunks_def [abs_def]) (simp add: cut_links_def)
qed

lemma cut_links_self:
  "db_wf t \<Longrightarrow> linkset (cut_links i C t) i = {(l_Index l, ref_of c) | l c. l \<in> set (t_file_chunks t) \<and> l_FileID l = i
     \<and> c \<in> set (t_chunks t) \<and> c_ID c = l_ChunkID l \<and> c_ID c \<notin> C}"
  unfolding linkset_def cut_links_def by (intro Collect_cong ex_cong1) auto

lemma clear_loop:
  assumes "db_faults d = []" and "\<forall>c \<in> set cs. r_FileID c = i \<and> r_ChunkID c \<noteq> 0" and "i \<noteq> 0"
  shows "for_each (\<lambda>c. bnd (DeleteFileChunk (r_FileID c) (r_ChunkID c)) (\<lambda>_. CheckAndDeleteChunk (chunk_of_loaded c))) cs d
    = Some (Inr (), d\<lparr>db_tables := cut_links i (r_ChunkID ` set cs) (db_tables d),
                      db_chunksBuf := db_chunksBuf d @ map chunk_of_loaded cs\<rparr>)"
  using assms
proof (induction cs arbitrary: d)
  case Nil
  then show ?case by (simp add: run_simps cut_links_def)
next
  case (Cons c cs)
  let ?d1 = "d\<lparr>db_tables := cut_links i {r_ChunkID c} (db_tables d), db_chunksBuf := db_chunksBuf d @ [chunk_of_loaded c]\<rparr>"
  have "cut_links i (r_ChunkID ` set cs) (cut_links i {r_ChunkID c} t) = cut_links i (r_ChunkID ` set (c # cs)) t" for t
    unfolding cut_links_def by (simp add: conj_commute) (rule arg_cong [where f = "\<lambda>ls. t\<lparr>t_file_chunks := ls\<rparr>"], rule filter_cong, auto)
  moreover have "bnd (DeleteFileChunk (r_FileID c) (r_ChunkID c)) (\<lambda>_. CheckAndDeleteChunk (chunk_of_loaded c)) d = Some (Inr (), ?d1)"
    using Cons.prems
    by (simp add: DeleteFileChunk_def run_simps CheckAndDeleteChunk_def match_link_def opt_nat_def cut_links_def)
  ultimately show ?case using Cons.IH [of ?d1] Cons.prems by (simp add: run_simps)
qed

section \<open>The chunks a new file does not repeat\<close>

lemma stale_chunks_set:
  "c \<in> set (stale_chunks exs hs) \<Longrightarrow> c \<in> set exs \<and> r_Hash c \<notin> h_Hash ` set hs"
  "ex \<in> set exs \<Longrightarrow> r_Hash ex \<notin> h_Hash ` set hs \<Longrightarrow> \<exists>c \<in> set (stale_chunks exs hs). r_Hash c = r_Hash ex"
proof -
  define m where "m = fold (\<lambda>ex m. AList.update (r_Hash ex) ex m) exs []"
  have keys: "\<forall>(i, c) \<in> set m. i = r_Hash c" unfolding m_def by (rule fold_update_keys) simp
  have dom: "fst ` set m = r_Hash ` set exs" using fold_update_dom [of "[]" r_Hash exs] by (simp add: m_def)
  have ran: "x \<in> snd ` set m \<Longrightarrow> x \<in> set exs" for x
    using fold_update_snd [of x r_Hash exs "[]"] by (simp add: m_def)
  have set: "set (stale_chunks exs hs) = snd ` {p \<in> set m. fst p \<notin> h_Hash ` set hs}"
    unfolding stale_chunks_def set_map fold_delete_set m_def by simp
  show "c \<in> set (stale_chunks exs hs) \<Longrightarrow> c \<in> set exs \<and> r_Hash c \<notin> h_Hash ` set hs"
    using keys ran unfolding set by fastforce
  assume ex: "ex \<in> set exs" "r_Hash ex \<notin> h_Hash ` set hs"
  then have "r_Hash ex \<in> fst ` set m" using dom by blast
  then obtain c where c: "(r_Hash ex, c) \<in> set m" by auto
  then have "r_Hash c = r_Hash ex" using keys by fastforce
  moreover have "c \<in> set (stale_chunks exs hs)" unfolding set using c ex(2) by force
  ultimately show "\<exists>c \<in> set (stale_chunks exs hs). r_Hash c = r_Hash ex" by blast
qed

lemma raw_files_exact:
  assumes wf: "db_wf t" and "ver \<noteq> []" and "path \<noteq> []" and g: "the_file t (ws, ty, ds, ver) path = Some g"
  shows "set (raw_files dbtype ty ws ds ver path True t) =
    {raw_of_rows l g c | l c. l \<in> set (t_file_chunks t) \<and> l_FileID l = f_ID g \<and> c \<in> set (t_chunks t) \<and> c_ID c = l_ChunkID l}"
proof -
  have P: "file_cond dbtype ty ws ds ver path True f \<longleftrightarrow> f = g" if f: "f \<in> set (t_files t)" for f
  proof
    assume "file_cond dbtype ty ws ds ver path True f"
    then have "in_version (ws, ty, ds, ver) f" "f_Path f = path"
      using assms(2,3) by (auto simp: file_cond_def path_cond_def)
    then have "the_file t (ws, ty, ds, ver) path = Some f" using the_file_eq [OF _ f] wf by (auto simp: db_wf_def)
    then show "f = g" using g by simp
  next
    assume "f = g"
    then show "file_cond dbtype ty ws ds ver path True f"
      using the_file_SomeD [OF g] assms(2,3) by (auto simp: file_cond_def path_cond_def)
  qed
  have "set (joined Q t) = {raw_of_rows l f c | l f c. l \<in> set (t_file_chunks t) \<and> f \<in> set (t_files t) \<and> f_ID f = l_FileID l \<and> Q f
      \<and> c \<in> set (t_chunks t) \<and> c_ID c = l_ChunkID l}" for Q
    by (auto simp: joined_def)
  then have "set (raw_files dbtype ty ws ds ver path True t) =
    {raw_of_rows l f c | l f c. l \<in> set (t_file_chunks t) \<and> f \<in> set (t_files t) \<and> f_ID f = l_FileID l
      \<and> file_cond dbtype ty ws ds ver path True f \<and> c \<in> set (t_chunks t) \<and> c_ID c = l_ChunkID l}"
    by (simp add: raw_files_def)
  also have "\<dots> = {raw_of_rows l f c | l f c. l \<in> set (t_file_chunks t) \<and> f = g \<and> f_ID f = l_FileID l
      \<and> c \<in> set (t_chunks t) \<and> c_ID c = l_ChunkID l}"
    using P the_file_SomeD [OF g] by (intro Collect_cong ex_cong1) blast
  finally show ?thesis by (auto intro: sym)
qed

lemma db_GetFile_run:
  assumes "db_faults d = []" and "named_key (ws, ty, ds, ver)" and "path \<noteq> []"
  shows "db_GetFile ws ds ty path ver d =
    Some (case the_file (db_tables d) (ws, ty, ds, ver) path of None \<Rightarrow> (Inl Record_Not_Found, d) | Some g \<Rightarrow> (Inr g, d))"
proof -
  have "match_file (file_filter ws ds ty path ver) = (\<lambda>f. in_version (ws, ty, ds, ver) f \<and> f_Path f = path)"
    using assms(2,3)
    by (intro ext) (auto simp: match_file_def file_filter_def blank_file_def opt_str_def opt_nat_def opt_int_def named_key_def)
  then show ?thesis using assms(1)
    by (simp add: db_GetFile_def stmt_run first_row_def the_file_def split: option.splits)
qed

definition dsv_key :: "version_row \<Rightarrow> version_key" where
  "dsv_key dsv = (v_Workspace dsv, v_Type dsv, v_Name dsv, v_Version dsv)"

definition kept :: "hash_ref list \<Rightarrow> (nat \<times> hash_ref) set \<Rightarrow> (nat \<times> hash_ref) set" where
  "kept hs L = {(k, r) \<in> L. h_Hash r \<in> h_Hash ` set hs}"

lemma CheckAndQueueFile_run:
  fixes d :: "'m db"
  assumes faults: "db_faults d = []" and wf: "db_wf (db_tables d)" and ok: "chunks_ok (db_tables d)"
    and named: "named_key (dsv_key dsv)" and path: "hf_Path f \<noteq> []"
    and long: "\<forall>c \<in> set (db_chunksBuf d). long_hash c"
  shows "\<exists>t' buf'. CheckAndQueueFile dsv f d = Some (Inr (), d\<lparr>db_tables := t', db_chunksBuf := buf'\<rparr>)
    \<and> db_wf t' \<and> (\<exists>ls. t' = (db_tables d)\<lparr>t_file_chunks := ls\<rparr>) \<and> (\<forall>c \<in> set buf'. long_hash c)
    \<and> (\<forall>i. (\<forall>g. the_file (db_tables d) (dsv_key dsv) (hf_Path f) = Some g \<longrightarrow> f_ID g \<noteq> i) \<longrightarrow>
           linkset t' i = linkset (db_tables d) i \<and> chunk_refs t' i = chunk_refs (db_tables d) i)
    \<and> (\<forall>g. the_file (db_tables d) (dsv_key dsv) (hf_Path f) = Some g \<longrightarrow>
           linkset t' (f_ID g) = kept (hf_Hashes f) (linkset (db_tables d) (f_ID g)))"
proof (cases "the_file (db_tables d) (dsv_key dsv) (hf_Path f)")
  case None
  have "CheckAndQueueFile dsv f d = Some (Inr (), d)"
    using db_GetFile_run [OF faults named [unfolded dsv_key_def] path] None
    by (simp add: CheckAndQueueFile_def run_simps dsv_key_def)
  then show ?thesis using None wf long
    by (intro exI [of _ "db_tables d"] exI [of _ "db_chunksBuf d"]) (auto intro: exI [of _ "t_file_chunks (db_tables d)"])
next
  case (Some g)
  let ?t = "db_tables d" and ?i = "f_ID g" and ?hs = "hf_Hashes f"
  obtain ws ty ds ver where key: "dsv_key dsv = (ws, ty, ds, ver)" "v_Workspace dsv = ws" "v_Type dsv = ty" "v_Name dsv = ds" "v_Version dsv = ver"
    by (simp add: dsv_key_def)
  have ver: "ver \<noteq> []" using named key by (simp add: named_key_def)
  define raws where "raws = raw_files (db_type d) ty ws ds ver (hf_Path f) True ?t"
  have raws: "set raws = {raw_of_rows l g c | l c. l \<in> set (t_file_chunks ?t) \<and> l_FileID l = f_ID g \<and> c \<in> set (t_chunks ?t) \<and> c_ID c = l_ChunkID l}"
    unfolding raws_def by (rule raw_files_exact [OF wf ver path]) (use Some key in simp)
  let ?cs = "stale_chunks raws ?hs"
  have cs_raws: "c \<in> set ?cs \<Longrightarrow> c \<in> set raws" for c using stale_chunks_set(1) by blast
  have i0: "?i \<noteq> 0" using the_file_SomeD [OF Some] wf by (auto simp: db_wf_def image_iff)
  have cs_ids: "\<forall>c \<in> set ?cs. r_FileID c = ?i \<and> r_ChunkID c \<noteq> 0"
  proof
    fix c assume "c \<in> set ?cs"
    then obtain l e where "c = raw_of_rows l g e" "l_FileID l = ?i" "e \<in> set (t_chunks ?t)" "c_ID e = l_ChunkID l"
      using cs_raws raws by blast
    then show "r_FileID c = ?i \<and> r_ChunkID c \<noteq> 0" using wf by (auto simp: raw_of_rows_def db_wf_def image_iff)
  qed
  have get: "GetRawFiles ty ws ds ver (hf_Path f) True d = Some (Inr raws, d)"
    using faults by (simp add: GetRawFiles_def run_simps raws_def)
  let ?C = "r_ChunkID ` set ?cs" and ?t' = "cut_links ?i (r_ChunkID ` set ?cs) ?t"
  have run: "CheckAndQueueFile dsv f d = Some (Inr (), d\<lparr>db_tables := ?t', db_chunksBuf := db_chunksBuf d @ map chunk_of_loaded ?cs\<rparr>)"
    using db_GetFile_run [OF faults named [unfolded dsv_key_def] path] Some get clear_loop [OF faults cs_ids i0]
    by (simp add: CheckAndQueueFile_def ClearExtraChunks_def run_simps key)
  have "long_hash (chunk_of_loaded c)" if "c \<in> set ?cs" for c
    by (rule chunks_ok_raws_long [OF ok cs_raws [OF that, unfolded raws_def]])
  then have "\<forall>c \<in> set (map chunk_of_loaded ?cs). long_hash c" by simp
  moreover have "linkset ?t' ?i = kept ?hs (linkset ?t ?i)"
  proof -
    have in_C: "c_ID c \<in> ?C \<longleftrightarrow> c_Hash c \<notin> h_Hash ` set ?hs"
      if l: "l \<in> set (t_file_chunks ?t)" "l_FileID l = ?i" "c \<in> set (t_chunks ?t)" "c_ID c = l_ChunkID l" for l c
    proof
      assume "c_ID c \<in> ?C"
      then obtain x where x: "x \<in> set ?cs" "r_ChunkID x = c_ID c" by auto
      then obtain m e where m: "x = raw_of_rows m g e" "e \<in> set (t_chunks ?t)" "c_ID e = l_ChunkID m" using cs_raws raws by blast
      then have "c_ID e = c_ID c" using x(2) by (simp add: raw_of_rows_def)
      then have "e = c" using m(2) l(3) wf by (auto simp: db_wf_def distinct_map inj_on_def)
      then show "c_Hash c \<notin> h_Hash ` set ?hs" using stale_chunks_set(1) [OF x(1)] m(1) by (simp add: raw_of_rows_def)
    next
      assume h: "c_Hash c \<notin> h_Hash ` set ?hs"
      have "raw_of_rows l g c \<in> set raws" unfolding raws using l by blast
      then obtain x where x: "x \<in> set ?cs" "r_Hash x = c_Hash c"
        using stale_chunks_set(2) [of "raw_of_rows l g c" raws ?hs] h by (auto simp: raw_of_rows_def)
      then obtain m e where m: "x = raw_of_rows m g e" "e \<in> set (t_chunks ?t)" "c_ID e = l_ChunkID m" using cs_raws raws by blast
      then have "c_Hash e = c_Hash c" using x(2) by (simp add: raw_of_rows_def)
      then have "e = c" using m(2) l(3) wf by (auto simp: db_wf_def distinct_map inj_on_def)
      then have "r_ChunkID x = c_ID c" using m by (simp add: raw_of_rows_def)
      then show "c_ID c \<in> ?C" using x(1) by force
    qed
    have "linkset ?t' ?i = {(l_Index l, ref_of c) | l c. l \<in> set (t_file_chunks ?t) \<and> l_FileID l = ?i
        \<and> c \<in> set (t_chunks ?t) \<and> c_ID c = l_ChunkID l \<and> c_ID c \<notin> ?C}"
      by (rule cut_links_self [OF wf])
    also have "\<dots> = {(l_Index l, ref_of c) | l c. l \<in> set (t_file_chunks ?t) \<and> l_FileID l = ?i
        \<and> c \<in> set (t_chunks ?t) \<and> c_ID c = l_ChunkID l \<and> h_Hash (ref_of c) \<in> h_Hash ` set ?hs}"
      by (intro Collect_cong ex_cong1 conj_cong refl) (use in_C in simp)
    also have "\<dots> = kept ?hs (linkset ?t ?i)" unfolding kept_def linkset_def by blast
    finally show ?thesis .
  qed
  moreover have "\<forall>j. j \<noteq> ?i \<longrightarrow> linkset ?t' j = linkset ?t j \<and> chunk_refs ?t' j = chunk_refs ?t j"
    using cut_links_other by blast
  ultimately show ?thesis using run Some cut_links_wf [OF wf] long
    by (intro exI [of _ ?t'] exI [of _ "db_chunksBuf d @ map chunk_of_loaded ?cs"]) (auto simp: cut_links_def)
qed

section \<open>Flushing the buffer of chunks\<close>

definition ready :: "hash_ref set \<Rightarrow> 'm db \<Rightarrow> bool" where
  "ready R d \<longleftrightarrow> db_faults d = [] \<and> batch_type (db_type d) \<and> db_wf (db_tables d) \<and> chunks_ok (db_tables d)
     \<and> agree (table_refs (db_tables d) \<union> R) \<and> (\<forall>r \<in> R. good_hash (h_Hash r) \<and> h_Version r \<le> 2)
     \<and> (\<forall>c \<in> set (db_chunksBuf d). long_hash c)"

text \<open>What the steps leave alone.\<close>

definition rest :: "'m db \<Rightarrow> string \<times> int \<times> tables list \<times> dataset_row list \<times> version_row list \<times> 'm" where
  "rest d = (db_type d, db_now d, db_saved d, t_datasets (db_tables d), t_dataset_versions (db_tables d), db_remote d)"

text \<open>The chunks of a file, those included that wait in the buffer.\<close>

definition eff :: "tables \<Rightarrow> raw_file list \<Rightarrow> nat \<Rightarrow> (nat \<times> hash_ref) set" where
  "eff t rs i = linkset t i \<union> {(r_ChunkIndex r, raw_ref r) | r. r \<in> set rs \<and> r_FileID r = i}"

lemma eff_Nil [simp]: "eff t [] i = linkset t i"
  by (simp add: eff_def)

lemma eff_none: "i \<notin> r_FileID ` set rs \<Longrightarrow> eff t rs i = linkset t i"
  unfolding eff_def by blast

lemma chunks_ok_refs: "chunks_ok t \<longleftrightarrow> (\<forall>r \<in> table_refs t. good_hash (h_Hash r) \<and> h_Version r \<le> 2)"
  by (auto simp: chunks_ok_def table_refs_def ref_of_def)

lemma swept_parts:
  assumes "swept t t'" and "db_wf t"
  shows "linkset t' = linkset t" and "chunk_refs t' = chunk_refs t" and "t_files t' = t_files t"
    and "table_refs t' \<subseteq> table_refs t"
    and "t_datasets t' = t_datasets t" and "t_dataset_versions t' = t_dataset_versions t"
proof -
  obtain P where t': "t' = t\<lparr>t_chunks := filter P (t_chunks t)\<rparr>"
    and P: "\<And>c. c \<in> set (t_chunks t) \<Longrightarrow> c_ID c \<in> l_ChunkID ` set (t_file_chunks t) \<Longrightarrow> P c"
    using assms(1) by (auto simp: swept_def)
  show "linkset t' = linkset t" unfolding linkset_def t' using P by (intro ext Collect_cong ex_cong1) auto
  show "t_files t' = t_files t" "t_datasets t' = t_datasets t" "t_dataset_versions t' = t_dataset_versions t" by (simp_all add: t')
  show "table_refs t' \<subseteq> table_refs t" by (auto simp: table_refs_def t')
  have lc: "linked_chunks t' l = linked_chunks t l" if "l \<in> set (t_file_chunks t)" for l
  proof -
    have "filter (\<lambda>c. c_ID c = l_ChunkID l) (filter P (t_chunks t)) = filter (\<lambda>c. c_ID c = l_ChunkID l) (t_chunks t)"
      by (rule filter_keeps) (use that P in auto)
    then show ?thesis unfolding linked_chunks_def t' by (simp del: filter_filter)
  qed
  show "chunk_refs t' = chunk_refs t"
  proof
    fix i
    have "set (links_of t i) \<subseteq> set (t_file_chunks t)" by (auto simp: links_of_def)
    then have "map (linked_chunks t') (links_of t i) = map (linked_chunks t) (links_of t i)"
      using lc by (intro map_cong) auto
    moreover have "links_of t' i = links_of t i" by (simp add: links_of_def t')
    ultimately show "chunk_refs t' i = chunk_refs t i" by (simp only: chunk_refs_def)
  qed
qed

lemma ready_sweeps:
  assumes "ready R d" and "sweeps st B d d'" and "db_chunksBuf d' = []"
  shows "ready R d'" and "rest d' = rest d" and "linkset (db_tables d') = linkset (db_tables d)"
    and "chunk_refs (db_tables d') = chunk_refs (db_tables d)" and "t_files (db_tables d') = t_files (db_tables d)"
proof -
  have sw: "swept (db_tables d) (db_tables d')" using assms(2) by (simp add: sweeps_def)
  have wf: "db_wf (db_tables d)" using assms(1) by (simp add: ready_def)
  note parts = swept_parts [OF sw wf]
  show "ready R d'"
    using assms swept_wf [OF sw wf] swept_chunks_ok [OF sw] parts(4)
    by (auto simp: ready_def sweeps_def intro: agree_mono [of "table_refs (db_tables d) \<union> R"])
  show "rest d' = rest d" using assms(2) parts by (simp add: rest_def sweeps_def)
  show "linkset (db_tables d') = linkset (db_tables d)" "chunk_refs (db_tables d') = chunk_refs (db_tables d)"
    "t_files (db_tables d') = t_files (db_tables d)" using parts by simp_all
qed

lemma tryFlushBuffer_run:
  fixes d :: "'m db"
  assumes rd: "ready R d" and buf: "buffer = buffer0 @ (case chunk of None \<Rightarrow> [] | Some c \<Rightarrow> [c])"
    and refs: "raw_ref ` set buffer \<subseteq> R" and ids: "r_FileID ` set buffer \<subseteq> f_ID ` set (t_files (db_tables d))"
  shows "\<exists>buf d'. tryFlushBuffer st chunk force buffer0 d = Some (Inr buf, d')
    \<and> ready R d' \<and> rest d' = rest d \<and> t_files (db_tables d') = t_files (db_tables d)
    \<and> (\<forall>i. eff (db_tables d') buf i = eff (db_tables d) buffer i)
    \<and> (\<forall>i. i \<notin> r_FileID ` set buffer \<longrightarrow> chunk_refs (db_tables d') i = chunk_refs (db_tables d) i)
    \<and> set buf \<subseteq> set buffer \<and> (force \<longrightarrow> buf = [])"
proof (cases "250 \<le> length buffer \<or> force")
  case False
  then have "tryFlushBuffer st chunk force buffer0 d = Some (Inr buffer, d)"
    using buf by (simp add: tryFlushBuffer_def run_simps)
  then show ?thesis using False rd by auto
next
  case True
  obtain n d1 where trig: "TriggerDeleteChunks st d = Some (Inr n, d1)" and sw: "sweeps st (db_chunksBuf d) d d1" "db_chunksBuf d1 = []"
    using TriggerDeleteChunks_sweeps [of d st] rd by (auto simp: ready_def)
  note r1 = ready_sweeps [OF rd sw]
  have pre: "db_faults d1 = []" "batch_type (db_type d1)" "db_wf (db_tables d1)" "agree (table_refs (db_tables d1) \<union> raw_ref ` set buffer)"
    "r_FileID ` set buffer \<subseteq> f_ID ` set (t_files (db_tables d1))"
    using r1 refs ids by (auto simp: ready_def intro: agree_mono [of "table_refs (db_tables d1) \<union> R"])
  obtain t' where cc: "createConnections buffer d1 = Some (Inr (), d1\<lparr>db_tables := t'\<rparr>)" "db_wf t'"
    "t_files t' = t_files (db_tables d1)" "t_datasets t' = t_datasets (db_tables d1)"
    "t_dataset_versions t' = t_dataset_versions (db_tables d1)"
    "table_refs t' \<subseteq> table_refs (db_tables d1) \<union> raw_ref ` set buffer"
    "\<And>i. linkset t' i = linkset (db_tables d1) i \<union> {(r_ChunkIndex r, raw_ref r) | r. r \<in> set buffer \<and> r_FileID r = i}"
    "\<And>i. i \<notin> r_FileID ` set buffer \<Longrightarrow> chunk_refs t' i = chunk_refs (db_tables d1) i"
    using createConnections_run [OF pre] by blast
  let ?d2 = "d1\<lparr>db_tables := t'\<rparr>"
  have "tryFlushBuffer st chunk force buffer0 d = Some (Inr [], ?d2)"
    using True trig cc(1) buf by (simp add: tryFlushBuffer_def run_simps)
  moreover have "table_refs t' \<subseteq> table_refs (db_tables d1) \<union> R" using cc(6) refs by blast
  then have "ready R ?d2"
    using r1(1) cc(2) unfolding ready_def chunks_ok_refs
    by (auto intro: agree_mono [of "table_refs (db_tables d1) \<union> R"])
  moreover have "rest ?d2 = rest d" using r1(2) cc(4,5) by (simp add: rest_def)
  ultimately show ?thesis using r1 cc(3,7,8)
    by (intro exI [of _ "[]"] exI [of _ ?d2]) (simp add: eff_def)
qed

lemma flush_raws_run:
  fixes d :: "'m db"
  assumes "ready R d" and "raw_ref ` set (buffer @ raws) \<subseteq> R" and "r_FileID ` set (buffer @ raws) \<subseteq> f_ID ` set (t_files (db_tables d))"
  shows "\<exists>buf d'. flush_raws st raws buffer d = Some (Inr buf, d')
    \<and> ready R d' \<and> rest d' = rest d \<and> t_files (db_tables d') = t_files (db_tables d)
    \<and> (\<forall>i. eff (db_tables d') buf i = eff (db_tables d) (buffer @ raws) i)
    \<and> (\<forall>i. i \<notin> r_FileID ` set (buffer @ raws) \<longrightarrow> chunk_refs (db_tables d') i = chunk_refs (db_tables d) i)
    \<and> set buf \<subseteq> set (buffer @ raws)"
  using assms
proof (induction raws arbitrary: buffer d)
  case Nil
  then show ?case by (simp add: run_simps)
next
  case (Cons raw raws)
  have here: "buffer @ [raw] = buffer @ (case Some raw of None \<Rightarrow> [] | Some c \<Rightarrow> [c])"
    "raw_ref ` set (buffer @ [raw]) \<subseteq> R" "r_FileID ` set (buffer @ [raw]) \<subseteq> f_ID ` set (t_files (db_tables d))"
    using Cons.prems by auto
  obtain buf1 d1 where one: "tryFlushBuffer st (Some raw) False buffer d = Some (Inr buf1, d1)"
    "ready R d1" "rest d1 = rest d" "t_files (db_tables d1) = t_files (db_tables d)"
    "\<And>i. eff (db_tables d1) buf1 i = eff (db_tables d) (buffer @ [raw]) i"
    "\<And>i. i \<notin> r_FileID ` set (buffer @ [raw]) \<Longrightarrow> chunk_refs (db_tables d1) i = chunk_refs (db_tables d) i"
    "set buf1 \<subseteq> set (buffer @ [raw])"
    using tryFlushBuffer_run [OF Cons.prems(1) here, of st False] by blast
  have sub: "set (buf1 @ raws) \<subseteq> set (buffer @ raw # raws)" using one(7) by auto
  have "raw_ref ` set (buf1 @ raws) \<subseteq> R" "r_FileID ` set (buf1 @ raws) \<subseteq> f_ID ` set (t_files (db_tables d1))"
    using order_trans [OF image_mono [OF sub] Cons.prems(2)] order_trans [OF image_mono [OF sub] Cons.prems(3)]
    unfolding one(4) by blast+
  from Cons.IH [OF one(2) this] obtain buf d' where two: "flush_raws st raws buf1 d1 = Some (Inr buf, d')"
    "ready R d'" "rest d' = rest d1" "t_files (db_tables d') = t_files (db_tables d1)"
    "\<And>i. eff (db_tables d') buf i = eff (db_tables d1) (buf1 @ raws) i"
    "\<And>i. i \<notin> r_FileID ` set (buf1 @ raws) \<Longrightarrow> chunk_refs (db_tables d') i = chunk_refs (db_tables d1) i"
    "set buf \<subseteq> set (buf1 @ raws)" by auto
  have app: "eff t (xs @ ys) i = eff t xs i \<union> {(r_ChunkIndex r, raw_ref r) | r. r \<in> set ys \<and> r_FileID r = i}" for t xs ys i
    by (auto simp: eff_def)
  have "eff (db_tables d') buf i = eff (db_tables d) (buffer @ raw # raws) i" for i
    using two(5) [of i] one(5) [of i] app [of "db_tables d1" buf1 raws i] app [of "db_tables d" "buffer @ [raw]" raws i] by simp
  moreover have "chunk_refs (db_tables d') i = chunk_refs (db_tables d) i" if "i \<notin> r_FileID ` set (buffer @ raw # raws)" for i
  proof -
    have "i \<notin> r_FileID ` set (buf1 @ raws)" using that one(7) by auto
    then show ?thesis using two(6) one(6) that by auto
  qed
  moreover have "set buf \<subseteq> set (buffer @ raw # raws)" using two(7) one(7) by auto
  ultimately show ?case using one two by (auto simp: run_simps)
qed

section \<open>The loop over the files\<close>

definition view :: "tables \<Rightarrow> version_key \<Rightarrow> string \<Rightarrow> (int \<times> nat \<times> (nat \<times> hash_ref) set) option" where
  "view t key p = map_option (\<lambda>g. (f_Size g, f_Mode g, linkset t (f_ID g))) (the_file t key p)"

definition places :: "hash_ref list \<Rightarrow> (nat \<times> hash_ref) set" where
  "places hs = {(k, hs ! k) | k. k < length hs}"

definition cut_view :: "hash_ref list \<Rightarrow> int \<times> nat \<times> (nat \<times> hash_ref) set \<Rightarrow> int \<times> nat \<times> (nat \<times> hash_ref) set" where
  "cut_view hs v = (case v of (s, m, L) \<Rightarrow> (s, m, kept hs L))"

definition old_links :: "tables \<Rightarrow> version_key \<Rightarrow> string \<Rightarrow> (nat \<times> hash_ref) set" where
  "old_links t key p = (case the_file t key p of None \<Rightarrow> {} | Some g \<Rightarrow> linkset t (f_ID g))"

definition saved_mode :: "tables \<Rightarrow> version_key \<Rightarrow> hashed_file \<Rightarrow> nat" where
  "saved_mode t key f = (case the_file t key (hf_Path f) of None \<Rightarrow> hf_Mode f mod 2 ^ 32 | Some g \<Rightarrow> f_Mode g)"

definition saved_file :: "tables \<Rightarrow> version_key \<Rightarrow> tables \<Rightarrow> raw_file list \<Rightarrow> hashed_file \<Rightarrow> bool" where
  "saved_file t0 key t buf f \<longleftrightarrow> (\<exists>g. the_file t key (hf_Path f) = Some g \<and> f_Size g = hf_Size f
     \<and> f_Mode g = saved_mode t0 key f
     \<and> eff t buf (f_ID g) = kept (hf_Hashes f) (old_links t0 key (hf_Path f)) \<union> places (hf_Hashes f))"

text \<open>
  \<open>old\<close>: files that are created; \<open>pend\<close>: files that wait in \<^verbatim>\<open>bufFiles\<close>, with the chunks they
  do not keep already cut; \<open>t0\<close>: the tables when the loop starts.
\<close>

definition saving ::
  "hash_ref set \<Rightarrow> version_row \<Rightarrow> tables \<Rightarrow> hashed_file list \<Rightarrow> hashed_file list \<Rightarrow> save_buffers \<Rightarrow> 'm db \<Rightarrow> bool" where
  "saving R dsv t0 old pend sv d \<longleftrightarrow> ready R d
     \<and> (\<forall>key p. \<not> (key = dsv_key dsv \<and> p \<in> hf_Path ` set (old @ pend)) \<longrightarrow> catalog (db_tables d) key p = catalog t0 key p)
     \<and> (\<forall>p. p \<notin> hf_Path ` set (old @ pend) \<longrightarrow> view (db_tables d) (dsv_key dsv) p = view t0 (dsv_key dsv) p)
     \<and> sv_bufFiles sv = map (file_of_hashed dsv) pend
     \<and> (\<forall>f \<in> set pend. map_of (sv_fileMap sv) (hf_Path f) = (if hf_Hashes f = [] then None else Some (raws_of_hashed f)))
     \<and> fst ` set (sv_fileMap sv) \<subseteq> hf_Path ` set pend
     \<and> (\<forall>f \<in> set pend. view (db_tables d) (dsv_key dsv) (hf_Path f) = map_option (cut_view (hf_Hashes f)) (view t0 (dsv_key dsv) (hf_Path f)))
     \<and> (\<forall>f \<in> set old. saved_file t0 (dsv_key dsv) (db_tables d) (sv_buffer sv) f)
     \<and> raw_ref ` set (sv_buffer sv) \<subseteq> R
     \<and> (\<forall>r \<in> set (sv_buffer sv). \<exists>f \<in> set old. \<exists>g. the_file (db_tables d) (dsv_key dsv) (hf_Path f) = Some g \<and> r_FileID r = f_ID g)"

lemma savingD:
  assumes "saving R dsv t0 old pend sv d"
  shows "ready R d"
    and "key \<noteq> dsv_key dsv \<or> p \<notin> hf_Path ` set (old @ pend) \<Longrightarrow> catalog (db_tables d) key p = catalog t0 key p"
    and "p \<notin> hf_Path ` set (old @ pend) \<Longrightarrow> view (db_tables d) (dsv_key dsv) p = view t0 (dsv_key dsv) p"
    and "sv_bufFiles sv = map (file_of_hashed dsv) pend"
    and "f \<in> set pend \<Longrightarrow> map_of (sv_fileMap sv) (hf_Path f) = (if hf_Hashes f = [] then None else Some (raws_of_hashed f))"
    and "fst ` set (sv_fileMap sv) \<subseteq> hf_Path ` set pend"
    and "f \<in> set pend \<Longrightarrow> view (db_tables d) (dsv_key dsv) (hf_Path f) = map_option (cut_view (hf_Hashes f)) (view t0 (dsv_key dsv) (hf_Path f))"
    and "f \<in> set old \<Longrightarrow> saved_file t0 (dsv_key dsv) (db_tables d) (sv_buffer sv) f"
    and "raw_ref ` set (sv_buffer sv) \<subseteq> R"
    and "r \<in> set (sv_buffer sv) \<Longrightarrow> \<exists>f \<in> set old. \<exists>g. the_file (db_tables d) (dsv_key dsv) (hf_Path f) = Some g \<and> r_FileID r = f_ID g"
proof -
  note c = assms [unfolded saving_def]
  note r = c [THEN conjunct2] note r2 = r [THEN conjunct2] note r3 = r2 [THEN conjunct2] note r4 = r3 [THEN conjunct2]
  note r5 = r4 [THEN conjunct2] note r6 = r5 [THEN conjunct2] note r7 = r6 [THEN conjunct2] note r8 = r7 [THEN conjunct2]
  show "ready R d" by (rule c [THEN conjunct1])
  show "key \<noteq> dsv_key dsv \<or> p \<notin> hf_Path ` set (old @ pend) \<Longrightarrow> catalog (db_tables d) key p = catalog t0 key p"
    by (rule r [THEN conjunct1, rule_format]) blast
  show "p \<notin> hf_Path ` set (old @ pend) \<Longrightarrow> view (db_tables d) (dsv_key dsv) p = view t0 (dsv_key dsv) p"
    by (rule r2 [THEN conjunct1, rule_format])
  show "sv_bufFiles sv = map (file_of_hashed dsv) pend" by (rule r3 [THEN conjunct1])
  show "f \<in> set pend \<Longrightarrow> map_of (sv_fileMap sv) (hf_Path f) = (if hf_Hashes f = [] then None else Some (raws_of_hashed f))"
    by (rule r4 [THEN conjunct1, rule_format])
  show "fst ` set (sv_fileMap sv) \<subseteq> hf_Path ` set pend" by (rule r5 [THEN conjunct1])
  show "f \<in> set pend \<Longrightarrow> view (db_tables d) (dsv_key dsv) (hf_Path f) = map_option (cut_view (hf_Hashes f)) (view t0 (dsv_key dsv) (hf_Path f))"
    by (rule r6 [THEN conjunct1, rule_format])
  show "f \<in> set old \<Longrightarrow> saved_file t0 (dsv_key dsv) (db_tables d) (sv_buffer sv) f" by (rule r7 [THEN conjunct1, rule_format])
  show "raw_ref ` set (sv_buffer sv) \<subseteq> R" by (rule r8 [THEN conjunct1])
  show "r \<in> set (sv_buffer sv) \<Longrightarrow> \<exists>f \<in> set old. \<exists>g. the_file (db_tables d) (dsv_key dsv) (hf_Path f) = Some g \<and> r_FileID r = f_ID g"
    by (rule r8 [THEN conjunct2, rule_format])
qed

lemma ids_differ:
  assumes "db_wf t" and "the_file t key p = Some g" and "the_file t key' p' = Some g'" and "key \<noteq> key' \<or> p \<noteq> p'"
  shows "f_ID g \<noteq> f_ID g'"
proof
  assume eq: "f_ID g = f_ID g'"
  have g: "g \<in> set (t_files t)" "in_version key g" "f_Path g = p" "g' \<in> set (t_files t)" "in_version key' g'" "f_Path g' = p'"
    using the_file_SomeD [OF assms(2)] the_file_SomeD [OF assms(3)] by auto
  then have "g = g'" using eq assms(1) by (auto simp: db_wf_def distinct_map inj_on_def)
  then show False using g assms(4) by (cases key; cases key') auto
qed

lemma catalog_cong:
  "the_file t' key p = the_file t key p \<Longrightarrow> (\<And>g. the_file t key p = Some g \<Longrightarrow> chunk_refs t' (f_ID g) = chunk_refs t (f_ID g)) \<Longrightarrow>
   catalog t' key p = catalog t key p"
  by (cases "the_file t key p") (auto simp: catalog_def)

lemma view_cong:
  "the_file t' key p = the_file t key p \<Longrightarrow> (\<And>g. the_file t key p = Some g \<Longrightarrow> linkset t' (f_ID g) = linkset t (f_ID g)) \<Longrightarrow>
   view t' key p = view t key p"
  by (cases "the_file t key p") (auto simp: view_def)

lemma the_file_links [simp]: "the_file (t\<lparr>t_file_chunks := ls\<rparr>) = the_file t"
  by (intro ext) (simp add: the_file_def)

lemma queue_step:
  fixes d :: "'m db"
  assumes sv: "saving R dsv t0 old pend sv d" and named: "named_key (dsv_key dsv)" and path: "hf_Path f \<noteq> []"
    and new: "hf_Path f \<notin> hf_Path ` set (old @ pend)"
  shows "\<exists>d'. CheckAndQueueFile dsv f d = Some (Inr (), d') \<and> rest d' = rest d
    \<and> saving R dsv t0 old (pend @ [f])
        (sv\<lparr>sv_bufFiles := sv_bufFiles sv @ [file_of_hashed dsv f], sv_fileMap := add_raws f (sv_fileMap sv)\<rparr>) d'"
proof -
  let ?t = "db_tables d" and ?k = "dsv_key dsv" and ?p = "hf_Path f" and ?hs = "hf_Hashes f"
  have rd: "ready R d" using sv by (simp add: saving_def)
  then have "db_faults d = []" "db_wf ?t" "chunks_ok ?t" "\<forall>c \<in> set (db_chunksBuf d). long_hash c" by (simp_all add: ready_def)
  from CheckAndQueueFile_run [OF this(1-3) named path this(4)] obtain t' buf' ls where
    run: "CheckAndQueueFile dsv f d = Some (Inr (), d\<lparr>db_tables := t', db_chunksBuf := buf'\<rparr>)"
    and t': "db_wf t'" "t' = ?t\<lparr>t_file_chunks := ls\<rparr>" "\<forall>c \<in> set buf'. long_hash c"
    and other: "\<And>i. \<forall>g. the_file ?t ?k ?p = Some g \<longrightarrow> f_ID g \<noteq> i \<Longrightarrow> linkset t' i = linkset ?t i \<and> chunk_refs t' i = chunk_refs ?t i"
    and self: "\<And>g. the_file ?t ?k ?p = Some g \<Longrightarrow> linkset t' (f_ID g) = kept ?hs (linkset ?t (f_ID g))"
    by blast
  let ?d' = "d\<lparr>db_tables := t', db_chunksBuf := buf'\<rparr>"
  have wf: "db_wf ?t" using rd by (simp add: ready_def)
  have np: "hf_Path h \<noteq> ?p" if "h \<in> set (old @ pend)" for h
  proof -
    have "hf_Path h \<in> hf_Path ` set (old @ pend)" using that by (rule imageI)
    then show ?thesis using new by metis
  qed
  have tf: "the_file t' = the_file ?t" by (simp add: t'(2))
  have away: "linkset t' (f_ID g) = linkset ?t (f_ID g) \<and> chunk_refs t' (f_ID g) = chunk_refs ?t (f_ID g)"
    if "the_file ?t key q = Some g" "key \<noteq> ?k \<or> q \<noteq> ?p" for key q g
    using other [of "f_ID g"] ids_differ [OF wf _ that(1)] that(2) by blast
  have rd': "ready R ?d'"
    using rd t' by (simp add: ready_def table_refs_def chunks_ok_def)
  have cat: "catalog t' key q = catalog ?t key q" if "key \<noteq> ?k \<or> q \<noteq> ?p" for key q
    by (rule catalog_cong) (use tf away that in auto)
  have vw: "view t' ?k q = view ?t ?k q" if "q \<noteq> ?p" for q
    by (rule view_cong) (use tf away that in auto)
  have self': "view t' ?k ?p = map_option (cut_view ?hs) (view ?t ?k ?p)"
    using self by (cases "the_file ?t ?k ?p") (auto simp: view_def tf cut_view_def)
  have fm: "map_of (add_raws f (sv_fileMap sv)) (hf_Path h) = (if hf_Hashes h = [] then None else Some (raws_of_hashed h))"
    if "h \<in> set (pend @ [f])" for h
  proof -
    have none: "map_of (sv_fileMap sv) ?p = None"
      using sv new by (auto simp: saving_def map_of_eq_None_iff)
    show ?thesis
    proof (cases "h = f")
      case True
      then show ?thesis using none by (simp add: add_raws_def update_conv')
    next
      case False
      then have h: "h \<in> set pend" "hf_Path h \<noteq> ?p" using that np by auto
      then show ?thesis using sv by (auto simp: add_raws_def update_conv' saving_def)
    qed
  qed
  have dom: "fst ` set (add_raws f (sv_fileMap sv)) \<subseteq> hf_Path ` set (pend @ [f])"
    using sv by (auto simp: add_raws_def fst_update saving_def)
  have eff_same: "eff t' (sv_buffer sv) (f_ID g) = eff ?t (sv_buffer sv) (f_ID g)"
    if "the_file ?t ?k q = Some g" "q \<noteq> ?p" for q g
    using away [OF that(1)] that(2) by (simp add: eff_def)
  have olds: "saved_file t0 ?k t' (sv_buffer sv) h" if h: "h \<in> set old" for h
  proof -
    have ne: "hf_Path h \<noteq> ?p" using h np by simp
    have "saved_file t0 ?k ?t (sv_buffer sv) h" using sv h by (simp add: saving_def)
    then show ?thesis unfolding saved_file_def tf using eff_same [OF _ ne] by fastforce
  qed
  have pends: "view t' ?k (hf_Path h) = map_option (cut_view (hf_Hashes h)) (view t0 ?k (hf_Path h))" if h: "h \<in> set (pend @ [f])" for h
  proof (cases "h = f")
    case True
    have "view ?t ?k ?p = view t0 ?k ?p" using sv new by (simp add: saving_def)
    then show ?thesis using True self' by simp
  next
    case False
    then have h: "h \<in> set pend" "hf_Path h \<noteq> ?p" using h np by auto
    then show ?thesis using vw sv by (simp add: saving_def)
  qed
  have "saving R dsv t0 old (pend @ [f])
        (sv\<lparr>sv_bufFiles := sv_bufFiles sv @ [file_of_hashed dsv f], sv_fileMap := add_raws f (sv_fileMap sv)\<rparr>) ?d'"
    unfolding saving_def
  proof (intro conjI allI ballI impI)
    fix key q assume a: "\<not> (key = ?k \<and> q \<in> hf_Path ` set (old @ pend @ [f]))"
    then have "catalog t' key q = catalog ?t key q" by (intro cat) auto
    also have "\<dots> = catalog t0 key q" by (rule savingD(2) [OF sv]) (use a in auto)
    finally show "catalog (db_tables ?d') key q = catalog t0 key q" by simp
  next
    fix q assume "q \<notin> hf_Path ` set (old @ pend @ [f])"
    then show "view (db_tables ?d') ?k q = view t0 ?k q" using vw [of q] sv by (simp add: saving_def)
  next
    fix h assume "h \<in> set (pend @ [f])"
    then show "view (db_tables ?d') ?k (hf_Path h) = map_option (cut_view (hf_Hashes h)) (view t0 ?k (hf_Path h))"
      using pends by simp
  next
    fix r assume "r \<in> set (sv_buffer (sv\<lparr>sv_bufFiles := sv_bufFiles sv @ [file_of_hashed dsv f], sv_fileMap := add_raws f (sv_fileMap sv)\<rparr>))"
    then show "\<exists>f \<in> set old. \<exists>g. the_file (db_tables ?d') ?k (hf_Path f) = Some g \<and> r_FileID r = f_ID g"
      using sv by (simp add: saving_def tf)
  qed (use sv rd' fm dom olds in \<open>simp_all add: saving_def\<close>)
  moreover have "rest ?d' = rest d" by (simp add: rest_def t'(2))
  ultimately show ?thesis using run by blast
qed

lemma raw_of_hash_simps [simp]: "raw_ref (raw_of_hash p k h) = h" "r_ChunkIndex (raw_of_hash p k h) = k"
  by (simp_all add: raw_ref_def raw_of_hash_def)

lemma set_raws_of_hashed:
  "set (raws_of_hashed f) = {raw_of_hash (hf_Path f) k (hf_Hashes f ! k) | k. k < length (hf_Hashes f)}"
proof -
  have "set (zip [0..<n] hs) = {(k, hs ! k) | k. k < length hs}" if "n = length hs" for n and hs :: "hash_ref list"
  proof -
    have e: "zip [0..<n] hs = enumerate 0 hs" using that enumerate_eq_zip [of 0 hs] by simp
    show ?thesis unfolding e by (auto simp: in_set_enumerate_eq)
  qed
  from this [OF refl] show ?thesis by (simp add: raws_of_hashed_def setcompr_eq_image image_image)
qed

lemma places_of_raws:
  "{(r_ChunkIndex r, raw_ref r) | r. r \<in> set (raws_of_hashed f)} = places (hf_Hashes f)"
  unfolding set_raws_of_hashed places_def by (auto intro!: exI)

lemma raws_of_hashed_refs: "raw_ref ` set (raws_of_hashed f) = set (hf_Hashes f)"
  unfolding set_raws_of_hashed by (simp add: setcompr_eq_image image_image set_conv_nth)

lemma raws_of_files_set:
  assumes "list_all2 (\<lambda>f h. f_Path h = hf_Path f \<and> Q f (f_ID h)) pend files"
    and "\<forall>f \<in> set pend. map_of m (hf_Path f) = (if hf_Hashes f = [] then None else Some (raws_of_hashed f))"
  shows "\<exists>ids. list_all2 Q pend ids
    \<and> raws_of_files m files = concat (map (\<lambda>(f, i). map (\<lambda>raw. raw\<lparr>r_FileID := i\<rparr>) (raws_of_hashed f)) (zip pend ids))"
  using assms
proof (induction pend files rule: list_all2_induct)
  case Nil
  then show ?case by (simp add: raws_of_files_def)
next
  case (Cons f fs h hs)
  then obtain ids where ids: "list_all2 Q fs ids"
    "raws_of_files m hs = concat (map (\<lambda>(f, i). map (\<lambda>raw. raw\<lparr>r_FileID := i\<rparr>) (raws_of_hashed f)) (zip fs ids))" by auto
  have "hf_Hashes f = [] \<Longrightarrow> raws_of_hashed f = []" by (simp add: raws_of_hashed_def)
  then show ?case using Cons ids
    by (intro exI [of _ "f_ID h # ids"]) (auto simp: raws_of_files_def)
qed

lemma file_of_hashed_simps [simp]:
  "in_version (dsv_key dsv) (file_of_hashed dsv f)" "f_Path (file_of_hashed dsv f) = hf_Path f"
  "f_Size (file_of_hashed dsv f) = hf_Size f" "f_Mode (file_of_hashed dsv f) = hf_Mode f mod 2 ^ 32"
  by (simp_all add: file_of_hashed_def dsv_key_def)

lemma find_key_hashed: "find_key (file_key (file_of_hashed dsv f)) (t_files t) = the_file t (dsv_key dsv) (hf_Path f)"
  by (simp add: dsv_key_def the_file_find_key file_of_hashed_def file_key_def)

lemma flush_step:
  fixes d :: "'m db"
  assumes sv: "saving R dsv t0 old pend sv d" and dist: "distinct (map hf_Path (old @ pend))"
    and R: "\<forall>f \<in> set pend. set (hf_Hashes f) \<subseteq> R"
  shows "\<exists>buf d'. flushFileBuffer st sv d = Some (Inr buf, d') \<and> rest d' = rest d
    \<and> saving R dsv t0 (old @ pend) [] \<lparr>sv_buffer = buf, sv_bufFiles = [], sv_fileMap = []\<rparr> d'"
proof (cases "pend = []")
  case True
  have "flushFileBuffer st sv d = Some (Inr (sv_buffer sv), d)"
    using sv True by (simp add: flushFileBuffer_def run_simps saving_def)
  moreover have "saving R dsv t0 old [] \<lparr>sv_buffer = sv_buffer sv, sv_bufFiles = [], sv_fileMap = []\<rparr> d"
    using sv True by (simp add: saving_def)
  ultimately show ?thesis using True by simp
next
  case False
  let ?t = "db_tables d" and ?k = "dsv_key dsv" and ?now = "db_now d"
  let ?fs = "map (file_of_hashed dsv) pend"
  let ?t1 = "put_files ?now ?fs ?t"
  have rd: "ready R d" using sv by (simp add: saving_def)
  have wf: "db_wf ?t" using rd by (simp add: ready_def)
  have wf1: "db_wf ?t1" by (rule put_files_wf [OF wf])
  obtain ws ty ds ver where key: "?k = (ws, ty, ds, ver)" by (cases ?k) auto
  have inv: "\<forall>f \<in> set ?fs. in_version (ws, ty, ds, ver) f" using file_of_hashed_simps(1) [of dsv] unfolding key by auto
  have dp: "distinct (map f_Path ?fs)" using dist by (simp add: comp_def)
  have "db_faults d = []" "batch_type (db_type d)" using rd by (simp_all add: ready_def)
  from CreateFiles_run [OF this _ inv dp db_wf_rows [OF wf]] False obtain fs' where
    cf: "CreateFiles ?fs d = Some (Inr fs', d\<lparr>db_tables := ?t1\<rparr>)"
    and fs': "list_all2 (\<lambda>f f'. \<exists>g. find_key (file_key f) (t_files ?t1) = Some g \<and> f' = (stamp ?now f)\<lparr>f_ID := f_ID g\<rparr>) ?fs fs'"
    by auto
  have row: "\<exists>g. the_file ?t1 ?k (hf_Path f) = Some g
       \<and> (case the_file ?t ?k (hf_Path f) of
             Some o' \<Rightarrow> g = o'\<lparr>f_Size := hf_Size f\<rparr>
           | None \<Rightarrow> f_ID g \<notin> f_ID ` set (t_files ?t) \<and> f_Size g = hf_Size f \<and> f_Mode g = hf_Mode f mod 2 ^ 32)"
    if "f \<in> set pend" for f
    using put_files_find(2) [OF inv dp, of "file_of_hashed dsv f" ?now ?t] that by (auto simp: find_key_hashed split: option.splits)
  have away: "the_file ?t1 key' q = the_file ?t key' q" if "key' \<noteq> ?k \<or> q \<notin> hf_Path ` set pend" for key' q
  proof -
    obtain w y n v where k': "key' = (w, y, n, v)" by (cases key') auto
    have "(w, y, n, v, q) \<notin> file_key ` set ?fs"
      using that unfolding k' by (auto simp: file_key_def file_of_hashed_def dsv_key_def)
    then show ?thesis using put_files_find(1) [OF inv dp] unfolding k' by blast
  qed
  have "list_all2 (\<lambda>f h. f_Path h = hf_Path f \<and> (\<exists>g. the_file ?t1 ?k (hf_Path f) = Some g \<and> f_ID h = f_ID g)) pend fs'"
    using fs' unfolding list_all2_map1 find_key_hashed by (rule list_all2_mono) auto
  from raws_of_files_set [OF this, of "sv_fileMap sv"] sv obtain ids where
    ids: "list_all2 (\<lambda>f i. \<exists>g. the_file ?t1 ?k (hf_Path f) = Some g \<and> i = f_ID g) pend ids"
    and raws: "raws_of_files (sv_fileMap sv) fs' = concat (map (\<lambda>(f, i). map (\<lambda>raw. raw\<lparr>r_FileID := i\<rparr>) (raws_of_hashed f)) (zip pend ids))"
    by (auto simp: saving_def)
  define rs where "rs = raws_of_files (sv_fileMap sv) fs'"
  have rs: "set rs = {raw\<lparr>r_FileID := f_ID g\<rparr> | raw f g. f \<in> set pend \<and> raw \<in> set (raws_of_hashed f) \<and> the_file ?t1 ?k (hf_Path f) = Some g}"
  proof -
    have zip: "(f, i) \<in> set (zip pend ids) \<longleftrightarrow> f \<in> set pend \<and> (\<exists>g. the_file ?t1 ?k (hf_Path f) = Some g \<and> i = f_ID g)" for f i
    proof
      assume "(f, i) \<in> set (zip pend ids)"
      then show "f \<in> set pend \<and> (\<exists>g. the_file ?t1 ?k (hf_Path f) = Some g \<and> i = f_ID g)"
        using ids by (auto simp: list_all2_iff dest: set_zip_leftD)
    next
      assume f: "f \<in> set pend \<and> (\<exists>g. the_file ?t1 ?k (hf_Path f) = Some g \<and> i = f_ID g)"
      then obtain n where "n < length pend" "pend ! n = f" by (auto simp: in_set_conv_nth)
      moreover from this have "ids ! n = i" "length ids = length pend"
        using ids f by (auto simp: list_all2_conv_all_nth)
      ultimately show "(f, i) \<in> set (zip pend ids)" by (auto simp: set_zip)
    qed
    show ?thesis
    proof (intro set_eqI iffI)
      fix r assume "r \<in> set rs"
      then obtain f i raw where "(f, i) \<in> set (zip pend ids)" "raw \<in> set (raws_of_hashed f)" "r = raw\<lparr>r_FileID := i\<rparr>"
        unfolding rs_def raws by auto
      then show "r \<in> {raw\<lparr>r_FileID := f_ID g\<rparr> | raw f g. f \<in> set pend \<and> raw \<in> set (raws_of_hashed f) \<and> the_file ?t1 ?k (hf_Path f) = Some g}"
        unfolding zip by blast
    next
      fix r assume "r \<in> {raw\<lparr>r_FileID := f_ID g\<rparr> | raw f g. f \<in> set pend \<and> raw \<in> set (raws_of_hashed f) \<and> the_file ?t1 ?k (hf_Path f) = Some g}"
      then obtain raw f g where "f \<in> set pend" "raw \<in> set (raws_of_hashed f)" "the_file ?t1 ?k (hf_Path f) = Some g" "r = raw\<lparr>r_FileID := f_ID g\<rparr>"
        by blast
      moreover from this have "(f, f_ID g) \<in> set (zip pend ids)" unfolding zip by blast
      ultimately show "r \<in> set rs" unfolding rs_def raws by force
    qed
  qed
  have old_pend: "hf_Path f \<noteq> hf_Path h" if "f \<in> set old" "h \<in> set pend" for f h
  proof -
    have "hf_Path f \<in> hf_Path ` set old" "hf_Path h \<in> hf_Path ` set pend" using that by simp_all
    moreover have "hf_Path ` set old \<inter> hf_Path ` set pend = {}" using dist by simp
    ultimately show ?thesis by (metis IntI empty_iff)
  qed
  let ?d1 = "d\<lparr>db_tables := ?t1\<rparr>"
  have rd1: "ready R ?d1" using rd wf1 by (simp add: ready_def chunks_ok_def)
  have refs: "raw_ref ` set (sv_buffer sv @ rs) \<subseteq> R"
  proof -
    have "raw_ref r \<in> R" if r: "r \<in> set rs" for r
    proof -
      obtain raw f g where rw: "f \<in> set pend" "raw \<in> set (raws_of_hashed f)" "r = raw\<lparr>r_FileID := f_ID g\<rparr>"
          "the_file ?t1 ?k (hf_Path f) = Some g"
        using r unfolding rs by blast
      then have "raw_ref r = raw_ref raw" by (simp add: raw_ref_def)
      also have "\<dots> \<in> set (hf_Hashes f)" using rw(2) raws_of_hashed_refs [of f] by blast
      finally show ?thesis using R rw(1) by blast
    qed
    then show ?thesis using sv by (auto simp: saving_def)
  qed
  have buf_row: "\<exists>f \<in> set old. \<exists>g. the_file ?t1 ?k (hf_Path f) = Some g \<and> r_FileID r = f_ID g" if r: "r \<in> set (sv_buffer sv)" for r
  proof -
    obtain f g where f: "f \<in> set old" "the_file ?t ?k (hf_Path f) = Some g" "r_FileID r = f_ID g"
      using sv r by (auto simp: saving_def)
    have "hf_Path f \<notin> hf_Path ` set pend" using old_pend [OF f(1)] by auto
    then show ?thesis using f away [of ?k "hf_Path f"] by auto
  qed
  have rs_row: "\<exists>f \<in> set pend. \<exists>g. the_file ?t1 ?k (hf_Path f) = Some g \<and> r_FileID r = f_ID g" if r: "r \<in> set rs" for r
    using r unfolding rs by force
  have all_row: "\<exists>f \<in> set (old @ pend). \<exists>g. the_file ?t1 ?k (hf_Path f) = Some g \<and> r_FileID r = f_ID g"
    if "r \<in> set (sv_buffer sv @ rs)" for r
    using that buf_row rs_row by fastforce
  have rids: "r_FileID ` set (sv_buffer sv @ rs) \<subseteq> f_ID ` set (t_files (db_tables ?d1))"
  proof
    fix i assume "i \<in> r_FileID ` set (sv_buffer sv @ rs)"
    then obtain r where r: "r \<in> set (sv_buffer sv @ rs)" "i = r_FileID r" by blast
    then obtain f g where g: "f \<in> set (old @ pend)" "the_file ?t1 ?k (hf_Path f) = Some g" "r_FileID r = f_ID g"
      using all_row by blast
    from the_file_SomeD [OF g(2)] g(3) r(2) show "i \<in> f_ID ` set (t_files (db_tables ?d1))" by simp
  qed
  from flush_raws_run [OF rd1 refs rids, of st] obtain buf d' where
    fl: "flush_raws st rs (sv_buffer sv) ?d1 = Some (Inr buf, d')" "ready R d'" "rest d' = rest ?d1" "t_files (db_tables d') = t_files ?t1"
      "\<And>i. eff (db_tables d') buf i = eff ?t1 (sv_buffer sv @ rs) i"
      "\<And>i. i \<notin> r_FileID ` set (sv_buffer sv @ rs) \<Longrightarrow> chunk_refs (db_tables d') i = chunk_refs ?t1 i"
      "set buf \<subseteq> set (sv_buffer sv @ rs)" by auto
  have run: "flushFileBuffer st sv d = Some (Inr buf, d')"
    using cf fl(1) sv False by (simp add: flushFileBuffer_def run_simps saving_def rs_def)
  have tf: "the_file (db_tables d') = the_file ?t1" by (intro ext) (simp add: the_file_def fl(4))
  have not_id: "f_ID g \<notin> r_FileID ` set (sv_buffer sv @ rs)"
    if g: "the_file ?t1 key' q = Some g" "key' \<noteq> ?k \<or> q \<notin> hf_Path ` set (old @ pend)" for key' q g
  proof
    assume "f_ID g \<in> r_FileID ` set (sv_buffer sv @ rs)"
    then obtain r f h where "f \<in> set (old @ pend)" "the_file ?t1 ?k (hf_Path f) = Some h" "f_ID g = f_ID h"
      using all_row by (metis imageE)
    moreover from this have "key' \<noteq> ?k \<or> q \<noteq> hf_Path f" using g(2) by auto
    ultimately show False using ids_differ [OF wf1 g(1)] by blast
  qed
  have cat: "catalog (db_tables d') key' q = catalog ?t key' q" if a: "key' \<noteq> ?k \<or> q \<notin> hf_Path ` set (old @ pend)" for key' q
  proof (rule catalog_cong)
    have "key' \<noteq> ?k \<or> q \<notin> hf_Path ` set pend" using a by auto
    from away [OF this] show e: "the_file (db_tables d') key' q = the_file ?t key' q" unfolding tf .
    fix g assume "the_file ?t key' q = Some g"
    then have "the_file ?t1 key' q = Some g" using e tf by metis
    from fl(6) [OF not_id [OF this a]] show "chunk_refs (db_tables d') (f_ID g) = chunk_refs ?t (f_ID g)" by simp
  qed
  have vw: "view (db_tables d') ?k q = view ?t ?k q" if a: "q \<notin> hf_Path ` set (old @ pend)" for q
  proof (rule view_cong)
    have "?k \<noteq> ?k \<or> q \<notin> hf_Path ` set pend" using a by auto
    from away [OF this] show e: "the_file (db_tables d') ?k q = the_file ?t ?k q" unfolding tf .
    fix g assume "the_file ?t ?k q = Some g"
    then have "the_file ?t1 ?k q = Some g" using e tf by metis
    from not_id [OF this] a have "f_ID g \<notin> r_FileID ` set (sv_buffer sv @ rs)" by blast
    then have "eff ?t1 (sv_buffer sv @ rs) (f_ID g) = linkset ?t1 (f_ID g)" by (rule eff_none)
    moreover have "f_ID g \<notin> r_FileID ` set buf"
      using \<open>f_ID g \<notin> r_FileID ` set (sv_buffer sv @ rs)\<close> fl(7) by blast
    then have "eff (db_tables d') buf (f_ID g) = linkset (db_tables d') (f_ID g)" by (rule eff_none)
    ultimately show "linkset (db_tables d') (f_ID g) = linkset ?t (f_ID g)" using fl(5) [of "f_ID g"] by simp
  qed
  have saved: "saved_file t0 ?k (db_tables d') buf f" if f: "f \<in> set (old @ pend)" for f
  proof (cases "f \<in> set old")
    case True
    from savingD(8) [OF sv True] obtain g where g: "the_file ?t ?k (hf_Path f) = Some g" "f_Size g = hf_Size f"
      "f_Mode g = saved_mode t0 ?k f"
      "eff ?t (sv_buffer sv) (f_ID g) = kept (hf_Hashes f) (old_links t0 ?k (hf_Path f)) \<union> places (hf_Hashes f)"
      unfolding saved_file_def by blast
    have g1: "the_file ?t1 ?k (hf_Path f) = Some g" using away [of ?k "hf_Path f"] g(1) old_pend [OF True] by auto
    have "r_FileID r \<noteq> f_ID g" if r: "r \<in> set rs" for r
    proof -
      obtain h i where h: "h \<in> set pend" "the_file ?t1 ?k (hf_Path h) = Some i" "r_FileID r = f_ID i" using rs_row [OF r] by blast
      then show ?thesis using ids_differ [OF wf1 h(2) g1] old_pend [OF True h(1)] by metis
    qed
    then have "eff ?t1 (sv_buffer sv @ rs) (f_ID g) = eff ?t (sv_buffer sv) (f_ID g)" by (auto simp: eff_def)
    then show ?thesis using g g1 fl(5) tf unfolding saved_file_def by (intro exI [of _ g]) simp
  next
    case False
    then have fp: "f \<in> set pend" using f by simp
    obtain g where g: "the_file ?t1 ?k (hf_Path f) = Some g"
      "case the_file ?t ?k (hf_Path f) of
             Some o' \<Rightarrow> g = o'\<lparr>f_Size := hf_Size f\<rparr>
           | None \<Rightarrow> f_ID g \<notin> f_ID ` set (t_files ?t) \<and> f_Size g = hf_Size f \<and> f_Mode g = hf_Mode f mod 2 ^ 32"
      using row [OF fp] by blast
    note pv = savingD(7) [OF sv fp]
    have basics: "f_Size g = hf_Size f \<and> f_Mode g = saved_mode t0 ?k f
        \<and> linkset ?t1 (f_ID g) = kept (hf_Hashes f) (old_links t0 ?k (hf_Path f))"
    proof (cases "the_file ?t ?k (hf_Path f)")
      case None
      then have "the_file t0 ?k (hf_Path f) = None" using pv by (simp add: view_def)
      moreover have "linkset ?t (f_ID g) = {}" using g(2) None by (intro linkset_fresh [OF wf]) simp
      ultimately show ?thesis using g(2) None by (simp add: saved_mode_def old_links_def kept_def)
    next
      case (Some o')
      then obtain q where q: "the_file t0 ?k (hf_Path f) = Some q" "f_Mode o' = f_Mode q"
        "linkset ?t (f_ID o') = kept (hf_Hashes f) (linkset t0 (f_ID q))"
        using pv by (cases "the_file t0 ?k (hf_Path f)") (auto simp: view_def cut_view_def)
      then show ?thesis using g(2) Some by (simp add: saved_mode_def old_links_def)
    qed
    have "{(r_ChunkIndex r, raw_ref r) | r. r \<in> set (sv_buffer sv @ rs) \<and> r_FileID r = f_ID g} = places (hf_Hashes f)"
    proof -
      have nb: "r_FileID r \<noteq> f_ID g" if r: "r \<in> set (sv_buffer sv)" for r
      proof -
        obtain h i where h: "h \<in> set old" "the_file ?t1 ?k (hf_Path h) = Some i" "r_FileID r = f_ID i" using buf_row [OF r] by blast
        then show ?thesis using ids_differ [OF wf1 h(2) g(1)] old_pend [OF h(1) fp] by metis
      qed
      have "{r \<in> set rs. r_FileID r = f_ID g} = (\<lambda>raw. raw\<lparr>r_FileID := f_ID g\<rparr>) ` set (raws_of_hashed f)"
      proof (intro set_eqI iffI)
        fix r assume r: "r \<in> {r \<in> set rs. r_FileID r = f_ID g}"
        then obtain raw h i where h: "h \<in> set pend" "raw \<in> set (raws_of_hashed h)" "the_file ?t1 ?k (hf_Path h) = Some i" "r = raw\<lparr>r_FileID := f_ID i\<rparr>"
          unfolding rs by blast
        have "hf_Path h = hf_Path f" using ids_differ [OF wf1 h(3) g(1)] r h(4) by auto
        then have "h = f" using dist h(1) fp by (auto simp: distinct_map inj_on_def)
        then show "r \<in> (\<lambda>raw. raw\<lparr>r_FileID := f_ID g\<rparr>) ` set (raws_of_hashed f)" using h g(1) by simp
      next
        fix r assume "r \<in> (\<lambda>raw. raw\<lparr>r_FileID := f_ID g\<rparr>) ` set (raws_of_hashed f)"
        then show "r \<in> {r \<in> set rs. r_FileID r = f_ID g}" unfolding rs using fp g(1) by force
      qed
      moreover have "{(r_ChunkIndex r, raw_ref r) | r. r \<in> set (sv_buffer sv @ rs) \<and> r_FileID r = f_ID g}
          = (\<lambda>r. (r_ChunkIndex r, raw_ref r)) ` {r \<in> set rs. r_FileID r = f_ID g}" using nb by auto
      ultimately have "{(r_ChunkIndex r, raw_ref r) | r. r \<in> set (sv_buffer sv @ rs) \<and> r_FileID r = f_ID g}
          = (\<lambda>r. (r_ChunkIndex r, raw_ref r)) ` set (raws_of_hashed f)" by (simp add: image_image raw_ref_def)
      then show ?thesis by (simp add: setcompr_eq_image flip: places_of_raws)
    qed
    then have "eff ?t1 (sv_buffer sv @ rs) (f_ID g) = kept (hf_Hashes f) (old_links t0 ?k (hf_Path f)) \<union> places (hf_Hashes f)"
      using basics by (simp only: eff_def)
    then show ?thesis using g(1) basics fl(5) tf unfolding saved_file_def by (intro exI [of _ g]) simp
  qed
  have "saving R dsv t0 (old @ pend) [] \<lparr>sv_buffer = buf, sv_bufFiles = [], sv_fileMap = []\<rparr> d'"
    unfolding saving_def
  proof (intro conjI allI ballI impI)
    fix key' q assume a: "\<not> (key' = ?k \<and> q \<in> hf_Path ` set ((old @ pend) @ []))"
    then show "catalog (db_tables d') key' q = catalog t0 key' q" using cat [of key' q] savingD(2) [OF sv, of key' q] by auto
  next
    fix q assume a: "q \<notin> hf_Path ` set ((old @ pend) @ [])"
    then show "view (db_tables d') ?k q = view t0 ?k q" using vw [of q] savingD(3) [OF sv, of q] by simp
  next
    fix f assume "f \<in> set (old @ pend)"
    then show "saved_file t0 ?k (db_tables d') (sv_buffer \<lparr>sv_buffer = buf, sv_bufFiles = [], sv_fileMap = []\<rparr>) f"
      using saved by simp
  next
    show "raw_ref ` set (sv_buffer \<lparr>sv_buffer = buf, sv_bufFiles = [], sv_fileMap = []\<rparr>) \<subseteq> R"
      using refs fl(7) by auto
  next
    fix r assume "r \<in> set (sv_buffer \<lparr>sv_buffer = buf, sv_bufFiles = [], sv_fileMap = []\<rparr>)"
    then have "r \<in> set (sv_buffer sv @ rs)" using fl(7) by auto
    from all_row [OF this] show "\<exists>f \<in> set (old @ pend). \<exists>g. the_file (db_tables d') ?k (hf_Path f) = Some g \<and> r_FileID r = f_ID g"
      unfolding tf .
  qed (use fl(2) in simp_all)
  moreover have "rest d' = rest d" using fl(3) by (simp add: rest_def)
  ultimately show ?thesis using run by blast
qed

lemma final_flush:
  fixes d :: "'m db"
  assumes sv: "saving R dsv t0 old [] \<lparr>sv_buffer = buf, sv_bufFiles = [], sv_fileMap = []\<rparr> d"
  shows "\<exists>d'. tryFlushBuffer st None True buf d = Some (Inr [], d') \<and> rest d' = rest d
    \<and> saving R dsv t0 old [] \<lparr>sv_buffer = [], sv_bufFiles = [], sv_fileMap = []\<rparr> d'"
proof -
  let ?t = "db_tables d" and ?k = "dsv_key dsv"
  note D = savingD [OF sv, simplified]
  have wf: "db_wf ?t" using D(1) by (simp add: ready_def)
  have ids: "r_FileID ` set buf \<subseteq> f_ID ` set (t_files ?t)"
  proof
    fix i assume "i \<in> r_FileID ` set buf"
    then obtain r where r: "r \<in> set buf" "i = r_FileID r" by blast
    then obtain f g where g: "f \<in> set old" "the_file ?t ?k (hf_Path f) = Some g" "r_FileID r = f_ID g" using D(10) by blast
    from the_file_SomeD [OF g(2)] g(3) r(2) show "i \<in> f_ID ` set (t_files ?t)" by simp
  qed
  have buf: "buf = buf @ (case None of None \<Rightarrow> [] | Some c \<Rightarrow> [c])" by simp
  from tryFlushBuffer_run [OF D(1) buf D(9) ids, of st True] obtain d' where
    run: "tryFlushBuffer st None True buf d = Some (Inr [], d')" "ready R d'" "rest d' = rest d" "t_files (db_tables d') = t_files ?t"
    and eff: "\<And>i. linkset (db_tables d') i = eff ?t buf i"
    and refs: "\<And>i. i \<notin> r_FileID ` set buf \<Longrightarrow> chunk_refs (db_tables d') i = chunk_refs ?t i" by auto
  have tf: "the_file (db_tables d') = the_file ?t" by (intro ext) (simp add: the_file_def run(4))
  have not_id: "f_ID g \<notin> r_FileID ` set buf"
    if g: "the_file ?t key q = Some g" "key \<noteq> ?k \<or> q \<notin> hf_Path ` set old" for key q g
  proof
    assume "f_ID g \<in> r_FileID ` set buf"
    then obtain r where r: "r \<in> set buf" "f_ID g = r_FileID r" by blast
    then obtain f h where h: "f \<in> set old" "the_file ?t ?k (hf_Path f) = Some h" "r_FileID r = f_ID h" using D(10) by blast
    have "key \<noteq> ?k \<or> q \<noteq> hf_Path f" using g(2) h(1) by auto
    then show False using ids_differ [OF wf g(1) h(2)] r(2) h(3) by simp
  qed
  have "saving R dsv t0 old [] \<lparr>sv_buffer = [], sv_bufFiles = [], sv_fileMap = []\<rparr> d'"
    unfolding saving_def
  proof (intro conjI allI ballI impI)
    fix key q assume a: "\<not> (key = ?k \<and> q \<in> hf_Path ` set (old @ []))"
    have "catalog (db_tables d') key q = catalog ?t key q"
      by (rule catalog_cong) (use tf refs not_id a in auto)
    then show "catalog (db_tables d') key q = catalog t0 key q" using D(2) [of key q] a by auto
  next
    fix q assume a: "q \<notin> hf_Path ` set (old @ [])"
    have "view (db_tables d') ?k q = view ?t ?k q"
      by (rule view_cong) (use tf eff eff_none not_id a in auto)
    then show "view (db_tables d') ?k q = view t0 ?k q" using D(3) [of q] a by simp
  next
    fix f assume "f \<in> set old"
    from D(8) [OF this] show "saved_file t0 ?k (db_tables d') (sv_buffer \<lparr>sv_buffer = [], sv_bufFiles = [], sv_fileMap = []\<rparr>) f"
      unfolding saved_file_def by (simp add: tf eff)
  qed (use run(2) in simp_all)
  then show ?thesis using run by blast
qed

lemma receive_run:
  fixes d :: "'m db"
  assumes "saving R dsv t0 old pend sv d" and "distinct (map hf_Path (old @ pend @ fs))" and "named_key (dsv_key dsv)"
    and "\<forall>f \<in> set fs. hf_Path f \<noteq> []" and "\<forall>f \<in> set (pend @ fs). set (hf_Hashes f) \<subseteq> R"
  shows "\<exists>d'. receiveFileToSave st dsv fs sv d = Some (Inr (), d') \<and> rest d' = rest d
    \<and> saving R dsv t0 (old @ pend @ fs) [] \<lparr>sv_buffer = [], sv_bufFiles = [], sv_fileMap = []\<rparr> d'"
  using assms
proof (induction fs arbitrary: old pend sv d)
  case Nil
  have "distinct (map hf_Path (old @ pend))" "\<forall>f \<in> set pend. set (hf_Hashes f) \<subseteq> R" using Nil.prems by auto
  from flush_step [OF Nil.prems(1) this, of st] obtain buf d1 where
    one: "flushFileBuffer st sv d = Some (Inr buf, d1)" "rest d1 = rest d"
      "saving R dsv t0 (old @ pend) [] \<lparr>sv_buffer = buf, sv_bufFiles = [], sv_fileMap = []\<rparr> d1" by blast
  from final_flush [OF one(3), of st] one show ?case by (auto simp: run_simps)
next
  case (Cons f fs)
  have new: "hf_Path f \<notin> hf_Path ` set (old @ pend)" "hf_Path f \<noteq> []" using Cons.prems by auto
  let ?sv1 = "sv\<lparr>sv_bufFiles := sv_bufFiles sv @ [file_of_hashed dsv f], sv_fileMap := add_raws f (sv_fileMap sv)\<rparr>"
  from queue_step [OF Cons.prems(1,3) new(2,1)] obtain d1 where
    q: "CheckAndQueueFile dsv f d = Some (Inr (), d1)" "rest d1 = rest d" "saving R dsv t0 old (pend @ [f]) ?sv1 d1" by blast
  have dist: "distinct (map hf_Path (old @ (pend @ [f]) @ fs))" using Cons.prems(2) by simp
  have fsR: "\<forall>h \<in> set ((pend @ [f]) @ fs). set (hf_Hashes h) \<subseteq> R" "\<forall>h \<in> set fs. hf_Path h \<noteq> []" using Cons.prems by auto
  show ?case
  proof (cases "100 \<le> length (sv_bufFiles ?sv1)")
    case False
    have "receive_file st dsv f sv d1 = Some (Inr ?sv1, d1)" using False by (simp add: receive_file_def Let_def run_simps)
    then show ?thesis using Cons.IH [OF q(3) dist Cons.prems(3) fsR(2,1)] q by (auto simp: run_simps)
  next
    case True
    have "distinct (map hf_Path (old @ pend @ [f]))" "\<forall>h \<in> set (pend @ [f]). set (hf_Hashes h) \<subseteq> R" using dist fsR by auto
    from flush_step [OF q(3), of st] this obtain buf d2 where
      fl: "flushFileBuffer st ?sv1 d1 = Some (Inr buf, d2)" "rest d2 = rest d1"
      "saving R dsv t0 (old @ pend @ [f]) [] \<lparr>sv_buffer = buf, sv_bufFiles = [], sv_fileMap = []\<rparr> d2" by auto
    have rf: "receive_file st dsv f sv d1 = Some (Inr \<lparr>sv_buffer = buf, sv_bufFiles = [], sv_fileMap = []\<rparr>, d2)"
      using True fl(1) by (simp add: receive_file_def Let_def run_simps)
    have "distinct (map hf_Path ((old @ pend @ [f]) @ [] @ fs))" "\<forall>h \<in> set ([] @ fs). set (hf_Hashes h) \<subseteq> R" using dist fsR by auto
    from Cons.IH [OF fl(3) this(1) Cons.prems(3) fsR(2) this(2)] show ?thesis using q rf fl(2) by (auto simp: run_simps)
  qed
qed

section \<open>The version row\<close>

lemma match_version_named:
  assumes "named_key (ws, ty, ds, ver)"
  shows "match_version (version_filter ty ws ds ver) = (\<lambda>v. dsv_key v = (ws, ty, ds, ver))"
  using assms
  by (intro ext) (auto simp: match_version_def version_filter_def blank_version_def opt_str_def opt_nat_def opt_int_def opt_bool_def
      named_key_def dsv_key_def)

lemma save_row_member: "x \<in> set (save_row key x rows)"
  by (auto simp: save_row_def)

lemma dsv_key_version: "dsv_key v = dsv_key w \<longleftrightarrow> is_version (v_Type w) (v_Workspace w) (v_Name w) (v_Version w) v"
  by (auto simp: dsv_key_def is_version_def)

text \<open>A version that is listed: it has a row that is not marked as deleted.\<close>

definition live_version :: "version_row list \<Rightarrow> version_key \<Rightarrow> bool" where
  "live_version vs key \<longleftrightarrow> (\<exists>v \<in> set vs. dsv_key v = key \<and> \<not> v_Deleted v)"

lemma live_version_saved:
  "dsv_key v = key \<Longrightarrow> \<not> v_Deleted v \<Longrightarrow> live_version (save_row v_ID v vs) key"
  "dsv_key v = key \<Longrightarrow> \<not> v_Deleted v \<Longrightarrow> live_version (vs @ [v]) key"
  using save_row_member [of v v_ID vs] by (auto simp: live_version_def)

lemma live_version_recovered:
  "old \<in> set vs \<Longrightarrow> live_version (map (\<lambda>v. if dsv_key v = dsv_key old then v\<lparr>v_Deleted := False\<rparr> else v) vs) (dsv_key old)"
  unfolding live_version_def
  by (rule bexI [of _ "old\<lparr>v_Deleted := False\<rparr>"]) (auto simp: dsv_key_def)

lemma SaveDatasetVersion_run:
  fixes d :: "'m db"
  assumes "db_faults d = []" and "named_key (dsv_key dsv)" and "\<not> v_Deleted dsv"
  shows "\<exists>dsv' vs. SaveDatasetVersion dsv d = Some (Inr dsv', d\<lparr>db_tables := (db_tables d)\<lparr>t_dataset_versions := vs\<rparr>\<rparr>)
    \<and> dsv_key dsv' = dsv_key dsv \<and> live_version vs (dsv_key dsv)"
proof -
  let ?P = "match_version (version_filter (v_Type dsv) (v_Workspace dsv) (v_Name dsv) (v_Version dsv))"
  have P: "?P = (\<lambda>v. dsv_key v = dsv_key dsv)"
    using match_version_named [of "v_Workspace dsv" "v_Type dsv" "v_Name dsv" "v_Version dsv"] assms(2) by (simp add: dsv_key_def)
  show ?thesis
  proof (cases "find ?P (t_dataset_versions (db_tables d))")
    case None
    let ?v = "dsv\<lparr>v_ID := next_id (map v_ID (t_dataset_versions (db_tables d))), v_CreatedAt := db_now d, v_UpdatedAt := db_now d\<rparr>"
    have "live_version (t_dataset_versions (db_tables d) @ [?v]) (dsv_key dsv)"
      using assms(3) by (intro live_version_saved) (simp_all add: dsv_key_def)
    with None show ?thesis using assms(1)
      by (intro exI [of _ ?v] exI [of _ "t_dataset_versions (db_tables d) @ [?v]"])
        (simp add: SaveDatasetVersion_def GetDatasetVersion_def CreateDatasetVersion_def first_row_def stmt_run run_simps
          Let_def dsv_key_def)
  next
    case (Some old)
    then have old: "dsv_key old = dsv_key dsv" "old \<in> set (t_dataset_versions (db_tables d))"
      unfolding P by (auto simp: find_Some_iff)
    show ?thesis
    proof (cases "v_Deleted old")
      case True
      have "live_version (map (\<lambda>v. if dsv_key v = dsv_key old then v\<lparr>v_Deleted := False\<rparr> else v)
          (t_dataset_versions (db_tables d))) (dsv_key dsv)"
        using live_version_recovered [OF old(2)] old(1) by simp
      with True Some show ?thesis using assms(1)
        by (simp add: SaveDatasetVersion_def GetDatasetVersion_def RecoverDatasetVersion_def
            first_row_def stmt_run run_simps Let_def dsv_key_version [symmetric]) (auto simp: dsv_key_def)
    next
      case False
      let ?row = "old\<lparr>v_Size := v_Size dsv, v_Editing := v_Editing dsv \<or> v_Editing old, v_FileCount := v_FileCount dsv,
          v_Message := if v_Message dsv \<noteq> [] then v_Message dsv else v_Message old, v_UpdatedAt := db_now d\<rparr>"
      let ?vs = "save_row v_ID ?row (t_dataset_versions (db_tables d))"
      have "dsv_key ?row = dsv_key dsv" "\<not> v_Deleted ?row" using old(1) False by (simp_all add: dsv_key_def)
      then have "live_version ?vs (dsv_key dsv)" by (rule live_version_saved)
      with False Some show ?thesis using assms(1)
        by (intro exI [of _ "dsv\<lparr>v_Editing := v_Editing dsv \<or> v_Editing old\<rparr>"] exI [of _ ?vs])
          (simp add: SaveDatasetVersion_def GetDatasetVersion_def UpdateDatasetVersion_def first_row_def stmt_run run_simps
            Let_def dsv_key_def)
    qed
  qed
qed

section \<open>Saving\<close>

text \<open>
  What a caller has to bring: names that are not empty, each path once, and chunks whose hash
  stands for one size and version, in the structure and in the database.
\<close>

definition structure_refs :: "file_structure \<Rightarrow> hash_ref set" where
  "structure_refs structure = (\<Union>f \<in> set structure. set (hf_Hashes f))"

definition structure_ok :: "tables \<Rightarrow> version_key \<Rightarrow> file_structure \<Rightarrow> bool" where
  "structure_ok t key structure \<longleftrightarrow> named_key key \<and> distinct (map hf_Path structure) \<and> [] \<notin> hf_Path ` set structure
     \<and> agree (table_refs t \<union> structure_refs structure)
     \<and> (\<forall>r \<in> structure_refs structure. good_hash (h_Hash r) \<and> h_Version r \<le> 2)"

definition server_ok :: "'m db \<Rightarrow> bool" where
  "server_ok d \<longleftrightarrow> db_faults d = [] \<and> batch_type (db_type d) \<and> db_wf (db_tables d) \<and> chunks_ok (db_tables d)
     \<and> (\<forall>c \<in> set (db_chunksBuf d). long_hash c)"

definition dataset_key :: "dataset_row \<Rightarrow> string \<Rightarrow> version_key" where
  "dataset_key d version = (d_Workspace d, d_Type d, d_Name d, version)"

lemma versions_only:
  "the_file (t\<lparr>t_dataset_versions := vs\<rparr>) = the_file t" "linkset (t\<lparr>t_dataset_versions := vs\<rparr>) = linkset t"
  "chunk_refs (t\<lparr>t_dataset_versions := vs\<rparr>) = chunk_refs t" "db_wf (t\<lparr>t_dataset_versions := vs\<rparr>) = db_wf t"
  "catalog (t\<lparr>t_dataset_versions := vs\<rparr>) = catalog t"
  "table_refs (t\<lparr>t_dataset_versions := vs\<rparr>) = table_refs t" "chunks_ok (t\<lparr>t_dataset_versions := vs\<rparr>) = chunks_ok t"
  by (auto simp: the_file_def [abs_def] linkset_def [abs_def] chunk_refs_def [abs_def] links_of_def linked_chunks_def [abs_def]
      db_wf_def catalog_def [abs_def] table_refs_def chunks_ok_def)

lemma SaveFSToDB_run:
  fixes d :: "'m db"
  assumes sok: "server_ok d" and ok: "structure_ok (db_tables d) (dataset_key ds version) structure"
  shows "\<exists>d'. SaveFSToDB st ds structure version d = Some (Inr (), d') \<and> server_ok d'
    \<and> t_datasets (db_tables d') = t_datasets (db_tables d)
    \<and> live_version (t_dataset_versions (db_tables d')) (dataset_key ds version)
    \<and> (\<forall>key p. key \<noteq> dataset_key ds version \<or> p \<notin> hf_Path ` set structure \<longrightarrow> catalog (db_tables d') key p = catalog (db_tables d) key p)
    \<and> (\<forall>f \<in> set structure. saved_file (db_tables d) (dataset_key ds version) (db_tables d') [] f)"
proof -
  let ?k = "dataset_key ds version" and ?R = "structure_refs structure"
  let ?d0 = "d\<lparr>db_saved := db_tables d # db_saved d\<rparr>"
  have f0: "db_faults ?d0 = []" using sok by (simp add: server_ok_def)
  obtain files where list: "ListFiles (file_filter (d_Workspace ds) (d_Name ds) (d_Type ds) [] version) ?d0 = Some (Inr files, ?d0)"
    using f0 by (simp add: ListFiles_def run_simps)
  let ?dsv = "version_of ds version structure files"
  obtain dsv vs where sv: "SaveDatasetVersion ?dsv ?d0 = Some (Inr dsv, ?d0\<lparr>db_tables := (db_tables d)\<lparr>t_dataset_versions := vs\<rparr>\<rparr>)"
    "dsv_key dsv = ?k" "live_version vs ?k"
  proof -
    have new: "dsv_key ?dsv = ?k" "\<not> v_Deleted ?dsv"
      by (simp_all add: dsv_key_def version_of_def dataset_key_def blank_version_def split: prod.splits)
    with SaveDatasetVersion_run [OF f0, of ?dsv] ok that show thesis by (auto simp: structure_ok_def)
  qed
  note key = sv(2)
  let ?d1 = "?d0\<lparr>db_tables := (db_tables d)\<lparr>t_dataset_versions := vs\<rparr>\<rparr>"
  have rd: "ready ?R ?d1" using sok ok by (simp add: ready_def server_ok_def structure_ok_def versions_only)
  have start: "saving ?R dsv (db_tables d) [] [] \<lparr>sv_buffer = [], sv_bufFiles = [], sv_fileMap = []\<rparr> ?d1"
    unfolding saving_def using rd by (simp add: versions_only view_def)
  have pre: "distinct (map hf_Path ([] @ [] @ structure))" "named_key (dsv_key dsv)"
    "\<forall>f \<in> set structure. hf_Path f \<noteq> []" "\<forall>f \<in> set ([] @ structure). set (hf_Hashes f) \<subseteq> ?R"
    using ok key by (auto simp: structure_ok_def structure_refs_def image_iff)
  from receive_run [OF start pre, of st] obtain d2 where rv: "receiveFileToSave st dsv structure \<lparr>sv_buffer = [], sv_bufFiles = [], sv_fileMap = []\<rparr> ?d1 = Some (Inr (), d2)"
    "rest d2 = rest ?d1" "saving ?R dsv (db_tables d) ([] @ [] @ structure) [] \<lparr>sv_buffer = [], sv_bufFiles = [], sv_fileMap = []\<rparr> d2"
    by blast
  note D = savingD [OF rv(3), simplified]
  let ?d3 = "d2\<lparr>db_saved := tl (db_saved d2)\<rparr>"
  have "SaveFSToDB st ds structure version d = Some (Inr (), ?d3)"
    using list sv(1) rv(1) D(1)
    by (simp add: SaveFSToDB_def in_tx_def Begin_def Commit_def bnd_def attempt_def ret_def ready_def Let_def split: list.splits)
  moreover have "server_ok ?d3" using D(1) by (simp add: ready_def server_ok_def)
  moreover have "t_datasets (db_tables ?d3) = t_datasets (db_tables d)" "live_version (t_dataset_versions (db_tables ?d3)) ?k"
    using rv(2) sv(3) by (simp_all add: rest_def)
  moreover have "catalog (db_tables ?d3) key p = catalog (db_tables d) key p" if "key \<noteq> ?k \<or> p \<notin> hf_Path ` set structure" for key p
    using D(2) [of key p] that key by simp
  moreover have "saved_file (db_tables d) ?k (db_tables ?d3) [] f" if "f \<in> set structure" for f
    using D(8) [OF that] key by simp
  ultimately show ?thesis by blast
qed

text \<open>The new file shares no chunk with the old one but at the same place.\<close>

definition aligned :: "tables \<Rightarrow> version_key \<Rightarrow> hashed_file \<Rightarrow> bool" where
  "aligned t key f \<longleftrightarrow> kept (hf_Hashes f) (old_links t key (hf_Path f)) \<subseteq> places (hf_Hashes f)"

definition saved_entry :: "tables \<Rightarrow> version_key \<Rightarrow> hashed_file \<Rightarrow> entry" where
  "saved_entry t key f = \<lparr>e_Size = hf_Size f, e_Mode = saved_mode t key f, e_Chunks = hf_Hashes f\<rparr>"

lemma saved_file_catalog:
  assumes "saved_file t key t' [] f" and "aligned t key f" and "db_wf t'"
  shows "catalog t' key (hf_Path f) = Some (saved_entry t key f)"
proof -
  obtain g where g: "the_file t' key (hf_Path f) = Some g" "f_Size g = hf_Size f" "f_Mode g = saved_mode t key f"
    "linkset t' (f_ID g) = kept (hf_Hashes f) (old_links t key (hf_Path f)) \<union> places (hf_Hashes f)"
    using assms(1) unfolding saved_file_def by auto
  have "linkset t' (f_ID g) = {(k, hf_Hashes f ! k) | k. k < length (hf_Hashes f)}"
    using g(4) assms(2) by (auto simp: aligned_def places_def)
  from chunk_refs_of_linkset [OF assms(3) this] show ?thesis using g by (simp add: catalog_def saved_entry_def)
qed

lemma SaveFSToDB_catalog:
  fixes d :: "'m db"
  assumes "server_ok d" and "structure_ok (db_tables d) (dataset_key ds version) structure"
    and "\<forall>f \<in> set structure. aligned (db_tables d) (dataset_key ds version) f"
  shows "\<exists>d'. SaveFSToDB st ds structure version d = Some (Inr (), d') \<and> server_ok d'
    \<and> t_datasets (db_tables d') = t_datasets (db_tables d)
    \<and> live_version (t_dataset_versions (db_tables d')) (dataset_key ds version)
    \<and> (\<forall>key path. catalog (db_tables d') key path =
         (case find (\<lambda>f. key = dataset_key ds version \<and> hf_Path f = path) structure of
            Some f \<Rightarrow> Some (saved_entry (db_tables d) (dataset_key ds version) f)
          | None \<Rightarrow> catalog (db_tables d) key path))"
proof -
  let ?k = "dataset_key ds version"
  from SaveFSToDB_run [OF assms(1,2), of st] obtain d' where run: "SaveFSToDB st ds structure version d = Some (Inr (), d')" "server_ok d'"
    and rows: "t_datasets (db_tables d') = t_datasets (db_tables d)" "live_version (t_dataset_versions (db_tables d')) ?k"
    and other: "\<And>key p. key \<noteq> ?k \<or> p \<notin> hf_Path ` set structure \<Longrightarrow> catalog (db_tables d') key p = catalog (db_tables d) key p"
    and saved: "\<And>f. f \<in> set structure \<Longrightarrow> saved_file (db_tables d) ?k (db_tables d') [] f" by blast
  have wf: "db_wf (db_tables d')" using run(2) by (simp add: server_ok_def)
  have "catalog (db_tables d') key path = (case find (\<lambda>f. key = ?k \<and> hf_Path f = path) structure of
      Some f \<Rightarrow> Some (saved_entry (db_tables d) ?k f) | None \<Rightarrow> catalog (db_tables d) key path)" for key path
  proof (cases "find (\<lambda>f. key = ?k \<and> hf_Path f = path) structure")
    case None
    then have "key \<noteq> ?k \<or> path \<notin> hf_Path ` set structure" by (auto simp: find_None_iff)
    then show ?thesis using other None by simp
  next
    case (Some f)
    then have "f \<in> set structure" "key = ?k" "hf_Path f = path" by (auto simp: find_Some_iff)
    then show ?thesis using saved_file_catalog [OF saved _ wf] assms(3) Some by auto
  qed
  then show ?thesis using run rows by blast
qed

definition raw_links :: "tables \<Rightarrow> nat \<Rightarrow> (nat \<times> hash_ref) list" where
  "raw_links t i = concat (map (\<lambda>l. map (\<lambda>c. (l_Index l, ref_of c)) (linked_chunks t l)) (links_of t i))"

lemma linkset_raw: "linkset t i = set (raw_links t i)"
proof -
  have sets: "set (links_of t i) = {l \<in> set (t_file_chunks t). l_FileID l = i}"
    "set (linked_chunks t l) = {c \<in> set (t_chunks t). c_ID c = l_ChunkID l}" for l
    by (auto simp: links_of_def linked_chunks_def)
  have "linkset t i = (\<Union>l \<in> set (links_of t i). (\<lambda>c. (l_Index l, ref_of c)) ` set (linked_chunks t l))"
    unfolding sets linkset_def by blast
  also have "\<dots> = set (raw_links t i)" by (simp add: raw_links_def)
  finally show ?thesis .
qed

lemma chunk_refs_length: "card (linkset t i) \<le> length (chunk_refs t i)"
proof -
  have "length (raw_links t i) = length (chunk_refs t i)" by (simp add: raw_links_def chunk_refs_def length_concat comp_def)
  then show ?thesis using card_length [of "raw_links t i"] by (simp add: linkset_raw)
qed

lemma card_places: "card (places hs) = length hs" "finite (places hs)"
proof -
  have p: "places hs = (\<lambda>k. (k, hs ! k)) ` {..<length hs}" by (auto simp: places_def)
  show "card (places hs) = length hs" unfolding p by (subst card_image) (auto simp: inj_on_def)
  show "finite (places hs)" unfolding p by simp
qed

lemma linkset_finite: "finite (linkset t i)"
proof -
  have "linkset t i \<subseteq> (\<lambda>(l, c). (l_Index l, ref_of c)) ` (set (t_file_chunks t) \<times> set (t_chunks t))" by (auto simp: linkset_def)
  then show ?thesis by (rule finite_subset) simp
qed

section \<open>Samples\<close>

definition sample_dataset :: dataset_row where
  "sample_dataset = blank_dataset\<lparr>d_Workspace := ''w'', d_Type := ''dataset'', d_Name := ''d''\<rparr>"

definition sample_structure :: file_structure where
  "sample_structure =
    [\<lparr>hf_Path = ''a/x'', hf_Size = 8, hf_Hashes = [\<lparr>h_Hash = ''aabbccdd'', h_Size = 3, h_Version = 2\<rparr>,
        \<lparr>h_Hash = ''00001111'', h_Size = 5, h_Version = 2\<rparr>], hf_Mode = 384, hf_ModeTime = 0\<rparr>,
     \<lparr>hf_Path = ''z'', hf_Size = 3, hf_Hashes = [\<lparr>h_Hash = ''aabbccdd'', h_Size = 3, h_Version = 2\<rparr>], hf_Mode = 384,
        hf_ModeTime = 0\<rparr>]"

definition moved_structure :: file_structure where
  "moved_structure =
    [\<lparr>hf_Path = ''a/x'', hf_Size = 5, hf_Hashes = [\<lparr>h_Hash = ''11223344'', h_Size = 2, h_Version = 2\<rparr>,
        \<lparr>h_Hash = ''aabbccdd'', h_Size = 3, h_Version = 2\<rparr>], hf_Mode = 384, hf_ModeTime = 0\<rparr>]"

lemma sample_key: "dataset_key sample_dataset ''1.0.0'' = (''w'', ''dataset'', ''d'', ''1.0.0'')"
  by (simp add: dataset_key_def sample_dataset_def)

lemma sample_server_ok: "server_ok (sample_db sample_tables)"
  using sample_tables_ok by (simp add: server_ok_def sample_db_def)

lemma sample_links: "old_links sample_tables (''w'', ''dataset'', ''d'', ''1.0.0'') ''a/x''
    = {(0, \<lparr>h_Hash = ''aabbccdd'', h_Size = 3, h_Version = 2\<rparr>), (1, \<lparr>h_Hash = ''11223344'', h_Size = 2, h_Version = 2\<rparr>)}"
  "old_links sample_tables (''w'', ''dataset'', ''d'', ''1.0.0'') ''z'' = {}"
proof -
  have "the_file sample_tables (''w'', ''dataset'', ''d'', ''1.0.0'') ''a/x'' = Some (hd (t_files sample_tables))"
    "the_file sample_tables (''w'', ''dataset'', ''d'', ''1.0.0'') ''z'' = None"
    by (simp_all add: the_file_def sample_tables_def blank_file_def file_key_def)
  moreover have "raw_links sample_tables (f_ID (hd (t_files sample_tables)))
      = [(0, \<lparr>h_Hash = ''aabbccdd'', h_Size = 3, h_Version = 2\<rparr>), (1, \<lparr>h_Hash = ''11223344'', h_Size = 2, h_Version = 2\<rparr>)]"
    by code_simp
  ultimately show "old_links sample_tables (''w'', ''dataset'', ''d'', ''1.0.0'') ''a/x''
    = {(0, \<lparr>h_Hash = ''aabbccdd'', h_Size = 3, h_Version = 2\<rparr>), (1, \<lparr>h_Hash = ''11223344'', h_Size = 2, h_Version = 2\<rparr>)}"
    "old_links sample_tables (''w'', ''dataset'', ''d'', ''1.0.0'') ''z'' = {}"
    by (auto simp: old_links_def linkset_raw)
qed

lemma sample_structures_ok:
  "structure_ok sample_tables (''w'', ''dataset'', ''d'', ''1.0.0'') sample_structure"
  "structure_ok sample_tables (''w'', ''dataset'', ''d'', ''1.0.0'') moved_structure"
  by (simp_all add: structure_ok_def named_key_def sample_structure_def moved_structure_def agree_def table_refs_def
      structure_refs_def sample_tables_def ref_of_def good_hash_def)

section \<open>Properties\<close>



text \<open>C33: saving a file again in which a chunk has moved to another place corrupts it: the old link
  of the chunk stays beside the new one, and the version then lists more chunks for the file
  than the structure has.\<close>

theorem moved_chunk_corrupts_the_file:
  assumes "server_ok d" and "structure_ok (db_tables d) (dataset_key ds version) structure"
    and "f \<in> set structure" and "\<not> aligned (db_tables d) (dataset_key ds version) f"
  shows "\<exists>d' e. SaveFSToDB st ds structure version d = Some (Inr (), d')
    \<and> catalog (db_tables d') (dataset_key ds version) (hf_Path f) = Some e
    \<and> length (hf_Hashes f) < length (e_Chunks e)"
proof -
  let ?k = "dataset_key ds version" and ?hs = "hf_Hashes f"
  from SaveFSToDB_run [OF assms(1,2), of st] obtain d' where run: "SaveFSToDB st ds structure version d = Some (Inr (), d')" "server_ok d'"
    and saved: "saved_file (db_tables d) ?k (db_tables d') [] f" using assms(3) by blast
  let ?t = "db_tables d'" and ?K = "kept ?hs (old_links (db_tables d) ?k (hf_Path f))"
  have wf: "db_wf ?t" using run(2) by (simp add: server_ok_def)
  obtain g where g: "the_file ?t ?k (hf_Path f) = Some g" "linkset ?t (f_ID g) = ?K \<union> places ?hs"
    using saved unfolding saved_file_def by auto
  have "places ?hs \<subset> linkset ?t (f_ID g)" using g(2) assms(4) by (auto simp: aligned_def)
  from psubset_card_mono [OF linkset_finite this] have "length ?hs < length (chunk_refs ?t (f_ID g))"
    using chunk_refs_length [of ?t "f_ID g"] by (simp add: card_places)
  then show ?thesis using run(1) g(1) by (auto simp: catalog_def)
qed

theorem moved_chunk_corrupts_the_file_witness:
  "\<exists>d' e. SaveFSToDB (sample_settings_of ''/d'') sample_dataset moved_structure ''1.0.0'' (sample_db sample_tables) = Some (Inr (), d')
     \<and> catalog (db_tables d') (''w'', ''dataset'', ''d'', ''1.0.0'') ''a/x'' = Some e \<and> 2 < length (e_Chunks e)"
proof -
  have t: "db_tables (sample_db sample_tables) = sample_tables" by (simp add: sample_db_def)
  have "\<not> aligned sample_tables (''w'', ''dataset'', ''d'', ''1.0.0'') (hd moved_structure)"
  proof -
    have "(0, \<lparr>h_Hash = ''aabbccdd'', h_Size = 3, h_Version = 2\<rparr>)
        \<in> kept (hf_Hashes (hd moved_structure)) (old_links sample_tables (''w'', ''dataset'', ''d'', ''1.0.0'') ''a/x'')"
      by (simp add: sample_links kept_def moved_structure_def)
    moreover have "(0, \<lparr>h_Hash = ''aabbccdd'', h_Size = 3, h_Version = 2\<rparr>) \<notin> places (hf_Hashes (hd moved_structure))"
      by (simp add: places_def moved_structure_def)
    moreover have "hf_Path (hd moved_structure) = ''a/x''" by (simp add: moved_structure_def)
    ultimately show ?thesis by (auto simp: aligned_def)
  qed
  moreover have "hd moved_structure \<in> set moved_structure" by (simp add: moved_structure_def)
  ultimately show ?thesis
    using moved_chunk_corrupts_the_file [of _ sample_dataset "''1.0.0''" moved_structure "hd moved_structure", OF sample_server_ok,
        unfolded sample_key t, OF sample_structures_ok(2)]
    by (simp add: moved_structure_def numeral_2_eq_2)
qed

end
