(* ===== verification/Clone.thy ===== *)
theory Clone
  imports SaveFS
begin

text \<open>
  What \<^verbatim>\<open>CloneVersionTo\<close> makes of the target version: its files are replaced by those of the
  source, with the same chunks.
\<close>

section \<open>Links by file\<close>

lemma links_by_file_lookup:
  "(case map_of (links_by_file ls) i of None \<Rightarrow> [] | Some xs \<Rightarrow> xs) = filter (\<lambda>l. l_FileID l = i) ls"
proof -
  define step where "step = (\<lambda>fc (m :: (nat \<times> file_chunk list) list).
     AList.update (l_FileID fc) ((case map_of m (l_FileID fc) of None \<Rightarrow> [] | Some ls \<Rightarrow> ls) @ [fc]) m)"
  have "(case map_of (fold step ls m) i of None \<Rightarrow> [] | Some xs \<Rightarrow> xs)
      = (case map_of m i of None \<Rightarrow> [] | Some xs \<Rightarrow> xs) @ filter (\<lambda>l. l_FileID l = i) ls" for m
    by (induction ls arbitrary: m) (auto simp: step_def map_of_update split: option.splits)
  from this [of "[]"] show ?thesis by (simp add: links_by_file_def step_def)
qed

text \<open>The links a list stands for, of one file.\<close>

definition pending :: "tables \<Rightarrow> file_chunk list \<Rightarrow> nat \<Rightarrow> (nat \<times> hash_ref) set" where
  "pending t ls i = {(l_Index l, ref_of c) | l c. l \<in> set ls \<and> l_FileID l = i \<and> c \<in> set (t_chunks t) \<and> c_ID c = l_ChunkID l}"

lemma pending_Nil [simp]: "pending t [] i = {}" by (simp add: pending_def)
lemma pending_append [simp]: "pending t (xs @ ys) i = pending t xs i \<union> pending t ys i" by (auto simp: pending_def)
lemma pending_none: "i \<notin> l_FileID ` set ls \<Longrightarrow> pending t ls i = {}" by (auto simp: pending_def)
lemma pending_chunks: "t_chunks t' = t_chunks t \<Longrightarrow> pending t' = pending t" by (intro ext) (simp add: pending_def)
lemma linkset_pending: "linkset t i = pending t (t_file_chunks t) i" by (simp add: linkset_def pending_def)

lemma pending_new_links:
  assumes "set (filter (\<lambda>l. l_FileID l = i) ls) = {l \<in> set (t_file_chunks t). l_FileID l = i}"
  shows "pending t (new_links (links_by_file ls) i j) j = linkset t i"
    and "l_FileID ` set (new_links (links_by_file ls) i j) \<subseteq> {j}"
    and "l_ChunkID ` set (new_links (links_by_file ls) i j) \<subseteq> l_ChunkID ` set (t_file_chunks t)"
proof -
  have n: "set (new_links (links_by_file ls) i j) = (\<lambda>l. \<lparr>l_FileID = j, l_ChunkID = l_ChunkID l, l_Index = l_Index l\<rparr>) ` {l \<in> set (t_file_chunks t). l_FileID l = i}"
    unfolding new_links_def links_by_file_lookup set_map assms ..
  show "pending t (new_links (links_by_file ls) i j) j = linkset t i"
  proof (intro equalityI subsetI)
    fix x assume "x \<in> pending t (new_links (links_by_file ls) i j) j"
    then show "x \<in> linkset t i" unfolding pending_def n by (auto intro: linksetI)
  next
    fix x assume "x \<in> linkset t i"
    then obtain l c where l: "x = (l_Index l, ref_of c)" "l \<in> set (t_file_chunks t)" "l_FileID l = i" "c \<in> set (t_chunks t)"
      "c_ID c = l_ChunkID l" by (auto simp: linkset_def)
    let ?l = "\<lparr>l_FileID = j, l_ChunkID = l_ChunkID l, l_Index = l_Index l\<rparr>"
    have "?l \<in> set (new_links (links_by_file ls) i j)" unfolding n using l by (intro image_eqI [of _ _ l]) simp_all
    then show "x \<in> pending t (new_links (links_by_file ls) i j) j"
      unfolding pending_def using l by (intro CollectI exI [of _ ?l] exI [of _ c]) simp
  qed
  show "l_FileID ` set (new_links (links_by_file ls) i j) \<subseteq> {j}"
    and "l_ChunkID ` set (new_links (links_by_file ls) i j) \<subseteq> l_ChunkID ` set (t_file_chunks t)"
    unfolding n by auto
qed

section \<open>The loop\<close>

text \<open>
  \<open>t0\<close>: the tables when the loop starts, the target empty; \<open>copied\<close>: the files whose clones are
  created; \<open>ls\<close>: the links that are still to be created.
\<close>

definition cloning :: "tables \<Rightarrow> version_key \<Rightarrow> file_row list \<Rightarrow> file_chunk list \<Rightarrow> 'm db \<Rightarrow> bool" where
  "cloning t0 tgt copied ls d \<longleftrightarrow> db_faults d = [] \<and> batch_type (db_type d) \<and> db_wf (db_tables d)
     \<and> t_chunks (db_tables d) = t_chunks t0
     \<and> (\<forall>key p. \<not> (key = tgt \<and> p \<in> f_Path ` set copied) \<longrightarrow> catalog (db_tables d) key p = catalog t0 key p)
     \<and> (\<forall>f \<in> set copied. \<exists>g. the_file (db_tables d) tgt (f_Path f) = Some g \<and> f_Size g = f_Size f \<and> f_Mode g = f_Mode f
          \<and> linkset (db_tables d) (f_ID g) \<union> pending t0 ls (f_ID g) = linkset t0 (f_ID f))
     \<and> (\<forall>l \<in> set ls. (\<exists>f \<in> set copied. \<exists>g. the_file (db_tables d) tgt (f_Path f) = Some g \<and> l_FileID l = f_ID g)
          \<and> l_ChunkID l \<in> c_ID ` set (t_chunks t0))
     \<and> (\<forall>c \<in> set (db_chunksBuf d). long_hash c)"

lemma cloningD:
  assumes "cloning t0 tgt copied ls d"
  shows "db_faults d = []" and "batch_type (db_type d)" and "db_wf (db_tables d)" and "t_chunks (db_tables d) = t_chunks t0"
    and "\<not> (key = tgt \<and> p \<in> f_Path ` set copied) \<Longrightarrow> catalog (db_tables d) key p = catalog t0 key p"
    and "f \<in> set copied \<Longrightarrow> \<exists>g. the_file (db_tables d) tgt (f_Path f) = Some g \<and> f_Size g = f_Size f \<and> f_Mode g = f_Mode f
          \<and> linkset (db_tables d) (f_ID g) \<union> pending t0 ls (f_ID g) = linkset t0 (f_ID f)"
    and "l \<in> set ls \<Longrightarrow> (\<exists>f \<in> set copied. \<exists>g. the_file (db_tables d) tgt (f_Path f) = Some g \<and> l_FileID l = f_ID g)"
    and "l \<in> set ls \<Longrightarrow> l_ChunkID l \<in> c_ID ` set (t_chunks t0)"
    and "\<forall>c \<in> set (db_chunksBuf d). long_hash c"
  using assms unfolding cloning_def by blast+

lemma flush_links:
  fixes d :: "'m db"
  assumes c: "cloning t0 tgt copied (xs @ ys) d"
  shows "\<exists>d'. flushChunksBuffer xs d = Some (Inr (), d') \<and> rest d' = rest d \<and> cloning t0 tgt copied ys d'"
proof (cases "xs = []")
  case True
  then show ?thesis using c by (simp add: flushChunksBuffer_def run_simps)
next
  case False
  let ?t = "db_tables d"
  let ?t1 = "?t\<lparr>t_file_chunks := fold insert_link xs (t_file_chunks ?t)\<rparr>" and ?d1 = "\<lambda>t. d\<lparr>db_tables := t\<rparr>"
  note D = cloningD [OF c]
  have run: "flushChunksBuffer xs d = Some (Inr (), ?d1 ?t1)"
    using False D(1,2) by (auto simp: flushChunksBuffer_def CreateFileChunks_def run_simps stmt_run)
  have ok: "\<forall>l \<in> set xs. l_FileID l \<in> f_ID ` set (t_files ?t) \<and> l_ChunkID l \<in> c_ID ` set (t_chunks ?t)"
  proof
    fix l assume "l \<in> set xs"
    then have "l \<in> set (xs @ ys)" by simp
    from D(7) [OF this] D(8) [OF this] show "l_FileID l \<in> f_ID ` set (t_files ?t) \<and> l_ChunkID l \<in> c_ID ` set (t_chunks ?t)"
      using the_file_SomeD D(4) by fastforce
  qed
  note m = more_links [OF D(3) refl ok]
  have ls: "linkset ?t1 i = linkset ?t i \<union> pending t0 xs i" for i
    using m(3) [of i] by (simp add: pending_def D(4))
  have "cloning t0 tgt copied ys (?d1 ?t1)"
    unfolding cloning_def
  proof (intro conjI allI ballI impI)
    fix key p assume a: "\<not> (key = tgt \<and> p \<in> f_Path ` set copied)"
    have "catalog ?t1 key p = catalog ?t key p"
    proof (rule catalog_cong)
      fix g assume g: "the_file ?t key p = Some g"
      have "f_ID g \<notin> l_FileID ` set xs"
      proof
        assume "f_ID g \<in> l_FileID ` set xs"
        then obtain l where l: "l \<in> set (xs @ ys)" "f_ID g = l_FileID l" by auto
        from D(7) [OF l(1)] obtain f h where h: "f \<in> set copied" "the_file ?t tgt (f_Path f) = Some h" "l_FileID l = f_ID h" by blast
        then have "key \<noteq> tgt \<or> p \<noteq> f_Path f" using a by auto
        then show False using ids_differ [OF D(3) g h(2)] l(2) h(3) by simp
      qed
      then show "chunk_refs ?t1 (f_ID g) = chunk_refs ?t (f_ID g)" by (rule m(4))
    qed (simp only: m(2))
    then show "catalog (db_tables (?d1 ?t1)) key p = catalog t0 key p" using D(5) [OF a] by simp
  next
    fix f assume "f \<in> set copied"
    from D(6) [OF this] obtain g where g: "the_file ?t tgt (f_Path f) = Some g" "f_Size g = f_Size f" "f_Mode g = f_Mode f"
      "linkset ?t (f_ID g) \<union> pending t0 (xs @ ys) (f_ID g) = linkset t0 (f_ID f)" by blast
    show "\<exists>g. the_file (db_tables (?d1 ?t1)) tgt (f_Path f) = Some g \<and> f_Size g = f_Size f \<and> f_Mode g = f_Mode f
          \<and> linkset (db_tables (?d1 ?t1)) (f_ID g) \<union> pending t0 ys (f_ID g) = linkset t0 (f_ID f)"
      by (intro exI [of _ g]) (use g ls m(2) in \<open>simp add: Un_assoc\<close>)
  next
    fix l assume "l \<in> set ys"
    then have "l \<in> set (xs @ ys)" by simp
    from D(7) [OF this] show "\<exists>f \<in> set copied. \<exists>g. the_file (db_tables (?d1 ?t1)) tgt (f_Path f) = Some g \<and> l_FileID l = f_ID g"
      using m(2) by simp
  next
    fix l assume "l \<in> set ys"
    then have "l \<in> set (xs @ ys)" by simp
    from D(8) [OF this] show "l_ChunkID l \<in> c_ID ` set (t_chunks t0)" .
  qed (use D(1-4,9) m(1) in simp_all)
  then show ?thesis using run by (auto simp: rest_def)
qed

lemma send_links_run:
  fixes d :: "'m db"
  assumes "cloning t0 tgt copied (fcBuf @ ls) d"
  shows "\<exists>fcBuf' d'. send_links ls fcBuf d = Some (Inr fcBuf', d') \<and> rest d' = rest d \<and> cloning t0 tgt copied fcBuf' d'"
  using assms
proof (induction ls arbitrary: fcBuf d)
  case Nil
  then show ?case by (simp add: run_simps)
next
  case (Cons l ls)
  then have c: "cloning t0 tgt copied ((fcBuf @ [l]) @ ls) d" by simp
  show ?case
  proof (cases "250 \<le> length (fcBuf @ [l])")
    case False
    then show ?thesis using Cons.IH [OF c] by simp
  next
    case True
    from flush_links [OF c] obtain d1 where d1: "flushChunksBuffer (fcBuf @ [l]) d = Some (Inr (), d1)" "rest d1 = rest d"
      "cloning t0 tgt copied ([] @ ls) d1" by auto
    from Cons.IH [OF d1(3)] True d1(1,2) show ?thesis by (auto simp: Let_def run_simps)
  qed
qed

lemma clone_file_simps [simp]:
  "fst (clone_file target ver f) = f_ID f" "f_Path (snd (clone_file target ver f)) = f_Path f"
  "f_Size (snd (clone_file target ver f)) = f_Size f" "f_Mode (snd (clone_file target ver f)) = f_Mode f"
  "file_key (snd (clone_file target ver f)) = (d_Workspace target, d_Type target, d_Name target, ver, f_Path f)"
  by (simp_all add: clone_file_def file_key_def)

text \<open>The new rows: fresh, found at their paths, and nothing else is touched.\<close>

lemma clone_rows:
  fixes d :: "'m db"
  assumes ok: "db_faults d = []" "batch_type (db_type d)" and wf: "db_wf (db_tables d)" and ne: "pend \<noteq> []"
    and dist: "distinct (map f_Path pend)"
    and fresh: "\<forall>f \<in> set pend. the_file (db_tables d) (dataset_key target ver) (f_Path f) = None"
  shows "\<exists>fs' t1 idof. CreateFiles (map (snd \<circ> clone_file target ver) pend) d = Some (Inr fs', d\<lparr>db_tables := t1\<rparr>)
    \<and> map f_ID fs' = map idof pend \<and> db_wf t1 \<and> rest (d\<lparr>db_tables := t1\<rparr>) = rest d
    \<and> t_chunks t1 = t_chunks (db_tables d) \<and> t_file_chunks t1 = t_file_chunks (db_tables d)
    \<and> (\<forall>f \<in> set pend. \<exists>g. the_file t1 (dataset_key target ver) (f_Path f) = Some g \<and> f_Size g = f_Size f
          \<and> f_Mode g = f_Mode f \<and> f_ID g = idof f \<and> idof f \<notin> f_ID ` set (t_files (db_tables d)))
    \<and> (\<forall>key p. key \<noteq> dataset_key target ver \<or> p \<notin> f_Path ` set pend \<longrightarrow> the_file t1 key p = the_file (db_tables d) key p)"
proof -
  let ?t = "db_tables d" and ?now = "db_now d" and ?k = "dataset_key target ver"
  let ?fs = "map (snd \<circ> clone_file target ver) pend"
  let ?t1 = "put_files ?now ?fs ?t"
  define idof where "idof f = f_ID (the (the_file ?t1 ?k (f_Path f)))" for f :: file_row
  have key: "?k = (d_Workspace target, d_Type target, d_Name target, ver)" by (simp add: dataset_key_def)
  have inv: "\<forall>f \<in> set ?fs. in_version (d_Workspace target, d_Type target, d_Name target, ver) f"
    by (auto simp: clone_file_def)
  have dp: "distinct (map f_Path ?fs)" using dist by (simp add: comp_def)
  from CreateFiles_run [OF ok _ inv dp db_wf_rows [OF wf]] ne obtain fs' where
    cf: "CreateFiles ?fs d = Some (Inr fs', d\<lparr>db_tables := ?t1\<rparr>)"
    and fs': "list_all2 (\<lambda>f f'. \<exists>g. find_key (file_key f) (t_files ?t1) = Some g \<and> f' = (stamp ?now f)\<lparr>f_ID := f_ID g\<rparr>) ?fs fs'"
    by auto
  have row: "\<exists>g. the_file ?t1 ?k (f_Path f) = Some g \<and> f_Size g = f_Size f \<and> f_Mode g = f_Mode f
      \<and> f_ID g \<notin> f_ID ` set (t_files ?t)" if f: "f \<in> set pend" for f
  proof -
    have "snd (clone_file target ver f) \<in> set ?fs" using f by simp
    from put_files_find(2) [OF inv dp this, of ?now ?t] show ?thesis
      using fresh f unfolding key by (auto simp: the_file_find_key)
  qed
  have "map f_ID fs' = map idof pend"
  proof (rule nth_equalityI)
    show len: "length (map f_ID fs') = length (map idof pend)" using list_all2_lengthD [OF fs'] by simp
    fix i assume "i < length (map f_ID fs')"
    then have i: "i < length pend" "i < length fs'" using len by simp_all
    then obtain g where g: "find_key (file_key (?fs ! i)) (t_files ?t1) = Some g" "fs' ! i = (stamp ?now (?fs ! i))\<lparr>f_ID := f_ID g\<rparr>"
      using fs' unfolding list_all2_conv_all_nth by auto
    have "the_file ?t1 ?k (f_Path (pend ! i)) = Some g" using g(1) i unfolding key by (simp add: the_file_find_key)
    then show "map f_ID fs' ! i = map idof pend ! i" using g(2) i by (simp add: idof_def)
  qed
  moreover have "the_file ?t1 key p = the_file ?t key p" if "key \<noteq> ?k \<or> p \<notin> f_Path ` set pend" for key p
  proof -
    obtain w y n v where k: "key = (w, y, n, v)" by (cases key) auto
    have "(w, y, n, v, p) \<notin> file_key ` set ?fs" using that unfolding k key by auto
    then show ?thesis using put_files_find(1) [OF inv dp] unfolding k by blast
  qed
  moreover have "\<forall>f \<in> set pend. \<exists>g. the_file ?t1 ?k (f_Path f) = Some g \<and> f_Size g = f_Size f
          \<and> f_Mode g = f_Mode f \<and> f_ID g = idof f \<and> idof f \<notin> f_ID ` set (t_files ?t)"
  proof
    fix f assume "f \<in> set pend"
    from row [OF this] obtain g where "the_file ?t1 ?k (f_Path f) = Some g" "f_Size g = f_Size f" "f_Mode g = f_Mode f"
      "f_ID g \<notin> f_ID ` set (t_files ?t)" by blast
    then show "\<exists>g. the_file ?t1 ?k (f_Path f) = Some g \<and> f_Size g = f_Size f \<and> f_Mode g = f_Mode f \<and> f_ID g = idof f
        \<and> idof f \<notin> f_ID ` set (t_files ?t)" by (intro exI [of _ g]) (simp add: idof_def)
  qed
  ultimately show ?thesis using cf put_files_wf [OF wf]
    by (intro exI [of _ fs'] exI [of _ ?t1] exI [of _ idof]) (simp add: rest_def)
qed

lemma copy_step:
  fixes d :: "'m db"
  assumes c: "cloning t0 (dataset_key target ver) copied fcBuf d" and dist: "distinct (map f_Path (copied @ pend))" and ne: "pend \<noteq> []"
    and wf0: "db_wf t0" and empty: "\<forall>p. the_file t0 (dataset_key target ver) p = None"
    and ls: "\<forall>f \<in> set pend. set (filter (\<lambda>l. l_FileID l = f_ID f) ls) = {l \<in> set (t_file_chunks t0). l_FileID l = f_ID f}"
  shows "\<exists>fcBuf' d'. flush_clones (links_by_file ls) (map (clone_file target ver) pend) fcBuf d = Some (Inr fcBuf', d')
    \<and> rest d' = rest d \<and> cloning t0 (dataset_key target ver) (copied @ pend) fcBuf' d'"
proof -
  let ?t = "db_tables d" and ?k = "dataset_key target ver"
  note D = cloningD [OF c]
  have "catalog ?t ?k (f_Path f) = None" if "f \<in> set pend" for f
    using D(5) [of ?k "f_Path f"] that dist empty by (auto simp: catalog_def)
  then have fresh: "\<forall>f \<in> set pend. the_file ?t ?k (f_Path f) = None" by (simp add: catalog_def)
  have dp: "distinct (map f_Path pend)" using dist by simp
  from clone_rows [OF D(1-3) ne dp fresh] obtain fs' t1 idof where
    cf: "CreateFiles (map (snd \<circ> clone_file target ver) pend) d = Some (Inr fs', d\<lparr>db_tables := t1\<rparr>)"
    and ids: "map f_ID fs' = map idof pend" and t1: "db_wf t1" "rest (d\<lparr>db_tables := t1\<rparr>) = rest d"
      "t_chunks t1 = t_chunks ?t" "t_file_chunks t1 = t_file_chunks ?t"
    and rows: "\<forall>f \<in> set pend. \<exists>g. the_file t1 ?k (f_Path f) = Some g \<and> f_Size g = f_Size f \<and> f_Mode g = f_Mode f
          \<and> f_ID g = idof f \<and> idof f \<notin> f_ID ` set (t_files ?t)"
    and aways: "\<forall>key p. key \<noteq> ?k \<or> p \<notin> f_Path ` set pend \<longrightarrow> the_file t1 key p = the_file ?t key p" by blast
  note row = rows [rule_format] and away = aways [rule_format]
  let ?new = "concat (map (\<lambda>f. new_links (links_by_file ls) (f_ID f) (idof f)) pend)"
  have new: "concat (map (\<lambda>((oldID, _), f). new_links (links_by_file ls) oldID (f_ID f)) (zip (map (clone_file target ver) pend) fs')) = ?new"
  proof -
    have "map (\<lambda>((oldID, _), f). new_links (links_by_file ls) oldID (f_ID f)) (zip (map (clone_file target ver) pend) fs')
        = map (\<lambda>f. new_links (links_by_file ls) (f_ID f) (idof f)) pend"
    proof (rule nth_equalityI)
      have "length fs' = length pend" using ids by (metis length_map)
      then show "length (map (\<lambda>((oldID, _), f). new_links (links_by_file ls) oldID (f_ID f)) (zip (map (clone_file target ver) pend) fs'))
        = length (map (\<lambda>f. new_links (links_by_file ls) (f_ID f) (idof f)) pend)" by simp
      fix i assume "i < length (map (\<lambda>((oldID, _), f). new_links (links_by_file ls) oldID (f_ID f)) (zip (map (clone_file target ver) pend) fs'))"
      then have i: "i < length pend" "i < length fs'" by simp_all
      then have "f_ID (fs' ! i) = idof (pend ! i)" using ids by (metis nth_map)
      then show "map (\<lambda>((oldID, _), f). new_links (links_by_file ls) oldID (f_ID f)) (zip (map (clone_file target ver) pend) fs') ! i
        = map (\<lambda>f. new_links (links_by_file ls) (f_ID f) (idof f)) pend ! i"
        using i by (simp add: clone_file_def)
    qed
    then show ?thesis by (rule arg_cong)
  qed
  have new_ids: "l_FileID ` set ?new \<subseteq> idof ` set pend"
    and new_chunks: "l_ChunkID ` set ?new \<subseteq> l_ChunkID ` set (t_file_chunks t0)"
    using pending_new_links(2,3) [where t = t0 and ls = ls] ls by fastforce+
  have same: "linkset t1 = linkset ?t" "chunk_refs t1 = chunk_refs ?t"
    using t1(3,4) by (auto simp: linkset_def [abs_def] chunk_refs_def [abs_def] links_of_def linked_chunks_def [abs_def])
  have old_ids: "f_ID g \<in> f_ID ` set (t_files ?t)" if "the_file ?t key p = Some g" for key p g
    using the_file_SomeD [OF that] by blast
  have "cloning t0 ?k (copied @ pend) (fcBuf @ ?new) (d\<lparr>db_tables := t1\<rparr>)"
    unfolding cloning_def
  proof (intro conjI allI ballI impI)
    fix key p assume a: "\<not> (key = ?k \<and> p \<in> f_Path ` set (copied @ pend))"
    have "key \<noteq> ?k \<or> p \<notin> f_Path ` set pend" using a by auto
    then have "the_file t1 key p = the_file ?t key p" by (rule away)
    then have "catalog t1 key p = catalog ?t key p" by (simp add: catalog_def same)
    moreover have "catalog ?t key p = catalog t0 key p" by (rule D(5)) (use a in auto)
    ultimately show "catalog (db_tables (d\<lparr>db_tables := t1\<rparr>)) key p = catalog t0 key p" by simp
  next
    fix f assume "f \<in> set (copied @ pend)"
    then consider "f \<in> set copied" | "f \<in> set pend" by auto
    then show "\<exists>g. the_file (db_tables (d\<lparr>db_tables := t1\<rparr>)) ?k (f_Path f) = Some g \<and> f_Size g = f_Size f \<and> f_Mode g = f_Mode f
          \<and> linkset (db_tables (d\<lparr>db_tables := t1\<rparr>)) (f_ID g) \<union> pending t0 (fcBuf @ ?new) (f_ID g) = linkset t0 (f_ID f)"
    proof cases
      case 1
      from D(6) [OF this] obtain g where g: "the_file ?t ?k (f_Path f) = Some g" "f_Size g = f_Size f" "f_Mode g = f_Mode f"
        "linkset ?t (f_ID g) \<union> pending t0 fcBuf (f_ID g) = linkset t0 (f_ID f)" by blast
      have "f_Path f \<notin> f_Path ` set pend" using 1 dist by (auto simp: image_iff)
      then have "the_file t1 ?k (f_Path f) = Some g" using away g(1) by simp
      moreover have "f_ID g \<notin> idof ` set pend"
      proof
        assume "f_ID g \<in> idof ` set pend"
        then obtain h where "h \<in> set pend" "f_ID g = idof h" by blast
        with row [of h] old_ids [OF g(1)] show False by auto
      qed
      then have "pending t0 ?new (f_ID g) = {}" using new_ids by (intro pending_none) blast
      ultimately show ?thesis using g by (intro exI [of _ g]) (simp add: same)
    next
      case 2
      from row [OF this] obtain g where g: "the_file t1 ?k (f_Path f) = Some g" "f_Size g = f_Size f" "f_Mode g = f_Mode f"
        "f_ID g = idof f" "idof f \<notin> f_ID ` set (t_files ?t)" by blast
      have none: "linkset ?t (f_ID g) = {}" using linkset_fresh [OF D(3)] g(4,5) by simp
      have "f_ID g \<notin> l_FileID ` set fcBuf"
      proof
        assume "f_ID g \<in> l_FileID ` set fcBuf"
        then obtain l where l: "l \<in> set fcBuf" "f_ID g = l_FileID l" by auto
        from D(7) [OF l(1)] obtain h g' where "h \<in> set copied" "the_file ?t ?k (f_Path h) = Some g'" "l_FileID l = f_ID g'" by blast
        from old_ids [OF this(2)] this(3) show False using l(2) g(4,5) by simp
      qed
      then have old: "pending t0 fcBuf (f_ID g) = {}" by (rule pending_none)
      have "pending t0 ?new (f_ID g) = pending t0 (new_links (links_by_file ls) (f_ID f) (idof f)) (idof f)"
      proof -
        have other: "pending t0 (new_links (links_by_file ls) (f_ID h) (idof h)) (f_ID g) = {}" if h: "h \<in> set pend" "h \<noteq> f" for h
        proof -
          obtain g' where g': "the_file t1 ?k (f_Path h) = Some g'" "f_ID g' = idof h" using row [OF h(1)] by blast
          have "f_Path f \<noteq> f_Path h" using h 2 dist by (auto simp: distinct_map inj_on_def)
          then have "f_ID g \<noteq> idof h" using ids_differ [OF t1(1) g(1) g'(1)] g'(2) by simp
          moreover have "l_FileID ` set (new_links (links_by_file ls) (f_ID h) (idof h)) \<subseteq> {idof h}"
            using pending_new_links(2) [of "f_ID h" ls t0] ls h(1) by blast
          ultimately show ?thesis by (intro pending_none) blast
        qed
        have "pending t0 ?new (f_ID g) = (\<Union>h \<in> set pend. pending t0 (new_links (links_by_file ls) (f_ID h) (idof h)) (f_ID g))"
          unfolding pending_def by auto
        also have "\<dots> = pending t0 (new_links (links_by_file ls) (f_ID f) (idof f)) (f_ID g)" using other 2 by blast
        finally show ?thesis using g(4) by simp
      qed
      also have "\<dots> = linkset t0 (f_ID f)" using pending_new_links(1) ls 2 by blast
      finally show ?thesis using g none old by (intro exI [of _ g]) (simp add: same)
    qed
  next
    fix l assume "l \<in> set (fcBuf @ ?new)"
    then consider "l \<in> set fcBuf" | "l \<in> set ?new" by auto
    then show "\<exists>f \<in> set (copied @ pend). \<exists>g. the_file (db_tables (d\<lparr>db_tables := t1\<rparr>)) ?k (f_Path f) = Some g \<and> l_FileID l = f_ID g"
    proof cases
      case 1
      from D(7) [OF this] obtain f g where g: "f \<in> set copied" "the_file ?t ?k (f_Path f) = Some g" "l_FileID l = f_ID g" by blast
      have "f_Path f \<notin> f_Path ` set pend" using g(1) dist by (auto simp: image_iff)
      then have "the_file t1 ?k (f_Path f) = Some g" using away [of ?k "f_Path f"] g(2) by simp
      then show ?thesis using g by auto
    next
      case 2
      then have "l_FileID l \<in> idof ` set pend" using new_ids by blast
      then obtain f where "f \<in> set pend" "l_FileID l = idof f" by blast
      then show ?thesis using row [of f] by (intro bexI [of _ f]) auto
    qed
  next
    fix l assume "l \<in> set (fcBuf @ ?new)"
    then consider "l \<in> set fcBuf" | "l \<in> set ?new" by auto
    then show "l_ChunkID l \<in> c_ID ` set (t_chunks t0)"
    proof cases
      case 1
      then show ?thesis by (rule D(8))
    next
      case 2
      then have "l_ChunkID l \<in> l_ChunkID ` set (t_file_chunks t0)" using new_chunks by blast
      then show ?thesis using wf0 by (auto simp: db_wf_def)
    qed
  qed (use D(1-4,9) t1 in simp_all)
  from send_links_run [OF this] obtain fcBuf' d' where
    "send_links ?new fcBuf (d\<lparr>db_tables := t1\<rparr>) = Some (Inr fcBuf', d')" "rest d' = rest (d\<lparr>db_tables := t1\<rparr>)"
    "cloning t0 ?k (copied @ pend) fcBuf' d'" by blast
  then show ?thesis using cf new t1(2) by (auto simp: flush_clones_def run_simps)
qed

lemma clone_files_run:
  fixes d :: "'m db"
  assumes c: "cloning t0 (dataset_key target ver) copied fcBuf d" and buf: "fileBuf = map (clone_file target ver) pend"
    and dist: "distinct (map f_Path (copied @ pend @ fs))" and last: "fs = [] \<longrightarrow> pend = []"
    and wf0: "db_wf t0" and empty: "\<forall>p. the_file t0 (dataset_key target ver) p = None"
    and ls: "\<forall>f \<in> set (pend @ fs). set (filter (\<lambda>l. l_FileID l = f_ID f) ls) = {l \<in> set (t_file_chunks t0). l_FileID l = f_ID f}"
  shows "\<exists>d'. clone_files target ver (links_by_file ls) fs fileBuf fcBuf d = Some (Inr (), d')
    \<and> rest d' = rest d \<and> cloning t0 (dataset_key target ver) (copied @ pend @ fs) [] d'"
  using c buf dist last ls
proof (induction fs arbitrary: copied pend fileBuf fcBuf d)
  case Nil
  have "cloning t0 (dataset_key target ver) copied (fcBuf @ []) d" using Nil.prems(1) by simp
  from flush_links [OF this] show ?case using Nil.prems(4) by simp
next
  case (Cons f fs)
  have buf: "fileBuf @ [clone_file target ver f] = map (clone_file target ver) (pend @ [f])" using Cons.prems(2) by simp
  have d1: "distinct (map f_Path (copied @ (pend @ [f])))" "distinct (map f_Path ((copied @ (pend @ [f])) @ [] @ fs))"
    "distinct (map f_Path (copied @ (pend @ [f]) @ fs))" using Cons.prems(3) by auto
  have ls1: "\<forall>f \<in> set (pend @ [f]). set (filter (\<lambda>l. l_FileID l = f_ID f) ls) = {l \<in> set (t_file_chunks t0). l_FileID l = f_ID f}"
    "\<forall>f \<in> set ([] @ fs). set (filter (\<lambda>l. l_FileID l = f_ID f) ls) = {l \<in> set (t_file_chunks t0). l_FileID l = f_ID f}"
    "\<forall>f \<in> set ((pend @ [f]) @ fs). set (filter (\<lambda>l. l_FileID l = f_ID f) ls) = {l \<in> set (t_file_chunks t0). l_FileID l = f_ID f}"
    using Cons.prems(5) by simp_all
  show ?case
  proof (cases "100 \<le> length (fileBuf @ [clone_file target ver f]) \<or> fs = []")
    case True
    from copy_step [OF Cons.prems(1) d1(1) _ wf0 empty ls1(1)] obtain fcBuf' d2 where
      st: "flush_clones (links_by_file ls) (map (clone_file target ver) (pend @ [f])) fcBuf d = Some (Inr fcBuf', d2)"
        "rest d2 = rest d" "cloning t0 (dataset_key target ver) (copied @ pend @ [f]) fcBuf' d2" by auto
    from Cons.IH [OF st(3) _ _ _ ls1(2), of "[]"] d1(2) obtain d3 where
      "clone_files target ver (links_by_file ls) fs [] fcBuf' d2 = Some (Inr (), d3)" "rest d3 = rest d2"
      "cloning t0 (dataset_key target ver) (copied @ pend @ f # fs) [] d3" by auto
    moreover have "clone_files target ver (links_by_file ls) (f # fs) fileBuf fcBuf d
        = bnd (flush_clones (links_by_file ls) (map (clone_file target ver) (pend @ [f])) fcBuf)
            (clone_files target ver (links_by_file ls) fs []) d"
      unfolding clone_files.simps Let_def buf using True unfolding buf by (simp only: if_True)
    ultimately show ?thesis using st by (auto simp: run_simps)
  next
    case False
    then have "fs = [] \<longrightarrow> pend @ [f] = []" by simp
    from Cons.IH [OF Cons.prems(1) buf d1(3) this ls1(3)] False show ?thesis by (simp add: Let_def)
  qed
qed

section \<open>Cloning\<close>

text \<open>Every file of the version has its chunks at the places 0, 1, 2, ... of its links.\<close>

definition in_places :: "tables \<Rightarrow> version_key \<Rightarrow> bool" where
  "in_places t key \<longleftrightarrow> (\<forall>f \<in> set (t_files t). in_version key f \<longrightarrow> linkset t (f_ID f) = places (chunk_refs t (f_ID f)))"

lemma list_source:
  assumes "db_faults d = []" and "named_key (ws, ty, ds, ver)"
  shows "ListFiles (file_filter ws ds ty [] ver) d = Some (Inr (filter (in_version (ws, ty, ds, ver)) (t_files (db_tables d))), d)"
    and "\<exists>ls. ListRelatedChunks ty ws ds ver d = Some (Inr ls, d)
       \<and> (\<forall>f \<in> set (t_files (db_tables d)). in_version (ws, ty, ds, ver) f \<longrightarrow>
            set (filter (\<lambda>l. l_FileID l = f_ID f) ls) = {l \<in> set (t_file_chunks (db_tables d)). l_FileID l = f_ID f})"
proof -
  have "match_file (file_filter ws ds ty [] ver) = in_version (ws, ty, ds, ver)"
    using assms(2)
    by (intro ext) (auto simp: match_file_def file_filter_def blank_file_def opt_str_def opt_nat_def opt_int_def named_key_def)
  then show "ListFiles (file_filter ws ds ty [] ver) d = Some (Inr (filter (in_version (ws, ty, ds, ver)) (t_files (db_tables d))), d)"
    using assms(1) by (simp add: ListFiles_def run_simps)
  let ?ls = "concat (map (\<lambda>l. map (\<lambda>f. l) (filter (\<lambda>f. file_cond (db_type d) ty ws ds ver [] False f
                               \<and> l_FileID l = f_ID f) (t_files (db_tables d)))) (t_file_chunks (db_tables d)))"
  have set: "set ?ls = {l \<in> set (t_file_chunks (db_tables d)).
      \<exists>f \<in> set (t_files (db_tables d)). file_cond (db_type d) ty ws ds ver [] False f \<and> l_FileID l = f_ID f}" by auto
  have cond: "in_version (ws, ty, ds, ver) f \<Longrightarrow> file_cond (db_type d) ty ws ds ver [] False f" for f
    by (auto simp: file_cond_def path_cond_def)
  have "set (filter (\<lambda>l. l_FileID l = f_ID f) ?ls) = {l \<in> set (t_file_chunks (db_tables d)). l_FileID l = f_ID f}"
    if f: "f \<in> set (t_files (db_tables d))" "in_version (ws, ty, ds, ver) f" for f
    unfolding set_filter set using f(1) cond [OF f(2)] by auto
  moreover have "ListRelatedChunks ty ws ds ver d = Some (Inr ?ls, d)"
    using assms(1) by (simp add: ListRelatedChunks_def ListRelatedChunksForFiles_def run_simps)
  ultimately show "\<exists>ls. ListRelatedChunks ty ws ds ver d = Some (Inr ls, d)
       \<and> (\<forall>f \<in> set (t_files (db_tables d)). in_version (ws, ty, ds, ver) f \<longrightarrow>
            set (filter (\<lambda>l. l_FileID l = f_ID f) ls) = {l \<in> set (t_file_chunks (db_tables d)). l_FileID l = f_ID f})" by blast
qed

lemma linkset_remove:
  assumes "db_wf t" and "f \<in> set (t_files t)" and "\<not> P f"
  shows "linkset (remove_files P t) (f_ID f) = linkset t (f_ID f)"
proof -
  have "f_ID f \<notin> set (map f_ID (filter P (t_files t)))"
    using assms by (auto simp: db_wf_def distinct_map inj_on_def)
  then show ?thesis unfolding linkset_def remove_files_def
    by (intro Collect_cong ex_cong1) (auto simp del: set_map)
qed

lemma version_paths: "db_wf t \<Longrightarrow> distinct (map f_Path (filter (in_version key) (t_files t)))"
proof -
  assume wf: "db_wf t"
  obtain ws ty ds ver where key: "key = (ws, ty, ds, ver)" by (cases key) auto
  have "inj_on f_Path (set (filter (in_version key) (t_files t)))"
  proof (rule inj_onI)
    fix a b assume "a \<in> set (filter (in_version key) (t_files t))" "b \<in> set (filter (in_version key) (t_files t))" "f_Path a = f_Path b"
    then have "a \<in> set (t_files t)" "b \<in> set (t_files t)" "file_key a = file_key b" by (auto simp: key file_key_def)
    then show "a = b" using wf by (auto simp: db_wf_def distinct_map inj_on_def)
  qed
  then show ?thesis using wf by (simp add: db_wf_def distinct_map)
qed

text \<open>The versions that a deletion without a prefix reaches: one, or all of a dataset.\<close>

definition in_scope :: "version_key \<Rightarrow> version_key \<Rightarrow> bool" where
  "in_scope scope key = (case scope of (ws, ty, ds, ver) \<Rightarrow> case key of (w, y, n, v) \<Rightarrow>
     w = ws \<and> y = ty \<and> n = ds \<and> (ver = [] \<or> v = ver))"

lemma in_scope_named: "named_key scope \<Longrightarrow> in_scope scope key \<longleftrightarrow> key = scope"
  by (cases scope; cases key) (auto simp: in_scope_def named_key_def)

lemma file_cond_scope:
  "in_version key f \<Longrightarrow> file_cond dbtype ty ws ds ver [] precise f \<longleftrightarrow> in_scope (ws, ty, ds, ver) key"
  by (cases key) (auto simp: file_cond_def path_cond_def in_scope_def)

lemma clear_versions:
  fixes d :: "'m db"
  assumes sok: "server_ok d"
  shows "\<exists>d1. DeleteFiles st ty ws ds ver [] False False d = Some (Inr (), d1) \<and> server_ok d1 \<and> rest d1 = rest d
    \<and> (\<forall>key p. catalog (db_tables d1) key p = (if in_scope (ws, ty, ds, ver) key then None else catalog (db_tables d) key p))
    \<and> (\<forall>key. \<not> in_scope (ws, ty, ds, ver) key \<longrightarrow>
         filter (in_version key) (t_files (db_tables d1)) = filter (in_version key) (t_files (db_tables d))
         \<and> (\<forall>f \<in> set (t_files (db_tables d)). in_version key f \<longrightarrow> linkset (db_tables d1) (f_ID f) = linkset (db_tables d) (f_ID f)))"
proof -
  let ?P = "file_cond (db_type d) ty ws ds ver [] False" and ?t = "db_tables d" and ?scope = "(ws, ty, ds, ver)"
  have ok: "db_faults d = []" "chunks_ok ?t" "\<forall>c \<in> set (db_chunksBuf d). long_hash c" "db_wf ?t" "batch_type (db_type d)"
    using sok by (simp_all add: server_ok_def)
  obtain r d1 where run: "DeleteFiles st ty ws ds ver [] False False d = Some (r, d1)" "r = Inr () \<or> False"
    and sw: "swept (remove_files ?P ?t) (db_tables d1)"
    and d1: "db_faults d1 = []" "db_type d1 = db_type d" "db_now d1 = db_now d" "db_saved d1 = db_saved d" "db_remote d1 = db_remote d"
      "\<forall>c \<in> set (db_chunksBuf d1). long_hash c"
    using DeleteFiles_run [OF ok(1-3), of st ty ws ds ver "[]" False False] by blast
  have wf1: "db_wf (remove_files ?P ?t)" by (rule remove_files_wf [OF ok(4)])
  note parts = swept_parts [OF sw wf1]
  have keep: "\<not> ?P f" if "\<not> in_scope ?scope key" "in_version key f" for key f
    using file_cond_scope [OF that(2)] that(1) by simp
  have "chunks_ok (remove_files ?P ?t)" using ok(2) by (simp add: chunks_ok_def remove_files_def)
  then have "server_ok d1"
    using d1 ok swept_wf [OF sw wf1] swept_chunks_ok [OF sw] by (simp add: server_ok_def)
  moreover have "rest d1 = rest d" using d1 parts(5,6) by (simp add: rest_def remove_files_def)
  moreover have "catalog (db_tables d1) key p = (if in_scope ?scope key then None else catalog ?t key p)" for key p
  proof -
    have "catalog (db_tables d1) key p = (case the_file ?t key p of None \<Rightarrow> None | Some f \<Rightarrow> if ?P f then None else catalog ?t key p)"
      using swept_catalog(1) [OF sw] catalog_remove [OF ok(4)] by simp
    also have "\<dots> = (if in_scope ?scope key then None else catalog ?t key p)"
    proof (cases "the_file ?t key p")
      case None
      then show ?thesis by (simp add: catalog_def)
    next
      case (Some f)
      then show ?thesis using file_cond_scope [of key f] the_file_SomeD [OF Some] by simp
    qed
    finally show ?thesis .
  qed
  moreover have "filter (in_version key) (t_files (db_tables d1)) = filter (in_version key) (t_files ?t)"
    if "\<not> in_scope ?scope key" for key
    unfolding parts(3) using keep [OF that] by (simp add: remove_files_def) (rule filter_cong, auto)
  moreover have "linkset (db_tables d1) (f_ID f) = linkset ?t (f_ID f)"
    if "\<not> in_scope ?scope key" "f \<in> set (t_files ?t)" "in_version key f" for key f
    unfolding parts(1) using linkset_remove [where P = ?P, OF ok(4) that(2) keep [OF that(1,3)]] .
  ultimately show ?thesis using run by blast
qed

text \<open>The target version is emptied; the source version is not touched.\<close>

lemma clear_target:
  fixes d :: "'m db"
  assumes sok: "server_ok d" and tgt: "named_key (dataset_key target ver)"
  shows "\<exists>d1. ignore (DeleteFiles st (d_Type target) (d_Workspace target) (d_Name target) ver [] False False) d = Some (Inr (), d1)
    \<and> server_ok d1 \<and> rest d1 = rest d
    \<and> (\<forall>key p. catalog (db_tables d1) key p = (if key = dataset_key target ver then None else catalog (db_tables d) key p))
    \<and> (src \<noteq> dataset_key target ver \<longrightarrow>
         filter (in_version src) (t_files (db_tables d1)) = filter (in_version src) (t_files (db_tables d))
         \<and> (\<forall>f \<in> set (t_files (db_tables d)). in_version src f \<longrightarrow> linkset (db_tables d1) (f_ID f) = linkset (db_tables d) (f_ID f)))"
proof -
  obtain d1 where run: "DeleteFiles st (d_Type target) (d_Workspace target) (d_Name target) ver [] False False d = Some (Inr (), d1)"
    and rest: "server_ok d1" "rest d1 = rest d"
      "\<forall>key p. catalog (db_tables d1) key p = (if in_scope (dataset_key target ver) key then None else catalog (db_tables d) key p)"
      "\<forall>key. \<not> in_scope (dataset_key target ver) key \<longrightarrow>
         filter (in_version key) (t_files (db_tables d1)) = filter (in_version key) (t_files (db_tables d))
         \<and> (\<forall>f \<in> set (t_files (db_tables d)). in_version key f \<longrightarrow> linkset (db_tables d1) (f_ID f) = linkset (db_tables d) (f_ID f))"
    using clear_versions [OF sok, of st "d_Type target" "d_Workspace target" "d_Name target" ver] unfolding dataset_key_def by blast
  have "ignore (DeleteFiles st (d_Type target) (d_Workspace target) (d_Name target) ver [] False False) d = Some (Inr (), d1)"
    using run by (simp add: ignore_def run_simps)
  then show ?thesis using rest unfolding in_scope_named [OF tgt] by blast
qed

lemma clone_version_key:
  "dsv_key (clone_version target ver msg v) = dataset_key target ver" "\<not> v_Deleted (clone_version target ver msg v)"
  by (simp_all add: clone_version_def dsv_key_def dataset_key_def blank_version_def)

lemma GetDatasetVersion_run:
  assumes "db_faults d = []" and "named_key (ws, ty, ds, ver)" and "(ws, ty, ds, ver) \<in> dsv_key ` set (t_dataset_versions (db_tables d))"
  shows "\<exists>v. GetDatasetVersion ty ws ds ver d = Some (Inr v, d) \<and> v \<in> set (t_dataset_versions (db_tables d))
    \<and> dsv_key v = (ws, ty, ds, ver)"
proof -
  note m = match_version_named [OF assms(2)]
  obtain v where "find (\<lambda>v. dsv_key v = (ws, ty, ds, ver)) (t_dataset_versions (db_tables d)) = Some v"
    using assms(3) by (cases "find (\<lambda>v. dsv_key v = (ws, ty, ds, ver)) (t_dataset_versions (db_tables d))") (auto simp: find_None_iff)
  note found = this
  then have "v \<in> set (t_dataset_versions (db_tables d))" "dsv_key v = (ws, ty, ds, ver)" by (auto simp: find_Some_iff)
  then show ?thesis using assms(1) m found by (simp add: GetDatasetVersion_def stmt_run first_row_def)
qed

lemma CloneVersionTo_run:
  fixes d :: "'m db"
  assumes sok: "server_ok d" and src: "named_key (dataset_key ds version)" and tgt: "named_key (dataset_key target ver)"
    and ne: "dataset_key ds version \<noteq> dataset_key target ver" and pl: "in_places (db_tables d) (dataset_key ds version)"
    and ex: "dataset_key ds version \<in> dsv_key ` set (t_dataset_versions (db_tables d))"
  shows "\<exists>v d'. CloneVersionTo st ds target version ver msg d = Some (Inr v, d') \<and> dsv_key v = dataset_key target ver \<and> server_ok d'
    \<and> (\<forall>key p. catalog (db_tables d') key p
         = catalog (db_tables d) (if key = dataset_key target ver then dataset_key ds version else key) p)"
proof -
  let ?src = "dataset_key ds version" and ?tgt = "dataset_key target ver" and ?t = "db_tables d"
  let ?d0 = "d\<lparr>db_saved := db_tables d # db_saved d\<rparr>"
  have src': "named_key (d_Workspace ds, d_Type ds, d_Name ds, version)" using src by (simp add: dataset_key_def)
  have wf: "db_wf ?t" using sok by (simp add: server_ok_def)
  have "server_ok ?d0" using sok by (simp add: server_ok_def)
  from clear_target [OF this tgt, of st ?src] ne obtain d1 where
    clear: "ignore (DeleteFiles st (d_Type target) (d_Workspace target) (d_Name target) ver [] False False) ?d0 = Some (Inr (), d1)"
    and d1: "server_ok d1" "rest d1 = rest ?d0"
    and cat1: "\<forall>key p. catalog (db_tables d1) key p = (if key = ?tgt then None else catalog ?t key p)"
    and files1: "filter (in_version ?src) (t_files (db_tables d1)) = filter (in_version ?src) (t_files ?t)"
    and links1: "\<forall>f \<in> set (t_files ?t). in_version ?src f \<longrightarrow> linkset (db_tables d1) (f_ID f) = linkset ?t (f_ID f)"
    by auto
  let ?t1 = "db_tables d1"
  have f1: "db_faults d1 = []" "batch_type (db_type d1)" "db_wf ?t1" "chunks_ok ?t1" "\<forall>c \<in> set (db_chunksBuf d1). long_hash c"
    using d1(1) by (simp_all add: server_ok_def)
  let ?files = "filter (in_version ?src) (t_files ?t1)"
  have list: "ListFiles (file_filter (d_Workspace ds) (d_Name ds) (d_Type ds) [] version) d1 = Some (Inr ?files, d1)"
    using list_source(1) [OF f1(1) src'] by (simp add: dataset_key_def)
  obtain ls where related: "ListRelatedChunks (d_Type ds) (d_Workspace ds) (d_Name ds) version d1 = Some (Inr ls, d1)"
    and ls: "\<forall>f \<in> set (t_files ?t1). in_version ?src f \<longrightarrow>
            set (filter (\<lambda>l. l_FileID l = f_ID f) ls) = {l \<in> set (t_file_chunks ?t1). l_FileID l = f_ID f}"
    using list_source(2) [OF f1(1) src'] by (auto simp: dataset_key_def)
  have start: "cloning ?t1 ?tgt [] [] d1" unfolding cloning_def using f1 by simp
  have dist: "distinct (map f_Path ([] @ [] @ ?files))" using version_paths [OF f1(3)] by simp
  have empty: "\<forall>p. the_file ?t1 ?tgt p = None" using cat1 [rule_format, of ?tgt] by (simp add: catalog_def)
  have "\<forall>f \<in> set ([] @ ?files). set (filter (\<lambda>l. l_FileID l = f_ID f) ls) = {l \<in> set (t_file_chunks ?t1). l_FileID l = f_ID f}"
    using ls by simp
  from clone_files_run [OF start _ dist _ f1(3) empty this] obtain d2 where
    clone: "clone_files target ver (links_by_file ls) ?files [] [] d1 = Some (Inr (), d2)" "rest d2 = rest d1"
      "cloning ?t1 ?tgt ?files [] d2" by auto
  note D = cloningD [OF clone(3)]
  have vs: "t_dataset_versions (db_tables d2) = t_dataset_versions ?t" "db_saved d2 = db_saved ?d0"
    using clone(2) d1(2) by (simp_all add: rest_def)
  obtain v where v: "GetDatasetVersion (d_Type ds) (d_Workspace ds) (d_Name ds) version d2 = Some (Inr v, d2)"
    using GetDatasetVersion_run [OF D(1) src'] ex vs(1) by (auto simp: dataset_key_def)
  obtain w ws where w: "SaveDatasetVersion (clone_version target ver msg v) d2
      = Some (Inr w, d2\<lparr>db_tables := (db_tables d2)\<lparr>t_dataset_versions := ws\<rparr>\<rparr>)" "dsv_key w = ?tgt"
    using SaveDatasetVersion_run [OF D(1), of "clone_version target ver msg v"] tgt by (auto simp: clone_version_key)
  let ?d3 = "d2\<lparr>db_tables := (db_tables d2)\<lparr>t_dataset_versions := ws\<rparr>, db_saved := db_saved d\<rparr>"
  have run: "CloneVersionTo st ds target version ver msg d = Some (Inr w, ?d3)"
    using clear list related clone(1) v w(1) vs(2) D(1)
    by (simp add: CloneVersionTo_def in_tx_def Begin_def Commit_def bnd_def attempt_def ret_def Let_def split: list.splits)
  have "chunks_ok (db_tables d2)" using f1(4) D(4) by (simp add: chunks_ok_def)
  then have "server_ok ?d3" using D by (simp add: server_ok_def versions_only)
  moreover have "catalog (db_tables d2) key p = catalog ?t (if key = ?tgt then ?src else key) p" for key p
  proof (cases "key = ?tgt")
    case False
    then have "catalog (db_tables d2) key p = catalog ?t1 key p" by (intro D(5)) simp
    then show ?thesis using cat1 [rule_format, of key p] False by simp
  next
    case tk: True
    show ?thesis
    proof (cases "the_file ?t ?src p")
      case None
      then have "p \<notin> f_Path ` set ?files" unfolding files1 by (auto simp: the_file_None)
      then have "catalog (db_tables d2) ?tgt p = catalog ?t1 ?tgt p" by (intro D(5)) simp
      moreover have "catalog ?t ?src p = None" using None by (simp add: catalog_def)
      ultimately show ?thesis using cat1 [rule_format, of ?tgt p] tk by simp
    next
      case (Some f)
      from the_file_SomeD [OF Some] have f: "f \<in> set (t_files ?t)" "in_version ?src f" "f_Path f = p" by auto
      then have "f \<in> set ?files" unfolding files1 by simp
      from D(6) [OF this] obtain g where g: "the_file (db_tables d2) ?tgt p = Some g" "f_Size g = f_Size f" "f_Mode g = f_Mode f"
        "linkset (db_tables d2) (f_ID g) = linkset ?t1 (f_ID f)" using f(3) by auto
      have "linkset (db_tables d2) (f_ID g) = places (chunk_refs ?t (f_ID f))"
        using g(4) links1 pl f by (simp add: in_places_def)
      from chunk_refs_of_linkset [OF D(3) this [unfolded places_def]]
      show ?thesis using g Some tk by (simp add: catalog_def)
    qed
  qed
  ultimately show ?thesis using run w(2)
    by (intro exI [of _ w] exI [of _ ?d3]) (simp add: versions_only)
qed

lemma CloneVersionTo_self:
  fixes d :: "'m db"
  assumes sok: "server_ok d" and key: "named_key (dataset_key ds ver)"
    and ex: "dataset_key ds ver \<in> dsv_key ` set (t_dataset_versions (db_tables d))"
  shows "\<exists>v d'. CloneVersionTo st ds ds ver ver msg d = Some (Inr v, d')
    \<and> (\<forall>k p. catalog (db_tables d') k p = (if k = dataset_key ds ver then None else catalog (db_tables d) k p))"
proof -
  let ?k = "dataset_key ds ver" and ?t = "db_tables d"
  let ?d0 = "d\<lparr>db_saved := db_tables d # db_saved d\<rparr>"
  have key': "named_key (d_Workspace ds, d_Type ds, d_Name ds, ver)" using key by (simp add: dataset_key_def)
  have "server_ok ?d0" using sok by (simp add: server_ok_def)
  from clear_target [OF this key, of st ?k] obtain d1 where
    clear: "ignore (DeleteFiles st (d_Type ds) (d_Workspace ds) (d_Name ds) ver [] False False) ?d0 = Some (Inr (), d1)"
    and d1: "server_ok d1" "rest d1 = rest ?d0"
    and cat1: "\<forall>key p. catalog (db_tables d1) key p = (if key = ?k then None else catalog ?t key p)"
    by auto
  have f1: "db_faults d1 = []" using d1(1) by (simp add: server_ok_def)
  have "the_file (db_tables d1) ?k p = None" for p using cat1 [rule_format, of ?k] by (simp add: catalog_def)
  then have none: "filter (in_version ?k) (t_files (db_tables d1)) = []" by (auto simp: the_file_None filter_empty_conv)
  have list: "ListFiles (file_filter (d_Workspace ds) (d_Name ds) (d_Type ds) [] ver) d1 = Some (Inr [], d1)"
    using list_source(1) [OF f1 key'] none by (simp add: dataset_key_def)
  obtain ls where related: "ListRelatedChunks (d_Type ds) (d_Workspace ds) (d_Name ds) ver d1 = Some (Inr ls, d1)"
    using list_source(2) [OF f1 key'] by auto
  have vs: "t_dataset_versions (db_tables d1) = t_dataset_versions ?t" "db_saved d1 = db_saved ?d0"
    using d1(2) by (simp_all add: rest_def)
  obtain v where v: "GetDatasetVersion (d_Type ds) (d_Workspace ds) (d_Name ds) ver d1 = Some (Inr v, d1)"
    using GetDatasetVersion_run [OF f1 key'] ex vs(1) by (auto simp: dataset_key_def)
  obtain w ws where w: "SaveDatasetVersion (clone_version ds ver msg v) d1
      = Some (Inr w, d1\<lparr>db_tables := (db_tables d1)\<lparr>t_dataset_versions := ws\<rparr>\<rparr>)"
    using SaveDatasetVersion_run [OF f1, of "clone_version ds ver msg v"] key by (auto simp: clone_version_key)
  have "CloneVersionTo st ds ds ver ver msg d
      = Some (Inr w, d1\<lparr>db_tables := (db_tables d1)\<lparr>t_dataset_versions := ws\<rparr>, db_saved := db_saved d\<rparr>)"
    using clear list related v w vs(2) f1
    by (simp add: CloneVersionTo_def in_tx_def Begin_def Commit_def bnd_def attempt_def ret_def Let_def flushChunksBuffer_def
        split: list.splits)
  then show ?thesis using cat1 by (simp add: versions_only)
qed

section \<open>Properties\<close>


text \<open>C37: cloning a version onto itself ends without error and deletes all its files: the target is
  emptied before the source is listed.\<close>

theorem clone_onto_itself_empties_the_version:
  assumes "server_ok d" and "named_key (dataset_key ds version)"
    and "dataset_key ds version \<in> dsv_key ` set (t_dataset_versions (db_tables d))"
  shows "\<exists>v d'. CloneVersion st ds version version message d = Some (Inr v, d')
    \<and> (\<forall>path. catalog (db_tables d') (dataset_key ds version) path = None)"
proof -
  from CloneVersionTo_self [OF assms, of st message] obtain v d' where
    run: "CloneVersionTo st ds ds version version message d = Some (Inr v, d')"
    and cat: "\<forall>k p. catalog (db_tables d') k p = (if k = dataset_key ds version then None else catalog (db_tables d) k p)" by blast
  then have "\<forall>path. catalog (db_tables d') (dataset_key ds version) path = None"
    using cat [rule_format, of "dataset_key ds version"] by simp
  then show ?thesis using run by (auto simp: CloneVersion_def)
qed

section \<open>Witnesses\<close>

definition sample_version :: version_row where
  "sample_version = blank_version\<lparr>v_ID := 1, v_Workspace := ''w'', v_Type := ''dataset'', v_Name := ''d'', v_Version := ''1.0.0''\<rparr>"

definition versioned_db :: "unit db" where
  "versioned_db = sample_db (sample_tables\<lparr>t_dataset_versions := [sample_version]\<rparr>)"

lemma versioned_db_ok:
  "server_ok versioned_db" "named_key (dataset_key sample_dataset ''1.0.0'')"
  "dataset_key sample_dataset ''1.0.0'' \<in> dsv_key ` set (t_dataset_versions (db_tables versioned_db))"
  "db_tables versioned_db = sample_tables\<lparr>t_dataset_versions := [sample_version]\<rparr>"
  using sample_server_ok
  by (simp_all add: server_ok_def versioned_db_def sample_db_def versions_only sample_key named_key_def dsv_key_def sample_version_def)


theorem clone_onto_itself_empties_the_version_witness:
  "\<exists>v d'. CloneVersion (sample_settings_of ''/d'') sample_dataset ''1.0.0'' ''1.0.0'' [] versioned_db = Some (Inr v, d')
     \<and> catalog (db_tables d') (dataset_key sample_dataset ''1.0.0'') ''a/x'' = None"
  using clone_onto_itself_empties_the_version [OF versioned_db_ok(1,2,3)] by blast

end
