(* ===== verification/Transactions.thy ===== *)
theory Transactions
  imports Clone
begin

text \<open>
  Transactions of \<^verbatim>\<open>pkg/datasets/dataset.go\<close> under any schedule of failing statements: what an
  error leaves of the tables, and what it does not take back.
\<close>

section \<open>Programs that keep to their own transaction\<close>

definition keeps :: "('m, 'a) dbm \<Rightarrow> bool" where
  "keeps m \<longleftrightarrow> (\<forall>d r d'. m d = Some (r, d') \<longrightarrow> db_saved d' = db_saved d)"

named_theorems keeps_intros

lemma keeps_basic [keeps_intros]:
  "keeps (ret x)" "keeps (fail e)" "keeps crash" "keeps ask_type" "keeps ask_now" "keeps (stmt f)" "keeps (query g)" "keeps (exec h)"
  "keeps (CheckAndDeleteChunk c)" "keeps (SendDeletePath p)" "keeps (lift_option z)"
  using stmt_frame
  by (auto simp: keeps_def ret_def fail_def crash_def ask_type_def ask_now_def query_def exec_def CheckAndDeleteChunk_def
      SendDeletePath_def lift_option_def split: option.splits)

lemma keeps_attempt [keeps_intros]: "keeps m \<Longrightarrow> (\<And>r. keeps (k r)) \<Longrightarrow> keeps (attempt m k)"
  by (fastforce simp: keeps_def attempt_def split: option.splits)

lemma keeps_bnd [keeps_intros]: "keeps m \<Longrightarrow> (\<And>x. keeps (k x)) \<Longrightarrow> keeps (bnd m k)"
  unfolding bnd_def by (rule keeps_attempt) (auto split: sum.split intro: keeps_basic)

lemma keeps_cases [keeps_intros]:
  "(b \<Longrightarrow> keeps m) \<Longrightarrow> (\<not> b \<Longrightarrow> keeps n) \<Longrightarrow> keeps (if b then m else n)"
  "keeps m \<Longrightarrow> (\<And>x. keeps (k x)) \<Longrightarrow> keeps (case o' of None \<Rightarrow> m | Some x \<Rightarrow> k x)"
  "(\<And>e. keeps (h e)) \<Longrightarrow> (\<And>x. keeps (k x)) \<Longrightarrow> keeps (case s of Inl e \<Rightarrow> h e | Inr x \<Rightarrow> k x)"
  "keeps m \<Longrightarrow> (\<And>x xs. keeps (l x xs)) \<Longrightarrow> keeps (case ys of [] \<Rightarrow> m | x # xs \<Rightarrow> l x xs)"
  "(\<And>x y. keeps (q x y)) \<Longrightarrow> keeps (case p of (x, y) \<Rightarrow> q x y)"
  by (simp_all split: option.split sum.split list.split prod.split)

lemma keeps_for_each [keeps_intros]: "(\<And>x. keeps (body x)) \<Longrightarrow> keeps (for_each body xs)"
proof (induction xs)
  case (Cons x xs)
  then show ?case unfolding for_each.simps by (intro keeps_bnd) auto
qed (simp add: keeps_basic)

lemma keeps_map_each [keeps_intros]: "(\<And>x. keeps (body x)) \<Longrightarrow> keeps (map_each body xs)"
proof (induction xs)
  case (Cons x xs)
  then show ?case unfolding map_each.simps by (intro keeps_bnd keeps_basic) auto
qed (simp add: keeps_basic)

lemma keeps_ignore [keeps_intros]: "keeps m \<Longrightarrow> keeps (ignore m)"
  unfolding ignore_def by (intro keeps_intros)

section \<open>The statements and steps\<close>

lemma keeps_rows [keeps_intros]:
  "keeps (ListFiles q)" "keeps (db_GetFile a b c e f)" "keeps (GetRawFiles g h i j k l)" "keeps (DeleteFileChunk m n)"
  "keeps (GetDatasetVersion o' p r s)" "keeps (CreateDatasetVersion v)" "keeps (UpdateDatasetVersion v)" "keeps (RecoverDatasetVersion v)"
  "keeps (ListFileChunksByChunks cs)" "keeps (DeleteChunks cs)" "keeps (db_DeleteFiles g h i j k l)" "keeps (ListRelatedChunks g h i j)"
  unfolding ListFiles_def db_GetFile_def GetRawFiles_def DeleteFileChunk_def GetDatasetVersion_def CreateDatasetVersion_def
    UpdateDatasetVersion_def RecoverDatasetVersion_def ListFileChunksByChunks_def DeleteChunks_def db_DeleteFiles_def
    ListRelatedChunks_def ListRelatedChunksForFiles_def Let_def
  by (intro keeps_intros)+

lemma keeps_creates [keeps_intros]:
  "keeps (CreateFiles fs)" "keeps (CreateChunks raws)" "keeps (CreateFileChunks ls)"
  unfolding CreateFiles_def insert_files_def ListFilesByPath_def create_file_row_def CreateChunks_def insert_chunks_def
    ListChunksByHash_def CreateChunk_def create_chunk_row_def db_GetChunk_def CreateFileChunks_def create_link_row_def Let_def
  by (intro keeps_intros)+

lemma keeps_deleteChunks [keeps_intros]: "keeps (deleteChunks st chunks)"
  unfolding deleteChunks_def Let_def by (intro keeps_intros)

lemma keeps_delete_batches: "keeps (delete_batches st n chunks)"
proof (induction st n chunks rule: delete_batches.induct)
  case (1 st n chunks)
  show ?case by (subst delete_batches.simps) (use 1 in \<open>intro keeps_intros, auto\<close>)
qed

lemma keeps_TriggerDeleteChunks [keeps_intros]: "keeps (TriggerDeleteChunks st)"
proof -
  have "keeps (bnd (delete_batches st 250 buf) (\<lambda>k d'. Some (Inr k, d'\<lparr>db_chunksBuf := []\<rparr>)))" for buf
    by (rule keeps_bnd [OF keeps_delete_batches]) (simp add: keeps_def)
  then show ?thesis unfolding TriggerDeleteChunks_def keeps_def by blast
qed

lemma keeps_DeleteFiles [keeps_intros]: "keeps (DeleteFiles st ty ws ds ver pre precise strict)"
  unfolding DeleteFiles_def by (intro keeps_intros)

section \<open>Saving and cloning\<close>

lemma keeps_saving_steps [keeps_intros]:
  "keeps (SaveDatasetVersion dsv)" "keeps (createConnections raws)" "keeps (CheckAndQueueFile dsv f)"
  unfolding SaveDatasetVersion_def createConnections_def CheckAndQueueFile_def ClearExtraChunks_def Let_def
  by (intro keeps_intros)+

lemma keeps_tryFlushBuffer [keeps_intros]: "keeps (tryFlushBuffer st chunk force buffer)"
  unfolding tryFlushBuffer_def Let_def by (intro keeps_intros)

lemma keeps_flush_raws [keeps_intros]: "keeps (flush_raws st raws buffer)"
proof (induction raws arbitrary: buffer)
  case (Cons raw raws)
  then show ?case unfolding flush_raws.simps by (intro keeps_intros)
qed (simp add: keeps_basic)

lemma keeps_receive [keeps_intros]: "keeps (receiveFileToSave st dsv fs sv)"
proof (induction fs arbitrary: sv)
  case Nil
  show ?case unfolding receiveFileToSave.simps flushFileBuffer_def by (intro keeps_intros)
next
  case (Cons f fs)
  then show ?case unfolding receiveFileToSave.simps receive_file_def flushFileBuffer_def Let_def by (intro keeps_intros)
qed

lemma keeps_flushChunksBuffer [keeps_intros]: "keeps (flushChunksBuffer ls)"
  unfolding flushChunksBuffer_def by (intro keeps_intros)

lemma keeps_send_links [keeps_intros]: "keeps (send_links ls buf)"
proof (induction ls arbitrary: buf)
  case (Cons l ls)
  then show ?case unfolding send_links.simps Let_def by (intro keeps_intros)
qed (simp add: keeps_basic)

lemma keeps_clone_files [keeps_intros]: "keeps (clone_files target ver m fs fileBuf fcBuf)"
proof (induction fs arbitrary: fileBuf fcBuf)
  case (Cons f fs)
  then show ?case unfolding clone_files.simps flush_clones_def Let_def by (intro keeps_intros)
qed (simp add: keeps_flushChunksBuffer)

lemma rolled_back:
  "in_tx body d = Some (Inl e, d') \<Longrightarrow> keeps body \<Longrightarrow> db_tables d' = db_tables d \<and> db_saved d' = db_saved d"
  using in_tx_error by (fastforce simp: keeps_def)

section \<open>Paths of chunks of the first version of the layout\<close>

lemma old_path_differs:
  assumes "GetHashedFilename dir h 0 = Some p" and "good_hash h" and "good_hash h'"
  shows "GetHashedFilename dir h' 2 \<noteq> Some p"
proof
  assume "GetHashedFilename dir h' 2 = Some p"
  then have "take 8 h @ ''/'' @ drop 8 h = take 2 h' @ ''/'' @ take 2 (drop 2 h') @ ''/'' @ drop 4 h'"
    using assms by (auto simp: good_hash_def hashed_filename_v0 hashed_filename_v2)
  then have "(take 8 h @ ''/'' @ drop 8 h) ! 2 = (take 2 h' @ ''/'' @ take 2 (drop 2 h') @ ''/'' @ drop 4 h') ! 2" by simp
  then have "h ! 2 = CHR ''/''" using assms(2,3) by (simp add: good_hash_def nth_append)
  then show False using assms(2) nth_mem [of 2 h] by (auto simp: good_hash_def)
qed

section \<open>Samples\<close>

lemma some_pair: "(case x of None \<Rightarrow> False | Some (r, d) \<Rightarrow> P r d) \<Longrightarrow> \<exists>r d. x = Some (r, d) \<and> P r d"
  by (auto split: option.splits)

text \<open>A version with one file of one chunk in the oldest layout.\<close>

definition old_chunk_tables :: tables where
  "old_chunk_tables = \<lparr>
     t_files = [blank_file\<lparr>f_ID := 1, f_Path := ''x'', f_Size := 2, f_Mode := 420, f_DatasetName := ''d'',
                           f_DatasetType := ''dataset'', f_Workspace := ''w'', f_Version := ''1.0.0''\<rparr>],
     t_chunks = [\<lparr>c_ID = 1, c_Hash = ''1122334455'', c_Size = 2, c_Version = 0\<rparr>],
     t_file_chunks = [\<lparr>l_FileID = 1, l_ChunkID = 1, l_Index = 0\<rparr>],
     t_datasets = [], t_dataset_versions = []\<rparr>"

section \<open>Properties\<close>

text \<open>C11: whichever statements fail, a \<^verbatim>\<open>SaveFSToDB\<close> or \<^verbatim>\<open>CloneVersionTo\<close> that returns an error has
  left every table as it was and closed its transaction.\<close>

theorem failed_save_or_clone_changes_no_table:
  "(SaveFSToDB st ds structure version d = Some (Inl e, d') \<longrightarrow> db_tables d' = db_tables d \<and> db_saved d' = db_saved d)
   \<and> (CloneVersionTo st ds target version targetVersion message d = Some (Inl e, d'') \<longrightarrow>
        db_tables d'' = db_tables d \<and> db_saved d'' = db_saved d)"
proof (intro conjI impI)
  assume save: "SaveFSToDB st ds structure version d = Some (Inl e, d')"
  have "db_tables d' = db_tables d \<and> db_saved d' = db_saved d"
    by (rule rolled_back [OF save [unfolded SaveFSToDB_def]]) (intro keeps_intros)
  then show "db_tables d' = db_tables d" "db_saved d' = db_saved d" by simp_all
next
  assume clone: "CloneVersionTo st ds target version targetVersion message d = Some (Inl e, d'')"
  have "db_tables d'' = db_tables d \<and> db_saved d'' = db_saved d"
    by (rule rolled_back [OF clone [unfolded CloneVersionTo_def]]) (intro keeps_intros)
  then show "db_tables d'' = db_tables d" "db_saved d'' = db_saved d" by simp_all
qed

text \<open>The rollback does not reach the deletion queue: cloning from a version that does not exist
  returns an error and leaves the tables, and with them the target version, as they were, but
  the file of a chunk that the target still lists has been queued for removal from the disk.\<close>

theorem failed_clone_loses_chunks:
  "\<exists>d'. CloneVersion (sample_settings_of ''/d'') sample_dataset ''9.9.9'' ''1.0.0'' [] (sample_db old_chunk_tables)
        = Some (Inl Record_Not_Found, d')
     \<and> db_tables d' = old_chunk_tables
     \<and> map_option (map h_Hash \<circ> e_Chunks) (catalog (db_tables d') (dataset_key sample_dataset ''1.0.0'') ''x'') = Some [''1122334455'']
     \<and> GetHashedFilename ''/d'' ''1122334455'' 0 = Some ''/d/11223344/55''
     \<and> ''/d/11223344/55'' \<in> set (db_deleteCh d')"
proof -
  let ?r = "CloneVersion (sample_settings_of ''/d'') sample_dataset ''9.9.9'' ''1.0.0'' [] (sample_db old_chunk_tables)"
  have "case ?r of None \<Rightarrow> False | Some (r, d') \<Rightarrow> r = Inl Record_Not_Found \<and> db_deleteCh d' = [''/d/11223344/55'']"
    by code_simp
  from some_pair [OF this] obtain d' where run: "?r = Some (Inl Record_Not_Found, d')" "db_deleteCh d' = [''/d/11223344/55'']"
    by blast
  have "db_tables d' = db_tables (sample_db old_chunk_tables) \<and> db_saved d' = db_saved (sample_db old_chunk_tables)"
    by (rule rolled_back [OF run(1) [unfolded CloneVersion_def CloneVersionTo_def]]) (intro keeps_intros)
  then have t: "db_tables d' = old_chunk_tables" by (simp add: sample_db_def)
  have "map_option (map h_Hash \<circ> e_Chunks) (catalog old_chunk_tables (dataset_key sample_dataset ''1.0.0'') ''x'') = Some [''1122334455'']"
    by code_simp
  moreover have "GetHashedFilename ''/d'' ''1122334455'' 0 = Some ''/d/11223344/55''" by code_simp
  ultimately show ?thesis using run t by simp
qed


theorem failed_save_or_clone_changes_no_table_witness:
  "\<exists>d'. CloneVersionTo (sample_settings_of ''/d'') sample_dataset sample_dataset ''9.9.9'' ''1.0.0'' [] (sample_db old_chunk_tables)
       = Some (Inl Record_Not_Found, d') \<and> db_tables d' = db_tables (sample_db old_chunk_tables)"
proof -
  let ?r = "CloneVersionTo (sample_settings_of ''/d'') sample_dataset sample_dataset ''9.9.9'' ''1.0.0'' [] (sample_db old_chunk_tables)"
  have "case ?r of None \<Rightarrow> False | Some (r, d') \<Rightarrow> r = Inl Record_Not_Found" by code_simp
  from some_pair [OF this] obtain d' where "?r = Some (Inl Record_Not_Found, d')" by blast
  then show ?thesis using failed_save_or_clone_changes_no_table by blast
qed


end
