(* ===== verification/Manager.thy ===== *)
theory Manager
  imports Datasets
begin

text \<open>
  \<^verbatim>\<open>pkg/datasets/manager.go\<close>: finding, creating, forking and deleting datasets. \<open>hub\<close> says
  whether the manager has a hub; what it pushes there is kept in \<open>db_hub\<close>.
\<close>

definition mgr_ListDatasets :: "string \<Rightarrow> string \<Rightarrow> ('m, dataset_row list) dbm" where
  "mgr_ListDatasets eType workspace = ListDatasets (blank_dataset\<lparr>d_Type := eType, d_Workspace := workspace\<rparr>)"

definition NewDataset :: "string \<Rightarrow> string \<Rightarrow> string \<Rightarrow> ('m, dataset_row) dbm" where
  "NewDataset eType workspace name = attempt (GetDataset eType workspace name) (\<lambda>r.
     case r of
       Inl _ \<Rightarrow> CreateDataset (blank_dataset\<lparr>d_Type := eType, d_Workspace := workspace, d_Name := name\<rparr>)
     | Inr dsDB \<Rightarrow>
         if d_Deleted dsDB then
           bnd (RecoverDataset (dsDB\<lparr>d_Deleted := False\<rparr>)) (\<lambda>_. ret (dsDB\<lparr>d_Deleted := False\<rparr>))
         else ret dsDB)"

text \<open>A dataset that is marked as deleted is found too.\<close>

definition mgr_GetDataset ::
  "settings \<Rightarrow> 'm client option \<Rightarrow> string \<Rightarrow> string \<Rightarrow> string \<Rightarrow> ('m, dataset_row) dbm" where
  "mgr_GetDataset st master eType workspace name = attempt (GetDataset eType workspace name) (\<lambda>r.
     case r of
       Inr datasetDB \<Rightarrow> ret datasetDB
     | Inl err \<Rightarrow>
         (case master of
            Some cl \<Rightarrow>
              if st_HasMasters st then
                bnd (remote (cl_GetEntity cl eType workspace name)) (\<lambda>(_, e).
                  case e of Some e \<Rightarrow> fail e | None \<Rightarrow> NewDataset eType workspace name)
              else fail err
          | None \<Rightarrow> fail err))"

text \<open>\<^verbatim>\<open>strings.Title\<close> on ASCII: a letter after a separator becomes upper case.\<close>

definition is_word_char :: "char \<Rightarrow> bool" where
  "is_word_char c \<longleftrightarrow> (let n = (of_char c :: nat) in
     n = 95 \<or> (48 \<le> n \<and> n \<le> 57) \<or> (65 \<le> n \<and> n \<le> 90) \<or> (97 \<le> n \<and> n \<le> 122) \<or> 128 \<le> n)"

definition upper_char :: "char \<Rightarrow> char" where
  "upper_char c = (let n = (of_char c :: nat) in if 97 \<le> n \<and> n \<le> 122 then char_of (n - 32) else c)"

fun title_from :: "char \<Rightarrow> string \<Rightarrow> string" where
  "title_from prev [] = []"
| "title_from prev (c # cs) = (if is_word_char prev then c else upper_char c) # title_from c cs"

definition go_title :: "string \<Rightarrow> string" where
  "go_title s = title_from (CHR '' '') s"

definition ForkDataset ::
  "(version_info \<Rightarrow> version_info \<Rightarrow> bool) \<Rightarrow> settings \<Rightarrow> 'm client option \<Rightarrow> dataset_info \<Rightarrow> dataset_info
     \<Rightarrow> ('m, dataset_row) dbm" where
  "ForkDataset vless st master src target =
     attempt (GetDataset (di_DType target) (di_Workspace target) (di_Name target)) (\<lambda>r.
       case r of
         Inr _ \<Rightarrow> fail (Status 409 (go_title (di_DType target) @ '' '' @ di_Workspace target @ ''/'' @ di_Name target
                     @ '' already exists. Please delete it first and try again.''))
       | Inl _ \<Rightarrow>
           attempt (mgr_GetDataset st master (di_DType src) (di_Workspace src) (di_Name src)) (\<lambda>r.
             case r of
               Inl _ \<Rightarrow> fail (Status 404 (''Probably '' @ di_DType src @ '' '' @ di_Workspace src @ ''/'' @ di_Name src
                           @ '' doesn't exist''))
             | Inr source \<Rightarrow>
                 bnd (NewDataset (di_DType target) (di_Workspace target) (di_Name target)) (\<lambda>ds.
                 bnd (Versions vless st master source) (\<lambda>sourceVersions.
                 bnd (for_each (\<lambda>ver.
                        if vi_Editing ver then ret ()
                        else bnd (CloneVersionTo st source ds (vi_Version ver) (vi_Version ver) (vi_Message ver))
                               (\<lambda>_. bnd (CommitVersion vless st master ds (vi_Version ver) (vi_Message ver))
                                      (\<lambda>_. ret ())))
                      sourceVersions)
                   (\<lambda>_. ret ds)))))"

definition PushMessageDataset :: "bool \<Rightarrow> dataset_info \<Rightarrow> ('m, unit) dbm" where
  "PushMessageDataset hub ds =
     (if hub then (\<lambda>d. Some (Inr (), d\<lparr>db_hub := db_hub d @ [Msg_Dataset ds]\<rparr>)) else ret ())"

definition PushMessageVersion :: "bool \<Rightarrow> version_info \<Rightarrow> ('m, unit) dbm" where
  "PushMessageVersion hub dsv =
     (if hub then (\<lambda>d. Some (Inr (), d\<lparr>db_hub := db_hub d @ [Msg_Version dsv]\<rparr>)) else ret ())"

text \<open>The text of an error, as \<^verbatim>\<open>%v\<close> prints it.\<close>

fun error_text :: "go_error \<Rightarrow> string" where
  "error_text Io_EOF = ''EOF''"
| "error_text Not_Exist = ''file does not exist''"
| "error_text Record_Not_Found = ''record not found''"
| "error_text Db_Error = ''database error''"
| "error_text (Errorf s) = s"
| "error_text (Status c s) = s"

definition mgr_DeleteDataset ::
  "settings \<Rightarrow> bool \<Rightarrow> 'm client option \<Rightarrow> string \<Rightarrow> string \<Rightarrow> string \<Rightarrow> bool \<Rightarrow> ('m, unit) dbm" where
  "mgr_DeleteDataset st hub master eType workspace name force = attempt (GetDataset eType workspace name) (\<lambda>r.
     case r of
       Inl err \<Rightarrow> fail (Status 404 (go_title eType @ '' '' @ name @ '' not found: '' @ error_text err))
     | Inr ds \<Rightarrow>
         bnd (ListDatasetVersions (blank_version\<lparr>v_Name := name, v_Workspace := workspace, v_Type := eType\<rparr>)) (\<lambda>dsvs.
         bnd (for_each (\<lambda>dsv. bnd (UpdateDatasetVersion (dsv\<lparr>v_Deleted := True\<rparr>)) (\<lambda>_. ret ())) dsvs) (\<lambda>_.
         bnd (UpdateDataset (ds\<lparr>d_Deleted := True\<rparr>)) (\<lambda>_.
         bnd (case master of
                Some cl \<Rightarrow>
                  if st_HasMasters st then bnd (remote (cl_DeleteEntity cl (d_Type ds) workspace name force)) (\<lambda>_. ret ())
                  else ret ()
              | None \<Rightarrow> ret ()) (\<lambda>_.
         bnd (if force then send_gc (''Clean dataset '' @ workspace @ ''/'' @ name) else ret ()) (\<lambda>_.
           PushMessageDataset hub \<lparr>di_Workspace = d_Workspace ds, di_Name = d_Name ds, di_DType = d_Type ds\<rparr>))))))"

end
