(* ===== verification/Gc.thy ===== *)
theory Gc
  imports Manager
begin

text \<open>
  \<^verbatim>\<open>pkg/gc/gc.go\<close>: the collector that removes what is marked as deleted, the sync with the
  master, and the removal of chunk files that the database does not know. The flags that keep
  two runs apart and the timers that start them are left out; a run is one program.
\<close>

section \<open>One run\<close>

definition deleteDataset :: "dataset_row \<Rightarrow> ('m, unit) dbm" where
  "deleteDataset d = attempt (exec (\<lambda>t. t\<lparr>t_dataset_versions :=
       filter (\<lambda>v. \<not> (v_Workspace v = d_Workspace d \<and> v_Name v = d_Name d \<and> v_Type v = d_Type d)) (t_dataset_versions t)\<rparr>))
     (\<lambda>r. case r of Inl _ \<Rightarrow> ret () | Inr _ \<Rightarrow> ignore (db_DeleteDataset (d_ID d)))"

definition deleteDatasetVersion :: "settings \<Rightarrow> dataset_row \<Rightarrow> string \<Rightarrow> ('m, unit) dbm" where
  "deleteDatasetVersion st dataset version =
     bnd (GetRawFiles (d_Type dataset) (d_Workspace dataset) (d_Name dataset) version [] False) (\<lambda>rawFiles.
     bnd (DeleteRelatedFiles (d_Type dataset) (d_Workspace dataset) (d_Name dataset) version) (\<lambda>rows.
     bnd (for_each (\<lambda>raw. CheckAndDeleteChunk (chunk_of_loaded raw)) rawFiles) (\<lambda>_.
     bnd (TriggerDeleteChunks st) (\<lambda>deleted.
       if version \<noteq> [] then
         bnd (GetDatasetVersion (d_Type dataset) (d_Workspace dataset) (d_Name dataset) version)
           (\<lambda>dsv. DeleteDatasetVersion (v_ID dsv))
       else deleteDataset dataset))))"

text \<open>The loop goes on after an error; \<^verbatim>\<open>err\<close> is left as the last turn set it.\<close>

fun each_last_err :: "('a \<Rightarrow> ('m, unit) dbm) \<Rightarrow> 'a list \<Rightarrow> go_error option \<Rightarrow> ('m, go_error option) dbm" where
  "each_last_err body [] err = ret err"
| "each_last_err body (x # xs) err =
     attempt (body x) (\<lambda>r. each_last_err body xs (case r of Inl e \<Rightarrow> Some e | Inr _ \<Rightarrow> None))"

definition endTx :: "go_error option \<Rightarrow> ('m, unit) dbm" where
  "endTx err = (if err \<noteq> None then Rollback else Commit)"

section \<open>The sync with the master\<close>

text \<open>\<^verbatim>\<open>strings.Split(s, "__")\<close>.\<close>

fun split_unders :: "string \<Rightarrow> string list" where
  "split_unders [] = [[]]"
| "split_unders [c] = [[c]]"
| "split_unders (c # d # s) =
     (if c = CHR ''_'' \<and> d = CHR ''_'' then [] # split_unders s
      else (case split_unders (d # s) of [] \<Rightarrow> [[c]] | p # ps \<Rightarrow> (c # p) # ps))"

definition wsAndType :: "string \<Rightarrow> (string \<times> string) option" where
  "wsAndType wsType = (case split_unders wsType of ws # ty # _ \<Rightarrow> Some (ws, ty) | _ \<Rightarrow> None)"

definition localDatasets :: "dataset_row list \<Rightarrow> (string \<times> string list) list" where
  "localDatasets vDatasets = fold (\<lambda>ds m.
     if d_Deleted ds then m
     else let key = d_Workspace ds @ ''__'' @ d_Type ds;
              names = (case map_of m key of None \<Rightarrow> [] | Some ns \<Rightarrow> ns)
          in AList.update key (List.insert (d_Name ds) names) m) vDatasets []"

text \<open>
  Gives no list when the master cannot be asked: the transaction then ends without an error,
  as the error of the call is a variable of the loop. A list that is \<^verbatim>\<open>nil\<close> panics.
\<close>

fun gc_candidates ::
  "'m client option \<Rightarrow> (string \<times> string list) list \<Rightarrow> dataset_info list \<Rightarrow> ('m, dataset_info list option) dbm" where
  "gc_candidates ms [] candidates = ret (Some candidates)"
| "gc_candidates ms ((wsType, slaveDatasets) # rest) candidates =
     bnd (lift_option (wsAndType wsType)) (\<lambda>(ws, eType).
       bnd (on_master ms (\<lambda>cl. cl_ListEntities cl eType ws)) (\<lambda>(remoteDatasets, err).
         case err of
           Some _ \<Rightarrow> ret None
         | None \<Rightarrow>
             bnd (lift_option remoteDatasets) (\<lambda>items.
               gc_candidates ms rest (candidates @
                 map (\<lambda>name. \<lparr>di_Workspace = ws, di_Name = name, di_DType = eType\<rparr>)
                   (filter (\<lambda>name. name \<notin> set (map di_Name items)) slaveDatasets)))))"

definition gcFromMasters :: "settings \<Rightarrow> 'm client option \<Rightarrow> ('m, unit) dbm" where
  "gcFromMasters st ms = bnd Begin (\<lambda>_.
     attempt (bnd (ListDatasets blank_dataset) (\<lambda>vDatasets.
                bnd (gc_candidates ms (localDatasets vDatasets) []) (\<lambda>candidates.
                  case candidates of
                    None \<Rightarrow> ret ()
                  | Some cs \<Rightarrow> for_each (\<lambda>c. mgr_DeleteDataset st False None (di_DType c) (di_Workspace c) (di_Name c) False) cs)))
       (\<lambda>r. endTx (case r of Inl e \<Rightarrow> Some e | Inr _ \<Rightarrow> None)))"

definition GoGC :: "settings \<Rightarrow> 'm client option \<Rightarrow> ('m, unit) dbm" where
  "GoGC st ms = attempt (ListDatasets (blank_dataset\<lparr>d_Deleted := True\<rparr>)) (\<lambda>r.
     case r of
       Inl _ \<Rightarrow> ret ()
     | Inr vDatasets \<Rightarrow>
         bnd Begin (\<lambda>_.
         bnd (each_last_err (\<lambda>ds. deleteDatasetVersion st ds []) vDatasets None) (\<lambda>err.
         bnd (endTx err) (\<lambda>_.
         bnd Begin (\<lambda>_.
         bnd (attempt (ListDatasetVersions (blank_version\<lparr>v_Deleted := True\<rparr>)) (\<lambda>r.
                each_last_err (\<lambda>dsv. deleteDatasetVersion st
                     (blank_dataset\<lparr>d_Workspace := v_Workspace dsv, d_Name := v_Name dsv, d_Type := v_Type dsv\<rparr>) (v_Version dsv))
                  (case r of Inl _ \<Rightarrow> [] | Inr dsvs \<Rightarrow> dsvs) (case r of Inl e \<Rightarrow> Some e | Inr _ \<Rightarrow> None))) (\<lambda>err.
         bnd (endTx err) (\<lambda>_.
           if st_HasMasters st then gcFromMasters st ms else ret ())))))))"

section \<open>Chunk files without a row\<close>

text \<open>
  \<^verbatim>\<open>ClearChunks\<close> gets the files below the data directory, with their sizes, in the order of
  \<^verbatim>\<open>filepath.Walk\<close>. \<^verbatim>\<open>hashMap\<close> collects up to 500 of them.
\<close>

definition raw_of_path :: "string \<Rightarrow> string \<Rightarrow> int \<Rightarrow> raw_file" where
  "raw_of_path hash path sz = \<lparr>r_FileID = 0, r_ChunkID = 0, r_Path = path, r_FileSize = 0, r_ChunkIndex = 0, r_FileMode = 0,
     r_ChunkSize = sz, r_Hash = hash, r_UpdatedAt = 0, r_Version = 0\<rparr>"

definition unknown_files :: "(string \<times> raw_file) list \<Rightarrow> chunk_row list \<Rightarrow> (string \<times> raw_file) list" where
  "unknown_files hashMap chunks = fold (\<lambda>ch m.
     case map_of m (c_Hash ch) of
       Some fromHash \<Rightarrow> if r_ChunkSize fromHash = c_Size ch then AList.delete (c_Hash ch) m else m
     | None \<Rightarrow> m) chunks hashMap"

definition checkAndDelete :: "(string \<times> raw_file) list \<Rightarrow> ('m, unit) dbm" where
  "checkAndDelete hashMap = bnd (ListChunksByUniqueHash (map snd hashMap)) (\<lambda>chunks.
     for_each (\<lambda>(_, v). SendDeletePath (r_Path v)) (unknown_files hashMap chunks))"

fun clear_walk :: "string \<Rightarrow> (string \<times> int) list \<Rightarrow> (string \<times> raw_file) list \<Rightarrow> ('m, unit) dbm" where
  "clear_walk dataDir [] hashMap = checkAndDelete hashMap"
| "clear_walk dataDir ((path, sz) # files) hashMap =
     (let hash = fst (GetHashFromPath dataDir path);
          hashMap' = AList.update hash (raw_of_path hash path sz) hashMap
      in if length hashMap' < 500 then clear_walk dataDir files hashMap'
         else bnd (checkAndDelete hashMap') (\<lambda>_. clear_walk dataDir files []))"

definition ClearChunks :: "settings \<Rightarrow> (string \<times> int) list \<Rightarrow> ('m, unit) dbm" where
  "ClearChunks st files = ignore (clear_walk (st_DataDir st) files [])"

end
