(* ===== verification/Collect.thy ===== *)
theory Collect
  imports Transactions Gc
begin

text \<open>
  What a run of the garbage collector leaves of the catalogue: everything that is not marked as
  deleted.
\<close>

section \<open>One deletion\<close>

lemma attempt_bnd: "attempt (bnd m k) j = attempt m (\<lambda>r. case r of Inl e \<Rightarrow> j (Inl e) | Inr x \<Rightarrow> attempt (k x) j)"
  by (rule ext) (auto simp: attempt_def bnd_def fail_def split: option.split sum.split)

lemma bnd_assoc: "bnd (bnd m k) j = bnd m (\<lambda>x. bnd (k x) j)"
  by (rule ext) (auto simp: attempt_def bnd_def fail_def split: option.split sum.split)

lemma bnd_ret [simp]: "bnd (ret x) k = k x"
  by (rule ext) (simp add: bnd_def attempt_def ret_def)

lemma deleteDatasetVersion_split:
  "deleteDatasetVersion st ds ver =
     bnd (DeleteFiles st (d_Type ds) (d_Workspace ds) (d_Name ds) ver [] False False) (\<lambda>_.
       if ver \<noteq> [] then
         bnd (GetDatasetVersion (d_Type ds) (d_Workspace ds) (d_Name ds) ver) (\<lambda>dsv. DeleteDatasetVersion (v_ID dsv))
       else deleteDataset ds)"
  by (simp add: deleteDatasetVersion_def DeleteFiles_def DeleteRelatedFiles_def bnd_assoc)

text \<open>The rows of datasets and versions, as their keys and the statements that write them keep them.\<close>

definition rows_named :: "tables \<Rightarrow> bool" where
  "rows_named t \<longleftrightarrow> distinct (map d_ID (t_datasets t)) \<and> 0 \<notin> set (map d_ID (t_datasets t))
     \<and> distinct (map v_ID (t_dataset_versions t)) \<and> 0 \<notin> set (map v_ID (t_dataset_versions t))
     \<and> distinct (map dsv_key (t_dataset_versions t)) \<and> (\<forall>v \<in> set (t_dataset_versions t). named_key (dsv_key v))"

text \<open>\<open>gone d d1 K D\<close>: a step that empties the versions in \<open>K\<close> and removes their rows, and the rows of the datasets in \<open>D\<close>.\<close>

definition gone :: "'m db \<Rightarrow> 'm db \<Rightarrow> (version_key \<Rightarrow> bool) \<Rightarrow> nat set \<Rightarrow> bool" where
  "gone d d1 K D \<longleftrightarrow> server_ok d1 \<and> db_saved d1 = db_saved d \<and> db_remote d1 = db_remote d
     \<and> (\<forall>key p. catalog (db_tables d1) key p = (if K key then None else catalog (db_tables d) key p))
     \<and> t_dataset_versions (db_tables d1) = filter (\<lambda>v. \<not> K (dsv_key v)) (t_dataset_versions (db_tables d))
     \<and> t_datasets (db_tables d1) = filter (\<lambda>r. d_ID r \<notin> D) (t_datasets (db_tables d))"

lemma gone_refl: "server_ok d \<Longrightarrow> gone d d (\<lambda>_. False) {}"
  by (simp add: gone_def)

lemma gone_trans:
  assumes "gone a b K D" and "gone b c K' D'"
  shows "gone a c (\<lambda>key. K key \<or> K' key) (D \<union> D')"
proof -
  have "filter (\<lambda>v. \<not> K' (dsv_key v)) (filter (\<lambda>v. \<not> K (dsv_key v)) vs) = filter (\<lambda>v. \<not> (K (dsv_key v) \<or> K' (dsv_key v))) vs" for vs
    by simp
  moreover have "filter (\<lambda>r. d_ID r \<notin> D') (filter (\<lambda>r. d_ID r \<notin> D) rs) = filter (\<lambda>r. d_ID r \<notin> D \<union> D') rs" for rs :: "dataset_row list"
    by (simp add: conj_commute)
  ultimately show ?thesis using assms unfolding gone_def by (simp split del: if_split) (simp split: if_splits)
qed

definition dataset_scope :: "dataset_row \<Rightarrow> version_key" where
  "dataset_scope ds = dataset_key ds []"

lemma tables_only:
  "catalog (t\<lparr>t_datasets := rs\<rparr>) = catalog t" "db_wf (t\<lparr>t_datasets := rs\<rparr>) = db_wf t" "chunks_ok (t\<lparr>t_datasets := rs\<rparr>) = chunks_ok t"
  by (auto simp: catalog_def [abs_def] the_file_def chunk_refs_def links_of_def linked_chunks_def [abs_def] db_wf_def chunks_ok_def)

lemma delete_dataset_run:
  fixes d :: "'m db"
  assumes sok: "server_ok d" and id: "d_ID ds \<noteq> 0"
  shows "\<exists>d1. deleteDatasetVersion st ds [] d = Some (Inr (), d1) \<and> gone d d1 (in_scope (dataset_scope ds)) {d_ID ds}"
proof -
  obtain d1 where run: "DeleteFiles st (d_Type ds) (d_Workspace ds) (d_Name ds) [] [] False False d = Some (Inr (), d1)"
    and d1: "server_ok d1" "rest d1 = rest d"
    and cat: "\<forall>key p. catalog (db_tables d1) key p = (if in_scope (dataset_scope ds) key then None else catalog (db_tables d) key p)"
    using clear_versions [OF sok, of st "d_Type ds" "d_Workspace ds" "d_Name ds" "[]"]
    unfolding dataset_scope_def dataset_key_def by blast
  let ?vs = "filter (\<lambda>v. \<not> in_scope (dataset_scope ds) (dsv_key v)) (t_dataset_versions (db_tables d))"
  let ?rs = "filter (\<lambda>r. d_ID r \<notin> {d_ID ds}) (t_datasets (db_tables d))"
  let ?t2 = "(db_tables d1)\<lparr>t_dataset_versions := ?vs\<rparr>"
  let ?d2 = "d1\<lparr>db_tables := ?t2\<lparr>t_datasets := ?rs\<rparr>\<rparr>"
  have f1: "db_faults d1 = []" using d1(1) by (simp add: server_ok_def)
  have same: "t_dataset_versions (db_tables d1) = t_dataset_versions (db_tables d)" "t_datasets (db_tables d1) = t_datasets (db_tables d)"
    "db_saved d1 = db_saved d" "db_remote d1 = db_remote d" using d1(2) by (simp_all add: rest_def)
  have vP: "(\<lambda>v. \<not> (v_Workspace v = d_Workspace ds \<and> v_Name v = d_Name ds \<and> v_Type v = d_Type ds))
      = (\<lambda>v. \<not> in_scope (dataset_scope ds) (dsv_key v))"
    by (auto simp: in_scope_def dataset_scope_def dataset_key_def dsv_key_def)
  have rP: "(\<lambda>r. \<not> match_dataset (blank_dataset\<lparr>d_ID := d_ID ds\<rparr>) r) = (\<lambda>r. d_ID r \<notin> {d_ID ds})"
    using id by (auto simp: match_dataset_def blank_dataset_def opt_nat_def opt_str_def opt_bool_def)
  have "deleteDataset ds d1 = Some (Inr (), ?d2)"
    unfolding deleteDataset_def vP db_DeleteDataset_def rP
    by (simp add: attempt_def exec_run f1 same ignore_def ret_def)
  then have "deleteDatasetVersion st ds [] d = Some (Inr (), ?d2)"
    using run unfolding deleteDatasetVersion_split by (simp add: bnd_run)
  moreover have "gone d ?d2 (in_scope (dataset_scope ds)) {d_ID ds}"
    unfolding gone_def
  proof (intro conjI allI)
    show "server_ok ?d2" using d1(1) by (simp add: server_ok_def versions_only tables_only)
    show "catalog (db_tables ?d2) key p = (if in_scope (dataset_scope ds) key then None else catalog (db_tables d) key p)" for key p
      using cat [rule_format, of key p] by (simp add: versions_only tables_only)
  qed (simp_all add: same)
  ultimately show ?thesis by blast
qed

lemma delete_version_run:
  fixes d :: "'m db"
  assumes sok: "server_ok d" and named: "rows_named (db_tables d)" and v: "v \<in> set (t_dataset_versions (db_tables d))"
  shows "\<exists>d1. deleteDatasetVersion st (blank_dataset\<lparr>d_Workspace := v_Workspace v, d_Name := v_Name v, d_Type := v_Type v\<rparr>) (v_Version v) d
      = Some (Inr (), d1) \<and> gone d d1 (\<lambda>key. key = dsv_key v) {}"
proof -
  let ?ds = "blank_dataset\<lparr>d_Workspace := v_Workspace v, d_Name := v_Name v, d_Type := v_Type v\<rparr>"
  have key: "named_key (dsv_key v)" using named v by (simp add: rows_named_def)
  then have ver: "v_Version v \<noteq> []" "named_key (v_Workspace v, v_Type v, v_Name v, v_Version v)" by (simp_all add: named_key_def dsv_key_def)
  obtain d1 where run: "DeleteFiles st (v_Type v) (v_Workspace v) (v_Name v) (v_Version v) [] False False d = Some (Inr (), d1)"
    and d1: "server_ok d1" "rest d1 = rest d"
    and cat: "\<forall>key p. catalog (db_tables d1) key p = (if in_scope (dsv_key v) key then None else catalog (db_tables d) key p)"
    using clear_versions [OF sok, of st "v_Type v" "v_Workspace v" "v_Name v" "v_Version v"] unfolding dsv_key_def by blast
  have f1: "db_faults d1 = []" using d1(1) by (simp add: server_ok_def)
  have same: "t_dataset_versions (db_tables d1) = t_dataset_versions (db_tables d)" "t_datasets (db_tables d1) = t_datasets (db_tables d)"
    "db_saved d1 = db_saved d" "db_remote d1 = db_remote d" using d1(2) by (simp_all add: rest_def)
  have "(v_Workspace v, v_Type v, v_Name v, v_Version v) \<in> dsv_key ` set (t_dataset_versions (db_tables d1))"
    using v by (auto simp: same dsv_key_def image_iff)
  from GetDatasetVersion_run [OF f1 ver(2) this] obtain w where
    get: "GetDatasetVersion (v_Type v) (v_Workspace v) (v_Name v) (v_Version v) d1 = Some (Inr w, d1)"
    and w: "w \<in> set (t_dataset_versions (db_tables d))" "dsv_key w = dsv_key v" by (auto simp: same dsv_key_def)
  have "w = v" using named v w by (auto simp: rows_named_def distinct_map inj_on_def)
  have id: "v_ID v \<noteq> 0" using named v by (auto simp: rows_named_def)
  have del: "filter (\<lambda>x. \<not> match_version (blank_version\<lparr>v_ID := v_ID v\<rparr>) x) (t_dataset_versions (db_tables d))
      = filter (\<lambda>x. \<not> dsv_key x = dsv_key v) (t_dataset_versions (db_tables d))"
  proof (rule filter_cong [OF refl])
    fix x assume "x \<in> set (t_dataset_versions (db_tables d))"
    then have "v_ID x = v_ID v \<longleftrightarrow> dsv_key x = dsv_key v" using named v by (auto simp: rows_named_def distinct_map inj_on_def)
    then show "(\<not> match_version (blank_version\<lparr>v_ID := v_ID v\<rparr>) x) = (\<not> dsv_key x = dsv_key v)"
      using id by (auto simp: match_version_def blank_version_def opt_nat_def opt_str_def opt_int_def opt_bool_def)
  qed
  let ?vs = "filter (\<lambda>x. \<not> dsv_key x = dsv_key v) (t_dataset_versions (db_tables d))"
  let ?d2 = "d1\<lparr>db_tables := (db_tables d1)\<lparr>t_dataset_versions := ?vs\<rparr>\<rparr>"
  have "DeleteDatasetVersion (v_ID v) d1 = Some (Inr (), ?d2)"
    using del by (simp add: DeleteDatasetVersion_def exec_run f1 same)
  then have "deleteDatasetVersion st ?ds (v_Version v) d = Some (Inr (), ?d2)"
    using run get ver(1) \<open>w = v\<close> unfolding deleteDatasetVersion_split by (simp add: bnd_run)
  moreover have "gone d ?d2 (\<lambda>key. key = dsv_key v) {}"
    unfolding gone_def
  proof (intro conjI allI)
    show "server_ok ?d2" using d1(1) by (simp add: server_ok_def versions_only)
    show "catalog (db_tables ?d2) key p = (if key = dsv_key v then None else catalog (db_tables d) key p)" for key p
      using cat [rule_format, of key p] in_scope_named [OF key] by (simp add: versions_only)
  qed (simp_all add: same)
  ultimately show ?thesis by blast
qed

section \<open>The two loops\<close>

lemma delete_datasets_run:
  fixes d :: "'m db"
  assumes "server_ok d" and "0 \<notin> d_ID ` set rs"
  shows "\<exists>d1. each_last_err (\<lambda>ds. deleteDatasetVersion st ds []) rs None d = Some (Inr None, d1)
    \<and> gone d d1 (\<lambda>key. \<exists>ds \<in> set rs. in_scope (dataset_scope ds) key) (d_ID ` set rs)"
  using assms
proof (induction rs arbitrary: d)
  case Nil
  then show ?case using gone_refl by (simp add: run_simps)
next
  case (Cons ds rs)
  from Cons.prems have "d_ID ds \<noteq> 0" by auto
  from delete_dataset_run [OF Cons.prems(1) this, of st] obtain d1 where
    d1: "deleteDatasetVersion st ds [] d = Some (Inr (), d1)" "gone d d1 (in_scope (dataset_scope ds)) {d_ID ds}" by blast
  have "server_ok d1" "0 \<notin> d_ID ` set rs" using d1(2) Cons.prems(2) by (simp_all add: gone_def)
  from Cons.IH [OF this] obtain d2 where
    d2: "each_last_err (\<lambda>ds. deleteDatasetVersion st ds []) rs None d1 = Some (Inr None, d2)"
      "gone d1 d2 (\<lambda>key. \<exists>ds \<in> set rs. in_scope (dataset_scope ds) key) (d_ID ` set rs)" by blast
  from gone_trans [OF d1(2) d2(2)] show ?case using d1(1) d2(1) by (auto simp: attempt_def)
qed

lemma gone_rows_named:
  assumes "gone d d1 K D" and "rows_named (db_tables d)"
  shows "rows_named (db_tables d1)"
proof -
  have rows: "t_dataset_versions (db_tables d1) = filter (\<lambda>v. \<not> K (dsv_key v)) (t_dataset_versions (db_tables d))"
    "t_datasets (db_tables d1) = filter (\<lambda>r. d_ID r \<notin> D) (t_datasets (db_tables d))" using assms(1) by (simp_all add: gone_def)
  show ?thesis using assms(2) unfolding rows_named_def rows by (auto simp: distinct_map_filter)
qed

lemma delete_versions_run:
  fixes d :: "'m db"
  assumes "server_ok d" and "rows_named (db_tables d)" and "set vs \<subseteq> set (t_dataset_versions (db_tables d))" and "distinct (map dsv_key vs)"
  shows "\<exists>d1. each_last_err (\<lambda>v. deleteDatasetVersion st
        (blank_dataset\<lparr>d_Workspace := v_Workspace v, d_Name := v_Name v, d_Type := v_Type v\<rparr>) (v_Version v)) vs None d = Some (Inr None, d1)
    \<and> gone d d1 (\<lambda>key. key \<in> dsv_key ` set vs) {}"
  using assms
proof (induction vs arbitrary: d)
  case Nil
  then show ?case using gone_refl by (simp add: run_simps)
next
  case (Cons v vs)
  from Cons.prems(3) have "v \<in> set (t_dataset_versions (db_tables d))" by simp
  from delete_version_run [OF Cons.prems(1,2) this, of st] obtain d1 where
    d1: "deleteDatasetVersion st (blank_dataset\<lparr>d_Workspace := v_Workspace v, d_Name := v_Name v, d_Type := v_Type v\<rparr>) (v_Version v) d
      = Some (Inr (), d1)" "gone d d1 (\<lambda>key. key = dsv_key v) {}" by blast
  have "set vs \<subseteq> set (t_dataset_versions (db_tables d1))"
  proof
    fix w assume w: "w \<in> set vs"
    then have "dsv_key w \<in> dsv_key ` set vs" by (rule imageI)
    then have "dsv_key w \<noteq> dsv_key v" using Cons.prems(4) by auto
    with w show "w \<in> set (t_dataset_versions (db_tables d1))" using d1(2) Cons.prems(3) by (auto simp: gone_def)
  qed
  note sub = this
  have sok: "server_ok d1" using d1(2) by (simp add: gone_def)
  have dist: "distinct (map dsv_key vs)" using Cons.prems(4) by simp
  obtain d2 where
    d2: "each_last_err (\<lambda>v. deleteDatasetVersion st
        (blank_dataset\<lparr>d_Workspace := v_Workspace v, d_Name := v_Name v, d_Type := v_Type v\<rparr>) (v_Version v)) vs None d1 = Some (Inr None, d2)"
      "gone d1 d2 (\<lambda>key. key \<in> dsv_key ` set vs) {}"
    using Cons.IH [OF sok gone_rows_named [OF d1(2) Cons.prems(2)] sub dist] by blast
  from gone_trans [OF d1(2) d2(2)] show ?case using d1(1) d2(1) by (auto simp: attempt_def)
qed

section \<open>A run\<close>

definition marked :: "tables \<Rightarrow> version_key \<Rightarrow> bool" where
  "marked t key \<longleftrightarrow> (\<exists>ds \<in> set (t_datasets t). d_Deleted ds \<and> in_scope (dataset_scope ds) key)
     \<or> (\<exists>v \<in> set (t_dataset_versions t). v_Deleted v \<and> dsv_key v = key)"

lemma list_deleted:
  assumes "db_faults d = []"
  shows "ListDatasets (blank_dataset\<lparr>d_Deleted := True\<rparr>) d = Some (Inr (filter d_Deleted (t_datasets (db_tables d))), d)"
    and "ListDatasetVersions (blank_version\<lparr>v_Deleted := True\<rparr>) d = Some (Inr (filter v_Deleted (t_dataset_versions (db_tables d))), d)"
  using assms
  by (simp_all add: ListDatasets_def ListDatasetVersions_def query_run match_dataset_def match_version_def blank_dataset_def
      blank_version_def opt_nat_def opt_str_def opt_int_def opt_bool_def)

lemma commit_run: "db_faults d = [] \<Longrightarrow> endTx None d = Some (Inr (), d\<lparr>db_saved := tl (db_saved d)\<rparr>)"
  by (simp add: endTx_def Commit_def Let_def)

lemma gone_saved:
  "gone (d\<lparr>db_saved := s\<rparr>) d1 K D \<Longrightarrow> gone d (d1\<lparr>db_saved := db_saved d\<rparr>) K D"
  by (simp add: gone_def server_ok_def)

lemma GoGC_run:
  fixes d :: "'m db"
  assumes sok: "server_ok d" and named: "rows_named (db_tables d)" and alone: "\<not> st_HasMasters st"
  shows "\<exists>d'. GoGC st ms d = Some (Inr (), d') \<and> gone d d' (marked (db_tables d)) (d_ID ` {r \<in> set (t_datasets (db_tables d)). d_Deleted r})"
proof -
  let ?t = "db_tables d" and ?save = "\<lambda>d. d\<lparr>db_saved := db_tables d # db_saved d\<rparr>"
  let ?rs = "filter d_Deleted (t_datasets ?t)"
  let ?K1 = "\<lambda>key. \<exists>ds \<in> set ?rs. in_scope (dataset_scope ds) key"
  have f0: "db_faults d = []" using sok by (simp add: server_ok_def)
  have "server_ok (?save d)" "0 \<notin> d_ID ` set ?rs" using sok named by (auto simp: server_ok_def rows_named_def)
  from delete_datasets_run [OF this, of st] obtain d1 where
    l1: "each_last_err (\<lambda>ds. deleteDatasetVersion st ds []) ?rs None (?save d) = Some (Inr None, d1)"
    and g1: "gone (?save d) d1 ?K1 (d_ID ` set ?rs)" by blast
  let ?d1 = "d1\<lparr>db_saved := db_saved d\<rparr>"
  have g1': "gone d ?d1 ?K1 (d_ID ` set ?rs)" by (rule gone_saved [OF g1])
  have s1: "db_saved d1 = db_tables d # db_saved d" "db_faults d1 = []" using g1 by (simp_all add: gone_def server_ok_def)
  let ?vs = "filter v_Deleted (t_dataset_versions (db_tables d1))"
  have rn1: "rows_named (db_tables d1)" using gone_rows_named [OF g1' named] by simp
  have "server_ok d1" using g1 by (simp add: gone_def)
  then have pre: "server_ok (?save ?d1)" "rows_named (db_tables (?save ?d1))" "set ?vs \<subseteq> set (t_dataset_versions (db_tables (?save ?d1)))"
    using rn1 by (simp_all add: server_ok_def)
  have dvs: "distinct (map dsv_key ?vs)"
    by (rule distinct_map_filter) (use rn1 in \<open>simp add: rows_named_def\<close>)
  from delete_versions_run [OF pre dvs, of st] obtain d2 where
    l2: "each_last_err (\<lambda>v. deleteDatasetVersion st
        (blank_dataset\<lparr>d_Workspace := v_Workspace v, d_Name := v_Name v, d_Type := v_Type v\<rparr>) (v_Version v)) ?vs None (?save ?d1) = Some (Inr None, d2)"
    and g2: "gone (?save ?d1) d2 (\<lambda>key. key \<in> dsv_key ` set ?vs) {}" by blast
  let ?d2 = "d2\<lparr>db_saved := db_saved ?d1\<rparr>"
  have g2': "gone ?d1 ?d2 (\<lambda>key. key \<in> dsv_key ` set ?vs) {}" by (rule gone_saved [OF g2])
  have s2: "db_saved d2 = db_tables d1 # db_saved d" "db_faults d2 = []" using g2 by (simp_all add: gone_def server_ok_def)
  have f1: "db_faults ?d1 = []" "db_faults (?save ?d1) = []" using s1 by simp_all
  have run: "GoGC st ms d = Some (Inr (), ?d2)"
    using l1 l2 s1 s2 alone list_deleted(1) [OF f0] list_deleted(2) [OF f1(2)]
    by (simp add: GoGC_def attempt_def bnd_def Begin_def commit_run ret_def)
  have "marked ?t = (\<lambda>key. ?K1 key \<or> key \<in> dsv_key ` set ?vs)"
  proof
    fix key
    have vs: "set ?vs = {v \<in> set (t_dataset_versions ?t). v_Deleted v \<and> \<not> ?K1 (dsv_key v)}" using g1' by (auto simp: gone_def)
    show "marked ?t key \<longleftrightarrow> ?K1 key \<or> key \<in> dsv_key ` set ?vs" unfolding vs marked_def by auto
  qed
  moreover have "d_ID ` {r \<in> set (t_datasets ?t). d_Deleted r} = d_ID ` set ?rs \<union> {}" by simp
  ultimately show ?thesis using run gone_trans [OF g1' g2'] by (metis (no_types, lifting))
qed

section \<open>Workspaces and types in one key\<close>

abbreviation unders :: string where "unders \<equiv> ''__''"

lemma split_unders_prefix:
  "\<not> sublist unders (ws @ ''_'') \<Longrightarrow> split_unders (ws @ unders @ tail) = ws # split_unders tail"
proof (induction ws rule: split_unders.induct)
  case (3 c d s)
  then have "\<not> (c = CHR ''_'' \<and> d = CHR ''_'')" by (auto simp: sublist_Cons_right)
  moreover from 3 this have "split_unders ((d # s) @ unders @ tail) = (d # s) # split_unders tail" by (auto simp: sublist_Cons_right)
  ultimately show ?case by auto
qed (auto simp: sublist_Cons_right)

lemma split_unders_free: "\<not> sublist unders s \<Longrightarrow> split_unders s = [s]"
proof (induction s rule: split_unders.induct)
  case (3 c d s)
  then have "\<not> (c = CHR ''_'' \<and> d = CHR ''_'')" by (auto simp: sublist_Cons_right)
  moreover from 3 this have "split_unders (d # s) = [d # s]" by (auto simp: sublist_Cons_right)
  ultimately show ?case by auto
qed auto

lemma split_unders_not_Nil: "split_unders s \<noteq> []"
  by (induction s rule: split_unders.induct) (auto split: list.splits)

lemma split_unders_first:
  "split_unders s = p # ps \<Longrightarrow> \<not> sublist unders p \<and> (ps \<noteq> [] \<longrightarrow> \<not> sublist unders (p @ ''_'')) \<and> (p \<noteq> [] \<longrightarrow> hd p = hd s \<and> s \<noteq> [])
     \<and> (p = [] \<and> s \<noteq> [] \<longrightarrow> prefix unders s)"
proof (induction s arbitrary: p ps rule: split_unders.induct)
  case (3 c d s)
  show ?case
  proof (cases "c = CHR ''_'' \<and> d = CHR ''_''")
    case True
    then show ?thesis using 3(3) by (auto simp: sublist_Cons_right)
  next
    case False
    obtain q qs where q: "split_unders (d # s) = q # qs" by (cases "split_unders (d # s)") (simp_all add: split_unders_not_Nil)
    from 3(2) [OF False q] have q': "\<not> sublist unders q" "qs \<noteq> [] \<longrightarrow> \<not> sublist unders (q @ ''_'')" "q \<noteq> [] \<longrightarrow> hd q = d"
      "q = [] \<longrightarrow> prefix unders (d # s)" by auto
    have p: "p = c # q" "ps = qs" using 3(3) False q by auto
    have no: "\<not> prefix unders (c # q @ r)" if "q \<noteq> []" for r using that q'(3) False by (cases q) auto
    have "\<not> sublist unders p" using q'(1) no [of "[]"] p by (cases q) (auto simp: sublist_Cons_right)
    moreover have "\<not> sublist unders (p @ ''_'')" if "ps \<noteq> []"
    proof (cases "q = []")
      case True
      then have "d = CHR ''_''" using q'(4) by auto
      then show ?thesis using False p True by (auto simp: sublist_Cons_right)
    next
      case False
      then show ?thesis using q'(2) no [of "''_''"] p that by (auto simp: sublist_Cons_right)
    qed
    ultimately show ?thesis using p by auto
  qed
qed (auto simp: sublist_Cons_right)

section \<open>Files of chunks without a row\<close>

definition known_file :: "string \<Rightarrow> tables \<Rightarrow> string \<times> int \<Rightarrow> bool" where
  "known_file dataDir t f \<longleftrightarrow> (\<exists>c \<in> set (t_chunks t). c_Hash c = fst (GetHashFromPath dataDir (fst f)) \<and> c_Size c = snd f)"

definition hash_entry :: "string \<Rightarrow> string \<times> int \<Rightarrow> string \<times> raw_file" where
  "hash_entry dataDir f = (fst (GetHashFromPath dataDir (fst f)), raw_of_path (fst (GetHashFromPath dataDir (fst f))) (fst f) (snd f))"

lemma update_new: "k \<notin> fst ` set m \<Longrightarrow> AList.update k v m = m @ [(k, v)]"
  by (induction m) auto

lemma unknown_files_filter:
  "distinct (map fst m) \<Longrightarrow>
   unknown_files m cs = filter (\<lambda>(h, r). \<not> (\<exists>c \<in> set cs. c_Hash c = h \<and> c_Size c = r_ChunkSize r)) m"
proof (induction cs arbitrary: m)
  case Nil
  then show ?case by (simp add: unknown_files_def split_beta)
next
  case (Cons c cs)
  let ?m = "case map_of m (c_Hash c) of
       Some fromHash \<Rightarrow> if r_ChunkSize fromHash = c_Size c then AList.delete (c_Hash c) m else m | None \<Rightarrow> m"
  have m: "?m = filter (\<lambda>(h, r). \<not> (c_Hash c = h \<and> c_Size c = r_ChunkSize r)) m"
  proof (cases "\<exists>r. map_of m (c_Hash c) = Some r \<and> r_ChunkSize r = c_Size c")
    case True
    then obtain r where r: "map_of m (c_Hash c) = Some r" "r_ChunkSize r = c_Size c" by blast
    have one: "h = c_Hash c \<Longrightarrow> (h, b) \<in> set m \<Longrightarrow> b = r" for h b
      using Cons.prems r(1) by (metis map_of_eq_Some_iff option.inject)
    have "(c_Hash c \<noteq> fst p) = (case p of (h, r) \<Rightarrow> \<not> (c_Hash c = h \<and> c_Size c = r_ChunkSize r))" if p: "p \<in> set m" for p
      using one [of "fst p" "snd p"] r(2) p by (cases p) auto
    then have "filter (\<lambda>p. c_Hash c \<noteq> fst p) m = filter (\<lambda>(h, r). \<not> (c_Hash c = h \<and> c_Size c = r_ChunkSize r)) m"
      by (intro filter_cong refl)
    then show ?thesis using r by (simp add: AList.delete_eq split_beta')
  next
    case False
    have "case p of (h, r) \<Rightarrow> \<not> (c_Hash c = h \<and> c_Size c = r_ChunkSize r)" if p: "p \<in> set m" for p
      using False Cons.prems p by (cases p) (auto simp: map_of_eq_Some_iff)
    then have "filter (\<lambda>(h, r). \<not> (c_Hash c = h \<and> c_Size c = r_ChunkSize r)) m = m" by (intro filter_True) blast
    then show ?thesis using False by (auto split: option.split)
  qed
  have "distinct (map fst ?m)" unfolding m using Cons.prems by (rule distinct_map_filter)
  from Cons.IH [OF this] have "unknown_files m (c # cs)
      = filter (\<lambda>(h, r). \<not> (\<exists>c \<in> set cs. c_Hash c = h \<and> c_Size c = r_ChunkSize r)) ?m"
    by (simp add: unknown_files_def)
  then show ?case unfolding m by (auto intro: filter_cong)
qed

lemma send_all:
  "for_each (\<lambda>(_, v). SendDeletePath (r_Path v)) m d = Some (Inr (), d\<lparr>db_deleteCh := db_deleteCh d @ map (r_Path \<circ> snd) m\<rparr>)"
  by (induction m arbitrary: d) (auto simp: run_simps SendDeletePath_def split: prod.splits)

lemma checkAndDelete_run:
  assumes "db_faults d = []" and "fs \<noteq> []" and "distinct (map (\<lambda>f. fst (GetHashFromPath dir (fst f))) fs)"
  shows "checkAndDelete (map (hash_entry dir) fs) d
    = Some (Inr (), d\<lparr>db_deleteCh := db_deleteCh d @ map fst (filter (\<lambda>f. \<not> known_file dir (db_tables d) f) fs)\<rparr>)"
proof -
  let ?m = "map (hash_entry dir) fs" and ?t = "db_tables d"
  let ?cs = "filter (\<lambda>c. c_Hash c \<in> set (map r_Hash (map snd ?m))) (t_chunks ?t)"
  have "distinct (map fst ?m)" using assms(3) by (simp add: hash_entry_def comp_def)
  from unknown_files_filter [OF this, of ?cs]
  have "unknown_files ?m ?cs = map (hash_entry dir) (filter (\<lambda>f. \<not> known_file dir ?t f) fs)"
    by (auto simp: filter_map comp_def hash_entry_def raw_of_path_def known_file_def intro!: arg_cong [where f = "map _"] filter_cong)
  then show ?thesis using assms(1,2)
    by (simp add: checkAndDelete_def ListChunksByUniqueHash_def run_simps send_all comp_def hash_entry_def raw_of_path_def del: set_map filter_filter)
qed

lemma update_buffer:
  assumes "distinct (map (\<lambda>f. fst (GetHashFromPath dir (fst f))) (buf @ (path, sz) # fs))"
  shows "AList.update (fst (GetHashFromPath dir path)) (raw_of_path (fst (GetHashFromPath dir path)) path sz) (map (hash_entry dir) buf)
    = map (hash_entry dir) (buf @ [(path, sz)])"
proof -
  have "fst (GetHashFromPath dir path) \<notin> fst ` set (map (hash_entry dir) buf)"
    using assms by (auto simp: hash_entry_def image_image image_iff)
  from update_new [OF this] show ?thesis by (simp add: hash_entry_def)
qed

lemma clear_walk_run:
  assumes "db_faults d = []" and "distinct (map (\<lambda>f. fst (GetHashFromPath dir (fst f))) (buf @ fs))" and "length buf < 500"
    and "(length buf + length fs) mod 500 \<noteq> 0"
  shows "clear_walk dir fs (map (hash_entry dir) buf) d
    = Some (Inr (), d\<lparr>db_deleteCh := db_deleteCh d @ map fst (filter (\<lambda>f. \<not> known_file dir (db_tables d) f) (buf @ fs))\<rparr>)"
  using assms
proof (induction fs arbitrary: buf d)
  case Nil
  then show ?case by (auto simp: checkAndDelete_run)
next
  case (Cons f fs)
  obtain path sz where f: "f = (path, sz)" by (cases f)
  note upd = update_buffer [OF Cons.prems(2) [unfolded f]]
  show ?case
  proof (cases "length (buf @ [f]) < 500")
    case True
    have "distinct (map (\<lambda>f. fst (GetHashFromPath dir (fst f))) ((buf @ [f]) @ fs))" using Cons.prems(2) by simp
    from Cons.IH [OF Cons.prems(1) this True] Cons.prems(4) True show ?thesis by (simp add: f upd)
  next
    case False
    then have len: "length buf = 499" using Cons.prems(3) by simp
    let ?d1 = "d\<lparr>db_deleteCh := db_deleteCh d @ map fst (filter (\<lambda>f. \<not> known_file dir (db_tables d) f) (buf @ [f]))\<rparr>"
    have dist: "distinct (map (\<lambda>f. fst (GetHashFromPath dir (fst f))) (buf @ [f]))" "distinct (map (\<lambda>f. fst (GetHashFromPath dir (fst f))) ([] @ fs))"
      using Cons.prems(2) by simp_all
    have one: "checkAndDelete (map (hash_entry dir) (buf @ [f])) d = Some (Inr (), ?d1)"
      by (rule checkAndDelete_run) (use Cons.prems(1) dist in simp_all)
    have "(length ([] :: (string \<times> int) list) + length fs) mod 500 \<noteq> 0" using Cons.prems(4) len by simp
    from Cons.IH [of ?d1 "[]", OF _ dist(2) _ this] Cons.prems(1)
    have two: "clear_walk dir fs [] ?d1 = Some (Inr (), ?d1\<lparr>db_deleteCh := db_deleteCh ?d1 @ map fst (filter (\<lambda>f. \<not> known_file dir (db_tables d) f) fs)\<rparr>)"
      by simp
    have "clear_walk dir (f # fs) (map (hash_entry dir) buf) d
        = bnd (checkAndDelete (map (hash_entry dir) (buf @ [f]))) (\<lambda>_. clear_walk dir fs []) d"
      using len by (simp add: f Let_def upd)
    also have "\<dots> = clear_walk dir fs [] ?d1" using one by (simp add: bnd_run)
    finally show ?thesis using two by simp
  qed
qed

lemma checkAndDelete_empty: "checkAndDelete [] d = None"
  by (simp add: checkAndDelete_def ListChunksByUniqueHash_def bnd_def attempt_def crash_def)

lemma clear_walk_panics:
  assumes "db_faults d = []" and "distinct (map (\<lambda>f. fst (GetHashFromPath dir (fst f))) (buf @ fs))" and "length buf < 500"
    and "(length buf + length fs) mod 500 = 0"
  shows "clear_walk dir fs (map (hash_entry dir) buf) d = None"
  using assms
proof (induction fs arbitrary: buf d)
  case Nil
  then show ?case by (simp add: checkAndDelete_empty)
next
  case (Cons f fs)
  obtain path sz where f: "f = (path, sz)" by (cases f)
  note upd = update_buffer [OF Cons.prems(2) [unfolded f]]
  show ?case
  proof (cases "length (buf @ [f]) < 500")
    case True
    have "distinct (map (\<lambda>f. fst (GetHashFromPath dir (fst f))) ((buf @ [f]) @ fs))" using Cons.prems(2) by simp
    from Cons.IH [OF Cons.prems(1) this True] Cons.prems(4) True show ?thesis by (simp add: f upd)
  next
    case False
    then have len: "length buf = 499" using Cons.prems(3) by simp
    let ?d1 = "d\<lparr>db_deleteCh := db_deleteCh d @ map fst (filter (\<lambda>f. \<not> known_file dir (db_tables d) f) (buf @ [f]))\<rparr>"
    have dist: "distinct (map (\<lambda>f. fst (GetHashFromPath dir (fst f))) (buf @ [f]))" "distinct (map (\<lambda>f. fst (GetHashFromPath dir (fst f))) ([] @ fs))"
      using Cons.prems(2) by simp_all
    have one: "checkAndDelete (map (hash_entry dir) (buf @ [f])) d = Some (Inr (), ?d1)"
      by (rule checkAndDelete_run) (use Cons.prems(1) dist in simp_all)
    have "(length ([] :: (string \<times> int) list) + length fs) mod 500 = 0" using Cons.prems(4) len by simp
    from Cons.IH [of ?d1 "[]", OF _ dist(2) _ this] Cons.prems(1)
    have "clear_walk dir fs [] ?d1 = None" by simp
    moreover have "clear_walk dir (f # fs) (map (hash_entry dir) buf) d
        = bnd (checkAndDelete (map (hash_entry dir) (buf @ [f]))) (\<lambda>_. clear_walk dir fs []) d"
      using len by (simp add: f Let_def upd)
    ultimately show ?thesis using one by (simp add: bnd_run)
  qed
qed

section \<open>Properties\<close>

text \<open>C14: a run of the collector without masters and without failing statements ends without error,
  removes all files of the datasets and versions that are marked as deleted and their rows,
  leaves every other version with every file, size, mode and chunk it had, and keeps the tables
  well formed.\<close>

theorem collector_removes_exactly_what_is_marked:
  assumes "server_ok d" and "rows_named (db_tables d)" and "\<not> st_HasMasters st"
  shows "\<exists>d'. GoGC st ms d = Some (Inr (), d') \<and> server_ok d'
    \<and> (\<forall>key path. catalog (db_tables d') key path = (if marked (db_tables d) key then None else catalog (db_tables d) key path))
    \<and> t_datasets (db_tables d') = filter (\<lambda>ds. \<not> d_Deleted ds) (t_datasets (db_tables d))
    \<and> t_dataset_versions (db_tables d') = filter (\<lambda>v. \<not> marked (db_tables d) (dsv_key v)) (t_dataset_versions (db_tables d))"
proof -
  let ?rs = "t_datasets (db_tables d)"
  obtain d' where run: "GoGC st ms d = Some (Inr (), d')"
    and gone: "gone d d' (marked (db_tables d)) (d_ID ` {r \<in> set ?rs. d_Deleted r})" using GoGC_run [OF assms] by blast
  have "filter (\<lambda>r. d_ID r \<notin> d_ID ` {r \<in> set ?rs. d_Deleted r}) ?rs = filter (\<lambda>ds. \<not> d_Deleted ds) ?rs"
    by (rule filter_cong) (use assms(2) in \<open>auto simp: rows_named_def distinct_map inj_on_def\<close>)
  then show ?thesis using run gone by (simp add: gone_def)
qed

text \<open>C31: the collector's key of workspace and type is read back exactly when neither of them has two
  underscores in a row and the workspace does not end with one; otherwise the master is asked
  for another workspace or type.\<close>

theorem ws_and_type_roundtrip:
  "wsAndType (ws @ ''__'' @ ty) = Some (ws, ty) \<longleftrightarrow> \<not> sublist ''__'' (ws @ ''_'') \<and> \<not> sublist ''__'' ty"
proof
  assume "wsAndType (ws @ ''__'' @ ty) = Some (ws, ty)"
  then obtain qs where s: "split_unders (ws @ ''__'' @ ty) = ws # ty # qs" by (auto simp: wsAndType_def split: list.splits)
  from split_unders_first [OF s] have ws: "\<not> sublist ''__'' (ws @ ''_'')" by auto
  then have "split_unders ty = ty # qs" using split_unders_prefix [OF ws, of ty] s by simp
  from split_unders_first [OF this] show "\<not> sublist ''__'' (ws @ ''_'') \<and> \<not> sublist ''__'' ty" using ws by auto
next
  assume "\<not> sublist ''__'' (ws @ ''_'') \<and> \<not> sublist ''__'' ty"
  then show "wsAndType (ws @ ''__'' @ ty) = Some (ws, ty)"
    using split_unders_prefix [of ws ty] split_unders_free [of ty] by (simp add: wsAndType_def)
qed


text \<open>The sample has two versions, one marked as deleted.\<close>

definition collected_db :: "unit db" where
  "collected_db = sample_db (sample_tables\<lparr>t_dataset_versions := [sample_version\<lparr>v_Deleted := True\<rparr>,
     sample_version\<lparr>v_ID := 2, v_Version := ''2.0.0''\<rparr>]\<rparr>)"

theorem collector_removes_exactly_what_is_marked_witness:
  "\<exists>d'. GoGC (sample_settings_of ''/d'') None collected_db = Some (Inr (), d')
     \<and> catalog (db_tables d') (''w'', ''dataset'', ''d'', ''1.0.0'') ''a/x'' = None
     \<and> map v_Version (t_dataset_versions (db_tables d')) = [''2.0.0'']"
proof -
  have sok: "server_ok collected_db" using sample_server_ok by (simp add: server_ok_def collected_db_def sample_db_def versions_only)
  have t: "db_tables collected_db = sample_tables\<lparr>t_dataset_versions := [sample_version\<lparr>v_Deleted := True\<rparr>,
     sample_version\<lparr>v_ID := 2, v_Version := ''2.0.0''\<rparr>]\<rparr>" by (simp add: collected_db_def sample_db_def)
  have named: "rows_named (db_tables collected_db)" "\<not> st_HasMasters (sample_settings_of ''/d'')"
    by (simp_all add: t rows_named_def sample_tables_def sample_version_def dsv_key_def named_key_def blank_version_def sample_settings_of_def)
  have m: "marked (db_tables collected_db) (''w'', ''dataset'', ''d'', ''1.0.0'')" "\<not> marked (db_tables collected_db) (''w'', ''dataset'', ''d'', ''2.0.0'')"
    by (simp_all add: t marked_def sample_tables_def sample_version_def dsv_key_def blank_version_def)
  obtain d' where run: "GoGC (sample_settings_of ''/d'') None collected_db = Some (Inr (), d')"
    and cat: "\<forall>key path. catalog (db_tables d') key path
       = (if marked (db_tables collected_db) key then None else catalog (db_tables collected_db) key path)"
    and vs: "t_dataset_versions (db_tables d') = filter (\<lambda>v. \<not> marked (db_tables collected_db) (dsv_key v)) (t_dataset_versions (db_tables collected_db))"
    using collector_removes_exactly_what_is_marked [OF sok named, of None] by blast
  have "catalog (db_tables d') (''w'', ''dataset'', ''d'', ''1.0.0'') ''a/x'' = None"
    using cat [rule_format, of "(''w'', ''dataset'', ''d'', ''1.0.0'')" "''a/x''"] m(1) by simp
  moreover have "map v_Version (t_dataset_versions (db_tables d')) = [''2.0.0'']"
  proof -
    have keys: "dsv_key (sample_version\<lparr>v_Deleted := True\<rparr>) = (''w'', ''dataset'', ''d'', ''1.0.0'')"
      "dsv_key (sample_version\<lparr>v_ID := 2, v_Version := ''2.0.0''\<rparr>) = (''w'', ''dataset'', ''d'', ''2.0.0'')"
      by (simp_all add: sample_version_def dsv_key_def)
    have rows: "t_dataset_versions (db_tables collected_db)
        = [sample_version\<lparr>v_Deleted := True\<rparr>, sample_version\<lparr>v_ID := 2, v_Version := ''2.0.0''\<rparr>]" by (simp add: t)
    show ?thesis unfolding vs rows filter.simps keys by (simp only: m if_True if_False not_True_eq_False not_False_eq_True list.map) simp
  qed
  ultimately show ?thesis using run by (intro exI [of _ d'] conjI)
qed


end
