(* ===== verification/Tools.thy ===== *)
theory Tools
  imports Collect
begin

text \<open>
  The maintenance programs \<^verbatim>\<open>cmd/update_chunks\<close> and \<^verbatim>\<open>cmd/delete_wrong_chunks\<close>. The files below the data
  directory are given with their sizes, in the order of \<^verbatim>\<open>filepath.Walk\<close>.
\<close>

definition update_chunk_size :: "string \<times> int \<Rightarrow> ('m, unit) dbm" where
  "update_chunk_size f = (case f of (path, sz) \<Rightarrow>
     let hash = remove_char (CHR ''/'') (trim_prefix path ''/data/'') in
     exec (\<lambda>t. t\<lparr>t_chunks := map (\<lambda>c. if c_Hash c = hash then c\<lparr>c_Size := sz\<rparr> else c) (t_chunks t)\<rparr>))"

definition update_chunks :: "(string \<times> int) list \<Rightarrow> ('m, unit) dbm" where
  "update_chunks files = in_tx (for_each update_chunk_size files)"

definition delete_wrong_chunks :: "settings \<Rightarrow> (string \<times> int) list \<Rightarrow> ('m, unit) dbm" where
  "delete_wrong_chunks st files = ClearChunks st files"

text \<open>What a statement leaves when none fails; when one fails, the tables are as they were.\<close>

lemma update_chunk_size_run:
  "db_faults d = [] \<Longrightarrow> update_chunk_size (path, sz) d = Some (Inr (), d\<lparr>db_tables := (db_tables d)\<lparr>t_chunks :=
     map (\<lambda>c. if c_Hash c = remove_char (CHR ''/'') (trim_prefix path ''/data/'') then c\<lparr>c_Size := sz\<rparr> else c) (t_chunks (db_tables d))\<rparr>\<rparr>)"
  by (simp add: update_chunk_size_def exec_run Let_def)

lemma update_chunks_rolls_back:
  "update_chunks files d = Some (Inl e, d') \<Longrightarrow> db_tables d' = db_tables d \<and> db_saved d' = db_saved d"
  unfolding update_chunks_def
  by (rule rolled_back) (auto simp: update_chunk_size_def Let_def intro!: keeps_for_each keeps_basic split: prod.splits)

end
