(* ===== verification/Tar.thy ===== *)
theory Tar
  imports VersionFS
begin

text \<open>
  Downloads as a tar archive: \<^verbatim>\<open>pkg/datasets/targz.go\<close> and \<^verbatim>\<open>TarSize\<close> of
  \<^verbatim>\<open>pkg/datasets/dataset.go\<close>, with what they use of \<^verbatim>\<open>archive/tar\<close>. The archive is the
  list of what the writer emits; \<open>item_len\<close> is the number of bytes of each.
\<close>

section \<open>The size that is announced\<close>

text \<open>\<^verbatim>\<open>name\<close> is the path without a leading slash; hidden names and the root are skipped.\<close>

definition tar_name :: "string \<Rightarrow> string" where
  "tar_name path = trim_prefix path ''/''"

definition tar_skips :: "string \<Rightarrow> bool" where
  "tar_skips path \<longleftrightarrow> prefix ''.'' (tar_name path) \<or> path = ''/''"

definition tar_size_step :: "string \<Rightarrow> chunked_file \<Rightarrow> int \<Rightarrow> int" where
  "tar_size_step path f sz =
     (if tar_skips path \<or> cf_Dir f then sz
      else let sz1 = wrap64 (sz + 512);
               sz2 = wrap64 (sz1 + cf_Size f)
           in if go_rem (cf_Size f) 512 \<noteq> 0 then wrap64 (sz2 + (512 - go_rem (cf_Size f) 512)) else sz2)"

definition TarSize :: "fs \<Rightarrow> (int \<times> go_error option) option" where
  "TarSize fs = map_option (\<lambda>(err, sz). (wrap64 (sz + 512 * 2), err))
     (Walk (\<lambda>path f sz. Some (None, tar_size_step path f sz)) fs ''/'' 0)"

section \<open>The writer\<close>

record tar_header =
  th_Name :: string
  th_Mode :: nat
  th_Size :: int
  th_ModTime :: int

datatype tar_item = THeader tar_header | TData "byte list" | TPad int | TEnd

record tar_writer =
  tw_items :: "tar_item list"
  tw_left :: int
  tw_pad :: int

definition tar_NewWriter :: tar_writer where
  "tar_NewWriter = \<lparr>tw_items = [], tw_left = 0, tw_pad = 0\<rparr>"

definition pad512 :: "int \<Rightarrow> int" where
  "pad512 n = (- n) mod 512"

text \<open>
  The formats of \<^verbatim>\<open>archive/tar\<close>. USTAR takes ASCII names of up to 100 characters, or ones that
  split at a slash into a prefix of up to 155 and a rest of up to 100, sizes below 8 GiB and
  modes of seven octal digits. A name or a size that does not fit goes into a PAX record in an
  extra header of its own, a mode that does not fit makes the format GNU.
\<close>

definition ascii_name :: "string \<Rightarrow> bool" where
  "ascii_name s \<longleftrightarrow> list_all (\<lambda>c. 0 < (of_char c :: nat) \<and> (of_char c :: nat) < 128) s"

definition ustar_split :: "string \<Rightarrow> bool" where
  "ustar_split s \<longleftrightarrow> list_ex (\<lambda>i. s ! i = CHR ''/'' \<and> 0 < i \<and> i \<le> 155 \<and> length s - Suc i \<le> 100 \<and> Suc i < length s)
                      [0..<length s]"

definition ustar_name :: "string \<Rightarrow> bool" where
  "ustar_name s \<longleftrightarrow> ascii_name s \<and> (length s \<le> 100 \<or> ustar_split s)"

definition ustar_size :: "int \<Rightarrow> bool" where
  "ustar_size n \<longleftrightarrow> 0 \<le> n \<and> n < 8 ^ 11"

definition ustar_mode :: "nat \<Rightarrow> bool" where
  "ustar_mode m \<longleftrightarrow> m < 8 ^ 7"

text \<open>The length of the PAX record \<^verbatim>\<open>"<len> <key>=<value>\n"\<close>, its own digits included.\<close>

definition pax_record_len :: "string \<Rightarrow> string \<Rightarrow> int" where
  "pax_record_len k v =
     (let base = length k + length v + 3;
          n1 = base + length (show_nat base)
      in int (base + length (show_nat n1)))"

definition pax_records_len :: "tar_header \<Rightarrow> int" where
  "pax_records_len h = (if ustar_name (th_Name h) then 0 else pax_record_len ''path'' (th_Name h))
                     + (if ustar_size (th_Size h) then 0 else pax_record_len ''size'' (show_int (th_Size h)))"

definition header_len :: "tar_header \<Rightarrow> int" where
  "header_len h =
     (if ustar_mode (th_Mode h) then
        let n = pax_records_len h in if n = 0 then 512 else 512 + n + pad512 n + 512
      else if length (th_Name h) \<le> 100 then 512
      else 512 + (int (length (th_Name h)) + 1) + pad512 (int (length (th_Name h)) + 1) + 512)"

fun item_len :: "tar_item \<Rightarrow> int" where
  "item_len (THeader h) = header_len h"
| "item_len (TData bs) = int (length bs)"
| "item_len (TPad n) = n"
| "item_len TEnd = 1024"

definition tar_len :: "tar_item list \<Rightarrow> int" where
  "tar_len items = sum_list (map item_len items)"

definition tar_Flush :: "tar_writer \<Rightarrow> tar_writer res" where
  "tar_Flush w =
     (if 0 < tw_left w then Inl (Errorf (''archive/tar: missed writing '' @ show_int (tw_left w) @ '' bytes''))
      else Inr (w\<lparr>tw_items := tw_items w @ (if tw_pad w = 0 then [] else [TPad (tw_pad w)]), tw_pad := 0\<rparr>))"

definition tar_WriteHeader :: "tar_header \<Rightarrow> tar_writer \<Rightarrow> go_error option \<times> tar_writer" where
  "tar_WriteHeader h w =
     (case tar_Flush w of
        Inl e \<Rightarrow> (Some e, w)
      | Inr w1 \<Rightarrow>
          if th_Size h < 0 \<or> CHR 0x00 \<in> set (th_Name h) then (Some (Errorf ''archive/tar: cannot encode header''), w1)
          else (None, w1\<lparr>tw_items := tw_items w1 @ [THeader h], tw_left := th_Size h, tw_pad := pad512 (th_Size h)\<rparr>))"

definition tar_Write :: "byte list \<Rightarrow> tar_writer \<Rightarrow> go_error option \<times> tar_writer" where
  "tar_Write bs w =
     (if tw_left w < int (length bs)
      then (Some (Errorf ''archive/tar: write too long''),
            w\<lparr>tw_items := tw_items w @ [TData (take (nat (tw_left w)) bs)], tw_left := 0\<rparr>)
      else (None, w\<lparr>tw_items := tw_items w @ [TData bs], tw_left := tw_left w - int (length bs)\<rparr>))"

definition tar_Close :: "tar_writer \<Rightarrow> tar_writer" where
  "tar_Close w = (case tar_Flush w of Inl _ \<Rightarrow> w | Inr w1 \<Rightarrow> w1\<lparr>tw_items := tw_items w1 @ [TEnd]\<rparr>)"

section \<open>Writing the archive\<close>

record 'w tar_state =
  ts_writer :: tar_writer
  ts_prevName :: string
  ts_world :: 'w

text \<open>\<^verbatim>\<open>io.Copy\<close> reads with a buffer of 32 KiB.\<close>

definition write_tar_file :: "'w fetch \<Rightarrow> string \<Rightarrow> chunked_file \<Rightarrow> 'w tar_state step" where
  "write_tar_file fetch path f s =
     (if tar_skips path \<or> cf_Dir f then Some (None, s)
      else case tar_WriteHeader \<lparr>th_Name = tar_name path, th_Mode = cf_Mode f, th_Size = cf_Size f, th_ModTime = cf_ModTime f\<rparr>
                  (ts_writer s) of
             (Some e, tw) \<Rightarrow> Some (Some (Errorf (''Failed write file '' @ ts_prevName s)), s\<lparr>ts_writer := tw\<rparr>)
           | (None, tw) \<Rightarrow>
               (case io_copy (ChunkedFile_reader fetch) 32768 (f, ts_world s) [] of
                  None \<Rightarrow> None
                | Some (bs, err, (f', w')) \<Rightarrow>
                    (case tar_Write bs tw of
                       (werr, tw') \<Rightarrow>
                         if werr \<noteq> None \<or> err \<noteq> None
                         then Some (Some (Errorf (''Failed write file '' @ tar_name path)),
                                    s\<lparr>ts_writer := tw', ts_world := w'\<rparr>)
                         else Some (None, s\<lparr>ts_writer := tw', ts_prevName := tar_name path, ts_world := w'\<rparr>))))"

definition WriteTar :: "'w fetch \<Rightarrow> fs \<Rightarrow> 'w \<Rightarrow> (go_error option \<times> tar_item list \<times> 'w) option" where
  "WriteTar fetch fs w = map_option (\<lambda>(err, s). (err, tw_items (tar_Close (ts_writer s)), ts_world s))
     (Walk (write_tar_file fetch) fs ''/'' \<lparr>ts_writer = tar_NewWriter, ts_prevName = [], ts_world = w\<rparr>)"

definition Download :: "'w fetch \<Rightarrow> fs \<Rightarrow> 'w \<Rightarrow> (go_error option \<times> tar_item list \<times> 'w) option" where
  "Download fetch fs w = WriteTar fetch (fs_Clone fs) w"

section \<open>Facts\<close>

text \<open>The files that go into the archive.\<close>

definition tar_takes :: "string \<times> chunked_file \<Rightarrow> bool" where
  "tar_takes v \<longleftrightarrow> \<not> tar_skips (fst v) \<and> \<not> cf_Dir (snd v)"

definition tar_files :: "fs \<Rightarrow> (string \<times> chunked_file) list" where
  "tar_files fs = filter tar_takes (visits fs)"

definition header_of :: "string \<times> chunked_file \<Rightarrow> tar_header" where
  "header_of v = \<lparr>th_Name = tar_name (fst v), th_Mode = cf_Mode (snd v), th_Size = cf_Size (snd v),
                  th_ModTime = cf_ModTime (snd v)\<rparr>"

definition block_len :: "string \<times> chunked_file \<Rightarrow> int" where
  "block_len v = 512 + cf_Size (snd v) + pad512 (cf_Size (snd v))"

lemma pad512_bounds: "0 \<le> pad512 n \<and> pad512 n < 512"
  by (simp add: pad512_def)

lemma pad512_rem: "0 \<le> n \<Longrightarrow> pad512 n = (if go_rem n 512 \<noteq> 0 then 512 - go_rem n 512 else 0)"
  by (simp add: go_rem_nonneg pad512_def zmod_zminus1_eq_if)

lemma tar_size_step_adds:
  assumes "0 \<le> cf_Size (snd v)" and "0 \<le> sz" and "sz + block_len v < 2 ^ 62"
  shows "tar_size_step (fst v) (snd v) sz = (if tar_takes v then sz + block_len v else sz)"
proof -
  note pb = pad512_bounds [of "cf_Size (snd v)"]
  have a: "wrap64 (sz + 512) = sz + 512" "wrap64 (sz + 512 + cf_Size (snd v)) = sz + 512 + cf_Size (snd v)"
    "wrap64 (sz + 512 + cf_Size (snd v) + pad512 (cf_Size (snd v))) = sz + 512 + cf_Size (snd v) + pad512 (cf_Size (snd v))"
    using assms pb by (intro wrap64_id, simp add: in64_def block_len_def)+
  show ?thesis
    using a pad512_rem [OF assms(1)]
    by (auto simp: tar_size_step_def tar_takes_def block_len_def Let_def split: if_splits)
qed

lemma block_len_nonneg: "0 \<le> cf_Size (snd v) \<Longrightarrow> 0 \<le> block_len v"
  using pad512_bounds [of "cf_Size (snd v)"] by (simp add: block_len_def)

lemma sum_block_nonneg: "\<forall>v \<in> set vs. 0 \<le> cf_Size (snd v) \<Longrightarrow> 0 \<le> sum_list (map block_len vs)"
  by (induction vs) (auto intro: add_nonneg_nonneg block_len_nonneg)

lemma foldl_tar_size:
  "\<forall>v \<in> set (filter tar_takes vs). 0 \<le> cf_Size (snd v) \<Longrightarrow> 0 \<le> sz \<Longrightarrow>
   sz + sum_list (map block_len (filter tar_takes vs)) < 2 ^ 62 \<Longrightarrow>
   foldl (\<lambda>s (p, f). tar_size_step p f s) sz vs = sz + sum_list (map block_len (filter tar_takes vs))"
proof (induction vs arbitrary: sz)
  case (Cons v vs)
  show ?case
  proof (cases "tar_takes v")
    case True
    have n: "0 \<le> sum_list (map block_len (filter tar_takes vs))"
      using Cons.prems(1) by (intro sum_block_nonneg) auto
    have "0 \<le> cf_Size (snd v)" using Cons.prems(1) True by simp
    moreover from this have "tar_size_step (fst v) (snd v) sz = sz + block_len v"
      using tar_size_step_adds [of v sz] Cons.prems True n by simp
    ultimately show ?thesis
      using Cons.IH [of "sz + block_len v"] Cons.prems True block_len_nonneg [of v]
      by (simp add: case_prod_unfold add.assoc)
  next
    case False
    then have "tar_size_step (fst v) (snd v) sz = sz" by (auto simp: tar_size_step_def tar_takes_def)
    then show ?thesis using Cons.IH [of sz] Cons.prems False by (simp add: case_prod_unfold)
  qed
qed simp

lemma Walk_root: "fs_Root fs = ''/'' \<Longrightarrow> Walk cb fs ''/'' = run_visits cb (visits fs)"
  using walk_dir_is_Walk [of cb fs] walk_dir_visits(1) [of cb fs] by simp

lemma TarSize_sum:
  assumes "fs_Root fs = ''/''" and "\<forall>v \<in> set (tar_files fs). 0 \<le> cf_Size (snd v)"
    and "sum_list (map block_len (tar_files fs)) < 2 ^ 61"
  shows "TarSize fs = Some (sum_list (map block_len (tar_files fs)) + 1024, None)"
proof -
  have "0 \<le> sum_list (map block_len (tar_files fs))" using assms(2) by (rule sum_block_nonneg)
  then have "wrap64 (sum_list (map block_len (tar_files fs)) + 1024) = sum_list (map block_len (tar_files fs)) + 1024"
    using assms(3) by (intro wrap64_id) (simp add: in64_def)
  moreover have "foldl (\<lambda>s (p, f). tar_size_step p f s) 0 (visits fs) = sum_list (map block_len (tar_files fs))"
    using foldl_tar_size [of "visits fs" 0] assms(2,3) by (simp add: tar_files_def)
  ultimately show ?thesis
    using run_visits_pure [of "\<lambda>p f s. tar_size_step p f s" "visits fs" 0]
    by (simp add: TarSize_def Walk_root [OF assms(1)])
qed

lemma visits_Clone: "tar_files (fs_Clone fs) = map (\<lambda>(p, f). (p, ChunkedFile_Clone f)) (tar_files fs)"
proof (induction fs rule: fs_Clone.induct)
  case (1 r a ds fls t)
  have d: "filter tar_takes (concat (map (\<lambda>(k, d). visits d) (map (\<lambda>(k, d). (k, fs_Clone d)) xs)))
      = map (\<lambda>(p, f). (p, ChunkedFile_Clone f)) (filter tar_takes (concat (map (\<lambda>(k, d). visits d) xs)))"
    if "set xs \<subseteq> set ds" for xs
    using that
  proof (induction xs)
    case (Cons x xs)
    have "x \<in> set ds" using Cons.prems by simp
    from 1 [OF this, of "fst x" "snd x"] Cons show ?case
      by (simp add: tar_files_def case_prod_unfold)
  qed simp
  have f: "filter tar_takes (map (\<lambda>(k, f). (path_join [r, cf_Name f], f)) (map (\<lambda>(k, f). (k, ChunkedFile_Clone f)) xs))
      = map (\<lambda>(p, f). (p, ChunkedFile_Clone f)) (filter tar_takes (map (\<lambda>(k, f). (path_join [r, cf_Name f], f)) xs))" for xs
    by (induction xs) (auto simp: tar_takes_def simp del: path_join.simps)
  have "\<not> tar_takes (r, dirObj r t)" by (simp add: tar_takes_def dirObj_def new_file_def)
  then show ?case using d [OF subset_refl] f [of fls] by (simp add: tar_files_def)
qed

section \<open>The archive that is written\<close>

definition pad_items :: "int \<Rightarrow> tar_item list" where
  "pad_items n = (if n = 0 then [] else [TPad n])"

text \<open>The items of the given files, after padding of \<open>pad\<close> bytes that is still owed.\<close>

fun tar_emit :: "(chunked_file \<Rightarrow> byte list) \<Rightarrow> int \<Rightarrow> (string \<times> chunked_file) list \<Rightarrow> tar_item list" where
  "tar_emit content pad [] = pad_items pad @ [TEnd]"
| "tar_emit content pad (v # vs) =
     pad_items pad @ [THeader (header_of v), TData (content (snd v))]
       @ tar_emit content (pad512 (cf_Size (snd v))) vs"

text \<open>What an archive holds: names and contents.\<close>

fun tar_entries :: "tar_item list \<Rightarrow> (string \<times> byte list) list" where
  "tar_entries (THeader h # TData bs # items) = (th_Name h, bs) # tar_entries items"
| "tar_entries (i # items) = tar_entries items"
| "tar_entries [] = []"

lemma tar_entries_emit:
  "tar_entries (tar_emit content pad vs) = map (\<lambda>v. (tar_name (fst v), content (snd v))) vs"
  by (induction vs arbitrary: pad) (auto simp: pad_items_def header_of_def)

lemma tar_len_emit:
  "\<forall>v \<in> set vs. cf_Size (snd v) = int (length (content (snd v))) \<Longrightarrow>
   tar_len (tar_emit content pad vs) = pad + 1024 + sum_list (map block_len vs)
     + sum_list (map (\<lambda>v. header_len (header_of v) - 512) vs)"
  by (induction vs arbitrary: pad) (auto simp: tar_len_def pad_items_def block_len_def)

text \<open>A file that can be served: its chunks are stored and it has a name the writer accepts.\<close>

definition tar_ok :: "'m node \<Rightarrow> string \<times> chunked_file \<Rightarrow> bool" where
  "tar_ok nd v \<longleftrightarrow> file_stored nd (snd v) \<and> CHR 0x00 \<notin> set (fst v)"

lemma no_nul_name: "CHR 0x00 \<notin> set p \<Longrightarrow> CHR 0x00 \<notin> set (tar_name p)"
  by (auto simp: tar_name_def trim_prefix_def dest: in_set_dropD)

lemma write_one:
  fixes nd :: "'m node" and ms :: "'m master"
  assumes "tar_ok nd v" and "tar_takes v" and "tw_left w = 0"
  shows "\<exists>prev'. write_tar_file (GetChunk (standalone st) ms) (fst v) (ChunkedFile_Clone (snd v))
            \<lparr>ts_writer = w, ts_prevName = prev, ts_world = nd\<rparr>
     = Some (None, \<lparr>ts_writer = \<lparr>tw_items = tw_items w @ pad_items (tw_pad w) @ [THeader (header_of v), TData (stored_content nd (snd v))],
                      tw_left = 0, tw_pad = pad512 (cf_Size (snd v))\<rparr>,
                    ts_prevName = prev', ts_world = nd\<rparr>)"
proof -
  let ?f = "ChunkedFile_Clone (snd v)" and ?fetch = "GetChunk (standalone st) ms"
  have fs: "file_stored nd (snd v)" using assms(1) by (simp add: tar_ok_def)
  obtain f' w' where cp: "io_copy (ChunkedFile_reader ?fetch) 32768 (?f, nd) [] = Some (stored_content nd (snd v), None, (f', w'))"
    and sz: "int (length (stored_content nd (snd v))) = cf_Size (snd v)"
    using file_copy [OF fs, of 32768 st ms] by auto
  have "w' = nd" by (rule io_copy_world [OF _ cp]) (auto simp: GetChunk_no_master)
  moreover have "CHR 0x00 \<notin> set (tar_name (fst v))"
    using assms(1) by (intro no_nul_name) (simp add: tar_ok_def)
  moreover have "\<not> tar_skips (fst v)" "\<not> cf_Dir (snd v)" using assms(2) by (auto simp: tar_takes_def)
  ultimately show ?thesis
    using cp sz assms(3)
    by (auto simp: write_tar_file_def tar_WriteHeader_def tar_Flush_def tar_Write_def header_of_def pad_items_def)
qed

lemma write_skips:
  "run_visits (write_tar_file fetch) vs = run_visits (write_tar_file fetch) (filter tar_takes vs)"
proof (induction vs)
  case (Cons v vs)
  obtain p f where v: "v = (p, f)" by (cases v)
  have "\<not> tar_takes v \<Longrightarrow> write_tar_file fetch p f = walk_done"
    using v by (intro ext) (auto simp: write_tar_file_def tar_takes_def walk_done_def)
  then show ?case using Cons v by auto
qed simp

lemma write_all:
  fixes nd :: "'m node" and ms :: "'m master"
  shows "\<forall>v \<in> set vs. tar_ok nd v \<and> tar_takes v \<Longrightarrow> tw_left w = 0 \<Longrightarrow>
   \<exists>w' prev'. run_visits (write_tar_file (GetChunk (standalone st) ms)) (map (\<lambda>(p, f). (p, ChunkedFile_Clone f)) vs)
       \<lparr>ts_writer = w, ts_prevName = prev, ts_world = nd\<rparr>
     = Some (None, \<lparr>ts_writer = w', ts_prevName = prev', ts_world = nd\<rparr>)
     \<and> tw_items (tar_Close w') = tw_items w @ tar_emit (stored_content nd) (tw_pad w) vs"
proof (induction vs arbitrary: w prev)
  case Nil
  then show ?case by (simp add: walk_done_def tar_Close_def tar_Flush_def pad_items_def)
next
  case (Cons v vs)
  let ?w1 = "\<lparr>tw_items = tw_items w @ pad_items (tw_pad w) @ [THeader (header_of v), TData (stored_content nd (snd v))],
              tw_left = 0, tw_pad = pad512 (cf_Size (snd v))\<rparr>"
  obtain prev1 where one: "write_tar_file (GetChunk (standalone st) ms) (fst v) (ChunkedFile_Clone (snd v))
          \<lparr>ts_writer = w, ts_prevName = prev, ts_world = nd\<rparr>
      = Some (None, \<lparr>ts_writer = ?w1, ts_prevName = prev1, ts_world = nd\<rparr>)"
    using write_one [of nd v w st ms prev] Cons.prems by auto
  then show ?case
    using Cons.IH [of ?w1 prev1] Cons.prems(1) by (simp add: walk_seq_def case_prod_unfold)
qed

lemma header_len_min: "512 \<le> header_len h"
proof -
  have "0 \<le> pax_records_len h"
    by (simp add: pax_records_len_def pax_record_len_def Let_def)
  then show ?thesis
    using pad512_bounds [of "pax_records_len h"] pad512_bounds [of "int (length (th_Name h)) + 1"]
    by (simp add: header_len_def Let_def)
qed

lemma header_len_ustar:
  "ustar_name (th_Name h) \<Longrightarrow> ustar_size (th_Size h) \<Longrightarrow> ustar_mode (th_Mode h) \<Longrightarrow> header_len h = 512"
  by (simp add: header_len_def pax_records_len_def)

lemma sum_zero_iff: "\<forall>x \<in> set xs. 0 \<le> (g x :: int) \<Longrightarrow>
   0 \<le> sum_list (map g xs) \<and> (sum_list (map g xs) = 0 \<longleftrightarrow> (\<forall>x \<in> set xs. g x = 0))"
  by (induction xs) (auto simp: add_nonneg_eq_0_iff)

lemma Root_Clone [simp]: "fs_Root (fs_Clone fs) = fs_Root fs"
  by (cases fs) simp

section \<open>Properties\<close>

text \<open>C30: \<^verbatim>\<open>Download\<close> of a tree of stored files ends without error and leaves the disk alone; the
  archive holds the files of the walk, in its order, each with its whole content; and the length
  that \<^verbatim>\<open>TarSize\<close> announces is at most the length of the archive, and equal to it exactly when
  every header takes a single block of 512 bytes.\<close>

theorem download_is_as_announced:
  fixes nd :: "'m node" and ms :: "'m master"
  assumes "fs_Root fs = ''/''" and "\<forall>v \<in> set (tar_files fs). tar_ok nd v"
    and "sum_list (map block_len (tar_files fs)) < 2 ^ 61"
  shows "\<exists>items n. TarSize fs = Some (n, None)
    \<and> Download (GetChunk (standalone st) ms) fs nd = Some (None, items, nd)
    \<and> tar_entries items = map (\<lambda>v. (tar_name (fst v), stored_content nd (snd v))) (tar_files fs)
    \<and> n \<le> tar_len items
    \<and> (n = tar_len items \<longleftrightarrow> (\<forall>v \<in> set (tar_files fs). header_len (header_of v) = 512))"
proof -
  have sizes: "\<forall>v \<in> set (tar_files fs). cf_Size (snd v) = int (length (stored_content nd (snd v)))"
    using assms(2) by (auto simp: tar_ok_def file_stored_def)
  let ?items = "tar_emit (stored_content nd) 0 (tar_files fs)"
  have "\<forall>v \<in> set (tar_files fs). tar_ok nd v \<and> tar_takes v" using assms(2) by (simp add: tar_files_def)
  from write_all [OF this, of tar_NewWriter st ms "[]"] obtain w' prev' where w:
    "run_visits (write_tar_file (GetChunk (standalone st) ms)) (tar_files (fs_Clone fs))
       \<lparr>ts_writer = tar_NewWriter, ts_prevName = [], ts_world = nd\<rparr>
     = Some (None, \<lparr>ts_writer = w', ts_prevName = prev', ts_world = nd\<rparr>)"
    "tw_items (tar_Close w') = ?items"
    by (auto simp: tar_NewWriter_def visits_Clone)
  have "Walk (write_tar_file (GetChunk (standalone st) ms)) (fs_Clone fs) ''/'' =
      run_visits (write_tar_file (GetChunk (standalone st) ms)) (tar_files (fs_Clone fs))"
    unfolding tar_files_def using assms(1) by (subst Walk_root) (simp, rule write_skips)
  then have "Download (GetChunk (standalone st) ms) fs nd = Some (None, ?items, nd)"
    using w by (simp add: Download_def WriteTar_def)
  moreover have "TarSize fs = Some (sum_list (map block_len (tar_files fs)) + 1024, None)"
    using TarSize_sum [OF assms(1) _ assms(3)] sizes by simp
  moreover have "tar_len ?items = sum_list (map block_len (tar_files fs)) + 1024
      + sum_list (map (\<lambda>v. header_len (header_of v) - 512) (tar_files fs))"
    using tar_len_emit [OF sizes, of 0] by simp
  moreover have "0 \<le> sum_list (map (\<lambda>v. header_len (header_of v) - 512) (tar_files fs))
      \<and> (sum_list (map (\<lambda>v. header_len (header_of v) - 512) (tar_files fs)) = 0
           \<longleftrightarrow> (\<forall>v \<in> set (tar_files fs). header_len (header_of v) - 512 = 0))"
    by (rule sum_zero_iff) (use header_len_min in auto)
  ultimately show ?thesis by (auto simp: tar_entries_emit)
qed

section \<open>Witness\<close>

definition sample_fs :: fs where
  "sample_fs = FS ''/'' None [(''b'', FS ''b'' None [] [(''g'', sample_file\<lparr>cf_Name := ''g''\<rparr>)] 0)]
                 [(''f'', sample_file), (''.hidden'', sample_file\<lparr>cf_Name := ''.hidden''\<rparr>)] 0"

theorem download_is_as_announced_witness:
  "\<exists>items. TarSize sample_fs = Some (tar_len items, None)
    \<and> Download (GetChunk (standalone sample_settings) sample_master) sample_fs sample_node = Some (None, items, sample_node)
    \<and> tar_entries items = [(''b/g'', [1, 2, 3, 4, 5]), (''f'', [1, 2, 3, 4, 5])]"
proof -
  have f: "tar_files sample_fs = [(''b/g'', sample_file\<lparr>cf_Name := ''g''\<rparr>), (''/f'', sample_file)]"
    by code_simp
  have g: "stored_content sample_node (sample_file\<lparr>cf_Name := ''g''\<rparr>) = [1, 2, 3, 4, 5]"
    "file_stored sample_node (sample_file\<lparr>cf_Name := ''g''\<rparr>)"
    using sample_stored by (simp_all add: stored_content_def file_stored_def)
  have ok: "\<forall>v \<in> set (tar_files sample_fs). tar_ok sample_node v \<and> header_len (header_of v) = 512 \<and> block_len v = 1024"
    unfolding f
    using sample_stored(1) g(2)
    by (simp add: tar_ok_def sample_file_def new_file_def block_len_def pad512_def header_of_def
        header_len_def pax_records_len_def ustar_mode_def ustar_name_def ascii_name_def ustar_size_def tar_name_def
        trim_prefix_def)
  have n: "map (\<lambda>v. tar_name (fst v)) (tar_files sample_fs) = [''b/g'', ''f'']" unfolding f by code_simp
  have r: "fs_Root sample_fs = ''/''" by (simp add: sample_fs_def)
  have s: "sum_list (map block_len (tar_files sample_fs)) < 2 ^ 61" using ok by (simp add: f)
  show ?thesis
    using download_is_as_announced [OF r _ s, of sample_node sample_settings sample_master] ok n
    by (auto simp: f sample_stored g)
qed

end
