(* ===== verification/Hub.thy ===== *)
theory Hub
  imports Types
begin

text \<open>
  \<^verbatim>\<open>pkg/types/hub.go\<close>: the hub that tells the connected slaves what was deleted. A client is an
  identity \<open>'c\<close>; \<open>hb_sent\<close> is the log of the calls of \<^verbatim>\<open>WriteMessage\<close>, whose errors are only
  logged. The map of connections is a list without repetition.
\<close>

section \<open>The last messages\<close>

definition SaveLastMessageLimit :: nat where
  "SaveLastMessageLimit = 5"

definition expireTime :: int where
  "expireTime = 3600000000000"

record expired_messages =
  em_messages :: "hub_message list"
  em_expires :: "int list"

definition NewExpiredMessages :: expired_messages where
  "NewExpiredMessages = \<lparr>em_messages = [], em_expires = []\<rparr>"

definition AddMessage :: "int \<Rightarrow> hub_message \<Rightarrow> expired_messages \<Rightarrow> expired_messages" where
  "AddMessage now message em =
     (let expire = now + expireTime in
      if length (em_messages em) < SaveLastMessageLimit
      then \<lparr>em_messages = em_messages em @ [message], em_expires = em_expires em @ [expire]\<rparr>
      else \<lparr>em_messages = take (SaveLastMessageLimit - 1) (em_messages em) @ [message],
            em_expires = take (SaveLastMessageLimit - 1) (em_expires em) @ [expire]\<rparr>)"

text \<open>The in-place loop of \<^verbatim>\<open>CheckExpire\<close>: \<open>i\<close> reads, \<open>j\<close> is where the next live message goes.\<close>

definition CheckExpire_at :: "int \<Rightarrow> nat \<Rightarrow> nat \<times> expired_messages \<Rightarrow> nat \<times> expired_messages" where
  "CheckExpire_at now i = (\<lambda>(j, em).
     if \<not> em_expires em ! i < now
     then (Suc j, \<lparr>em_messages = (em_messages em)[j := em_messages em ! i], em_expires = (em_expires em)[j := em_expires em ! i]\<rparr>)
     else (j, em))"

definition CheckExpire :: "int \<Rightarrow> expired_messages \<Rightarrow> expired_messages" where
  "CheckExpire now em =
     (let (j, em') = fold (CheckExpire_at now) [0..<length (em_expires em)] (0, em)
      in \<lparr>em_messages = take j (em_messages em'), em_expires = take j (em_expires em')\<rparr>)"

section \<open>The hub\<close>

record 'c hub =
  hb_connections :: "'c list"
  hb_queue :: "hub_message list"
  hb_lastMessages :: expired_messages
  hb_sent :: "('c \<times> hub_message) list"

definition NewHub :: "'c hub" where
  "NewHub = \<lparr>hb_connections = [], hb_queue = [], hb_lastMessages = NewExpiredMessages, hb_sent = []\<rparr>"

definition PushMany :: "'c \<Rightarrow> hub_message list \<Rightarrow> 'c hub \<Rightarrow> 'c hub" where
  "PushMany client statuses h = h\<lparr>hb_sent := hb_sent h @ map (Pair client) statuses\<rparr>"

definition Register :: "int \<Rightarrow> 'c \<Rightarrow> 'c hub \<Rightarrow> 'c hub" where
  "Register now client h =
     (let h1 = h\<lparr>hb_lastMessages := CheckExpire now (hb_lastMessages h)\<rparr>;
          h2 = PushMany client (em_messages (hb_lastMessages h1)) h1
      in h2\<lparr>hb_connections := List.insert client (hb_connections h2)\<rparr>)"

definition Drop :: "'c \<Rightarrow> 'c hub \<Rightarrow> 'c hub" where
  "Drop client h = h\<lparr>hb_connections := removeAll client (hb_connections h)\<rparr>"

definition saveLastMessage :: "int \<Rightarrow> hub_message \<Rightarrow> 'c hub \<Rightarrow> 'c hub" where
  "saveLastMessage now message h = h\<lparr>hb_lastMessages := CheckExpire now (AddMessage now message (hb_lastMessages h))\<rparr>"

definition pushMessage :: "int \<Rightarrow> hub_message \<Rightarrow> 'c hub \<Rightarrow> 'c hub" where
  "pushMessage now message h =
     (let h1 = saveLastMessage now message h
      in h1\<lparr>hb_sent := hb_sent h1 @ map (\<lambda>client. (client, message)) (hb_connections h1)\<rparr>)"

text \<open>The channel of the queue holds 20 messages; a sender of one more waits.\<close>

definition queueLimit :: nat where
  "queueLimit = 20"

definition Push :: "hub_message \<Rightarrow> 'c hub \<Rightarrow> 'c hub option" where
  "Push message h = (if length (hb_queue h) < queueLimit then Some (h\<lparr>hb_queue := hb_queue h @ [message]\<rparr>) else None)"

text \<open>One turn of \<^verbatim>\<open>eventLoop\<close>.\<close>

definition eventLoop_turn :: "int \<Rightarrow> 'c hub \<Rightarrow> 'c hub option" where
  "eventLoop_turn now h =
     (case hb_queue h of [] \<Rightarrow> None | message # rest \<Rightarrow> Some (pushMessage now message (h\<lparr>hb_queue := rest\<rparr>)))"

text \<open>The operations take the lock, so they run one after the other, in any order, while time goes on.\<close>

inductive hub_step :: "int \<times> 'c hub \<Rightarrow> int \<times> 'c hub \<Rightarrow> bool" where
  step_time: "now \<le> now' \<Longrightarrow> hub_step (now, h) (now', h)"
| step_register: "hub_step (now, h) (now, Register now client h)"
| step_drop: "hub_step (now, h) (now, Drop client h)"
| step_push: "Push message h = Some h' \<Longrightarrow> hub_step (now, h) (now, h')"
| step_deliver: "eventLoop_turn now h = Some h' \<Longrightarrow> hub_step (now, h) (now, h')"

inductive hub_reachable :: "int \<times> 'c hub \<Rightarrow> bool" where
  reach_new: "hub_reachable (now, NewHub)"
| reach_step: "hub_reachable s \<Longrightarrow> hub_step s s' \<Longrightarrow> hub_reachable s'"

inductive_cases hub_stepE: "hub_step (now, h) s'"

section \<open>The invariant\<close>

definition messages_ok :: "int \<Rightarrow> expired_messages \<Rightarrow> bool" where
  "messages_ok now em \<longleftrightarrow> length (em_expires em) = length (em_messages em) \<and> length (em_messages em) \<le> SaveLastMessageLimit
     \<and> sorted (em_expires em) \<and> (\<forall>e \<in> set (em_expires em). e \<le> now + expireTime)"

definition hub_ok :: "int \<Rightarrow> 'c hub \<Rightarrow> bool" where
  "hub_ok now h \<longleftrightarrow> distinct (hb_connections h) \<and> length (hb_queue h) \<le> queueLimit \<and> messages_ok now (hb_lastMessages h)"

abbreviation live_entries :: "int \<Rightarrow> (hub_message \<times> int) list \<Rightarrow> (hub_message \<times> int) list" where
  "live_entries now \<equiv> filter (\<lambda>(m, e). \<not> e < now)"

lemma compact_update: "j < length xs \<Longrightarrow> (ys @ drop j xs)[length ys := x] = ys @ x # drop (Suc j) xs"
  by (simp add: list_update_append Cons_nth_drop_Suc [symmetric])

lemma CheckExpire_loop:
  assumes "length (em_expires em) = length (em_messages em)" and "k \<le> length (em_expires em)"
  shows "fold (CheckExpire_at now) [0..<k] (0, em) =
    (let live = live_entries now (take k (zip (em_messages em) (em_expires em)))
     in (length live, \<lparr>em_messages = map fst live @ drop (length live) (em_messages em),
                       em_expires = map snd live @ drop (length live) (em_expires em)\<rparr>))"
  using assms(2)
proof (induction k)
  case 0
  show ?case by simp
next
  case (Suc k)
  let ?z = "zip (em_messages em) (em_expires em)"
  let ?live = "live_entries now (take k ?z)"
  have k: "k < length (em_messages em)" "k < length (em_expires em)" using Suc.prems assms(1) by simp_all
  have j: "length ?live \<le> k" using length_filter_le [of "\<lambda>(m, e). \<not> e < now" "take k ?z"] by simp
  have z: "take (Suc k) ?z = take k ?z @ [(em_messages em ! k, em_expires em ! k)]" using k by (simp add: take_Suc_conv_app_nth)
  have nth: "(map fst ?live @ drop (length ?live) (em_messages em)) ! k = em_messages em ! k"
    "(map snd ?live @ drop (length ?live) (em_expires em)) ! k = em_expires em ! k"
    using j k by (simp_all add: nth_append)
  have lt: "length ?live < length (em_messages em)" "length ?live < length (em_expires em)" using j k by simp_all
  note up = compact_update [OF lt(1), of "map fst ?live"] compact_update [OF lt(2), of "map snd ?live"]
  show ?case using Suc.IH Suc.prems up by (simp add: z CheckExpire_at_def Let_def nth)
qed

lemma CheckExpire_filter:
  assumes "length (em_expires em) = length (em_messages em)"
  shows "CheckExpire now em =
    (let live = live_entries now (zip (em_messages em) (em_expires em)) in \<lparr>em_messages = map fst live, em_expires = map snd live\<rparr>)"
  using CheckExpire_loop [OF assms order_refl] assms by (simp add: CheckExpire_def Let_def)

lemma CheckExpire_ok:
  assumes "messages_ok now em"
  shows "messages_ok now (CheckExpire t em)"
proof -
  have len: "length (em_expires em) = length (em_messages em)" using assms by (simp add: messages_ok_def)
  let ?z = "zip (em_messages em) (em_expires em)"
  have "map snd (filter (\<lambda>(m, e). \<not> e < t) ?z) = filter (\<lambda>e. \<not> e < t) (map snd ?z)"
    by (simp add: filter_map comp_def split_beta')
  also have "\<dots> = filter (\<lambda>e. \<not> e < t) (em_expires em)" using len by simp
  finally have e: "em_expires (CheckExpire t em) = filter (\<lambda>e. \<not> e < t) (em_expires em)" by (simp add: CheckExpire_filter [OF len] Let_def)
  have "length (em_messages (CheckExpire t em)) = length (em_expires (CheckExpire t em))" by (simp add: CheckExpire_filter [OF len] Let_def)
  moreover have "length (em_messages (CheckExpire t em)) \<le> length (em_messages em)"
    using length_filter_le [of "\<lambda>(m, e). \<not> e < t" ?z] len by (simp add: CheckExpire_filter [OF len] Let_def)
  ultimately show ?thesis using assms by (auto simp: messages_ok_def e sorted_filter [of "\<lambda>x. x", simplified])
qed

lemma AddMessage_ok:
  assumes "messages_ok now em"
  shows "messages_ok now (AddMessage now message em)"
  using assms sorted_wrt_take [of "(\<le>)" "em_expires em" 4]
  by (auto simp: messages_ok_def AddMessage_def SaveLastMessageLimit_def Let_def sorted_append dest: in_set_takeD)

lemma messages_ok_later: "messages_ok now em \<Longrightarrow> now \<le> now' \<Longrightarrow> messages_ok now' em"
  by (fastforce simp: messages_ok_def)

lemma hub_step_ok:
  assumes "hub_step (now, h) (now', h')" and ok: "hub_ok now h"
  shows "hub_ok now' h'"
  using assms(1)
proof (cases rule: hub_step.cases)
  case step_time
  then show ?thesis using ok messages_ok_later by (auto simp: hub_ok_def)
next
  case (step_register client)
  then show ?thesis using ok CheckExpire_ok by (auto simp: hub_ok_def Register_def PushMany_def Let_def)
next
  case (step_drop client)
  then show ?thesis using ok by (auto simp: hub_ok_def Drop_def distinct_removeAll)
next
  case (step_push message)
  then show ?thesis using ok by (auto simp: hub_ok_def Push_def split: if_splits)
next
  case step_deliver
  then show ?thesis using ok CheckExpire_ok [OF AddMessage_ok]
    by (auto simp: hub_ok_def eventLoop_turn_def pushMessage_def saveLastMessage_def Let_def split: list.splits)
qed

lemma reachable_ok: "hub_reachable s \<Longrightarrow> hub_ok (fst s) (snd s)"
proof (induction rule: hub_reachable.induct)
  case (reach_new now)
  show ?case by (simp add: hub_ok_def NewHub_def messages_ok_def NewExpiredMessages_def)
next
  case (reach_step s s')
  then show ?case using hub_step_ok [of "fst s" "snd s" "fst s'" "snd s'"] by simp
qed

section \<open>Delivery\<close>

lemma deliver_all:
  "\<exists>h'. hub_step\<^sup>*\<^sup>* (now, h) (now, h') \<and> hb_queue h' = [] \<and> hb_connections h' = hb_connections h
     \<and> (\<forall>c \<in> set (hb_connections h). distinct (hb_connections h) \<longrightarrow>
          map snd (filter (\<lambda>p. fst p = c) (hb_sent h')) = map snd (filter (\<lambda>p. fst p = c) (hb_sent h)) @ hb_queue h)"
proof (induction "hb_queue h" arbitrary: h)
  case Nil
  then show ?case by auto
next
  case (Cons m q)
  let ?h1 = "pushMessage now m (h\<lparr>hb_queue := q\<rparr>)"
  have h1: "hb_queue ?h1 = q" "hb_connections ?h1 = hb_connections h"
    "hb_sent ?h1 = hb_sent h @ map (\<lambda>c. (c, m)) (hb_connections h)"
    by (simp_all add: pushMessage_def saveLastMessage_def Let_def)
  have step: "hub_step (now, h) (now, ?h1)" by (rule step_deliver) (simp add: eventLoop_turn_def flip: Cons.hyps(2))
  from Cons.hyps(1) [of ?h1] h1 obtain h' where h': "hub_step\<^sup>*\<^sup>* (now, ?h1) (now, h')" "hb_queue h' = []"
    "hb_connections h' = hb_connections h"
    "\<forall>c \<in> set (hb_connections h). distinct (hb_connections h) \<longrightarrow>
          map snd (filter (\<lambda>p. fst p = c) (hb_sent h')) = map snd (filter (\<lambda>p. fst p = c) (hb_sent ?h1)) @ q" by auto
  have one: "distinct cs \<Longrightarrow> c \<in> set cs \<Longrightarrow> map snd (filter (\<lambda>p. fst p = c) (map (\<lambda>c. (c, m)) cs)) = [m]" for c :: 'a and cs
    by (induction cs) (auto simp: filter_empty_conv)
  have "hub_step\<^sup>*\<^sup>* (now, h) (now, h')" using step h'(1) by (rule converse_rtranclp_into_rtranclp)
  then show ?case using h' h1(3) one by (intro exI [of _ h']) (simp flip: Cons.hyps(2))
qed

section \<open>What is kept\<close>

definition kept_messages :: "hub_message list \<Rightarrow> hub_message list" where
  "kept_messages ms = (if length ms \<le> SaveLastMessageLimit then ms else take (SaveLastMessageLimit - 1) ms @ [last ms])"

lemma CheckExpire_all:
  assumes "length (em_expires em) = length (em_messages em)" and "\<forall>e \<in> set (em_expires em). now \<le> e"
  shows "CheckExpire now em = em"
proof -
  have "filter (\<lambda>(m, e). \<not> e < now) (zip (em_messages em) (em_expires em)) = zip (em_messages em) (em_expires em)"
    by (rule filter_True) (use assms(2) in \<open>auto dest!: set_zip_rightD simp: not_less\<close>)
  then show ?thesis using assms(1) by (simp add: CheckExpire_filter)
qed

lemma kept_snoc:
  "kept_messages (ms @ [m]) = (if length (kept_messages ms) < SaveLastMessageLimit then kept_messages ms @ [m]
     else take (SaveLastMessageLimit - 1) (kept_messages ms) @ [m])"
  by (auto simp: kept_messages_def SaveLastMessageLimit_def min_def)

definition push_all :: "(int \<times> hub_message) list \<Rightarrow> 'c hub" where
  "push_all evs = fold (\<lambda>(now, m). pushMessage now m) evs NewHub"

lemma pushed_within_an_hour:
  assumes "\<forall>(now, m) \<in> set evs. start \<le> now \<and> now \<le> start + expireTime" and "h = push_all evs"
  shows "em_messages (hb_lastMessages h) = kept_messages (map snd evs)
    \<and> length (em_expires (hb_lastMessages h)) = length (kept_messages (map snd evs))
    \<and> (\<forall>e \<in> set (em_expires (hb_lastMessages h)). start + expireTime \<le> e) \<and> hb_sent h = [] \<and> hb_connections h = []"
  using assms
proof (induction evs arbitrary: h rule: rev_induct)
  case Nil
  then show ?case by (simp add: push_all_def NewHub_def NewExpiredMessages_def kept_messages_def SaveLastMessageLimit_def)
next
  case (snoc ev evs)
  obtain now m where ev: "ev = (now, m)" by (cases ev)
  let ?h = "push_all evs :: 'a hub"
  let ?em = "AddMessage now m (hb_lastMessages ?h)"
  have now: "start \<le> now" "now \<le> start + expireTime" using snoc.prems ev by auto
  have IH: "em_messages (hb_lastMessages ?h) = kept_messages (map snd evs)"
    "length (em_expires (hb_lastMessages ?h)) = length (kept_messages (map snd evs))"
    "\<forall>e \<in> set (em_expires (hb_lastMessages ?h)). start + expireTime \<le> e" "hb_sent ?h = []" "hb_connections ?h = []"
    using snoc.IH [OF _ refl] snoc.prems(1) by auto
  have em: "em_messages ?em = kept_messages (map snd (evs @ [ev]))" "length (em_expires ?em) = length (em_messages ?em)"
    "\<forall>e \<in> set (em_expires ?em). start + expireTime \<le> e"
    using IH now by (auto simp: AddMessage_def Let_def ev kept_snoc dest: in_set_takeD)
  have "CheckExpire now ?em = ?em"
    by (rule CheckExpire_all) (use em now in auto)
  then show ?case using em IH snoc.prems(2) by (simp add: push_all_def ev pushMessage_def saveLastMessage_def Let_def)
qed

section \<open>Properties\<close>

text \<open>C25: in every state the hub reaches, with clients coming and going, messages queued and
  delivered and time passing in any order, at most 20 messages wait and at most 5 are kept, each
  with an expiry no later than an hour from now, and no client is connected twice.\<close>

theorem hub_keeps_its_bounds:
  assumes "hub_reachable (now, h)"
  shows "distinct (hb_connections h) \<and> length (hb_queue h) \<le> 20 \<and> length (em_messages (hb_lastMessages h)) \<le> 5
    \<and> length (em_expires (hb_lastMessages h)) = length (em_messages (hb_lastMessages h))
    \<and> (\<forall>e \<in> set (em_expires (hb_lastMessages h)). e \<le> now + 3600000000000)"
  using reachable_ok [OF assms] by (simp add: hub_ok_def messages_ok_def queueLimit_def SaveLastMessageLimit_def expireTime_def)

text \<open>C24: from every reachable state the event loop can empty the queue, and when it has, every client
  that is connected was sent all the queued messages, once each and in their order.\<close>

theorem queued_messages_reach_every_client:
  assumes "hub_reachable (now, h)"
  shows "\<exists>h'. hub_step\<^sup>*\<^sup>* (now, h) (now, h') \<and> hb_queue h' = [] \<and> hb_connections h' = hb_connections h
    \<and> (\<forall>c \<in> set (hb_connections h).
         map snd (filter (\<lambda>p. fst p = c) (hb_sent h')) = map snd (filter (\<lambda>p. fst p = c) (hb_sent h)) @ hb_queue h)"
proof -
  have "distinct (hb_connections h)" using reachable_ok [OF assms] by (simp add: hub_ok_def)
  then show ?thesis using deliver_all [of now h] by auto
qed

text \<open>C26: the in-place compaction of \<^verbatim>\<open>CheckExpire\<close>, which moves the messages still alive to the front
  with a reading and a writing index and then cuts the slices, is the filter it stands for: the same
  messages, in the same order, each with its own expiry.\<close>

theorem expiry_is_a_filter:
  assumes "length (em_expires em) = length (em_messages em)"
  shows "zip (em_messages (CheckExpire now em)) (em_expires (CheckExpire now em))
      = filter (\<lambda>(m, e). now \<le> e) (zip (em_messages em) (em_expires em))
    \<and> length (em_messages (CheckExpire now em)) = length (em_expires (CheckExpire now em))"
  using assms by (simp add: CheckExpire_filter Let_def zip_map_fst_snd not_less)

text \<open>The hub does not keep the last messages: when more than five were pushed within an hour, a
  client that registers then is sent the first four and the last one, and never learns of those
  between.\<close>

theorem late_client_misses_messages:
  assumes "\<forall>(t, m) \<in> set evs. start \<le> t \<and> t \<le> start + expireTime" and "start \<le> now" and "now \<le> start + expireTime"
    and "5 < length evs"
  shows "hb_sent (Register now client (push_all evs)) = map (Pair client) (take 4 (map snd evs) @ [snd (last evs)])"
proof -
  let ?h = "push_all evs :: 'a hub"
  note H = pushed_within_an_hour [OF assms(1), of ?h, OF refl]
  have "CheckExpire now (hb_lastMessages ?h) = hb_lastMessages ?h"
    by (rule CheckExpire_all) (use H assms(3) in auto)
  moreover have "kept_messages (map snd evs) = take 4 (map snd evs) @ [snd (last evs)]"
    using assms(4) by (auto simp: kept_messages_def SaveLastMessageLimit_def intro!: last_map)
  ultimately show ?thesis using H by (simp add: Register_def PushMany_def Let_def)
qed

definition sample_message :: "string \<Rightarrow> hub_message" where
  "sample_message n = Msg_Dataset \<lparr>di_Workspace = ''w'', di_Name = n, di_DType = ''dataset''\<rparr>"

definition sample_hub :: "string hub" where
  "sample_hub = (Register 0 ''c'' NewHub)\<lparr>hb_queue := [sample_message ''1'', sample_message ''2'']\<rparr>"

lemma sample_hub_reachable: "hub_reachable (0, sample_hub)"
proof -
  let ?c = "Register 0 ''c'' NewHub"
  let ?h = "?c\<lparr>hb_queue := [sample_message ''1'']\<rparr>"
  have e: "hb_queue ?c = []" by (simp add: Register_def PushMany_def NewHub_def Let_def)
  have "hub_reachable (0, ?c)" by (rule reach_step [OF reach_new step_register])
  moreover have "Push (sample_message ''1'') ?c = Some ?h" using e by (simp add: Push_def queueLimit_def)
  moreover have "Push (sample_message ''2'') ?h = Some sample_hub" by (simp add: Push_def queueLimit_def sample_hub_def)
  ultimately show ?thesis using step_push reach_step by metis
qed

lemma sample_hub_simps: "hb_connections sample_hub = [''c'']" "hb_sent sample_hub = []" "hb_queue sample_hub = [sample_message ''1'', sample_message ''2'']"
  by (simp_all add: sample_hub_def Register_def PushMany_def NewHub_def Let_def CheckExpire_def NewExpiredMessages_def)

theorem hub_keeps_its_bounds_witness:
  "hub_reachable (0, sample_hub) \<and> length (hb_queue sample_hub) \<le> 20 \<and> distinct (hb_connections sample_hub)"
  using hub_keeps_its_bounds [OF sample_hub_reachable] sample_hub_reachable by simp

theorem queued_messages_reach_every_client_witness:
  "\<exists>h'. hub_step\<^sup>*\<^sup>* (0, sample_hub) (0, h') \<and> hb_queue h' = []
     \<and> map snd (filter (\<lambda>p. fst p = ''c'') (hb_sent h')) = [sample_message ''1'', sample_message ''2'']"
proof -
  from queued_messages_reach_every_client [OF sample_hub_reachable] obtain h' where
    "hub_step\<^sup>*\<^sup>* (0, sample_hub) (0, h')" "hb_queue h' = []"
    "\<forall>c \<in> set (hb_connections sample_hub). map snd (filter (\<lambda>p. fst p = c) (hb_sent h'))
       = map snd (filter (\<lambda>p. fst p = c) (hb_sent sample_hub)) @ hb_queue sample_hub" by blast
  then show ?thesis by (intro exI [of _ h']) (simp add: sample_hub_simps)
qed

theorem expiry_is_a_filter_witness:
  "zip (em_messages (CheckExpire 5 \<lparr>em_messages = [sample_message ''1'', sample_message ''2''], em_expires = [4, 9]\<rparr>))
     (em_expires (CheckExpire 5 \<lparr>em_messages = [sample_message ''1'', sample_message ''2''], em_expires = [4, 9]\<rparr>))
   = [(sample_message ''2'', 9)]"
  by (subst expiry_is_a_filter [THEN conjunct1]) simp_all

theorem late_client_misses_messages_witness:
  "map snd (hb_sent (Register 7 ''c'' (push_all
      [(1, sample_message ''1''), (2, sample_message ''2''), (3, sample_message ''3''), (4, sample_message ''4''),
       (5, sample_message ''5''), (6, sample_message ''6'')])))
   = [sample_message ''1'', sample_message ''2'', sample_message ''3'', sample_message ''4'', sample_message ''6'']"
  by (subst late_client_misses_messages [where start = 0]) (simp_all add: expireTime_def)

end
