(* ===== verification/Api.thy ===== *)
theory Api
  imports Gc Tar Hub
begin

text \<open>
  The ground of the HTTP server, \<^verbatim>\<open>pkg/api/api.go\<close>, the helpers of \<^verbatim>\<open>pkg/api/utils.go\<close> and
  \<^verbatim>\<open>pkg/api/dataset.go\<close>, and \<^verbatim>\<open>pkg/utils/cache.go\<close>: the state of the process, requests and
  responses, errors, the type of an entity, the caches and the locks of saved versions.

  A handler is a program over the state that always ends with \<open>ret ()\<close>; what it writes is the
  log \<open>ap_resp\<close>, in order. Handlers run one after the other; the semaphore of
  \<^verbatim>\<open>acquireConcurrency\<close> and the wait for the collector only delay them. Log output is left out.
  Of an error of \<^verbatim>\<open>kuberlab/lib\<close> status and message are kept, the reason is not.
\<close>

section \<open>The request cache\<close>

text \<open>
  \<^verbatim>\<open>utils.RequestCache\<close> over \<^verbatim>\<open>go-cache\<close> (by its documentation): an entry set with the default
  expiration is found until an hour has passed; the clock is in nanoseconds.
\<close>

type_synonym 'a cache = "(string \<times> ('a \<times> int)) list"

definition DefaultExpiration :: int where
  "DefaultExpiration = 3600000000000"

definition cache_Get :: "int \<Rightarrow> 'a cache \<Rightarrow> string \<Rightarrow> 'a option" where
  "cache_Get now c key = (case map_of c key of None \<Rightarrow> None | Some (v, e) \<Rightarrow> if e < now then None else Some v)"

definition cache_Set :: "int \<Rightarrow> string \<Rightarrow> 'a \<Rightarrow> 'a cache \<Rightarrow> 'a cache" where
  "cache_Set now key v c = AList.update key (v, now + DefaultExpiration) c"

definition cache_GetBool :: "int \<Rightarrow> bool cache \<Rightarrow> string \<Rightarrow> bool" where
  "cache_GetBool now c key = (case cache_Get now c key of None \<Rightarrow> False | Some b \<Rightarrow> b)"

definition cache_GetString :: "int \<Rightarrow> string cache \<Rightarrow> string \<Rightarrow> string" where
  "cache_GetString now c key = (case cache_Get now c key of None \<Rightarrow> [] | Some s \<Rightarrow> s)"

lemma cache_Set_Get:
  "cache_Get now (cache_Set t k v c) k' = (if k' = k then if t + DefaultExpiration < now then None else Some v else cache_Get now c k')"
  by (auto simp: cache_Get_def cache_Set_def)

section \<open>Requests and responses\<close>

text \<open>
  \<open>rq_Params\<close>, \<open>rq_Query\<close> and \<open>rq_Headers\<close> are what \<^verbatim>\<open>PathParameter\<close>, \<^verbatim>\<open>QueryParameter\<close> and \<^verbatim>\<open>Header.Get\<close>
  look in (an absent name gives the empty string); \<open>rq_entityType\<close> and \<open>rq_masterclient\<close> are the
  attributes that the filters set.
\<close>

record 'm request =
  rq_Method :: string
  rq_Path :: string
  rq_Params :: "(string \<times> string) list"
  rq_Query :: "(string \<times> string) list"
  rq_Headers :: "(string \<times> string) list"
  rq_Body :: body
  rq_entityType :: "string option"
  rq_masterclient :: "'m client option"

definition lookup_str :: "(string \<times> string) list \<Rightarrow> string \<Rightarrow> string" where
  "lookup_str m k = (case map_of m k of None \<Rightarrow> [] | Some v \<Rightarrow> v)"

abbreviation path_param :: "'m request \<Rightarrow> string \<Rightarrow> string" where
  "path_param req \<equiv> lookup_str (rq_Params req)"

abbreviation query_param :: "'m request \<Rightarrow> string \<Rightarrow> string" where
  "query_param req \<equiv> lookup_str (rq_Query req)"

abbreviation header_param :: "'m request \<Rightarrow> string \<Rightarrow> string" where
  "header_param req \<equiv> lookup_str (rq_Headers req)"

datatype payload =
    P_Error nat string
  | P_Datasets "dataset_info list"
  | P_Dataset dataset_row
  | P_Info dataset_info
  | P_Workspace string
  | P_Versions "version_info list"
  | P_Version version_info
  | P_VersionRow version_row
  | P_FS string fs
  | P_Files "chunked_file option list"
  | P_File hashed_file
  | P_Check chunk_check
  | P_Bytes "byte list"
  | P_Tar "tar_item list"
  | P_Text string

datatype reply = Header string string | Code nat | Body payload

text \<open>What the client sees: the first status that is written, 200 if there is none.\<close>

fun http_status :: "reply list \<Rightarrow> nat" where
  "http_status [] = 200"
| "http_status (Code n # rs) = n"
| "http_status (Body b # rs) = 200"
| "http_status (Header k v # rs) = http_status rs"

fun bodies :: "reply list \<Rightarrow> payload list" where
  "bodies [] = []"
| "bodies (Body b # rs) = b # bodies rs"
| "bodies (r # rs) = bodies rs"

section \<open>The state of the process\<close>

record 'm api =
  ap_db :: "'m db"
  ap_disk :: disk
  ap_cache :: "bool cache"
  ap_fsCache :: "fs cache"
  ap_saveLocks :: "(string \<times> bool) list"
  ap_resp :: "reply list"

definition on_db :: "('m, 'a) dbm \<Rightarrow> ('m api, 'a) prog" where
  "on_db m = (\<lambda>s. case m (ap_db s) of None \<Rightarrow> None | Some (r, d) \<Rightarrow> Some (r, s\<lparr>ap_db := d\<rparr>))"

text \<open>The chunk store works on the disk, and on the master behind the same client.\<close>

definition node_of :: "'m api \<Rightarrow> 'm node" where
  "node_of s = \<lparr>nd_disk = ap_disk s, nd_remote = db_remote (ap_db s)\<rparr>"

definition with_node :: "'m node \<Rightarrow> 'm api \<Rightarrow> 'm api" where
  "with_node nd s = s\<lparr>ap_disk := nd_disk nd, ap_db := (ap_db s)\<lparr>db_remote := nd_remote nd\<rparr>\<rparr>"

definition on_node :: "('m node \<Rightarrow> ('a \<times> 'm node) option) \<Rightarrow> ('m api, 'a) prog" where
  "on_node f = (\<lambda>s. case f (node_of s) of None \<Rightarrow> None | Some (r, nd) \<Rightarrow> Some (Inr r, with_node nd s))"

definition on_remote :: "('m \<Rightarrow> 'a \<times> 'm) \<Rightarrow> ('m api, 'a) prog" where
  "on_remote f = on_db (remote f)"

definition get_state :: "('m api \<Rightarrow> 'a) \<Rightarrow> ('m api, 'a) prog" where
  "get_state f = (\<lambda>s. Some (Inr (f s), s))"

definition put_state :: "('m api \<Rightarrow> 'm api) \<Rightarrow> ('m api, unit) prog" where
  "put_state f = (\<lambda>s. Some (Inr (), f s))"

definition ap_now :: "'m api \<Rightarrow> int" where
  "ap_now s = db_now (ap_db s)"

definition respond :: "reply list \<Rightarrow> ('m api, unit) prog" where
  "respond rs = put_state (\<lambda>s. s\<lparr>ap_resp := ap_resp s @ rs\<rparr>)"

text \<open>\<^verbatim>\<open>if err != nil { ...; return }\<close>: an error is answered and ends the handler.\<close>

definition or_respond :: "('m api, 'a) prog \<Rightarrow> (go_error \<Rightarrow> reply list) \<Rightarrow> ('a \<Rightarrow> ('m api, unit) prog) \<Rightarrow> ('m api, unit) prog" where
  "or_respond m w k = attempt m (\<lambda>r. case r of Inl e \<Rightarrow> respond (w e) | Inr x \<Rightarrow> k x)"

text \<open>A value that is an error or a result.\<close>

definition lift_res :: "'a res \<Rightarrow> ('s, 'a) prog" where
  "lift_res r = (case r of Inl e \<Rightarrow> fail e | Inr x \<Rightarrow> ret x)"

definition lift_err :: "go_error option \<Rightarrow> ('s, unit) prog" where
  "lift_err r = (case r of Some e \<Rightarrow> fail e | None \<Rightarrow> ret ())"

definition api_tx :: "('m api, 'a) prog \<Rightarrow> ('m api, 'a) prog" where
  "api_tx body = bnd (on_db Begin) (\<lambda>_. attempt body (\<lambda>r.
     case r of Inl e \<Rightarrow> bnd (on_db Rollback) (\<lambda>_. fail e) | Inr x \<Rightarrow> bnd (on_db Commit) (\<lambda>_. ret x)))"

section \<open>Errors\<close>

definition WriteErrorString :: "nat \<Rightarrow> string \<Rightarrow> reply list" where
  "WriteErrorString status message = [Code status, Body (P_Error status message)]"

definition WriteStatusError :: "nat \<Rightarrow> go_error \<Rightarrow> reply list" where
  "WriteStatusError status err =
     (case err of
        Status st msg \<Rightarrow> [Code st, Body (P_Error st msg)]
      | _ \<Rightarrow> WriteErrorString status (error_text err))"

definition WriteError :: "go_error \<Rightarrow> reply list" where
  "WriteError err =
     (case err of
        Status st msg \<Rightarrow> [Code st, Body (P_Error st msg)]
      | _ \<Rightarrow> WriteErrorString 500 (error_text err))"

definition WriteEntity :: "payload \<Rightarrow> reply list" where
  "WriteEntity p = [Code 200, Body p]"

definition Created :: "payload \<Rightarrow> reply list" where
  "Created p = [Code 201, Body p]"

definition currentType :: "'m request \<Rightarrow> string" where
  "currentType req = (case rq_entityType req of Some t \<Rightarrow> t | None \<Rightarrow> ''dataset'')"

definition EntityNotFoundError :: "'m request \<Rightarrow> string \<Rightarrow> go_error \<Rightarrow> go_error" where
  "EntityNotFoundError req name err =
     Status 404 (go_title (currentType req) @ '' '' @ CHR 0x27 # name @ CHR 0x27 # '' not found'')"

definition AlreadyExistsError :: "'m request \<Rightarrow> string \<Rightarrow> go_error" where
  "AlreadyExistsError req name =
     Status 409 (go_title (currentType req) @ '' '' @ CHR 0x27 # name @ CHR 0x27 # '' already exists'')"

definition NotFoundHandler :: "'m request \<Rightarrow> ('m api, unit) prog" where
  "NotFoundHandler req =
     respond [Code 404, Body (P_Error 404 (''URI '' @ CHR 0x27 # rq_Path req @ CHR 0x27 # '' not found''))]"

text \<open>\<^verbatim>\<open>strconv.ParseBool\<close>: what is no boolean counts as false.\<close>

definition ParseBool :: "string \<Rightarrow> bool" where
  "ParseBool v \<longleftrightarrow> v \<in> {''1'', ''t'', ''T'', ''TRUE'', ''true'', ''True''}"

definition getBoolQueryParam :: "'m request \<Rightarrow> string \<Rightarrow> bool" where
  "getBoolQueryParam req param = ParseBool (query_param req param)"

text \<open>\<^verbatim>\<open>strings.Contains\<close>.\<close>

definition has_substring :: "string \<Rightarrow> string \<Rightarrow> bool" where
  "has_substring s sub \<longleftrightarrow> (\<exists>i \<in> set [0..<Suc (length s)]. prefix sub (drop i s))"

section \<open>The filter on the type\<close>

text \<open>\<^verbatim>\<open>plukclient.AllowedTypes\<close>.\<close>

definition AllowedTypes :: "string list" where
  "AllowedTypes = [''dataset'', ''model'']"

definition setCurrentType :: "('m request \<Rightarrow> ('m api, unit) prog) \<Rightarrow> 'm request \<Rightarrow> ('m api, unit) prog" where
  "setCurrentType handler req =
     (case map_of (rq_Params req) ''entityType'' of
        None \<Rightarrow> handler req
      | Some eType \<Rightarrow>
          if eType \<in> set AllowedTypes then handler (req\<lparr>rq_entityType := Some eType\<rparr>)
          else NotFoundHandler req)"

section \<open>The cache of trees\<close>

definition fsCacheKeyPrefix :: "dataset_row \<Rightarrow> string" where
  "fsCacheKeyPrefix ds = d_Type ds @ ''/'' @ d_Workspace ds @ ''/'' @ d_Name ds"

definition fsCacheKey :: "dataset_row \<Rightarrow> string \<Rightarrow> string" where
  "fsCacheKey dataset version = fsCacheKeyPrefix dataset @ '':'' @ version @ ''-fs''"

text \<open>The dataset carries the master it was found with: \<open>ms\<close>.\<close>

definition api_getFS :: "settings \<Rightarrow> 'm client option \<Rightarrow> dataset_row \<Rightarrow> string \<Rightarrow> ('m api, fs) prog" where
  "api_getFS st ms dataset version =
     bnd (get_state (\<lambda>s. cache_Get (ap_now s) (ap_fsCache s) (fsCacheKey dataset version))) (\<lambda>fsRaw.
       case fsRaw of
         Some fs \<Rightarrow> ret fs
       | None \<Rightarrow> attempt (on_db (GetFSStructure st ms dataset version)) (\<lambda>r.
           case r of
             Inl err \<Rightarrow> fail (Status 404 (error_text err))
           | Inr fs \<Rightarrow>
               bnd (put_state (\<lambda>s. s\<lparr>ap_fsCache := cache_Set (ap_now s) (fsCacheKey dataset version) fs (ap_fsCache s)\<rparr>))
                 (\<lambda>_. ret fs)))"

fun cacheFS :: "settings \<Rightarrow> 'm client option \<Rightarrow> dataset_row \<Rightarrow> string list \<Rightarrow> ('m api, unit) prog" where
  "cacheFS st ms dataset [] = ret ()"
| "cacheFS st ms dataset (v # vs) = attempt (api_getFS st ms dataset v) (\<lambda>r.
     case r of Inl _ \<Rightarrow> ret () | Inr _ \<Rightarrow> cacheFS st ms dataset vs)"

text \<open>\<^verbatim>\<open>Items\<close> of the cache are those that have not expired; the others are not served either.\<close>

definition invalidateCache :: "dataset_row option \<Rightarrow> ('m api, unit) prog" where
  "invalidateCache ds =
     (case ds of
        None \<Rightarrow> ret ()
      | Some d \<Rightarrow> put_state (\<lambda>s. s\<lparr>ap_fsCache :=
          filter (\<lambda>(k, _, e). \<not> (ap_now s \<le> e \<and> prefix (fsCacheKeyPrefix d) k)) (ap_fsCache s)\<rparr>))"

definition invalidateVersionCache :: "dataset_row \<Rightarrow> string \<Rightarrow> ('m api, unit) prog" where
  "invalidateVersionCache ds version = put_state (\<lambda>s. s\<lparr>ap_fsCache := AList.delete (fsCacheKey ds version) (ap_fsCache s)\<rparr>)"

section \<open>The locks of saved versions\<close>

text \<open>
  \<open>ap_saveLocks\<close> says of each lock whether it is held. A handler that waits for a held lock keeps
  \<^verbatim>\<open>api.lock\<close>, and as handlers run one after the other here it waits for ever; releasing a lock that is
  not held panics.
\<close>

definition saveLockKey :: "string \<Rightarrow> string \<Rightarrow> string \<Rightarrow> string" where
  "saveLockKey ws ds version = ws @ ''-'' @ ds @ ''-'' @ version"

definition lockForSave :: "string \<Rightarrow> string \<Rightarrow> string \<Rightarrow> ('m api, unit) prog" where
  "lockForSave ws ds version = (\<lambda>s.
     if map_of (ap_saveLocks s) (saveLockKey ws ds version) = Some True then None
     else Some (Inr (), s\<lparr>ap_saveLocks := AList.update (saveLockKey ws ds version) True (ap_saveLocks s)\<rparr>))"

definition unlockForSave :: "string \<Rightarrow> string \<Rightarrow> string \<Rightarrow> ('m api, unit) prog" where
  "unlockForSave ws ds version = (\<lambda>s.
     case map_of (ap_saveLocks s) (saveLockKey ws ds version) of
       None \<Rightarrow> Some (Inr (), s)
     | Some False \<Rightarrow> None
     | Some True \<Rightarrow> Some (Inr (), s\<lparr>ap_saveLocks := AList.update (saveLockKey ws ds version) False (ap_saveLocks s)\<rparr>))"

section \<open>Running handlers\<close>

lemma put_run [run_simps]: "put_state f s = Some (Inr (), f s)" by (simp add: put_state_def)
lemma get_run [run_simps]: "get_state f s = Some (Inr (f s), s)" by (simp add: get_state_def)
lemma respond_run [run_simps]: "respond rs s = Some (Inr (), s\<lparr>ap_resp := ap_resp s @ rs\<rparr>)" by (simp add: respond_def put_state_def)

lemma on_db_run [run_simps]: "m (ap_db s) = Some (r, d) \<Longrightarrow> on_db m s = Some (r, s\<lparr>ap_db := d\<rparr>)"
  by (simp add: on_db_def)

lemma on_node_run [run_simps]: "f (node_of s) = Some (r, nd) \<Longrightarrow> on_node f s = Some (Inr r, with_node nd s)"
  by (simp add: on_node_def)

lemma or_respond_run [run_simps]:
  "m s = Some (Inr x, s') \<Longrightarrow> or_respond m w k s = k x s'"
  "m s = Some (Inl e, s') \<Longrightarrow> or_respond m w k s = Some (Inr (), s'\<lparr>ap_resp := ap_resp s' @ w e\<rparr>)"
  by (simp_all add: or_respond_def attempt_run respond_run)

end
