(* ===== verification/Upholds.thy ===== *)
theory Upholds
  imports Api Collect
begin

text \<open>
  Reasoning about programs, whichever statements fail: \<open>upholds P m\<close> says that \<open>m\<close> keeps the predicate \<open>P\<close>
  of its state, \<open>ensures P m R\<close> that a run from \<open>P\<close> ends with \<open>R\<close> of its result and its state.
  The rules follow the way programs are composed.
\<close>

section \<open>Invariants\<close>

definition upholds :: "('s \<Rightarrow> bool) \<Rightarrow> ('s, 'a) prog \<Rightarrow> bool" where
  "upholds P m \<longleftrightarrow> (\<forall>s r s'. P s \<longrightarrow> m s = Some (r, s') \<longrightarrow> P s')"

named_theorems upholds_intros

lemma upholds_basic [upholds_intros]:
  "upholds P (ret x)" "upholds P (fail e)" "upholds P crash" "upholds P (lift_option z)" "upholds P (lift_res q)" "upholds P (lift_err u)"
  by (auto simp: upholds_def ret_def fail_def crash_def lift_option_def lift_res_def lift_err_def split: option.splits sum.splits)

text \<open>What the first part returns may matter to the second.\<close>

lemma upholds_attempt_with:
  assumes "\<And>s r s'. P s \<Longrightarrow> m s = Some (r, s') \<Longrightarrow> P s' \<and> Q r" and "\<And>r. Q r \<Longrightarrow> upholds P (k r)"
  shows "upholds P (attempt m k)"
  unfolding upholds_def
proof (intro allI impI)
  fix s r s'
  assume s: "P s" and run: "attempt m k s = Some (r, s')"
  obtain x t where m: "m s = Some (x, t)" and k: "k x t = Some (r, s')"
    using run by (auto simp: attempt_def split: option.splits)
  show "P s'" using assms(1) [OF s m] assms(2) [of x] k by (auto simp: upholds_def)
qed

lemma upholds_attempt [upholds_intros]: "upholds P m \<Longrightarrow> (\<And>r. upholds P (k r)) \<Longrightarrow> upholds P (attempt m k)"
  by (rule upholds_attempt_with [where Q = "\<lambda>_. True"]) (unfold upholds_def, blast+)

lemma upholds_bnd [upholds_intros]: "upholds P m \<Longrightarrow> (\<And>x. upholds P (k x)) \<Longrightarrow> upholds P (bnd m k)"
  unfolding bnd_def by (rule upholds_attempt) (auto split: sum.split intro: upholds_basic)

lemma upholds_cases [upholds_intros]:
  "(b \<Longrightarrow> upholds P m) \<Longrightarrow> (\<not> b \<Longrightarrow> upholds P n) \<Longrightarrow> upholds P (if b then m else n)"
  "upholds P m \<Longrightarrow> (\<And>x. upholds P (k x)) \<Longrightarrow> upholds P (case o' of None \<Rightarrow> m | Some x \<Rightarrow> k x)"
  "(\<And>e. upholds P (h e)) \<Longrightarrow> (\<And>x. upholds P (k' x)) \<Longrightarrow> upholds P (case s of Inl e \<Rightarrow> h e | Inr x \<Rightarrow> k' x)"
  "upholds P m \<Longrightarrow> (\<And>x xs. upholds P (l x xs)) \<Longrightarrow> upholds P (case ys of [] \<Rightarrow> m | x # xs \<Rightarrow> l x xs)"
  "(\<And>x y. upholds P (q x y)) \<Longrightarrow> upholds P (case p of (x, y) \<Rightarrow> q x y)"
  by (simp_all split: option.split sum.split list.split prod.split)

lemma upholds_for_each [upholds_intros]: "(\<And>x. upholds P (body x)) \<Longrightarrow> upholds P (for_each body xs)"
proof (induction xs)
  case (Cons x xs)
  then show ?case unfolding for_each.simps by (intro upholds_bnd) auto
qed (simp add: upholds_basic)

lemma upholds_map_each [upholds_intros]: "(\<And>x. upholds P (body x)) \<Longrightarrow> upholds P (map_each body xs)"
proof (induction xs)
  case (Cons x xs)
  then show ?case unfolding map_each.simps by (intro upholds_bnd upholds_basic) auto
qed (simp add: upholds_basic)

lemma upholds_ignore [upholds_intros]: "upholds P m \<Longrightarrow> upholds P (ignore m)"
  unfolding ignore_def by (intro upholds_intros)

section \<open>Pre- and postconditions\<close>

definition ensures :: "('s \<Rightarrow> bool) \<Rightarrow> ('s, 'a) prog \<Rightarrow> ('a res \<Rightarrow> 's \<Rightarrow> bool) \<Rightarrow> bool" where
  "ensures P m R \<longleftrightarrow> (\<forall>s r s'. P s \<longrightarrow> m s = Some (r, s') \<longrightarrow> R r s')"

lemma ensuresD: "ensures P m R \<Longrightarrow> P s \<Longrightarrow> m s = Some (r, s') \<Longrightarrow> R r s'"
  by (simp add: ensures_def)

lemma upholds_ensures: "upholds P m \<longleftrightarrow> ensures P m (\<lambda>_. P)"
  by (simp add: upholds_def ensures_def)

lemma ensures_weaken:
  assumes "ensures P m R" and "\<And>s. P' s \<Longrightarrow> P s" and "\<And>r s. R r s \<Longrightarrow> R' r s"
  shows "ensures P' m R'"
  using assms unfolding ensures_def by blast

text \<open>What holds of a result: \<open>E\<close> with an error, \<open>R\<close> with a value.\<close>

definition outcome :: "('s \<Rightarrow> bool) \<Rightarrow> ('a \<Rightarrow> 's \<Rightarrow> bool) \<Rightarrow> 'a res \<Rightarrow> 's \<Rightarrow> bool" where
  "outcome E R r s = (case r of Inl e \<Rightarrow> E s | Inr x \<Rightarrow> R x s)"

lemma outcome_simps [simp]: "outcome E R (Inl e) = E" "outcome E R (Inr x) = R x"
  by (simp_all add: outcome_def fun_eq_iff)

lemma outcome_same [simp]: "outcome P (\<lambda>_. P) = (\<lambda>_. P)"
  by (intro ext) (simp add: outcome_def split: sum.split)

lemma upholds_outcome: "upholds P m \<longleftrightarrow> ensures P m (outcome P (\<lambda>_. P))"
  by (simp add: upholds_ensures)

lemma ensures_basic:
  "(\<And>s. P s \<Longrightarrow> R x s) \<Longrightarrow> ensures P (ret x) (outcome E R)"
  "(\<And>s. P s \<Longrightarrow> E s) \<Longrightarrow> ensures P (fail e) (outcome E R)"
  "ensures P crash (outcome E R)"
  "(\<And>x s. z = Some x \<Longrightarrow> P s \<Longrightarrow> R x s) \<Longrightarrow> ensures P (lift_option z) (outcome E R)"
  by (auto simp: ensures_def ret_def fail_def crash_def lift_option_def split: option.splits)

lemma ensures_bnd:
  assumes "ensures P m (outcome E Q)" and "\<And>x. ensures (Q x) (k x) (outcome E R)"
  shows "ensures P (bnd m k) (outcome E R)"
  unfolding ensures_def
proof (intro allI impI)
  fix s r s'
  assume s: "P s" and run: "bnd m k s = Some (r, s')"
  obtain x t where m: "m s = Some (x, t)" using run by (auto simp: bnd_def attempt_def split: option.splits)
  have Q: "outcome E Q x t" using assms(1) s m by (rule ensuresD)
  show "outcome E R r s'"
  proof (cases x)
    case (Inl e)
    then have "r = Inl e" "s' = t" using m run by (simp_all add: bnd_def attempt_def fail_def)
    then show ?thesis using Q Inl by simp
  next
    case (Inr y)
    then have "k y t = Some (r, s')" using m run by (simp add: bnd_def attempt_def)
    then show ?thesis using ensuresD [OF assms(2)] Q Inr by simp
  qed
qed

lemma ensures_attempt:
  assumes "ensures P m R" and "\<And>r. ensures (R r) (k r) R'"
  shows "ensures P (attempt m k) R'"
  using assms by (fastforce simp: ensures_def attempt_def split: option.splits)

lemma ensures_then:
  assumes "upholds P m" and "\<And>s. P s \<Longrightarrow> R s" and "\<And>x. ensures P (k x) (\<lambda>_. R)"
  shows "ensures P (bnd m k) (\<lambda>_. R)"
proof -
  have "ensures P m (outcome R (\<lambda>_. P))" using assms(1,2) by (auto simp: upholds_ensures ensures_def outcome_def split: sum.split)
  from ensures_bnd [OF this, of k "\<lambda>_. R"] assms(3) show ?thesis by simp
qed

lemma ensures_if:
  "(b \<Longrightarrow> ensures P m R) \<Longrightarrow> (\<not> b \<Longrightarrow> ensures P n R) \<Longrightarrow> ensures P (if b then m else n) R"
  by simp

text \<open>A fact that does not depend on the state goes into the context.\<close>

lemma ensures_pure: "(\<And>s. P s \<Longrightarrow> V) \<Longrightarrow> (V \<Longrightarrow> ensures P m R) \<Longrightarrow> ensures P m R"
  unfolding ensures_def by blast

text \<open>The first part makes \<open>P\<close> stronger for the second.\<close>

lemma upholds_bnd_with:
  assumes "ensures P m (outcome P Q)" and "\<And>x. ensures (Q x) (k x) (outcome P (\<lambda>_. P))"
  shows "upholds P (bnd m k)"
  unfolding upholds_outcome by (rule ensures_bnd [OF assms])

lemma ensures_upholds: "upholds Q m \<Longrightarrow> (\<And>s. Q s \<Longrightarrow> P s) \<Longrightarrow> ensures Q m (outcome P (\<lambda>_. P))"
  by (auto simp: upholds_ensures intro: ensures_weaken)

end
