(* ===== verification/TableInvariants.thy ===== *)
theory TableInvariants
  imports Upholds
begin

text \<open>
  Invariants of the tables, whichever statements fail: the locale \<open>table_invariant\<close> has as its laws what
  the single changes of rows must keep, and shows that then every program over the database keeps the
  invariant, in the tables and in those a rollback would bring back.
\<close>

section \<open>The state of the database\<close>

text \<open>
  \<open>holding Q F C\<close>: \<open>Q\<close> holds of the tables and of the saved ones, and there are rows for the files \<open>F\<close>,
  and rows or links for the chunks \<open>C\<close>, which a program is about to link.
\<close>

definition backed :: "tables \<Rightarrow> nat set" where
  "backed t = c_ID ` set (t_chunks t) \<union> l_ChunkID ` set (t_file_chunks t)"

definition holding :: "(tables \<Rightarrow> bool) \<Rightarrow> nat set \<Rightarrow> nat set \<Rightarrow> 'm db \<Rightarrow> bool" where
  "holding Q F C d \<longleftrightarrow> Q (db_tables d) \<and> list_all Q (db_saved d)
     \<and> F \<subseteq> f_ID ` set (t_files (db_tables d)) \<and> C \<subseteq> backed (db_tables d)"

abbreviation steady :: "(tables \<Rightarrow> bool) \<Rightarrow> 'm db \<Rightarrow> bool" where
  "steady Q \<equiv> holding Q {} {}"

definition grows :: "tables \<Rightarrow> tables \<Rightarrow> bool" where
  "grows t t' \<longleftrightarrow> f_ID ` set (t_files t) \<subseteq> f_ID ` set (t_files t') \<and> backed t \<subseteq> backed t'"

lemma grows_refl [simp]: "grows t t"
  by (simp add: grows_def)

lemma grows_trans: "grows t u \<Longrightarrow> grows u v \<Longrightarrow> grows t v"
  unfolding grows_def by (meson subset_trans)

lemma grows_rows [simp]:
  "grows t (t\<lparr>t_datasets := ds\<rparr>)" "grows t (t\<lparr>t_dataset_versions := vs\<rparr>)"
  "f_ID ` set (t_files t) \<subseteq> f_ID ` set fs \<Longrightarrow> grows t (t\<lparr>t_files := fs\<rparr>)"
  "c_ID ` set (t_chunks t) \<subseteq> c_ID ` set cs \<Longrightarrow> grows t (t\<lparr>t_chunks := cs\<rparr>)"
  "set (t_file_chunks t) \<subseteq> set ls \<Longrightarrow> grows t (t\<lparr>t_file_chunks := ls\<rparr>)"
  by (auto simp: grows_def backed_def)

lemma holding_less: "holding Q F C d \<Longrightarrow> F' \<subseteq> F \<Longrightarrow> C' \<subseteq> C \<Longrightarrow> holding Q F' C' d"
  by (auto simp: holding_def)

lemma holding_weak: "holding Q F C d \<Longrightarrow> steady Q d"
  by (rule holding_less) auto

text \<open>Statements.\<close>

lemma stmt_cases:
  assumes "stmt f d = Some (r, d')"
  obtains e where "r = Inl e" and "d' = d\<lparr>db_faults := tl (db_faults d)\<rparr>"
  | x t where "r = Inr x" and "f (db_tables d) = Inr (x, t)" and "d' = d\<lparr>db_faults := tl (db_faults d), db_tables := t\<rparr>"
  using assms by (auto simp: stmt_def Let_def split: list.splits option.splits sum.splits)

lemma ensures_stmt:
  assumes "\<And>d. P d \<Longrightarrow> E (d\<lparr>db_faults := tl (db_faults d)\<rparr>)"
    and "\<And>d x t. P d \<Longrightarrow> f (db_tables d) = Inr (x, t) \<Longrightarrow> R x (d\<lparr>db_faults := tl (db_faults d), db_tables := t\<rparr>)"
  shows "ensures P (stmt f) (outcome E R)"
  unfolding ensures_def by (auto elim!: stmt_cases simp: assms)

lemma ensures_stmt_holding:
  assumes "\<And>t x t'. Q t \<Longrightarrow> F \<subseteq> f_ID ` set (t_files t) \<Longrightarrow> C \<subseteq> backed t \<Longrightarrow> f t = Inr (x, t')
      \<Longrightarrow> Q t' \<and> grows t t' \<and> V x t'"
  shows "ensures (holding Q F C) (stmt f) (outcome (holding Q F C) (\<lambda>x d. holding Q F C d \<and> V x (db_tables d)))"
proof (rule ensures_stmt)
  fix d :: "'m db" and x t
  assume d: "holding Q F C d" and f: "f (db_tables d) = Inr (x, t)"
  have "Q t" "grows (db_tables d) t" "V x t" using assms [OF _ _ _ f] d by (auto simp: holding_def)
  then show "holding Q F C (d\<lparr>db_faults := tl (db_faults d), db_tables := t\<rparr>)
      \<and> V x (db_tables (d\<lparr>db_faults := tl (db_faults d), db_tables := t\<rparr>))"
    using d by (auto simp: holding_def grows_def)
qed (simp add: holding_def)

lemma holding_stmt:
  assumes "\<And>t x t'. Q t \<Longrightarrow> F \<subseteq> f_ID ` set (t_files t) \<Longrightarrow> C \<subseteq> backed t \<Longrightarrow> f t = Inr (x, t') \<Longrightarrow> Q t' \<and> grows t t'"
  shows "upholds (holding Q F C) (stmt f)"
  unfolding upholds_outcome
  using ensures_stmt_holding [of Q F C f "\<lambda>_ _. True"] assms by (simp add: ensures_def outcome_def)

lemma holding_query [upholds_intros]: "upholds (holding Q F C) (query g)"
  unfolding query_def by (rule holding_stmt) auto

lemma ensures_query:
  "ensures (holding Q F C) (query g) (outcome (holding Q F C) (\<lambda>x d. holding Q F C d \<and> x = g (db_tables d)))"
  unfolding query_def by (rule ensures_stmt_holding) auto

lemma holding_exec:
  "(\<And>t. Q t \<Longrightarrow> F \<subseteq> f_ID ` set (t_files t) \<Longrightarrow> C \<subseteq> backed t \<Longrightarrow> Q (f t) \<and> grows t (f t)) \<Longrightarrow> upholds (holding Q F C) (exec f)"
  unfolding exec_def by (rule holding_stmt) auto

text \<open>What does not touch the tables.\<close>

lemma holding_asks [upholds_intros]:
  "upholds (holding Q F C) ask_type" "upholds (holding Q F C) ask_now" "upholds (holding Q F C) (remote f)"
  by (auto simp: upholds_def ask_type_def ask_now_def remote_def holding_def split: prod.splits)

lemma holding_on_master [upholds_intros]: "upholds (holding Q F C) (on_master ms f)"
  unfolding on_master_def by (intro upholds_intros)

lemma holding_queues [upholds_intros]:
  "upholds (holding Q F C) (CheckAndDeleteChunk c)" "upholds (holding Q F C) (SendDeletePath p)" "upholds (holding Q F C) (send_gc msg)"
  "upholds (holding Q F C) (PushMessageDataset hub ds)" "upholds (holding Q F C) (PushMessageVersion hub dsv)"
  by (auto simp: upholds_def holding_def CheckAndDeleteChunk_def SendDeletePath_def send_gc_def PushMessageDataset_def
      PushMessageVersion_def ret_def)

text \<open>Transactions.\<close>

lemma steady_last: "steady Q d \<Longrightarrow> Q (hd (db_saved d @ [db_tables d])) \<and> list_all Q (tl (db_saved d))"
  by (cases "db_saved d") (auto simp: holding_def)

lemma steady_transactions [upholds_intros]: "upholds (steady Q) Begin" "upholds (steady Q) Rollback" "upholds (steady Q) Commit"
  using steady_last [of Q]
  by (auto simp: upholds_def Begin_def Rollback_def Commit_def Let_def split: list.splits option.splits)
    (auto simp: holding_def)

lemma steady_in_tx [upholds_intros]: "upholds (steady Q) m \<Longrightarrow> upholds (steady Q) (in_tx m)"
  unfolding in_tx_def by (intro upholds_intros)

section \<open>Rows that are placed\<close>

text \<open>When every place is taken at the end, no row was written over another.\<close>

definition free_places :: "'r option list \<Rightarrow> nat" where
  "free_places out = length (filter (\<lambda>x. x = None) out)"

lemma free_places_0: "free_places out = 0 \<longleftrightarrow> None \<notin> set out"
  by (induction out) (auto simp: free_places_def)

lemma free_places_update:
  "i < length out \<Longrightarrow> free_places (out[i := Some r]) = (if out ! i = None then free_places out - 1 else free_places out)"
proof (induction out arbitrary: i)
  case (Cons x out)
  show ?case
  proof (cases i)
    case (Suc k)
    then have "free_places (out[k := Some r]) = (if out ! k = None then free_places out - 1 else free_places out)" using Cons by simp
    moreover have "out ! k = None \<Longrightarrow> 0 < free_places out"
      using Cons.prems Suc by (auto simp: free_places_def filter_empty_conv in_set_conv_nth)
    ultimately show ?thesis using Suc by (auto simp: free_places_def)
  qed (simp add: free_places_def)
qed simp

lemma place_rows_all:
  assumes "place_rows place rows out = Some out'" and "None \<notin> set out'"
  shows "free_places out \<le> length rows"
    and "free_places out = length rows \<Longrightarrow> Some ` set rows \<union> (set out - {None}) \<subseteq> set out'"
proof -
  have "free_places out \<le> length rows \<and> (free_places out = length rows \<longrightarrow> Some ` set rows \<union> (set out - {None}) \<subseteq> set out')"
    using assms
  proof (induction rows arbitrary: out)
    case Nil
    then show ?case by (auto simp: free_places_0)
  next
    case (Cons r rows)
    then have p: "place r < length out" and next_rows: "place_rows place rows (out[place r := Some r]) = Some out'"
      by (auto split: if_splits)
    note IH = Cons.IH [OF next_rows Cons.prems(2)] and upd = free_places_update [OF p, of r]
    show ?case
    proof (intro conjI impI)
      show "free_places out \<le> length (r # rows)" using IH upd by (auto split: if_splits)
      assume full: "free_places out = length (r # rows)"
      then have none: "out ! place r = None" using IH upd by (auto split: if_splits)
      have "Some ` set rows \<union> (set (out[place r := Some r]) - {None}) \<subseteq> set out'" using IH upd full none by simp
      moreover have "set out - {None} \<subseteq> set (out[place r := Some r])"
      proof
        fix x assume "x \<in> set out - {None}"
        then obtain i where "i < length out" "out ! i = x" "x \<noteq> None" by (auto simp: in_set_conv_nth)
        then have "out[place r := Some r] ! i = x" using none by (cases "i = place r") auto
        then show "x \<in> set (out[place r := Some r])" using \<open>i < length out\<close> by (metis length_list_update nth_mem)
      qed
      moreover have "Some r \<in> set (out[place r := Some r])" using p by (rule set_update_memI)
      ultimately show "Some ` set (r # rows) \<union> (set out - {None}) \<subseteq> set out'" by auto
    qed
  qed
  then show "free_places out \<le> length rows" "free_places out = length rows \<Longrightarrow> Some ` set rows \<union> (set out - {None}) \<subseteq> set out'"
    by auto
qed

lemma place_rows_from:
  "place_rows place rows out = Some out' \<Longrightarrow> set out' \<subseteq> Some ` set rows \<union> set out"
proof (induction rows arbitrary: out)
  case (Cons r rows)
  then have "place_rows place rows (out[place r := Some r]) = Some out'" by (auto split: if_splits)
  from Cons.IH [OF this] show ?case using set_update_subset_insert [of out "place r" "Some r"] by auto
qed simp

lemma all_placed:
  assumes "place_rows place rows (replicate (length rows) None) = Some out" and "all_present out = Some xs"
  shows "set xs = set rows"
proof -
  have none: "None \<notin> set out" and xs: "xs = map the out" using assms(2) by (auto simp: all_present_def split: if_splits)
  have "free_places (replicate (length rows) None) = length rows" by (simp add: free_places_def)
  then have "Some ` set rows \<subseteq> set out" using place_rows_all(2) [OF assms(1) none] by blast
  moreover have "set out \<subseteq> Some ` set rows" using place_rows_from [OF assms(1)] none by (auto simp: image_iff split: if_splits)
  ultimately have "set out = Some ` set rows" by blast
  then show ?thesis by (simp add: xs image_image)
qed

section \<open>Changes of rows\<close>

lemma image_map_same: "(\<And>x. g (h x) = g x) \<Longrightarrow> g ` set (map h xs) = g ` set xs"
  by (simp add: image_image)

lemma upsert_file_ids: "f_ID ` set rows \<subseteq> f_ID ` set (upsert_file f rows)"
  unfolding upsert_file_def by (subst if_distrib) (auto simp del: set_map simp: image_map_same split: if_splits)

lemma upsert_files_ids: "f_ID ` set rows \<subseteq> f_ID ` set (fold upsert_file fs rows)"
proof (induction fs arbitrary: rows)
  case (Cons f fs)
  show ?case using upsert_file_ids [of rows f] Cons [of "upsert_file f rows"] by (auto intro: subset_trans)
qed simp

text \<open>An update that leaves the key and the hash of a chunk.\<close>

definition keeps_chunk :: "(chunk_row \<Rightarrow> chunk_row) \<Rightarrow> bool" where
  "keeps_chunk upd \<longleftrightarrow> (\<forall>c. c_ID (upd c) = c_ID c \<and> c_Hash (upd c) = c_Hash c)"

lemma upsert_chunk_ids:
  assumes "keeps_chunk upd"
  shows "c_ID ` set rows \<subseteq> c_ID ` set (upsert_chunk upd c rows)"
    and "c_Hash ` set (upsert_chunk upd c rows) = insert (c_Hash c) (c_Hash ` set rows)"
proof -
  have same: "c_ID ` set (map (\<lambda>g. if c_Hash g = c_Hash c then upd g else g) rows) = c_ID ` set rows"
    "c_Hash ` set (map (\<lambda>g. if c_Hash g = c_Hash c then upd g else g) rows) = c_Hash ` set rows"
    by (rule image_map_same, use assms in \<open>simp add: keeps_chunk_def\<close>)+
  show "c_ID ` set rows \<subseteq> c_ID ` set (upsert_chunk upd c rows)" unfolding upsert_chunk_def using same(1) by auto
  show "c_Hash ` set (upsert_chunk upd c rows) = insert (c_Hash c) (c_Hash ` set rows)"
    using same(2) by (auto simp: upsert_chunk_def simp del: list.set_map)
qed

definition upsert_raw :: "raw_file \<Rightarrow> chunk_row list \<Rightarrow> chunk_row list" where
  "upsert_raw raw = upsert_chunk (\<lambda>g. g\<lparr>c_Size := r_ChunkSize raw, c_Version := r_Version raw\<rparr>) (chunk_of_raw raw)"

lemma upsert_raw_ids:
  "c_ID ` set rows \<subseteq> c_ID ` set (upsert_raw raw rows)"
  "c_Hash ` set (upsert_raw raw rows) = insert (r_Hash raw) (c_Hash ` set rows)"
  unfolding upsert_raw_def
  by (rule upsert_chunk_ids, simp add: keeps_chunk_def) (subst upsert_chunk_ids, auto simp: keeps_chunk_def chunk_of_raw_def)

lemma upsert_raws_ids:
  "c_ID ` set rows \<subseteq> c_ID ` set (fold upsert_raw raws rows)"
  "c_Hash ` set (fold upsert_raw raws rows) = r_Hash ` set raws \<union> c_Hash ` set rows"
proof (induction raws arbitrary: rows)
  case (Cons raw raws)
  { case 1 show ?case using upsert_raw_ids(1) [of rows raw] Cons(1) [of "upsert_raw raw rows"] by (auto intro: subset_trans) }
  { case 2 show ?case using Cons(2) [of "upsert_raw raw rows"] by (auto simp: upsert_raw_ids) }
qed simp_all

lemma exclusives_hashes: "r_Hash ` set (exclusives raws) = r_Hash ` set raws"
proof -
  have inv: "\<forall>(k, r) \<in> set (fold (\<lambda>raw m. AList.update (r_Hash raw) raw m) rs m). r_Hash r = k"
    if "\<forall>(k, r) \<in> set m. r_Hash r = k" for rs :: "raw_file list" and m
    using that
  proof (induction rs arbitrary: m)
    case (Cons r rs)
    have "\<forall>(k, r) \<in> set (AList.update (r_Hash r) r m). r_Hash r = k"
      using Cons.prems set_update_subset_insert by (induction m) (auto split: if_splits)
    then show ?case using Cons.IH by simp
  qed simp
  have keys: "fst ` set (fold (\<lambda>raw m. AList.update (r_Hash raw) raw m) rs m) = r_Hash ` set rs \<union> fst ` set m" for rs m
    by (induction rs arbitrary: m) (auto simp: dom_update)
  have "r_Hash ` set (exclusives raws) = fst ` set (fold (\<lambda>raw m. AList.update (r_Hash raw) raw m) raws [])"
    using inv [of "[]" raws] by (force simp: exclusives_def)
  then show ?thesis by (simp add: keys)
qed

lemma assign_chunk_ids_in:
  assumes "\<forall>raw \<in> set raws. r_Hash raw \<in> c_Hash ` set chunks"
  shows "r_ChunkID ` set (assign_chunk_ids chunks raws) \<subseteq> c_ID ` set chunks"
    and "map r_FileID (assign_chunk_ids chunks raws) = map r_FileID raws"
proof -
  define step where "step = (\<lambda>(c::chunk_row) (raw::raw_file). if r_Hash raw = c_Hash c then raw\<lparr>r_ChunkID := c_ID c\<rparr> else raw)"
  have eq: "assign_chunk_ids cs rs = map (fold step cs) rs" for cs rs
    unfolding assign_chunk_ids_def step_def
    by (induction cs arbitrary: rs) (simp_all add: comp_def)
  have hash: "r_Hash (fold step cs r) = r_Hash r" "r_FileID (fold step cs r) = r_FileID r" for cs r
    by (induction cs arbitrary: r) (auto simp: step_def)
  have "r_ChunkID (fold step cs r) \<in> c_ID ` set cs" if "r_Hash r \<in> c_Hash ` set cs" for cs r
    using that
  proof (induction cs rule: rev_induct)
    case (snoc c cs)
    then show ?case using hash(1) [of cs r] by (auto simp: step_def)
  qed simp
  then show "r_ChunkID ` set (assign_chunk_ids chunks raws) \<subseteq> c_ID ` set chunks" using assms by (auto simp: eq)
  show "map r_FileID (assign_chunk_ids chunks raws) = map r_FileID raws" by (simp add: eq hash)
qed

lemma first_row_in: "first_row W rows = Inr x \<Longrightarrow> x \<in> set rows"
  by (auto simp: first_row_def find_Some_iff split: option.splits)

lemma assign_ids_from: "assign_ids fs rows = Some gs \<Longrightarrow> g \<in> set gs \<Longrightarrow> \<exists>h. Some h \<in> set rows \<and> f_ID h = f_ID g"
  by (induction fs rows arbitrary: gs rule: assign_ids.induct) (auto, blast+)

section \<open>The laws of an invariant\<close>

text \<open>
  \<open>ok_type\<close> are the types a dataset row may have; rows of datasets and versions may change in any other way.
  Links go away freely; files and chunks only when no link refers to them; a link comes when its file is there and its
  chunk is there or linked already.
\<close>

locale table_invariant =
  fixes Q :: "tables \<Rightarrow> bool" and ok_type :: "string \<Rightarrow> bool"
  assumes allowed: "ty \<in> set AllowedTypes \<Longrightarrow> ok_type ty"
    and types: "Q t \<Longrightarrow> r \<in> set (t_datasets t) \<Longrightarrow> ok_type (d_Type r)"
    and put_datasets: "Q t \<Longrightarrow> (\<And>r. r \<in> set ds \<Longrightarrow> ok_type (d_Type r)) \<Longrightarrow> Q (t\<lparr>t_datasets := ds\<rparr>)"
    and put_versions: "Q t \<Longrightarrow> Q (t\<lparr>t_dataset_versions := vs\<rparr>)"
    and drop_links: "Q t \<Longrightarrow> Q (t\<lparr>t_file_chunks := filter P (t_file_chunks t)\<rparr>)"
    and drop_files: "Q t \<Longrightarrow> (\<And>f. f \<in> set (t_files t) \<Longrightarrow> \<not> W f \<Longrightarrow> f_ID f \<notin> l_FileID ` set (t_file_chunks t))
      \<Longrightarrow> Q (t\<lparr>t_files := filter W (t_files t)\<rparr>)"
    and drop_chunks: "Q t \<Longrightarrow> (\<And>c. c \<in> set (t_chunks t) \<Longrightarrow> \<not> V c \<Longrightarrow> c_ID c \<notin> l_ChunkID ` set (t_file_chunks t))
      \<Longrightarrow> Q (t\<lparr>t_chunks := filter V (t_chunks t)\<rparr>)"
    and put_file: "Q t \<Longrightarrow> Q (t\<lparr>t_files := upsert_file f (t_files t)\<rparr>)"
    and put_chunk: "Q t \<Longrightarrow> keeps_chunk upd \<Longrightarrow> Q (t\<lparr>t_chunks := upsert_chunk upd c (t_chunks t)\<rparr>)"
    and put_link: "Q t \<Longrightarrow> l_FileID l \<in> f_ID ` set (t_files t) \<Longrightarrow> l_ChunkID l \<in> backed t
      \<Longrightarrow> Q (t\<lparr>t_file_chunks := insert_link l (t_file_chunks t)\<rparr>)"
begin

text \<open>Rows of datasets and versions.\<close>

lemma change_datasets:
  "Q t \<Longrightarrow> ok_type (d_Type r) \<Longrightarrow> Q (t\<lparr>t_datasets := t_datasets t @ [r]\<rparr>)"
  "Q t \<Longrightarrow> ok_type (d_Type r) \<Longrightarrow> Q (t\<lparr>t_datasets := save_row key r (t_datasets t)\<rparr>)"
  "Q t \<Longrightarrow> Q (t\<lparr>t_datasets := filter W (t_datasets t)\<rparr>)"
  "Q t \<Longrightarrow> (\<And>r. d_Type (g r) = d_Type r) \<Longrightarrow> Q (t\<lparr>t_datasets := map g (t_datasets t)\<rparr>)"
  by (rule put_datasets; auto simp: save_row_def types split: if_splits)+

lemma CreateDataset: "ok_type (d_Type ds) \<Longrightarrow> upholds (holding Q F C) (CreateDataset ds)"
  unfolding CreateDataset_def by (intro upholds_intros holding_stmt) (auto simp: Let_def change_datasets)

lemma UpdateDataset: "ok_type (d_Type ds) \<Longrightarrow> upholds (holding Q F C) (UpdateDataset ds)"
  unfolding UpdateDataset_def by (intro upholds_intros holding_stmt) (auto simp: Let_def change_datasets)

lemma dataset_rows [upholds_intros]:
  "upholds (holding Q F C) (RecoverDataset ds)" "upholds (holding Q F C) (GetDataset ty ws name)"
  "upholds (holding Q F C) (ListDatasets q)" "upholds (holding Q F C) (db_DeleteDataset i)"
  unfolding RecoverDataset_def GetDataset_def ListDatasets_def db_DeleteDataset_def
  by (intro upholds_intros holding_stmt holding_exec; auto simp: change_datasets split: sum.splits)+

lemma GetDataset_type:
  assumes "GetDataset ty ws name d = Some (Inr ds, d')" and "holding Q F C d"
  shows "ok_type (d_Type ds)"
  using assms types
  by (auto simp: GetDataset_def holding_def first_row_def find_Some_iff elim!: stmt_cases split: option.splits sum.splits)

lemma version_rows [upholds_intros]:
  "upholds (holding Q F C) (CreateDatasetVersion v)" "upholds (holding Q F C) (UpdateDatasetVersion v)"
  "upholds (holding Q F C) (RecoverDatasetVersion v)" "upholds (holding Q F C) (GetDatasetVersion a b c e)"
  "upholds (holding Q F C) (ListDatasetVersions q)" "upholds (holding Q F C) (DeleteDatasetVersion i)"
  "upholds (holding Q F C) (db_CommitVersion a b c e g)" "upholds (holding Q F C) (UpdateDatasetVersionSize a b c e)"
  unfolding CreateDatasetVersion_def UpdateDatasetVersion_def RecoverDatasetVersion_def GetDatasetVersion_def ListDatasetVersions_def
    DeleteDatasetVersion_def db_CommitVersion_def UpdateDatasetVersionSize_def Let_def
  by (intro upholds_intros holding_stmt holding_exec; auto split: sum.splits intro: put_versions)+

lemma file_queries [upholds_intros]:
  "upholds (holding Q F C) (ListFiles q)" "upholds (holding Q F C) (db_GetFile a b c e g)" "upholds (holding Q F C) (GetRawFiles h i j k l m)"
  "upholds (holding Q F C) (ListFileChunksByChunks cs)"
  unfolding ListFiles_def db_GetFile_def GetRawFiles_def ListFileChunksByChunks_def
  by (intro upholds_intros holding_stmt; auto split: sum.splits)+

text \<open>Files. What is created can be linked.\<close>

lemma put_files: "Q t \<Longrightarrow> Q (t\<lparr>t_files := fold upsert_file fs (t_files t)\<rparr>)"
proof (induction fs arbitrary: t)
  case (Cons f fs)
  show ?case using Cons.IH [OF put_file [OF Cons.prems]] by simp
qed simp

lemma grows_files: "grows t (t\<lparr>t_files := fold upsert_file fs (t_files t)\<rparr>)"
  by (intro grows_rows upsert_files_ids)

lemma create_file_row:
  "ensures (holding Q F C) (create_file_row f) (outcome (holding Q F C) (\<lambda>g d. holding Q F C d \<and> f_ID g \<in> f_ID ` set (t_files (db_tables d))))"
  unfolding create_file_row_def
proof (rule ensures_stmt_holding)
  fix t x t'
  assume "Q t" and run: "(if \<exists>g \<in> set (t_files t). same_file g f then Inl unique_violation
      else let g = f\<lparr>f_ID := next_id (map f_ID (t_files t))\<rparr> in Inr (g, t\<lparr>t_files := t_files t @ [g]\<rparr>)) = Inr (x, t')"
  then have "t' = t\<lparr>t_files := fold upsert_file [f] (t_files t)\<rparr>" "x \<in> set (t_files t')"
    by (auto simp: upsert_file_def Let_def split: if_splits)
  then show "Q t' \<and> grows t t' \<and> f_ID x \<in> f_ID ` set (t_files t')" using put_files [OF \<open>Q t\<close>] grows_files by blast
qed

lemma insert_files [upholds_intros]: "upholds (holding Q F C) (insert_files dbtype fs)"
  unfolding insert_files_def by (rule holding_stmt) (auto split: if_splits simp: put_files grows_files)

lemma ListFilesByPath:
  "ensures (holding Q F C) (ListFilesByPath fs ty ws ds ver)
     (outcome (holding Q F C) (\<lambda>(rows, _) d. holding Q F C d \<and> (\<forall>g. Some g \<in> set rows \<longrightarrow> f_ID g \<in> f_ID ` set (t_files (db_tables d)))))"
  (is "ensures ?P _ (outcome _ ?R)")
proof -
  let ?pick = "\<lambda>t. map (\<lambda>f. blank_file\<lparr>f_ID := f_ID f, f_Path := f_Path f\<rparr>)
      (filter (\<lambda>f. f_Path f \<in> set (map f_Path fs) \<and> f_DatasetType f = ty \<and> f_Workspace f = ws \<and> f_DatasetName f = ds \<and> f_Version f = ver) (t_files t))"
  have ask: "ensures ?P (if fs = [] then stmt (\<lambda>t. Inl syntax_error) else query ?pick)
      (\<lambda>r d. ?P d \<and> (\<forall>rows. r = Inr rows \<longrightarrow> f_ID ` set rows \<subseteq> f_ID ` set (t_files (db_tables d))))"
    by (auto simp: ensures_def query_def holding_def elim!: stmt_cases split: if_splits)
  show ?thesis
    unfolding ensures_def ListFilesByPath_def Let_def
  proof (intro allI impI)
    fix d r d'
    let ?m = "if fs = [] then stmt (\<lambda>t. Inl syntax_error) else query ?pick"
    assume d: "?P d" and run: "attempt ?m (\<lambda>r. bnd (lift_option (place_rows (\<lambda>f. last_index (map f_Path fs) (f_Path f))
        (case r of Inl _ \<Rightarrow> [] | Inr rows \<Rightarrow> rows) (replicate (length (case r of Inl _ \<Rightarrow> [] | Inr rows \<Rightarrow> rows)) None)))
          (\<lambda>newFiles. ret (newFiles, case r of Inl e \<Rightarrow> Some e | Inr _ \<Rightarrow> None))) d = Some (r, d')"
    then obtain x t where m: "?m d = Some (x, t)" by (auto simp: attempt_def split: option.splits)
    define rows where "rows = (case x of Inl _ \<Rightarrow> [] | Inr rows \<Rightarrow> rows)"
    have t: "?P t" "f_ID ` set rows \<subseteq> f_ID ` set (t_files (db_tables t))"
      using ensuresD [OF ask d m] by (auto simp: rows_def split: sum.splits)
    obtain out e where out: "place_rows (\<lambda>f. last_index (map f_Path fs) (f_Path f)) rows (replicate (length rows) None) = Some out"
      "r = Inr (out, e)" "d' = t"
      using run m unfolding rows_def by (auto simp: attempt_def bnd_def lift_option_def crash_def ret_def split: option.splits)
    have "set out \<subseteq> Some ` set rows \<union> {None}" using place_rows_from [OF out(1)] by (auto split: if_splits)
    then have "g \<in> set rows" if "Some g \<in> set out" for g using that by blast
    then show "outcome ?P ?R r d'" using t out(2,3) by auto
  qed
qed

text \<open>Files that were created are there; \<open>F\<close> can be extended by them.\<close>

lemma CreateFiles:
  "ensures (holding Q F C) (CreateFiles fs :: ('m, file_row list) dbm) (outcome (holding Q F C) (\<lambda>gs. holding Q (F \<union> f_ID ` set gs) C))"
proof -
  have many: "ensures (holding Q F C) (map_each create_file_row xs :: ('m, file_row list) dbm) (outcome (holding Q F C) (\<lambda>gs. holding Q (F \<union> f_ID ` set gs) C))" for xs F
  proof (induction xs arbitrary: F)
    case Nil
    then show ?case by (auto intro!: ensures_basic)
  next
    case (Cons x xs)
    have rest: "ensures (\<lambda>d :: 'm db. holding Q F C d \<and> f_ID y \<in> f_ID ` set (t_files (db_tables d))) (bnd (map_each create_file_row xs) (\<lambda>ys. ret (y # ys)))
        (outcome (holding Q F C) (\<lambda>gs. holding Q (F \<union> f_ID ` set gs) C))" for y
    proof (rule ensures_bnd)
      show "ensures (\<lambda>d :: 'm db. holding Q F C d \<and> f_ID y \<in> f_ID ` set (t_files (db_tables d))) (map_each create_file_row xs)
          (outcome (holding Q F C) (\<lambda>gs. holding Q (insert (f_ID y) F \<union> f_ID ` set gs) C))"
        by (rule ensures_weaken [OF Cons.IH [of "insert (f_ID y) F"]]) (auto simp: holding_def outcome_def split: sum.splits)
    qed (auto intro!: ensures_basic)
    show ?case unfolding map_each.simps by (rule ensures_bnd [OF create_file_row rest])
  qed
  have batch: "ensures (holding Q F C) (bnd (ListFilesByPath xs ty ws ds ver) (\<lambda>(newFiles, err). lift_option (assign_ids xs newFiles)))
      (outcome (holding Q F C) (\<lambda>gs. holding Q (F \<union> f_ID ` set gs) C))" for xs ty ws ds ver
  proof (rule ensures_bnd [OF ListFilesByPath], clarsimp, rule ensures_basic)
    fix rows :: "file_row option list" and gs d
    assume gs: "assign_ids xs rows = Some gs" and d: "holding Q F C d \<and> (\<forall>g. Some g \<in> set rows \<longrightarrow> f_ID g \<in> f_ID ` set (t_files (db_tables d)))"
    have "f_ID g \<in> f_ID ` set (t_files (db_tables d))" if made: "g \<in> set gs" for g
    proof -
      obtain h where "Some h \<in> set rows" "f_ID h = f_ID g" using assign_ids_from [OF gs made] by blast
      then show ?thesis using d by metis
    qed
    then show "holding Q (F \<union> f_ID ` set gs) C d" using d by (auto simp: holding_def)
  qed
  have "ensures (holding Q F C) (bnd (insert_files dbtype xs) (\<lambda>_. case xs of [] \<Rightarrow> crash
        | f # _ \<Rightarrow> bnd (ListFilesByPath xs (f_DatasetType f) (f_Workspace f) (f_DatasetName f) (f_Version f))
               (\<lambda>(newFiles, err). lift_option (assign_ids xs newFiles))))
      (outcome (holding Q F C) (\<lambda>gs. holding Q (F \<union> f_ID ` set gs) C))" for dbtype xs
    by (rule ensures_bnd [OF insert_files [unfolded upholds_outcome]]) (auto split: list.split intro: ensures_basic batch)
  then show ?thesis unfolding CreateFiles_def Let_def
    by (intro ensures_bnd [OF holding_asks(2) [unfolded upholds_outcome]] ensures_bnd [OF holding_asks(1) [unfolded upholds_outcome]] ensures_if many)
qed

text \<open>Chunks.\<close>

lemma put_chunks: "Q t \<Longrightarrow> Q (t\<lparr>t_chunks := fold upsert_raw raws (t_chunks t)\<rparr>)"
proof (induction raws arbitrary: t)
  case (Cons raw raws)
  have "Q (t\<lparr>t_chunks := upsert_raw raw (t_chunks t)\<rparr>)"
    using put_chunk [OF Cons.prems] by (simp add: upsert_raw_def keeps_chunk_def)
  from Cons.IH [OF this] show ?case by simp
qed simp

lemma grows_chunks: "grows t (t\<lparr>t_chunks := fold upsert_raw raws (t_chunks t)\<rparr>)"
  by (intro grows_rows upsert_raws_ids)

lemma insert_chunks:
  "ensures (holding Q F C) (insert_chunks raws)
     (outcome (holding Q F C) (\<lambda>_ d. holding Q F C d \<and> r_Hash ` set raws \<subseteq> c_Hash ` set (t_chunks (db_tables d))))"
  unfolding insert_chunks_def
  by (rule ensures_stmt_holding) (auto simp: upsert_raw_def [symmetric, abs_def] put_chunks grows_chunks upsert_raws_ids(2) split: if_splits)

text \<open>The chunks found for a list of records: they are there, and every hash has one.\<close>

lemma ListChunksByHash:
  assumes "\<And>d. P d \<Longrightarrow> holding Q F C d \<and> r_Hash ` set raws \<subseteq> c_Hash ` set (t_chunks (db_tables d))"
  shows "ensures P (bnd (ListChunksByHash raws) (\<lambda>rows. lift_option (all_present rows)))
      (outcome (holding Q F C) (\<lambda>cs d. holding Q F (C \<union> c_ID ` set cs) d \<and> r_Hash ` set raws \<subseteq> c_Hash ` set cs))"
  unfolding ensures_def
proof (intro allI impI)
  fix d r d'
  let ?pick = "\<lambda>t. filter (\<lambda>c. c_Hash c \<in> set (map r_Hash raws)) (t_chunks t)"
  let ?place = "\<lambda>rows. place_rows (\<lambda>c. last_index (map r_Hash raws) (c_Hash c)) rows (replicate (length rows) None)"
  assume d: "P d" and run: "bnd (ListChunksByHash raws) (\<lambda>rows. lift_option (all_present rows)) d = Some (r, d')"
  then obtain x t where q: "query ?pick d = Some (x, t)" and k: "bnd (\<lambda>s. Some (x, s)) (\<lambda>rows. bnd (lift_option (?place rows)) (\<lambda>rows. lift_option (all_present rows))) t = Some (r, d')"
    by (auto simp: ListChunksByHash_def bnd_def attempt_def crash_def fail_def lift_option_def ret_def split: if_splits option.splits sum.splits)
  note start = assms [OF d]
  from q show "outcome (holding Q F C) (\<lambda>cs d. holding Q F (C \<union> c_ID ` set cs) d \<and> r_Hash ` set raws \<subseteq> c_Hash ` set cs) r d'"
    unfolding query_def
  proof (cases rule: stmt_cases)
    case (1 e)
    then show ?thesis using k start by (auto simp: bnd_def attempt_def fail_def holding_def)
  next
    case (2 rows t')
    then have rows: "rows = ?pick (db_tables d)" and tables: "db_tables t = db_tables d" "db_saved t = db_saved d" by auto
    obtain out cs where out: "?place rows = Some out" "all_present out = Some cs" "r = Inr cs" "d' = t"
      using k 2(1) by (auto simp: bnd_def attempt_def fail_def lift_option_def crash_def ret_def split: option.splits)
    have "set cs = set rows" using all_placed [OF out(1,2)] .
    then have "c_ID ` set cs \<subseteq> c_ID ` set (t_chunks (db_tables d))" using rows by auto
    moreover have "r_Hash raw \<in> c_Hash ` set cs" if "raw \<in> set raws" for raw
    proof -
      obtain c where "c \<in> set (t_chunks (db_tables d))" "c_Hash c = r_Hash raw" using start \<open>raw \<in> set raws\<close> by force
      then have "c \<in> set cs" using \<open>set cs = set rows\<close> rows \<open>raw \<in> set raws\<close> by auto
      then show ?thesis using \<open>c_Hash c = r_Hash raw\<close> by force
    qed
    then have "r_Hash ` set raws \<subseteq> c_Hash ` set cs" by blast
    ultimately show ?thesis using out start tables by (auto simp: holding_def backed_def)
  qed
qed

lemma CreateChunk:
  "ensures (holding Q F C) (CreateChunk chunk)
     (outcome (holding Q F C) (\<lambda>c d. holding Q F (insert (c_ID c) C) d \<and> c_Hash c = c_Hash chunk))"
proof -
  let ?R = "outcome (holding Q F C) (\<lambda>c d. holding Q F (insert (c_ID c) C) d \<and> c_Hash c = c_Hash chunk)"
  let ?ups = "upsert_chunk (\<lambda>g. g\<lparr>c_Size := c_Size chunk\<rparr>) chunk"
  have keeps: "keeps_chunk (\<lambda>g. g\<lparr>c_Size := c_Size chunk\<rparr>)" by (simp add: keeps_chunk_def)
  have step: "Q (t\<lparr>t_chunks := ?ups (t_chunks t)\<rparr>)" "grows t (t\<lparr>t_chunks := ?ups (t_chunks t)\<rparr>)" if "Q t" for t
    using put_chunk [OF that keeps] by (simp, intro grows_rows upsert_chunk_ids keeps)
  have post: "ensures (holding Q F C) (stmt (\<lambda>t.
         case find (\<lambda>g. c_Hash g = c_Hash chunk) (?ups (t_chunks t)) of
           None \<Rightarrow> Inl Record_Not_Found
         | Some g \<Rightarrow> Inr (chunk\<lparr>c_ID := c_ID g\<rparr>, t\<lparr>t_chunks := ?ups (t_chunks t)\<rparr>))) ?R"
    by (rule ensures_weaken, rule ensures_stmt_holding [where V = "\<lambda>c t. c_ID c \<in> c_ID ` set (t_chunks t) \<and> c_Hash c = c_Hash chunk"])
      (auto simp: step holding_def backed_def outcome_def find_Some_iff Let_def split: option.splits sum.splits)
  have lite: "ensures (holding Q F C) (bnd (db_GetChunk (c_Hash chunk)) (\<lambda>updated. ret (chunk\<lparr>c_ID := c_ID updated\<rparr>))) ?R"
  proof (rule ensures_bnd)
    show "ensures (holding Q F C) (db_GetChunk (c_Hash chunk))
        (outcome (holding Q F C) (\<lambda>u d. holding Q F C d \<and> c_ID u \<in> c_ID ` set (t_chunks (db_tables d))))"
      unfolding db_GetChunk_def
      by (rule ensures_stmt_holding) (auto simp: chunks_by_key_def dest!: first_row_in split: sum.splits)
  qed (auto intro!: ensures_basic simp: holding_def backed_def)
  have row: "ensures (holding Q F C) (create_chunk_row chunk) ?R"
    unfolding create_chunk_row_def
  proof (rule ensures_weaken [OF ensures_stmt_holding [where V = "\<lambda>c t. c_ID c \<in> c_ID ` set (t_chunks t) \<and> c_Hash c = c_Hash chunk"]])
    fix t c t'
    assume "Q t" and run: "(if c_Hash chunk \<in> set (map c_Hash (t_chunks t)) then Inl unique_violation
      else let c = chunk\<lparr>c_ID := next_id (map c_ID (t_chunks t))\<rparr> in Inr (c, t\<lparr>t_chunks := t_chunks t @ [c]\<rparr>)) = Inr (c, t')"
    then have "t' = t\<lparr>t_chunks := ?ups (t_chunks t)\<rparr>" "c \<in> set (t_chunks t')" "c_Hash c = c_Hash chunk"
      by (auto simp: upsert_chunk_def Let_def split: if_splits)
    then show "Q t' \<and> grows t t' \<and> c_ID c \<in> c_ID ` set (t_chunks t') \<and> c_Hash c = c_Hash chunk" using step \<open>Q t\<close> by blast
  qed (auto simp: holding_def backed_def outcome_def split: sum.splits)
  show ?thesis unfolding CreateChunk_def Let_def
    by (intro ensures_bnd [OF holding_asks(1) [unfolded upholds_outcome]] ensures_if post row
        ensures_bnd [OF holding_exec [unfolded upholds_outcome] lite]) (simp add: step)
qed

text \<open>The records come back with chunks that are there; \<open>C\<close> can be extended by them.\<close>

lemma CreateChunks:
  "ensures (holding Q F C) (CreateChunks raws :: ('m, raw_file list) dbm)
     (outcome (holding Q F C) (\<lambda>raws' d. holding Q F (C \<union> r_ChunkID ` set raws') d \<and> map r_FileID raws' = map r_FileID raws))"
proof -
  let ?ex = "exclusives raws"
  let ?R = "\<lambda>raws' d. holding Q F (C \<union> r_ChunkID ` set raws') d \<and> map r_FileID raws' = map r_FileID raws"
  let ?S = "\<lambda>cs d. holding Q F (C \<union> c_ID ` set cs) d \<and> r_Hash ` set ?ex \<subseteq> c_Hash ` set cs"
  have assign: "ensures (?S cs) (ret (assign_chunk_ids cs raws) :: ('m, raw_file list) dbm) (outcome (holding Q F C) ?R)" for cs
  proof (rule ensures_basic)
    fix d :: "'m db" assume d: "?S cs d"
    then have "\<forall>raw \<in> set raws. r_Hash raw \<in> c_Hash ` set cs" using exclusives_hashes [of raws] by auto
    note ids = assign_chunk_ids_in [OF this]
    have "C \<union> r_ChunkID ` set (assign_chunk_ids cs raws) \<subseteq> C \<union> c_ID ` set cs" using ids(1) by blast
    with d ids(2) show "?R (assign_chunk_ids cs raws) d" by (auto intro: holding_less)
  qed
  have batch: "ensures (holding Q F C) (bnd (bnd (insert_chunks ?ex) (\<lambda>_. ListChunksByHash ?ex)) (\<lambda>rows. lift_option (all_present rows))
        :: ('m, chunk_row list) dbm)
      (outcome (holding Q F C) ?S)"
    unfolding bnd_assoc by (rule ensures_bnd [OF insert_chunks ListChunksByHash]) simp
  have rows: "ensures (holding Q F C) (map_each (\<lambda>raw. bnd (CreateChunk (blank_chunk\<lparr>c_Hash := r_Hash raw, c_Size := r_ChunkSize raw\<rparr>)) (\<lambda>c. ret (Some c))) xs :: ('m, chunk_row option list) dbm)
      (outcome (holding Q F C) (\<lambda>out d. \<exists>cs. out = map Some cs \<and> holding Q F (C \<union> c_ID ` set cs) d \<and> r_Hash ` set xs \<subseteq> c_Hash ` set cs))"
    (is "ensures _ (map_each ?body xs) (outcome _ (?W C xs))") for xs C
  proof (induction xs arbitrary: C)
    case Nil
    then show ?case by (auto intro!: ensures_basic)
  next
    case (Cons x xs)
    have one: "ensures (holding Q F C) (?body x) (outcome (holding Q F C) (\<lambda>y d. \<exists>c. y = Some c \<and> holding Q F (insert (c_ID c) C) d \<and> c_Hash c = r_Hash x))"
      by (rule ensures_bnd [OF CreateChunk]) (auto intro!: ensures_basic)
    have "ensures (\<lambda>d :: 'm db. \<exists>c. y = Some c \<and> holding Q F (insert (c_ID c) C) d \<and> c_Hash c = r_Hash x)
        (bnd (map_each ?body xs) (\<lambda>ys. ret (y # ys))) (outcome (holding Q F C) (?W C (x # xs)))" for y
    proof (rule ensures_pure [where V = "\<exists>c. y = Some c \<and> c_Hash c = r_Hash x"])
      assume "\<exists>c. y = Some c \<and> c_Hash c = r_Hash x"
      then obtain c where c: "y = Some c" "c_Hash c = r_Hash x" by blast
      have "ensures (holding Q F (insert (c_ID c) C)) (bnd (map_each ?body xs) (\<lambda>ys. ret (y # ys) :: ('m, chunk_row option list) dbm))
          (outcome (holding Q F (insert (c_ID c) C)) (?W C (x # xs)))"
      proof (rule ensures_bnd [OF Cons.IH], rule ensures_basic)
        fix ys :: "chunk_row option list" and d :: "'m db"
        assume "?W (insert (c_ID c) C) xs ys d"
        then obtain cs where cs: "ys = map Some cs" "holding Q F (insert (c_ID c) C \<union> c_ID ` set cs) d" "r_Hash ` set xs \<subseteq> c_Hash ` set cs" by blast
        then have "holding Q F (C \<union> c_ID ` set (c # cs)) d" "r_Hash ` set (x # xs) \<subseteq> c_Hash ` set (c # cs)" using c(2) by auto
        then show "?W C (x # xs) (y # ys) d" using c(1) cs(1) by (intro exI [of _ "c # cs"]) simp
      qed
      then show ?thesis
        by (rule ensures_weaken) (auto simp: c(1) outcome_def holding_def split: sum.splits)
    qed blast
    then show ?case unfolding map_each.simps by (rule ensures_bnd [OF one])
  qed
  have single: "ensures (holding Q F C) (bnd (map_each (\<lambda>raw. bnd (CreateChunk (blank_chunk\<lparr>c_Hash := r_Hash raw, c_Size := r_ChunkSize raw\<rparr>)) (\<lambda>c. ret (Some c))) ?ex)
        (\<lambda>rows. lift_option (all_present rows)) :: ('m, chunk_row list) dbm) (outcome (holding Q F C) ?S)"
    by (rule ensures_bnd [OF rows], rule ensures_basic) (auto simp: all_present_def comp_def split: if_splits)
  have "ensures (holding Q F C) (bnd (if dbtype = ''postgres'' \<or> dbtype = ''sqlite3'' then bnd (insert_chunks ?ex) (\<lambda>_. ListChunksByHash ?ex)
          else map_each (\<lambda>raw. bnd (CreateChunk (blank_chunk\<lparr>c_Hash := r_Hash raw, c_Size := r_ChunkSize raw\<rparr>)) (\<lambda>c. ret (Some c))) ?ex)
        (\<lambda>rows. lift_option (all_present rows)) :: ('m, chunk_row list) dbm) (outcome (holding Q F C) ?S)" for dbtype
    using batch single by simp
  then have "ensures (holding Q F C) (bnd (bnd (if dbtype = ''postgres'' \<or> dbtype = ''sqlite3'' then bnd (insert_chunks ?ex) (\<lambda>_. ListChunksByHash ?ex)
          else map_each (\<lambda>raw. bnd (CreateChunk (blank_chunk\<lparr>c_Hash := r_Hash raw, c_Size := r_ChunkSize raw\<rparr>)) (\<lambda>c. ret (Some c))) ?ex)
        (\<lambda>rows. lift_option (all_present rows))) (\<lambda>cs. ret (assign_chunk_ids cs raws)) :: ('m, raw_file list) dbm) (outcome (holding Q F C) ?R)" for dbtype
    by (rule ensures_bnd [OF _ assign])
  then show ?thesis unfolding CreateChunks_def Let_def bnd_assoc
    by (intro ensures_bnd [OF holding_asks(1) [unfolded upholds_outcome]])
qed

text \<open>Links between files and chunks that are there.\<close>

lemma inserted_links: "set (fold insert_link ls ks) = set ls \<union> set ks"
  by (induction ls arbitrary: ks) (auto simp: insert_link_def)

lemma backed_links: "set (t_file_chunks t) \<subseteq> set ks \<Longrightarrow> backed t \<subseteq> backed (t\<lparr>t_file_chunks := ks\<rparr>)"
  using grows_rows(5) by (simp add: grows_def)

lemma put_links:
  "Q t \<Longrightarrow> l_FileID ` set ls \<subseteq> f_ID ` set (t_files t) \<Longrightarrow> l_ChunkID ` set ls \<subseteq> backed t
   \<Longrightarrow> Q (t\<lparr>t_file_chunks := fold insert_link ls (t_file_chunks t)\<rparr>)"
proof (induction ls arbitrary: t)
  case (Cons l ls)
  have "Q (t\<lparr>t_file_chunks := insert_link l (t_file_chunks t)\<rparr>)" using Cons.prems by (intro put_link) auto
  moreover have "backed t \<subseteq> backed (t\<lparr>t_file_chunks := insert_link l (t_file_chunks t)\<rparr>)"
    by (rule backed_links) (auto simp: insert_link_def)
  ultimately show ?case using Cons.IH [of "t\<lparr>t_file_chunks := insert_link l (t_file_chunks t)\<rparr>"] Cons.prems
    by (simp add: subset_trans [of _ "backed t"])
qed simp

lemma create_link_row:
  assumes "l_FileID l \<in> F" and "l_ChunkID l \<in> C"
  shows "upholds (holding Q F C) (create_link_row l)"
  unfolding create_link_row_def
proof (rule holding_stmt)
  fix t x t'
  assume "Q t" "F \<subseteq> f_ID ` set (t_files t)" "C \<subseteq> backed t"
    and "(if l \<in> set (t_file_chunks t) then Inl unique_violation else Inr ((), t\<lparr>t_file_chunks := t_file_chunks t @ [l]\<rparr>)) = Inr (x, t')"
  then show "Q t' \<and> grows t t'" using put_links [of t "[l]"] assms by (auto simp: insert_link_def split: if_splits intro!: grows_rows)
qed

lemma CreateFileChunks:
  assumes "l_FileID ` set ls \<subseteq> F" and "l_ChunkID ` set ls \<subseteq> C"
  shows "upholds (holding Q F C) (CreateFileChunks ls :: ('m, unit) dbm)"
proof -
  have "upholds (holding Q F C) (for_each (\<lambda>raw. create_link_row \<lparr>l_FileID = l_FileID raw, l_ChunkID = l_ChunkID raw, l_Index = 0\<rparr>) ls :: ('m, unit) dbm)"
    using assms by (induction ls) (simp_all add: upholds_basic upholds_bnd create_link_row)
  moreover have "upholds (holding Q F C) (stmt (\<lambda>t. if ls = [] then Inl syntax_error
      else Inr ((), t\<lparr>t_file_chunks := fold insert_link ls (t_file_chunks t)\<rparr>)) :: ('m, unit) dbm)"
    using put_links subset_trans [OF assms(1)] subset_trans [OF assms(2)] by (intro holding_stmt) (auto split: if_splits intro!: grows_rows simp: inserted_links)
  ultimately show ?thesis unfolding CreateFileChunks_def by (intro upholds_bnd [OF holding_asks(1)]) simp
qed

text \<open>Deletions.\<close>

lemma DeleteFileChunk [upholds_intros]: "upholds (holding Q F {}) (DeleteFileChunk m n)"
  unfolding DeleteFileChunk_def exec_def upholds_outcome by (rule ensures_stmt) (auto simp: holding_def drop_links)

lemma deleteChunks: "upholds (holding Q F {}) (deleteChunks st cs)"
proof -
  have links: "ensures (holding Q F {}) (ListFileChunksByChunks cs)
      (outcome (holding Q F {}) (\<lambda>ls d. holding Q F {} d \<and> (\<forall>l \<in> set (t_file_chunks (db_tables d)). l_ChunkID l \<in> c_ID ` set cs \<longrightarrow> l \<in> set ls)))"
    unfolding ListFileChunksByChunks_def by (rule ensures_weaken [OF ensures_query]) (auto simp: outcome_def split: sum.splits)
  define fits where "fits = (\<lambda>ls (d :: 'a db). holding Q F {} d \<and> (\<forall>l \<in> set (t_file_chunks (db_tables d)). l_ChunkID l \<in> c_ID ` set cs \<longrightarrow> l \<in> set ls))"
  have send: "upholds (fits ls) (for_each (\<lambda>c. bnd (lift_option (GetHashedFilename (st_DataDir st) (c_Hash c) (c_Version c))) SendDeletePath) xs)" for ls xs
    by (intro upholds_intros) (auto simp: upholds_def fits_def holding_def SendDeletePath_def)
  have drop: "ensures (fits ls) (DeleteChunks (unlinked cs ls)) (\<lambda>_. holding Q F {})" for ls
    unfolding DeleteChunks_def exec_def ensures_def
  proof (intro allI impI)
    fix d r d'
    assume d: "fits ls d" and run: "stmt (\<lambda>t. Inr ((), t\<lparr>t_chunks := filter (\<lambda>c. c_ID c \<notin> set (map c_ID (unlinked cs ls))) (t_chunks t)\<rparr>)) d = Some (r, d')"
    have "Q ((db_tables d)\<lparr>t_chunks := filter (\<lambda>c. c_ID c \<notin> set (map c_ID (unlinked cs ls))) (t_chunks (db_tables d))\<rparr>)"
    proof (rule drop_chunks)
      fix c assume "\<not> c_ID c \<notin> set (map c_ID (unlinked cs ls))"
      then obtain u where u: "u \<in> set (unlinked cs ls)" "c_ID u = c_ID c" by auto
      then have "c_ID c \<in> c_ID ` set cs" "c_ID c \<notin> l_ChunkID ` set ls" using unlinked_in [of u cs ls] by (auto, metis image_eqI)
      then show "c_ID c \<notin> l_ChunkID ` set (t_file_chunks (db_tables d))" using d by (auto simp: fits_def)
    qed (use d in \<open>simp add: fits_def holding_def\<close>)
    with run d show "holding Q F {} d'" by (auto simp: fits_def holding_def elim!: stmt_cases)
  qed
  have fin: "ensures (fits ls) (if unlinked cs ls \<noteq> [] then DeleteChunks (unlinked cs ls) else ret ()) (\<lambda>_. holding Q F {})" for ls
    using drop [of ls] by (auto simp: ensures_def ret_def fits_def)
  have rest: "ensures (fits ls) (bnd (for_each (\<lambda>c. bnd (lift_option (GetHashedFilename (st_DataDir st) (c_Hash c) (c_Version c))) SendDeletePath) (unlinked cs ls))
        (\<lambda>_. attempt (if unlinked cs ls \<noteq> [] then DeleteChunks (unlinked cs ls) else ret ()) (\<lambda>_. ret (int (length (unlinked cs ls))))))
      (\<lambda>_. holding Q F {})" for ls
  proof (rule ensures_then [OF send])
    show "ensures (fits ls) (attempt (if unlinked cs ls \<noteq> [] then DeleteChunks (unlinked cs ls) else ret ()) (\<lambda>_. ret (int (length (unlinked cs ls)))))
        (\<lambda>_. holding Q F {})"
      by (rule ensures_attempt [OF fin]) (simp add: ensures_def ret_def)
  qed (simp add: fits_def)
  show ?thesis unfolding upholds_ensures deleteChunks_def Let_def
  proof (rule ensures_attempt [OF links], goal_cases)
    case (1 r)
    show ?case
    proof (cases r)
      case (Inl e)
      then show ?thesis by (simp add: ensures_def ret_def)
    next
      case (Inr ls)
      then show ?thesis using rest [of ls] unfolding fits_def by (simp only: sum.case outcome_simps)
    qed
  qed
qed

lemma delete_batches: "upholds (holding Q F {}) (delete_batches st n cs)"
proof (induction st n cs rule: delete_batches.induct)
  case (1 st n cs)
  show ?case by (subst delete_batches.simps) (use 1 in \<open>intro upholds_intros deleteChunks, auto\<close>)
qed

lemma TriggerDeleteChunks [upholds_intros]: "upholds (holding Q F {}) (TriggerDeleteChunks st)"
proof -
  have "upholds (holding Q F {}) (bnd (delete_batches st 250 buf) (\<lambda>k d'. Some (Inr k, d'\<lparr>db_chunksBuf := []\<rparr>)))" for buf
    by (rule upholds_bnd [OF delete_batches]) (simp add: upholds_def holding_def)
  then show ?thesis unfolding TriggerDeleteChunks_def upholds_def by blast
qed

text \<open>The links of the files go first, so that none is left without its file.\<close>

lemma db_DeleteFiles [upholds_intros]: "upholds (steady Q) (db_DeleteFiles ty ws ds ver pre precise)"
proof -
  have two: "upholds (steady Q) (bnd (exec (\<lambda>t. t\<lparr>t_file_chunks := filter (\<lambda>l. l_FileID l \<notin> set (map f_ID (filter W (t_files t)))) (t_file_chunks t)\<rparr>))
      (\<lambda>_. stmt (\<lambda>t. Inr (n t, t\<lparr>t_files := filter (\<lambda>f. \<not> W f) (t_files t)\<rparr>))))" for W and n :: "tables \<Rightarrow> int"
  proof (rule upholds_bnd_with)
    show "ensures (steady Q) (exec (\<lambda>t. t\<lparr>t_file_chunks := filter (\<lambda>l. l_FileID l \<notin> set (map f_ID (filter W (t_files t)))) (t_file_chunks t)\<rparr>))
        (outcome (steady Q) (\<lambda>_ d. steady Q d \<and> (\<forall>f \<in> set (t_files (db_tables d)). W f \<longrightarrow> f_ID f \<notin> l_FileID ` set (t_file_chunks (db_tables d)))))"
      unfolding exec_def by (rule ensures_stmt) (auto simp: holding_def drop_links image_iff, metis)
    show "ensures (\<lambda>d. steady Q d \<and> (\<forall>f \<in> set (t_files (db_tables d)). W f \<longrightarrow> f_ID f \<notin> l_FileID ` set (t_file_chunks (db_tables d))))
        (stmt (\<lambda>t. Inr (n t, t\<lparr>t_files := filter (\<lambda>f. \<not> W f) (t_files t)\<rparr>))) (outcome (steady Q) (\<lambda>_. steady Q))"
      by (rule ensures_stmt) (auto simp: holding_def intro!: drop_files)
  qed
  show ?thesis unfolding db_DeleteFiles_def Let_def by (intro upholds_bnd [OF holding_asks(1)] two)
qed

lemma delete_rows [upholds_intros]:
  "upholds (steady Q) (DeleteRelatedFiles ty ws ds ver)" "upholds (steady Q) (DeleteFiles st ty ws ds ver pre precise strict)"
  unfolding DeleteRelatedFiles_def DeleteFiles_def by (intro upholds_intros)+

text \<open>Saving: what waits in the buffer belongs to files that are there.\<close>

lemma SaveDatasetVersion [upholds_intros]: "upholds (holding Q F C) (SaveDatasetVersion dsv)"
  unfolding SaveDatasetVersion_def Let_def by (intro upholds_intros)

lemma createConnections:
  assumes "r_FileID ` set raws \<subseteq> F"
  shows "upholds (holding Q F {}) (createConnections raws :: ('m, unit) dbm)"
proof -
  have "upholds (holding Q F {}) (bnd (CreateChunks raws) (\<lambda>raws'. CreateFileChunks
      (map (\<lambda>raw. \<lparr>l_FileID = r_FileID raw, l_ChunkID = r_ChunkID raw, l_Index = r_ChunkIndex raw\<rparr>) raws')) :: ('m, unit) dbm)"
  proof (rule upholds_bnd_with [OF CreateChunks])
    fix raws' :: "raw_file list"
    let ?links = "map (\<lambda>raw. \<lparr>l_FileID = r_FileID raw, l_ChunkID = r_ChunkID raw, l_Index = r_ChunkIndex raw\<rparr>) raws'"
    show "ensures (\<lambda>d :: 'm db. holding Q F ({} \<union> r_ChunkID ` set raws') d \<and> map r_FileID raws' = map r_FileID raws)
        (CreateFileChunks ?links) (outcome (holding Q F {}) (\<lambda>_. holding Q F {}))"
    proof (rule ensures_pure [where V = "map r_FileID raws' = map r_FileID raws"])
      assume "map r_FileID raws' = map r_FileID raws"
      then have "r_FileID ` set raws' \<subseteq> F" using assms by (metis list.set_map)
      then have "upholds (holding Q F (r_ChunkID ` set raws')) (CreateFileChunks ?links :: ('m, unit) dbm)"
        by (intro CreateFileChunks) auto
      from ensures_upholds [OF this, of "holding Q F {}"] show ?thesis
        by (rule ensures_weaken) (auto intro: holding_less)
    qed simp
  qed
  then show ?thesis unfolding createConnections_def by (intro upholds_cases upholds_basic)
qed

lemma tryFlushBuffer:
  assumes "r_FileID ` (set buffer \<union> set_option chunk) \<subseteq> F"
  shows "ensures (holding Q F {}) (tryFlushBuffer st chunk force buffer)
      (outcome (holding Q F {}) (\<lambda>b d. holding Q F {} d \<and> r_FileID ` set b \<subseteq> F))"
proof -
  let ?all = "buffer @ (case chunk of None \<Rightarrow> [] | Some c \<Rightarrow> [c])"
  have all: "r_FileID ` set ?all \<subseteq> F" using assms by (cases chunk) auto
  have "ensures (holding Q F {}) (bnd (TriggerDeleteChunks st) (\<lambda>_. bnd (createConnections ?all) (\<lambda>_. ret [])))
      (outcome (holding Q F {}) (\<lambda>b d. holding Q F {} d \<and> r_FileID ` set b \<subseteq> F))"
    by (rule ensures_bnd [OF TriggerDeleteChunks [unfolded upholds_outcome]],
        rule ensures_bnd [OF createConnections [OF all, unfolded upholds_outcome]]) (auto intro: ensures_basic)
  then show ?thesis unfolding tryFlushBuffer_def Let_def by (intro ensures_if ensures_basic(1)) (use all in simp_all)
qed

lemma flush_raws:
  assumes "r_FileID ` set (raws @ buffer) \<subseteq> F"
  shows "ensures (holding Q F {}) (flush_raws st raws buffer :: ('m, raw_file list) dbm)
      (outcome (holding Q F {}) (\<lambda>b d. holding Q F {} d \<and> r_FileID ` set b \<subseteq> F))"
  using assms
proof (induction raws arbitrary: buffer)
  case Nil
  then show ?case by (auto intro: ensures_basic)
next
  case (Cons raw raws)
  have one: "ensures (holding Q F {}) (tryFlushBuffer st (Some raw) False buffer :: ('m, raw_file list) dbm)
      (outcome (holding Q F {}) (\<lambda>b d. holding Q F {} d \<and> r_FileID ` set b \<subseteq> F))"
    using Cons.prems by (intro tryFlushBuffer) auto
  have "ensures (\<lambda>d :: 'm db. holding Q F {} d \<and> r_FileID ` set b \<subseteq> F) (flush_raws st raws b)
      (outcome (holding Q F {}) (\<lambda>b d. holding Q F {} d \<and> r_FileID ` set b \<subseteq> F))" for b
  proof (rule ensures_pure [where V = "r_FileID ` set b \<subseteq> F"])
    assume "r_FileID ` set b \<subseteq> F"
    then have "ensures (holding Q F {}) (flush_raws st raws b :: ('m, raw_file list) dbm)
        (outcome (holding Q F {}) (\<lambda>b d. holding Q F {} d \<and> r_FileID ` set b \<subseteq> F))"
      using Cons by (intro Cons.IH) auto
    then show "ensures (\<lambda>d :: 'm db. holding Q F {} d \<and> r_FileID ` set b \<subseteq> F) (flush_raws st raws b)
        (outcome (holding Q F {}) (\<lambda>b d. holding Q F {} d \<and> r_FileID ` set b \<subseteq> F))" by (rule ensures_weaken) auto
  qed simp
  then show ?case unfolding flush_raws.simps by (rule ensures_bnd [OF one])
qed

text \<open>The files that the records in the buffer belong to are there when it is handed on.\<close>

lemma flushFileBuffer:
  "ensures (holding Q (r_FileID ` set (sv_buffer sv)) {}) (flushFileBuffer st sv :: ('m, raw_file list) dbm)
     (outcome (steady Q) (\<lambda>b. holding Q (r_FileID ` set b) {}))"
proof -
  let ?F = "r_FileID ` set (sv_buffer sv)"
  have flush: "ensures (holding Q (?F \<union> f_ID ` set files) {}) (flush_raws st (raws_of_files (sv_fileMap sv) files) (sv_buffer sv) :: ('m, raw_file list) dbm)
      (outcome (steady Q) (\<lambda>b. holding Q (r_FileID ` set b) {}))" for files
  proof -
    have "r_FileID ` set (raws_of_files (sv_fileMap sv) files @ sv_buffer sv) \<subseteq> ?F \<union> f_ID ` set files"
      by (auto simp: raws_of_files_def)
    from flush_raws [OF this] show ?thesis
      by (rule ensures_weaken) (auto simp: outcome_def intro: holding_less split: sum.splits)
  qed
  have create: "ensures (holding Q ?F {}) (CreateFiles (sv_bufFiles sv) :: ('m, file_row list) dbm)
      (outcome (steady Q) (\<lambda>gs. holding Q (?F \<union> f_ID ` set gs) {}))"
    by (rule ensures_weaken [OF CreateFiles]) (auto simp: outcome_def intro: holding_weak split: sum.splits)
  have "ensures (holding Q ?F {}) (bnd (CreateFiles (sv_bufFiles sv)) (\<lambda>files. flush_raws st (raws_of_files (sv_fileMap sv) files) (sv_buffer sv)) :: ('m, raw_file list) dbm)
      (outcome (steady Q) (\<lambda>b. holding Q (r_FileID ` set b) {}))"
    by (rule ensures_bnd [OF create flush])
  then show ?thesis unfolding flushFileBuffer_def by (intro ensures_if ensures_basic) auto
qed

lemma CheckAndQueueFile: "upholds (holding Q F {}) (CheckAndQueueFile dsv f)"
  unfolding CheckAndQueueFile_def ClearExtraChunks_def Let_def by (intro upholds_intros)

lemma receiveFileToSave:
  "ensures (holding Q (r_FileID ` set (sv_buffer sv)) {}) (receiveFileToSave st dsv fs sv :: ('m, unit) dbm) (outcome (steady Q) (\<lambda>_. steady Q))"
proof (induction fs arbitrary: sv)
  case Nil
  have "ensures (holding Q (r_FileID ` set b) {}) (bnd (tryFlushBuffer st None True b) (\<lambda>_. ret ()) :: ('m, unit) dbm)
      (outcome (steady Q) (\<lambda>_. steady Q))" for b
  proof (rule ensures_bnd)
    show "ensures (holding Q (r_FileID ` set b) {}) (tryFlushBuffer st None True b :: ('m, raw_file list) dbm) (outcome (steady Q) (\<lambda>_. steady Q))"
      by (rule ensures_weaken [OF tryFlushBuffer [where F = "r_FileID ` set b"]]) (auto simp: outcome_def intro: holding_weak split: sum.splits)
  qed (simp add: ensures_def ret_def)
  then show ?case unfolding receiveFileToSave.simps by (rule ensures_bnd [OF flushFileBuffer])
next
  case (Cons f fs)
  let ?F = "r_FileID ` set (sv_buffer sv)"
  have queue: "ensures (holding Q ?F {}) (CheckAndQueueFile dsv f :: ('m, unit) dbm) (outcome (steady Q) (\<lambda>_. holding Q ?F {}))"
    by (rule ensures_weaken [OF CheckAndQueueFile [unfolded upholds_ensures]]) (auto simp: outcome_def intro: holding_weak split: sum.splits)
  let ?sv = "sv\<lparr>sv_bufFiles := sv_bufFiles sv @ [file_of_hashed dsv f], sv_fileMap := add_raws f (sv_fileMap sv)\<rparr>"
  have "ensures (holding Q ?F {}) (bnd (flushFileBuffer st ?sv) (\<lambda>buffer. ret \<lparr>sv_buffer = buffer, sv_bufFiles = [], sv_fileMap = []\<rparr>) :: ('m, save_buffers) dbm)
      (outcome (steady Q) (\<lambda>sv'. holding Q (r_FileID ` set (sv_buffer sv')) {}))"
    using flushFileBuffer [of ?sv st] by (intro ensures_bnd [OF _ ensures_basic(1)]) auto
  then have "ensures (holding Q ?F {}) (receive_file st dsv f sv :: ('m, save_buffers) dbm)
      (outcome (steady Q) (\<lambda>sv'. holding Q (r_FileID ` set (sv_buffer sv')) {}))"
    unfolding receive_file_def Let_def by (intro ensures_if ensures_basic) auto
  then show ?case unfolding receiveFileToSave.simps by (intro ensures_bnd [OF queue] ensures_bnd [OF _ Cons.IH])
qed

lemma receive [upholds_intros]:
  "upholds (steady Q) (receiveFileToSave st dsv fs \<lparr>sv_buffer = [], sv_bufFiles = [], sv_fileMap = []\<rparr>)"
  using receiveFileToSave [of "\<lparr>sv_buffer = [], sv_bufFiles = [], sv_fileMap = []\<rparr>"] by (simp add: upholds_outcome)

text \<open>Cloning: the links of the source are of chunks that are linked.\<close>

lemma send_links:
  assumes "l_FileID ` set (ls @ buf) \<subseteq> F" and "l_ChunkID ` set (ls @ buf) \<subseteq> C"
  shows "ensures (holding Q F C) (send_links ls buf :: ('m, file_chunk list) dbm)
      (outcome (holding Q F C) (\<lambda>b d. holding Q F C d \<and> l_FileID ` set b \<subseteq> F \<and> l_ChunkID ` set b \<subseteq> C))"
  using assms
proof (induction ls arbitrary: buf)
  case Nil
  then show ?case by (auto intro: ensures_basic)
next
  case (Cons l ls)
  let ?R = "outcome (holding Q F C) (\<lambda>b d. holding Q F C d \<and> l_FileID ` set b \<subseteq> F \<and> l_ChunkID ` set b \<subseteq> C)"
  have flush: "upholds (holding Q F C) (flushChunksBuffer (buf @ [l]) :: ('m, unit) dbm)"
    unfolding flushChunksBuffer_def by (intro upholds_cases upholds_basic CreateFileChunks) (use Cons.prems in auto)
  have "ensures (holding Q F C) (send_links ls [] :: ('m, file_chunk list) dbm) ?R" "ensures (holding Q F C) (send_links ls (buf @ [l]) :: ('m, file_chunk list) dbm) ?R"
    by (rule Cons.IH; use Cons.prems in \<open>simp add: image_Un\<close>)+
  then show ?case unfolding send_links.simps Let_def by (intro ensures_if ensures_bnd [OF flush [unfolded upholds_outcome]])
qed

lemma new_links_in:
  assumes "l_ChunkID ` set ls \<subseteq> C"
  shows "l_FileID ` set (new_links (links_by_file ls) i j) \<subseteq> {j}" and "l_ChunkID ` set (new_links (links_by_file ls) i j) \<subseteq> C"
  using assms by (auto simp: new_links_def links_by_file_lookup)

lemma flush_clones:
  assumes ls: "l_ChunkID ` set ls \<subseteq> C" and buf: "l_FileID ` set fcBuf \<subseteq> F" "l_ChunkID ` set fcBuf \<subseteq> C"
  shows "ensures (holding Q F C) (flush_clones (links_by_file ls) fileBuf fcBuf :: ('m, file_chunk list) dbm)
      (outcome (steady Q) (\<lambda>b d. holding Q (l_FileID ` set b) C d \<and> l_ChunkID ` set b \<subseteq> C))"
proof -
  let ?new = "\<lambda>files. concat (map (\<lambda>((oldID, _), f). new_links (links_by_file ls) oldID (f_ID f)) (zip fileBuf files))"
  have create: "ensures (holding Q F C) (CreateFiles (map snd fileBuf) :: ('m, file_row list) dbm)
      (outcome (steady Q) (\<lambda>gs. holding Q (F \<union> f_ID ` set gs) C))"
    by (rule ensures_weaken [OF CreateFiles]) (auto simp: outcome_def intro: holding_weak split: sum.splits)
  have send: "ensures (holding Q (F \<union> f_ID ` set files) C) (send_links (?new files) fcBuf :: ('m, file_chunk list) dbm)
      (outcome (steady Q) (\<lambda>b d. holding Q (l_FileID ` set b) C d \<and> l_ChunkID ` set b \<subseteq> C))" for files
  proof -
    have "l_FileID l \<in> f_ID ` set files \<and> l_ChunkID l \<in> C" if made: "l \<in> set (?new files)" for l
    proof -
      obtain i p f where f: "((i, p), f) \<in> set (zip fileBuf files)" "l \<in> set (new_links (links_by_file ls) i (f_ID f))" using made by auto
      then show ?thesis using set_zip_rightD [OF f(1)] new_links_in [OF ls, of i "f_ID f"] by auto
    qed
    then have "l_FileID ` set (?new files @ fcBuf) \<subseteq> F \<union> f_ID ` set files" "l_ChunkID ` set (?new files @ fcBuf) \<subseteq> C"
      using buf unfolding set_append image_Un by blast+
    from send_links [OF this] show ?thesis
      by (rule ensures_weaken) (auto simp: outcome_def intro: holding_less holding_weak split: sum.splits)
  qed
  show ?thesis unfolding flush_clones_def by (rule ensures_bnd [OF create send])
qed

lemma clone_files:
  assumes "l_ChunkID ` set ls \<subseteq> C" and "l_ChunkID ` set fcBuf \<subseteq> C"
  shows "ensures (holding Q (l_FileID ` set fcBuf) C) (clone_files target ver (links_by_file ls) fs fileBuf fcBuf :: ('m, unit) dbm)
      (outcome (steady Q) (\<lambda>_. steady Q))"
  using assms(2)
proof (induction fs arbitrary: fileBuf fcBuf)
  case Nil
  have "upholds (holding Q (l_FileID ` set fcBuf) C) (flushChunksBuffer fcBuf :: ('m, unit) dbm)"
    unfolding flushChunksBuffer_def by (intro upholds_cases upholds_basic CreateFileChunks) (use Nil in auto)
  from ensures_upholds [OF this, of "steady Q"] show ?case by (auto intro: ensures_weaken holding_weak)
next
  case (Cons f fs)
  let ?fileBuf = "fileBuf @ [clone_file target ver f]"
  have "ensures (\<lambda>d :: 'm db. holding Q (l_FileID ` set b) C d \<and> l_ChunkID ` set b \<subseteq> C) (clone_files target ver (links_by_file ls) fs [] b)
      (outcome (steady Q) (\<lambda>_. steady Q))" for b
  proof (rule ensures_pure [where V = "l_ChunkID ` set b \<subseteq> C"])
    assume "l_ChunkID ` set b \<subseteq> C"
    from Cons.IH [OF this, of "[]"] show "ensures (\<lambda>d :: 'm db. holding Q (l_FileID ` set b) C d \<and> l_ChunkID ` set b \<subseteq> C)
        (clone_files target ver (links_by_file ls) fs [] b) (outcome (steady Q) (\<lambda>_. steady Q))"
      by (rule ensures_weaken) auto
  qed simp
  then show ?case unfolding clone_files.simps Let_def
    by (intro ensures_if ensures_bnd [OF flush_clones [OF assms(1) subset_refl Cons.prems]] Cons.IH Cons.prems)
qed

lemma ListRelatedChunks:
  "ensures (steady Q) (ListRelatedChunks ty ws ds ver) (outcome (steady Q) (\<lambda>ls. holding Q {} (l_ChunkID ` set ls)))"
  unfolding ListRelatedChunks_def ListRelatedChunksForFiles_def
proof (rule ensures_bnd [OF holding_asks(1) [unfolded upholds_outcome]])
  fix dbtype
  show "ensures (steady Q) (query (\<lambda>t. concat (map (\<lambda>l. map (\<lambda>f. l) (filter (\<lambda>f. file_cond dbtype ty ws ds ver [] False f \<and> l_FileID l = f_ID f)
      (t_files t))) (t_file_chunks t)))) (outcome (steady Q) (\<lambda>ls. holding Q {} (l_ChunkID ` set ls)))"
    by (rule ensures_weaken [OF ensures_query]) (auto simp: outcome_def holding_def backed_def split: sum.splits)
qed

lemma CloneVersionTo [upholds_intros]: "upholds (steady Q) (CloneVersionTo st ds target ver targetVer msg :: ('m, version_row) dbm)"
proof -
  have files: "ensures (holding Q {} (l_ChunkID ` set ls)) (clone_files target targetVer (links_by_file ls) fs [] [] :: ('m, unit) dbm)
      (outcome (steady Q) (\<lambda>_. steady Q))" for ls fs
    using clone_files [of ls "l_ChunkID ` set ls" "[]"] by simp
  have linked: "upholds (steady Q) (bnd (ListRelatedChunks a b c e) (\<lambda>ls. bnd (clone_files target targetVer (links_by_file ls) fs [] []) (\<lambda>_. m)) :: ('m, version_row) dbm)"
    if "upholds (steady Q) m" for m a b c e fs
    unfolding upholds_outcome by (intro ensures_bnd [OF ListRelatedChunks] ensures_bnd [OF files] that [unfolded upholds_outcome])
  show ?thesis unfolding CloneVersionTo_def
    by (rule steady_in_tx, rule upholds_bnd [OF upholds_ignore [OF delete_rows(2)]], rule upholds_bnd [OF file_queries(1)], rule linked)
      (intro upholds_intros)
qed

end

end
