(* ===== verification/Auth.thy ===== *)
theory Auth
  imports Api
begin

text \<open>
  \<^verbatim>\<open>pkg/api/utils.go\<close>: who may make a request. \<^verbatim>\<open>AuthHook\<close> guards the public API and \<^verbatim>\<open>CheckAuth\<close> asks
  a master or the address of \<^verbatim>\<open>AUTH_VALIDATION\<close>; an answer that allows is cached. The network is a
  function over the state \<open>'m\<close>.
\<close>

section \<open>Addresses\<close>

text \<open>
  \<^verbatim>\<open>url.Parse\<close>, for the parts the source uses: scheme, host and path. Escapes are kept as they are.
\<close>

record url =
  u_Scheme :: string
  u_Host :: string
  u_Path :: string

definition is_letter :: "char \<Rightarrow> bool" where
  "is_letter c \<longleftrightarrow> (let n = (of_char c :: nat) in (65 \<le> n \<and> n \<le> 90) \<or> (97 \<le> n \<and> n \<le> 122))"

definition is_scheme_char :: "char \<Rightarrow> bool" where
  "is_scheme_char c \<longleftrightarrow> is_letter c \<or> (let n = (of_char c :: nat) in 48 \<le> n \<and> n \<le> 57) \<or> c \<in> set ''+-.''"

definition get_scheme :: "string \<Rightarrow> (string \<times> string) res" where
  "get_scheme s =
     (let pre = takeWhile is_scheme_char s; post = drop (length pre) s in
      if prefix '':'' s then Inl (Errorf ''missing protocol scheme'')
      else if pre \<noteq> [] \<and> is_letter (hd pre) \<and> prefix '':'' post then Inr (to_lower pre, tl post)
      else Inr ([], s))"

definition url_parse :: "string \<Rightarrow> url res" where
  "url_parse raw =
     (if \<exists>c \<in> set raw. (of_char c :: nat) < 32 \<or> (of_char c :: nat) = 127
      then Inl (Errorf ''invalid control character in URL'')
      else case get_scheme (takeWhile (\<lambda>c. c \<noteq> CHR ''#'') raw) of
        Inl e \<Rightarrow> Inl e
      | Inr (scheme, post) \<Rightarrow>
          let p = takeWhile (\<lambda>c. c \<noteq> CHR ''?'') post in
          if prefix ''//'' p \<and> (scheme \<noteq> [] \<or> \<not> prefix ''///'' p)
          then let a = drop 2 p; host = takeWhile (\<lambda>c. c \<noteq> CHR ''/'') a
               in Inr \<lparr>u_Scheme = scheme, u_Host = last (go_split (CHR ''@'') host), u_Path = drop (length host) a\<rparr>
          else if scheme = [] \<and> \<not> prefix ''/'' p \<and> CHR '':'' \<in> set (hd (split_path p))
          then Inl (Errorf ''first path segment in URL cannot contain colon'')
          else Inr \<lparr>u_Scheme = scheme, u_Host = [], u_Path = p\<rparr>)"

section \<open>The outside\<close>

text \<open>
  A GET request to the address of the authentication, with its \<^verbatim>\<open>Cookie\<close> and \<^verbatim>\<open>Authorization\<close>, and
  its answer: the status, and the workspace that the body decodes to.
\<close>

record auth_request =
  ar_URL :: string
  ar_Cookie :: string
  ar_Authorization :: string

record dealer_workspace =
  dw_Name :: string
  dw_Type :: string
  dw_Can :: "string list"

record auth_answer =
  aa_StatusCode :: nat
  aa_Workspace :: "dealer_workspace res"

text \<open>
  The client of the cloud dealer, \<^verbatim>\<open>dealerclient.Client\<close>: the calls the handlers make, of whose answers
  they use the names and the errors.
\<close>

record new_version =
  nv_Workspace :: string
  nv_Version :: string
  nv_Type :: string
  nv_Name :: string
  nv_Latest :: bool

record 'm dealer =
  dl_GetWorkspace :: "string \<Rightarrow> 'm \<Rightarrow> dealer_workspace res \<times> 'm"
  dl_GetDataset :: "string \<Rightarrow> string \<Rightarrow> 'm action"
  dl_GetModel :: "string \<Rightarrow> string \<Rightarrow> 'm action"
  dl_ListDatasets :: "string \<Rightarrow> 'm \<Rightarrow> string list res \<times> 'm"
  dl_ListModels :: "string \<Rightarrow> 'm \<Rightarrow> string list res \<times> 'm"
  dl_CreateDataset :: "string \<Rightarrow> string \<Rightarrow> bool \<Rightarrow> bool \<Rightarrow> 'm action"
  dl_CreateModel :: "string \<Rightarrow> string \<Rightarrow> bool \<Rightarrow> bool \<Rightarrow> 'm action"
  dl_DeleteDataset :: "string \<Rightarrow> string \<Rightarrow> 'm action"
  dl_DeleteModel :: "string \<Rightarrow> string \<Rightarrow> 'm action"
  dl_CreateSpec :: "string \<Rightarrow> string \<Rightarrow> byte list option \<Rightarrow> 'm action"
  dl_CreateSpecForVersion :: "string \<Rightarrow> string \<Rightarrow> string \<Rightarrow> byte list option \<Rightarrow> 'm action"
  dl_ReportNewVersion :: "new_version \<Rightarrow> 'm action"

text \<open>
  The environment of the server: the settings, the parsers of versions, the factory of clients of
  masters (\<open>en_newClient\<close> is \<^verbatim>\<open>NewClient\<close>), \<^verbatim>\<open>api.client.Do\<close>, the factory of dealer clients (address and headers), the table of
  \<^verbatim>\<open>mime.TypeByExtension\<close>, the decoders of a posted file structure, and whether the manager has a hub.
\<close>

record ('m, 'v) api_env =
  en_settings :: settings
  en_getenv :: env
  en_authURL :: string
  en_newVersion :: "string \<Rightarrow> string + 'v"
  en_verString :: "'v \<Rightarrow> string"
  en_verLess :: "'v \<Rightarrow> 'v \<Rightarrow> bool"
  en_newClient :: "string \<Rightarrow> auth_opts \<Rightarrow> 'm client res"
  en_chunks :: "'m master"
  en_do :: "auth_request \<Rightarrow> 'm \<Rightarrow> auth_answer res \<times> 'm"
  en_dealer :: "string \<Rightarrow> (string \<times> string) list \<Rightarrow> 'm dealer res"
  en_mimeType :: "string \<Rightarrow> string"
  en_json :: "body \<Rightarrow> file_structure res"
  en_gunzip :: "body \<Rightarrow> body res"
  en_gob :: "body \<Rightarrow> file_structure res"
  en_hub :: bool

definition en_vless :: "('m, 'v) api_env \<Rightarrow> version_info \<Rightarrow> version_info \<Rightarrow> bool" where
  "en_vless en = VersionArr_Less (\<lambda>s. case en_newVersion en s of Inl _ \<Rightarrow> None | Inr v \<Rightarrow> Some v) (en_verLess en)"

abbreviation has_masters :: "('m, 'v) api_env \<Rightarrow> bool" where
  "has_masters en \<equiv> st_HasMasters (en_settings en)"

definition masters_from_headers :: "('m, 'v) api_env \<Rightarrow> (string \<times> string) list \<Rightarrow> 'm client" where
  "masters_from_headers en headers =
     MultiMasterClient (NewMasterClientFromHeaders (en_newClient en) (en_getenv en) (lookup_str headers))"

section \<open>CheckAuth\<close>

definition authKey :: "string \<Rightarrow> string \<Rightarrow> string \<Rightarrow> string \<Rightarrow> string \<Rightarrow> string" where
  "authKey authHeader requestWorkspace cookie ws secret = authHeader @ requestWorkspace @ cookie @ ws @ secret"

definition cannot_authenticate :: "string \<Rightarrow> string" where
  "cannot_authenticate authURL = ''Cannot authenticate to '' @ authURL"

text \<open>The address below \<^verbatim>\<open>/api/v0.2\<close> of the authentication server.\<close>

definition validation_url :: "url \<Rightarrow> string \<Rightarrow> string \<Rightarrow> string" where
  "validation_url u kind name = u_Scheme u @ ''://'' @ u_Host u @ ''/api/v0.2/'' @ kind @ ''/'' @ name"

definition ask_auth :: "('m, 'v) api_env \<Rightarrow> string \<Rightarrow> string \<Rightarrow> string \<Rightarrow> ('m api, auth_answer) prog" where
  "ask_auth en u cookie authHeader =
     bnd (on_remote (en_do en \<lparr>ar_URL = u, ar_Cookie = cookie, ar_Authorization = authHeader\<rparr>)) lift_res"

text \<open>The permissions on the workspace of the request; a public one is enough where \<open>public\<close> says so.\<close>

definition check_workspace_auth ::
  "('m, 'v) api_env \<Rightarrow> string \<Rightarrow> string \<Rightarrow> string \<Rightarrow> string \<Rightarrow> bool \<Rightarrow> ('m api, unit) prog" where
  "check_workspace_auth en authURL requestWorkspace cookie authHeader public =
     bnd (lift_res (url_parse authURL)) (\<lambda>u.
     bnd (ask_auth en (validation_url u ''workspace'' requestWorkspace) cookie authHeader) (\<lambda>r.
       if 400 \<le> aa_StatusCode r then fail (Status (aa_StatusCode r) (cannot_authenticate authURL))
       else case aa_Workspace r of
         Inl err \<Rightarrow> fail (Status 401 (cannot_authenticate authURL @ '': '' @ error_text err))
       | Inr wspace \<Rightarrow>
           if dw_Can wspace = [] \<and> \<not> (public \<and> dw_Type wspace = ''public'')
           then fail (Status 403 (cannot_authenticate authURL)) else ret ()))"

definition check_secret ::
  "('m, 'v) api_env \<Rightarrow> string \<Rightarrow> string \<Rightarrow> ('m api, unit) prog" where
  "check_secret en authURL secret =
     bnd (lift_res (url_parse authURL)) (\<lambda>u.
     bnd (ask_auth en (validation_url u ''secret'' secret) [] []) (\<lambda>r.
       if 400 \<le> aa_StatusCode r then fail (Status 401 ''Unauthorized.'') else ret ()))"

definition check_master_auth ::
  "('m, 'v) api_env \<Rightarrow> string \<Rightarrow> string \<Rightarrow> string \<Rightarrow> 'm client option \<Rightarrow> ('m api, unit) prog" where
  "check_master_auth en entityType requestWorkspace secret masterClient =
     (let ws = (if requestWorkspace = [] then ''kuberlab'' else requestWorkspace);
          master = (case masterClient of
                      Some cl \<Rightarrow> Some cl
                    | None \<Rightarrow> if ws \<noteq> [] \<and> secret \<noteq> []
                        then Some (MultiMasterClient (NewMasterClientWithSecret (en_newClient en) (en_getenv en) ws secret))
                        else None)
      in case master of
           None \<Rightarrow> crash
         | Some cl \<Rightarrow> bnd (on_remote (cl_ListEntities cl entityType ws)) (\<lambda>(_, e).
             case e of Some err \<Rightarrow> fail (Status 401 (error_text err)) | None \<Rightarrow> ret ()))"

definition check_dealer_auth ::
  "('m, 'v) api_env \<Rightarrow> string \<Rightarrow> string \<Rightarrow> string \<Rightarrow> string \<Rightarrow> string \<Rightarrow> string \<Rightarrow> ('m api, unit) prog" where
  "check_dealer_auth en method authHeader requestWorkspace cookie ws secret =
     (let authURL = en_authURL en in
      if ws \<noteq> [] \<and> secret \<noteq> [] then
        bnd (if requestWorkspace \<noteq> [] \<and> requestWorkspace \<noteq> ws \<and> requestWorkspace \<noteq> ''kuberlab'' then
               (if method \<noteq> ''GET'' then fail (Status 403 ''Forbidden access to another workspace.'')
                else check_workspace_auth en authURL requestWorkspace cookie authHeader True)
             else ret ())
          (\<lambda>_. check_secret en authURL secret)
      else if requestWorkspace \<noteq> [] then check_workspace_auth en authURL requestWorkspace cookie authHeader False
      else bnd (ask_auth en authURL cookie authHeader) (\<lambda>r.
             if 400 \<le> aa_StatusCode r then fail (Status (aa_StatusCode r) (cannot_authenticate authURL)) else ret ()))"

text \<open>\<open>ret ()\<close> is the answer \<^verbatim>\<open>true, nil\<close>; every other answer comes with an error.\<close>

definition CheckAuth ::
  "('m, 'v) api_env \<Rightarrow> string \<Rightarrow> string \<Rightarrow> string \<Rightarrow> string \<Rightarrow> string \<Rightarrow> string \<Rightarrow> string
     \<Rightarrow> 'm client option \<Rightarrow> ('m api, unit) prog" where
  "CheckAuth en method entityType authHeader requestWorkspace cookie ws secret masterClient =
     (let key = authKey authHeader requestWorkspace cookie ws secret in
      if en_authURL en = [] \<and> \<not> has_masters en then ret ()
      else bnd (get_state (\<lambda>s. cache_GetBool (ap_now s) (ap_cache s) key)) (\<lambda>known.
        if known then ret ()
        else bnd (if has_masters en then check_master_auth en entityType requestWorkspace secret masterClient
                  else check_dealer_auth en method authHeader requestWorkspace cookie ws secret)
               (\<lambda>_. put_state (\<lambda>s. s\<lparr>ap_cache := cache_Set (ap_now s) key True (ap_cache s)\<rparr>))))"

section \<open>The filters\<close>

text \<open>The workspace in a path \<^verbatim>\<open>/pluk/v1/entity-type/workspace\<close>.\<close>

definition request_workspace :: "string \<Rightarrow> string" where
  "request_workspace path =
     (let splitted = split_path path in
      if 5 \<le> length splitted \<and> (splitted ! 3 = ''workspaces'' \<or> splitted ! 3 \<in> set AllowedTypes) then splitted ! 4 else [])"

text \<open>\<open>master\<close>: the client of the request's own headers, which the hook sets as an attribute.\<close>

definition AuthHook ::
  "('m, 'v) api_env \<Rightarrow> ('m request \<Rightarrow> ('m api, unit) prog) \<Rightarrow> 'm request \<Rightarrow> ('m api, unit) prog" where
  "AuthHook en handler req =
     (let internal = header_param req ''Internal'' in
      if internal \<noteq> [] \<and> InternalKey (en_getenv en) = internal then handler req
      else if en_authURL en = [] \<and> \<not> has_masters en then handler req
      else
        let master = masters_from_headers en (rq_Headers req);
            req1 = req\<lparr>rq_masterclient := Some master\<rparr>
        in or_respond
             (CheckAuth en (rq_Method req) (currentType req1) (header_param req ''Authorization'')
                (request_workspace (rq_Path req)) (header_param req ''Cookie'') (header_param req ''X-Workspace-Name'')
                (header_param req ''X-Workspace-Secret'') (Some master))
             WriteError
             (\<lambda>_. handler req1))"

text \<open>Without masters the attribute is \<^verbatim>\<open>nil\<close>.\<close>

definition InternalHook ::
  "('m, 'v) api_env \<Rightarrow> ('m request \<Rightarrow> ('m api, unit) prog) \<Rightarrow> 'm request \<Rightarrow> ('m api, unit) prog" where
  "InternalHook en handler req =
     handler (req\<lparr>rq_masterclient := map_option MultiMasterClient (NewInternalMasterClient (en_newClient en) (en_getenv en))\<rparr>)"

end
