(* ===== verification/ApiFiles.thy ===== *)
theory ApiFiles
  imports Auth
begin

text \<open>
  The handlers of \<^verbatim>\<open>pkg/api/files.go\<close> and \<^verbatim>\<open>pkg/api/chunks.go\<close>: listing, reading, deleting and
  uploading files of a version, and the chunk store over HTTP.
\<close>

section \<open>Finding the dataset and the version\<close>

definition with_dataset ::
  "('m, 'v) api_env \<Rightarrow> 'm request \<Rightarrow> (dataset_row \<Rightarrow> ('m api, unit) prog) \<Rightarrow> ('m api, unit) prog" where
  "with_dataset en req k =
     (let workspace = path_param req ''workspace''; name = path_param req ''name'' in
      or_respond (on_db (mgr_GetDataset (en_settings en) (rq_masterclient req) (currentType req) workspace name))
        (\<lambda>err. WriteError (EntityNotFoundError req name err)) k)"

abbreviation tree_of :: "('m, 'v) api_env \<Rightarrow> 'm request \<Rightarrow> dataset_row \<Rightarrow> string \<Rightarrow> ('m api, fs) prog" where
  "tree_of en req \<equiv> api_getFS (en_settings en) (rq_masterclient req)"

definition dataset_versions :: "('m, 'v) api_env \<Rightarrow> 'm request \<Rightarrow> dataset_row \<Rightarrow> ('m api, version_info list) prog" where
  "dataset_versions en req ds = on_db (Versions (en_vless en) (en_settings en) (rq_masterclient req) ds)"

definition findDatasetVersion ::
  "('m, 'v) api_env \<Rightarrow> 'm request \<Rightarrow> dataset_row \<Rightarrow> string \<Rightarrow> bool \<Rightarrow> ('m api, version_info) prog" where
  "findDatasetVersion en req ds version allowEditing =
     attempt (dataset_versions en req ds) (\<lambda>r.
       case r of
         Inl err \<Rightarrow> fail (Status 500 (error_text err))
       | Inr versions \<Rightarrow>
           (case find (\<lambda>v. vi_Version v = version) versions of
              None \<Rightarrow> fail (Status 404 (d_Type ds @ '' version not found: '' @ version))
            | Some vs \<Rightarrow>
                if \<not> vi_Editing vs \<and> \<not> allowEditing then fail (Status 403 (d_Type ds @ '' already committed''))
                else ret vs))"

section \<open>Reading\<close>

definition fsReadDir :: "('m, 'v) api_env \<Rightarrow> 'm request \<Rightarrow> ('m api, unit) prog" where
  "fsReadDir en req = with_dataset en req (\<lambda>dataset.
     or_respond (tree_of en req dataset (path_param req ''version'')) WriteError (\<lambda>fs.
     or_respond (bnd (lift_option (ReaddirFiles fs (path_param req ''path'') 0)) lift_res) (WriteStatusError 404)
       (\<lambda>result. respond (WriteEntity (P_Files result)))))"

text \<open>\<^verbatim>\<open>path.Ext\<close>: from the last dot of the last element.\<close>

definition path_Ext :: "string \<Rightarrow> string" where
  "path_Ext p = (let b = last (split_path p); after = takeWhile (\<lambda>c. c \<noteq> CHR ''.'') (rev b)
                 in if CHR ''.'' \<in> set b then CHR ''.'' # rev after else [])"

definition setContentTypeByFile :: "('m, 'v) api_env \<Rightarrow> string \<Rightarrow> reply list" where
  "setContentTypeByFile en filepath =
     (let sType = en_mimeType en (path_Ext filepath) in if sType \<noteq> [] then [Header ''Content-Type'' sType] else [])"

text \<open>\<^verbatim>\<open>io.Copy\<close> of a file to the response; the error it ends with is only logged.\<close>

definition copy_file :: "('m, 'v) api_env \<Rightarrow> chunked_file \<Rightarrow> 'm node \<Rightarrow> (byte list \<times> 'm node) option" where
  "copy_file en f nd =
     map_option (\<lambda>(bs, e, (f', nd')). (bs, nd'))
       (io_copy (ChunkedFile_reader (GetChunk (en_settings en) (en_chunks en))) 32768 (f, nd) [])"

definition fsReadFile :: "('m, 'v) api_env \<Rightarrow> 'm request \<Rightarrow> ('m api, unit) prog" where
  "fsReadFile en req = with_dataset en req (\<lambda>dataset.
     or_respond (tree_of en req dataset (path_param req ''version'')) WriteError (\<lambda>fs.
       let filepath = path_param req ''path'';
           missing = respond (WriteErrorString 404 (''No such file: '' @ filepath)) in
       case GetFile fs filepath of
         None \<Rightarrow> missing
       | Some file \<Rightarrow>
           if cf_Dir file then missing
           else bnd (respond ([Header ''Content-Length'' (show_int (cf_Size file))] @ setContentTypeByFile en filepath @ [Code 200])) (\<lambda>_.
             bnd (on_node (copy_file en (ChunkedFile_Clone file))) (\<lambda>bs. respond [Body (P_Bytes bs)]))))"

section \<open>Deleting a file\<close>

definition deleteDatasetFile :: "('m, 'v) api_env \<Rightarrow> 'm request \<Rightarrow> ('m api, unit) prog" where
  "deleteDatasetFile en req = with_dataset en req (\<lambda>dataset.
     let workspace = path_param req ''workspace''; name = path_param req ''name'';
         version = path_param req ''version''; filepath = path_param req ''path'' in
     if filepath = [] then respond (WriteStatusError 400 (Errorf ''Provide path''))
     else or_respond (findDatasetVersion en req dataset version False) WriteError (\<lambda>_.
       or_respond (on_db (in_tx
           (bnd (DeleteFiles (en_settings en) (currentType req) workspace name version filepath False True)
             (\<lambda>_. UpdateDatasetVersionSize (currentType req) workspace name version))))
         WriteError
         (\<lambda>_. bnd (invalidateVersionCache dataset version) (\<lambda>_. respond [Code 204]))))"

section \<open>Uploading a file\<close>

text \<open>The body of a request as a reader.\<close>

definition body_read :: "body \<Rightarrow> nat \<Rightarrow> (byte list \<times> go_error option \<times> body) option" where
  "body_read b n =
     (if fst b = [] then Some ([], Some (case snd b of None \<Rightarrow> Io_EOF | Some e \<Rightarrow> e), b)
      else Some (take n (fst b), None, (drop n (fst b), snd b)))"

definition uploadChunkSize :: nat where
  "uploadChunkSize = 1024000"

text \<open>The whole buffer is hashed, with the zeros after what was read.\<close>

definition padded :: "nat \<Rightarrow> byte list \<Rightarrow> byte list" where
  "padded n bs = bs @ replicate (n - length bs) 0"

text \<open>
  The loop of \<^verbatim>\<open>readAndSaveFile\<close>. \<open>err\<close> is the named result as it stands when a turn begins: it is what
  an error of the body returns, and \<open>Inr None\<close> is the pair \<^verbatim>\<open>nil, nil\<close>.
\<close>

partial_function (option) upload_loop ::
  "settings \<Rightarrow> 'm master \<Rightarrow> nat \<Rightarrow> go_error option \<Rightarrow> body \<Rightarrow> hash_ref list \<Rightarrow> int \<Rightarrow> 'm node
     \<Rightarrow> ((hash_ref list \<times> int) option res \<times> 'm node) option" where
  "upload_loop st ms n err body hashes sz nd =
     (case PreciseReader_Read body_read body n of
        None \<Rightarrow> None
      | Some (bs, cnt, errRead, body') \<Rightarrow>
          if errRead \<noteq> None \<and> errRead \<noteq> Some Io_EOF
          then Some (case err of Some e \<Rightarrow> Inl e | None \<Rightarrow> Inr None, nd)
          else
            let sz' = wrap64 (sz + int cnt);
                hash = CalcHash (padded n bs);
                hashes' = hashes @ [\<lparr>h_Hash = hash, h_Size = int cnt, h_Version = ChunkVersion\<rparr>]
            in (case CheckChunk st ms hash ChunkVersion nd of
                  None \<Rightarrow> None
                | Some (Inl e, nd1) \<Rightarrow> Some (Inl e, nd1)
                | Some (Inr check, nd1) \<Rightarrow>
                    if cc_Exists check \<and> cc_Size check = int cnt then
                      (if errRead = Some Io_EOF then Some (Inr (Some (hashes', sz')), nd1)
                       else upload_loop st ms n None body' hashes' sz' nd1)
                    else (case SaveChunk st ms hash ChunkVersion (take cnt bs, None) True nd1 of
                        None \<Rightarrow> None
                      | Some (Some e, nd2) \<Rightarrow> Some (Inl e, nd2)
                      | Some (None, nd2) \<Rightarrow>
                          if errRead = Some Io_EOF then Some (Inr (Some (hashes', sz')), nd2)
                          else upload_loop st ms n None body' hashes' sz' nd2)))"

text \<open>\<^verbatim>\<open>strconv.ParseUint(s, 8, 32)\<close>, whose error is dropped: 0 for no octal number, the bound for one beyond it.\<close>

fun octal_val :: "nat \<Rightarrow> string \<Rightarrow> nat option" where
  "octal_val acc [] = Some acc"
| "octal_val acc (c # cs) =
     (let n = (of_char c :: nat) in if 48 \<le> n \<and> n \<le> 55 then octal_val (8 * acc + (n - 48)) cs else None)"

definition parse_mode :: "string \<Rightarrow> nat" where
  "parse_mode s =
     (let modeOct = (if s = [] then 0 else case octal_val 0 s of None \<Rightarrow> 0 | Some v \<Rightarrow> min v 4294967295)
      in if modeOct = 0 then 420 else modeOct)"

definition readAndSaveFile :: "('m, 'v) api_env \<Rightarrow> 'm request \<Rightarrow> ('m api, hashed_file option) prog" where
  "readAndSaveFile en req =
     (let workspace = path_param req ''workspace''; name = path_param req ''name'';
          version = path_param req ''version''; filepath = path_param req ''path'' in
      api_tx (attempt (on_db (db_GetFile workspace name (currentType req) filepath version)) (\<lambda>r.
        bnd (case r of
               Inr _ \<Rightarrow> bnd (on_db (DeleteFiles (en_settings en) (currentType req) workspace name version filepath True False))
                          (\<lambda>_. ret None)
             | Inl e \<Rightarrow> ret (Some e)) (\<lambda>err.
        bnd (get_state ap_now) (\<lambda>now.
        bnd (on_node (upload_loop (en_settings en) (en_chunks en) uploadChunkSize err (rq_Body req) [] 0)) (\<lambda>r.
        bnd (lift_res r) (\<lambda>res.
          ret (map_option (\<lambda>(hashes, sz). \<lparr>hf_Path = filepath, hf_Size = sz, hf_Hashes = hashes,
                 hf_Mode = parse_mode (query_param req ''mode''), hf_ModeTime = now\<rparr>) res))))))))"

text \<open>A file that is \<^verbatim>\<open>nil\<close> makes \<^verbatim>\<open>Save\<close> panic.\<close>

definition uploadDatasetFile :: "('m, 'v) api_env \<Rightarrow> 'm request \<Rightarrow> ('m api, unit) prog" where
  "uploadDatasetFile en req = with_dataset en req (\<lambda>dataset.
     let workspace = path_param req ''workspace''; name = path_param req ''name'';
         version = path_param req ''version''; filepath = path_param req ''path'' in
     if filepath = [] then respond (WriteStatusError 400 (Errorf ''Provide path''))
     else or_respond (findDatasetVersion en req dataset version False) WriteError (\<lambda>_.
       or_respond (readAndSaveFile en req) WriteError (\<lambda>res.
         bnd (lockForSave workspace name version) (\<lambda>_.
         bnd (or_respond
                (bnd (lift_option res) (\<lambda>f.
                   bnd (on_db (Save (en_settings en) (rq_masterclient req) dataset [f] version [] False False True True))
                     (\<lambda>_. ret f)))
                WriteError
                (\<lambda>f. bnd (invalidateVersionCache dataset version) (\<lambda>_. respond (Created (P_File f)))))
           (\<lambda>_. unlockForSave workspace name version)))))"

section \<open>Chunks\<close>

text \<open>The \<^verbatim>\<open>int8\<close> that is parsed is taken as a \<^verbatim>\<open>byte\<close>.\<close>

definition chunkVersion :: "'m request \<Rightarrow> nat" where
  "chunkVersion req =
     (let versionRaw = path_param req ''version'' in
      if versionRaw = ''1'' then 1
      else if versionRaw = [] then 0
      else nat (fst (parse_int 8 versionRaw) mod 256))"

definition api_checkChunk :: "('m, 'v) api_env \<Rightarrow> 'm request \<Rightarrow> ('m api, unit) prog" where
  "api_checkChunk en req =
     or_respond (bnd (on_node (CheckChunk (en_settings en) (en_chunks en) (path_param req ''hash'') (chunkVersion req))) lift_res)
       WriteError (\<lambda>chunkCheck. respond (WriteEntity (P_Check chunkCheck)))"

definition downloadChunk :: "('m, 'v) api_env \<Rightarrow> 'm request \<Rightarrow> ('m api, unit) prog" where
  "downloadChunk en req =
     or_respond (bnd (on_node (GetChunkByHash (en_settings en) (en_chunks en) (path_param req ''hash'') (chunkVersion req))) lift_res)
       (WriteStatusError 404)
       (\<lambda>file. bnd (respond [Code 200]) (\<lambda>_.
          bnd (lift_option (io_copy reader_read 32768 file [])) (\<lambda>(bs, e, file'). respond [Body (P_Bytes bs)])))"

definition api_saveChunk :: "('m, 'v) api_env \<Rightarrow> 'm request \<Rightarrow> ('m api, unit) prog" where
  "api_saveChunk en req =
     or_respond (bnd (on_node (SaveChunk (en_settings en) (en_chunks en) (path_param req ''hash'') (chunkVersion req) (rq_Body req) True)) lift_err)
       (WriteStatusError 500)
       (\<lambda>_. respond [Code 201, Body (P_Text (''Ok!'' @ [CHR 0x0A]))])"

end
