(* ===== verification/ApiDatasets.thy ===== *)
theory ApiDatasets
  imports ApiFiles
begin

text \<open>
  The handlers of \<^verbatim>\<open>pkg/api/dataset.go\<close>, \<^verbatim>\<open>versions.go\<close>, \<^verbatim>\<open>fs.go\<close>, \<^verbatim>\<open>workspace.go\<close> and \<^verbatim>\<open>admin.go\<close>:
  datasets, their versions and trees, and the calls to the cloud dealer.
\<close>

section \<open>The cloud dealer\<close>

definition dealerClient :: "('m, 'v) api_env \<Rightarrow> 'm request \<Rightarrow> ('m api, 'm dealer) prog" where
  "dealerClient en req = lift_res (en_dealer en (en_authURL en) (rq_Headers req))"

definition do_action :: "'m action \<Rightarrow> ('m api, unit) prog" where
  "do_action f = bnd (on_remote f) lift_err"

text \<open>The methods are chosen by the type; for another type they are \<^verbatim>\<open>nil\<close> and calling them panics.\<close>

definition by_type :: "'m request \<Rightarrow> ('m api, 'a) prog \<Rightarrow> ('m api, 'a) prog \<Rightarrow> ('m api, 'a) prog" where
  "by_type req a b =
     (if currentType req = ''dataset'' then a else if currentType req = ''model'' then b else crash)"

definition reportNewVersion :: "('m, 'v) api_env \<Rightarrow> 'm request \<Rightarrow> new_version \<Rightarrow> ('m api, unit) prog" where
  "reportNewVersion en req version =
     (if en_authURL en = [] then ret ()
      else attempt (bnd (dealerClient en req) (\<lambda>dealer. do_action (dl_ReportNewVersion dealer version))) (\<lambda>_. ret ()))"

definition createDatasetOnDealer :: "('m, 'v) api_env \<Rightarrow> 'm request \<Rightarrow> string \<Rightarrow> string \<Rightarrow> bool \<Rightarrow> ('m api, unit) prog" where
  "createDatasetOnDealer en req ws name public =
     (if en_authURL en = [] then ret ()
      else bnd (dealerClient en req) (\<lambda>dealer.
        bnd (bnd (by_type req (on_remote (dl_ListDatasets dealer ws)) (on_remote (dl_ListModels dealer ws))) lift_res) (\<lambda>names.
          if name \<in> set names then ret ()
          else by_type req (do_action (dl_CreateDataset dealer ws name public True))
                 (do_action (dl_CreateModel dealer ws name public True)))))"

definition deleteDatasetOnDealer :: "('m, 'v) api_env \<Rightarrow> 'm request \<Rightarrow> string \<Rightarrow> string \<Rightarrow> ('m api, unit) prog" where
  "deleteDatasetOnDealer en req ws name = attempt (dealerClient en req) (\<lambda>r.
     case r of
       Inl err \<Rightarrow> fail (Status 400 (''Can not delete '' @ currentType req @ '' '' @ CHR 0x27 # name @ CHR 0x27 # '' from API: '' @ error_text err))
     | Inr dealer \<Rightarrow>
         attempt (by_type req (do_action (dl_DeleteDataset dealer ws name)) (do_action (dl_DeleteModel dealer ws name)))
           (\<lambda>_. ret ()))"

section \<open>Access\<close>

definition checkWorkspace :: "('m, 'v) api_env \<Rightarrow> 'm request \<Rightarrow> ('m api, unit) prog" where
  "checkWorkspace en req =
     (let workspace = path_param req ''workspace'' in
      if en_authURL en = [] \<and> \<not> has_masters en then respond (WriteEntity (P_Workspace workspace))
      else if en_authURL en = [] then
        bnd (on_remote (cl_CheckWorkspace (masters_from_headers en (rq_Headers req)) workspace)) (\<lambda>(ws, e).
          case e of Some err \<Rightarrow> respond (WriteError err)
          | None \<Rightarrow> respond (WriteEntity (P_Workspace (case ws of None \<Rightarrow> ''null'' | Some w \<Rightarrow> w))))
      else or_respond (dealerClient en req) WriteError (\<lambda>dealer.
        or_respond (bnd (on_remote (dl_GetWorkspace dealer workspace)) lift_res) WriteError
          (\<lambda>ws. respond (WriteEntity (P_Workspace (dw_Name ws))))))"

definition checkEntityAccess :: "('m, 'v) api_env \<Rightarrow> 'm request \<Rightarrow> bool \<Rightarrow> ('m api, dataset_info option) prog" where
  "checkEntityAccess en req write =
     (let workspace = path_param req ''workspace'';
          name = (if path_param req ''dataset'' = [] then path_param req ''name'' else path_param req ''dataset'');
          found = Some \<lparr>di_Workspace = workspace, di_Name = name, di_DType = currentType req\<rparr> in
      if en_authURL en = [] \<and> \<not> has_masters en then ret found
      else if en_authURL en = [] then
        bnd (on_remote (cl_CheckEntityPermission (masters_from_headers en (rq_Headers req)) (currentType req) workspace name write))
          (\<lambda>(ds, e). case e of Some err \<Rightarrow> fail err | None \<Rightarrow> ret ds)
      else bnd (dealerClient en req) (\<lambda>dealer.
        bnd (bnd (on_remote (dl_GetWorkspace dealer workspace)) lift_res) (\<lambda>ws.
          let entityName = (if currentType req = ''model'' then ''mlmodel'' else currentType req);
              modificator = (if write then ''manage'' else ''read'') in
          if has_substring (go_join '' '' (dw_Can ws)) (entityName @ ''.'' @ modificator) then ret found
          else if \<not> write then
            bnd (if currentType req = ''model'' then do_action (dl_GetModel dealer workspace name)
                 else if currentType req = ''dataset'' then do_action (dl_GetDataset dealer workspace name)
                 else ret ())
              (\<lambda>_. ret found)
          else fail (Status 403 (''Failed to '' @ modificator @ '' '' @ currentType req)))))"

definition checkEntityExists :: "('m, 'v) api_env \<Rightarrow> 'm request \<Rightarrow> string \<Rightarrow> string \<Rightarrow> ('m api, unit) prog" where
  "checkEntityExists en req ws name =
     (if en_authURL en = [] \<and> \<not> has_masters en then ret ()
      else if en_authURL en = [] then
        bnd (on_remote (cl_CheckEntityExists (masters_from_headers en (rq_Headers req)) (currentType req) ws name))
          (\<lambda>(_, e). lift_err e)
      else bnd (dealerClient en req) (\<lambda>dealer.
        by_type req (do_action (dl_GetDataset dealer ws name)) (do_action (dl_GetModel dealer ws name))))"

definition checkDatasetExists :: "('m, 'v) api_env \<Rightarrow> 'm request \<Rightarrow> ('m api, unit) prog" where
  "checkDatasetExists en req =
     (let workspace = path_param req ''workspace''; name = path_param req ''dataset'' in
      or_respond (checkEntityExists en req workspace name) WriteError
        (\<lambda>_. respond (WriteEntity (P_Info \<lparr>di_Workspace = workspace, di_Name = name, di_DType = currentType req\<rparr>))))"

definition checkDatasetPermission :: "('m, 'v) api_env \<Rightarrow> 'm request \<Rightarrow> ('m api, unit) prog" where
  "checkDatasetPermission en req =
     or_respond (checkEntityAccess en req (getBoolQueryParam req ''write'')) WriteError
       (\<lambda>ds. respond (WriteEntity (case ds of None \<Rightarrow> P_Text ''null'' | Some d \<Rightarrow> P_Info d)))"

text \<open>The specification is the text of the body, \<open>None\<close> for \<^verbatim>\<open>nil\<close>.\<close>

definition postSpecToDealer ::
  "('m, 'v) api_env \<Rightarrow> 'm request \<Rightarrow> string \<Rightarrow> string \<Rightarrow> string \<Rightarrow> byte list option \<Rightarrow> ('m api, unit) prog" where
  "postSpecToDealer en req ws name version spec =
     (if en_authURL en = [] \<and> \<not> has_masters en then ret ()
      else if en_authURL en = [] then
        (let masters = masters_from_headers en (rq_Headers req);
             txt = map (\<lambda>b. char_of (unat b)) (case spec of None \<Rightarrow> [] | Some bs \<Rightarrow> bs) in
         if version \<noteq> [] then do_action (cl_PostEntitySpecForVersion masters (currentType req) ws name version txt)
         else do_action (cl_PostEntitySpec masters (currentType req) ws name txt))
      else bnd (dealerClient en req) (\<lambda>dealer.
        if currentType req = ''model'' then
          (if version \<noteq> [] then do_action (dl_CreateSpecForVersion dealer ws name version spec)
           else do_action (dl_CreateSpec dealer ws name spec))
        else ret ()))"

definition spec_of_body :: "body \<Rightarrow> byte list option" where
  "spec_of_body b = (if snd b \<noteq> None then None else if 1 < length (fst b) then Some (fst b) else None)"

definition postSpec :: "('m, 'v) api_env \<Rightarrow> 'm request \<Rightarrow> ('m api, unit) prog" where
  "postSpec en req =
     or_respond (postSpecToDealer en req (path_param req ''workspace'') (path_param req ''dataset'') [] (spec_of_body (rq_Body req)))
       WriteError (\<lambda>_. respond [Code 201, Body (P_Text (''Ok!'' @ [CHR 0x0A]))])"

definition postVersionSpec :: "('m, 'v) api_env \<Rightarrow> 'm request \<Rightarrow> ('m api, unit) prog" where
  "postVersionSpec en req =
     or_respond (postSpecToDealer en req (path_param req ''workspace'') (path_param req ''dataset'') (path_param req ''version'')
                   (spec_of_body (rq_Body req)))
       WriteError (\<lambda>_. respond [Code 201, Body (P_Text (''Ok!'' @ [CHR 0x0A]))])"

section \<open>Datasets\<close>

definition allDatasets :: "('m, 'v) api_env \<Rightarrow> 'm request \<Rightarrow> ('m api, unit) prog" where
  "allDatasets en req =
     or_respond (on_db (mgr_ListDatasets (currentType req) [])) WriteError (\<lambda>sets.
       respond (WriteEntity (P_Datasets (sort_by DataSetList_Less
         (map (\<lambda>d. \<lparr>di_Workspace = d_Workspace d, di_Name = d_Name d, di_DType = []\<rparr>) sets)))))"

definition api_datasets :: "('m, 'v) api_env \<Rightarrow> 'm request \<Rightarrow> ('m api, unit) prog" where
  "api_datasets en req =
     or_respond (on_db (mgr_ListDatasets (currentType req) (path_param req ''workspace''))) WriteError (\<lambda>sets.
       respond (WriteEntity (P_Datasets (sort_by DataSetList_Less
         (map (\<lambda>d. \<lparr>di_Workspace = d_Workspace d, di_Name = d_Name d, di_DType = d_Type d\<rparr>) sets)))))"

definition tar_size_of :: "fs \<Rightarrow> ('m api, int) prog" where
  "tar_size_of fs = bnd (lift_option (TarSize fs)) (\<lambda>(sz, e). case e of Some err \<Rightarrow> fail err | None \<Rightarrow> ret sz)"

definition downloadDataset :: "('m, 'v) api_env \<Rightarrow> 'm request \<Rightarrow> ('m api, unit) prog" where
  "downloadDataset en req = with_dataset en req (\<lambda>dataset.
     or_respond (checkEntityExists en req (path_param req ''workspace'') (path_param req ''name'')) WriteError (\<lambda>_.
     or_respond (tree_of en req dataset (path_param req ''version'')) WriteError (\<lambda>fs.
     or_respond (tar_size_of fs) (WriteStatusError 500) (\<lambda>sz.
     bnd (respond [Header ''Content-Type'' ''application/tar'', Header ''Content-Length'' (show_int sz)]) (\<lambda>_.
     bnd (on_node (\<lambda>nd. map_option (\<lambda>(err, items, nd'). ((err, items), nd'))
            (Download (GetChunk (en_settings en) (en_chunks en)) fs nd))) (\<lambda>(err, items).
       respond (Body (P_Tar items) # (case err of None \<Rightarrow> [] | Some e \<Rightarrow> WriteStatusError 500 e))))))))"

definition api_getDataset :: "('m, 'v) api_env \<Rightarrow> 'm request \<Rightarrow> ('m api, unit) prog" where
  "api_getDataset en req = with_dataset en req (\<lambda>dataset. respond (WriteEntity (P_Dataset dataset)))"

definition datasetTarSize :: "('m, 'v) api_env \<Rightarrow> 'm request \<Rightarrow> ('m api, unit) prog" where
  "datasetTarSize en req = with_dataset en req (\<lambda>dataset.
     or_respond (tree_of en req dataset (path_param req ''version'')) WriteError (\<lambda>fs.
     or_respond (tar_size_of fs) (WriteStatusError 500)
       (\<lambda>sz. respond [Body (P_Text (show_int sz @ [CHR 0x0A]))])))"

definition find_dataset :: "('m, 'v) api_env \<Rightarrow> 'm request \<Rightarrow> string \<Rightarrow> string \<Rightarrow> string \<Rightarrow> ('m api, dataset_row option) prog" where
  "find_dataset en req eType workspace name =
     attempt (on_db (mgr_GetDataset (en_settings en) (rq_masterclient req) eType workspace name))
       (\<lambda>r. ret (case r of Inl _ \<Rightarrow> None | Inr ds \<Rightarrow> Some ds))"

definition delete_entity :: "('m, 'v) api_env \<Rightarrow> 'm request \<Rightarrow> string \<Rightarrow> string \<Rightarrow> string \<Rightarrow> ('m api, unit) prog" where
  "delete_entity en req eType workspace name =
     on_db (mgr_DeleteDataset (en_settings en) (en_hub en) (rq_masterclient req) eType workspace name True)"

definition api_deleteDataset :: "('m, 'v) api_env \<Rightarrow> 'm request \<Rightarrow> ('m api, unit) prog" where
  "api_deleteDataset en req =
     (let workspace = path_param req ''workspace''; name = path_param req ''name'' in
      bnd (find_dataset en req (currentType req) workspace name) (\<lambda>ds.
      bnd (invalidateCache ds) (\<lambda>_.
      or_respond (delete_entity en req (currentType req) workspace name) WriteError (\<lambda>_.
      or_respond (if en_authURL en \<noteq> [] \<and> \<not> getBoolQueryParam req ''skip_dealer''
                  then deleteDatasetOnDealer en req workspace name else ret ()) WriteError
        (\<lambda>_. respond [Code 204])))))"

definition createDataset :: "('m, 'v) api_env \<Rightarrow> 'm request \<Rightarrow> ('m api, unit) prog" where
  "createDataset en req =
     (let workspace = path_param req ''workspace''; name = path_param req ''name'' in
      bnd (find_dataset en req (currentType req) workspace name) (\<lambda>ds.
        case ds of
          Some _ \<Rightarrow> respond (WriteError (AlreadyExistsError req name))
        | None \<Rightarrow> or_respond (on_db (NewDataset (currentType req) workspace name)) WriteError
                    (\<lambda>ds. respond (Created (P_Dataset ds)))))"

definition internal_masters :: "('m, 'v) api_env \<Rightarrow> 'm client option" where
  "internal_masters en = map_option MultiMasterClient (NewInternalMasterClient (en_newClient en) (en_getenv en))"

text \<open>
  The wait of \<^verbatim>\<open>forkDataset\<close> for the collector ends when the run that the deletion asked for is over.
\<close>

definition forkDataset :: "('m, 'v) api_env \<Rightarrow> 'm request \<Rightarrow> ('m api, unit) prog" where
  "forkDataset en req =
     (let workspace = path_param req ''workspace''; name = path_param req ''name'';
          targetWS = path_param req ''targetWorkspace'';
          targetName = (if query_param req ''name'' = [] then name else query_param req ''name'');
          targetType = (if query_param req ''type'' = [] then currentType req else query_param req ''type'') in
      if targetType \<notin> set AllowedTypes
      then respond (WriteErrorString 400 (''Wrong entity type: Must be one of ['' @ go_join '' '' AllowedTypes @ '']''))
      else bnd (find_dataset en req targetType targetWS targetName) (\<lambda>checkTarget.
        or_respond
          (if checkTarget \<noteq> None \<and> getBoolQueryParam req ''force'' then
             bnd (delete_entity en req targetType targetWS targetName) (\<lambda>_.
             bnd (invalidateCache checkTarget) (\<lambda>_.
               on_db (GoGC (en_settings en) (internal_masters en))))
           else ret ())
          WriteError
          (\<lambda>_. or_respond
             (on_db (ForkDataset (en_vless en) (en_settings en) (rq_masterclient req)
                \<lparr>di_Workspace = workspace, di_Name = name, di_DType = currentType req\<rparr>
                \<lparr>di_Workspace = targetWS, di_Name = targetName, di_DType = targetType\<rparr>))
             WriteError
             (\<lambda>ds. respond (Created (P_Dataset ds))))))"

section \<open>Versions\<close>

definition api_versions :: "('m, 'v) api_env \<Rightarrow> 'm request \<Rightarrow> ('m api, unit) prog" where
  "api_versions en req =
     or_respond (checkEntityExists en req (path_param req ''workspace'') (path_param req ''name'')) WriteError (\<lambda>_.
     with_dataset en req (\<lambda>dataset.
     or_respond (dataset_versions en req dataset) (WriteStatusError 500)
       (\<lambda>versions. respond (WriteEntity (P_Versions versions)))))"

definition getVersion :: "('m, 'v) api_env \<Rightarrow> 'm request \<Rightarrow> ('m api, unit) prog" where
  "getVersion en req = with_dataset en req (\<lambda>dataset.
     or_respond (findDatasetVersion en req dataset (path_param req ''version'') True) WriteError
       (\<lambda>ver. respond (WriteEntity (P_Version ver))))"

definition check_version :: "('m, 'v) api_env \<Rightarrow> string \<Rightarrow> ('m api, unit) prog" where
  "check_version en version = lift_err (CheckVersion (en_newVersion en) (en_verString en) version)"

text \<open>A version that exists is answered with a conflict, and then the handler goes on.\<close>

definition createVersion :: "('m, 'v) api_env \<Rightarrow> 'm request \<Rightarrow> ('m api, unit) prog" where
  "createVersion en req =
     (let workspace = path_param req ''workspace''; name = path_param req ''name''; version = path_param req ''version'' in
      bnd (find_dataset en req (currentType req) workspace name) (\<lambda>found.
      or_respond (case found of Some ds \<Rightarrow> ret ds | None \<Rightarrow> on_db (NewDataset (currentType req) workspace name)) WriteError (\<lambda>dataset.
      or_respond (check_version en version) (WriteStatusError 400) (\<lambda>_.
      or_respond (dataset_versions en req dataset) (WriteStatusError 500) (\<lambda>versions.
      bnd (for_each (\<lambda>v. if vi_Version v = version
             then respond (WriteStatusError 409 (Errorf (''Version '' @ currentType req @ '' for '' @ version @ '' ''
                    @ workspace @ ''/'' @ name @ '' already exists'')))
             else ret ()) versions) (\<lambda>_.
      or_respond (on_db (SaveDatasetVersion (blank_version\<lparr>v_Version := version, v_Name := name, v_Workspace := workspace,
                    v_Editing := True, v_Message := query_param req ''message'', v_Type := currentType req\<rparr>))) WriteError
        (\<lambda>dsv. respond (Created (P_Version (info_of_version dsv))))))))))"

definition api_deleteVersion :: "('m, 'v) api_env \<Rightarrow> 'm request \<Rightarrow> ('m api, unit) prog" where
  "api_deleteVersion en req = with_dataset en req (\<lambda>dataset.
     let version = path_param req ''version'' in
     or_respond (on_db (ds_DeleteVersion (en_vless en) (en_settings en) (rq_masterclient req) dataset version True)) (WriteStatusError 500) (\<lambda>_.
     bnd (on_db (PushMessageVersion (en_hub en) ((info_of_version blank_version)\<lparr>vi_Workspace := path_param req ''workspace'',
            vi_Name := path_param req ''name'', vi_DType := currentType req, vi_Version := version\<rparr>))) (\<lambda>_.
     bnd (invalidateVersionCache dataset version) (\<lambda>_. respond [Code 204]))))"

definition cloneVersion :: "('m, 'v) api_env \<Rightarrow> 'm request \<Rightarrow> ('m api, unit) prog" where
  "cloneVersion en req = with_dataset en req (\<lambda>dataset.
     let version = path_param req ''version''; targetVersion = path_param req ''targetVersion'' in
     or_respond (check_version en targetVersion) (WriteStatusError 400) (\<lambda>_.
     bnd (invalidateVersionCache dataset targetVersion) (\<lambda>_.
     or_respond (on_db (CloneVersion (en_settings en) dataset version targetVersion (query_param req ''message''))) (WriteStatusError 500) (\<lambda>dsv.
     bnd (on_db (PushMessageVersion (en_hub en) ((info_of_version blank_version)\<lparr>vi_Workspace := path_param req ''workspace'',
            vi_Name := path_param req ''name'', vi_DType := currentType req, vi_Version := version\<rparr>))) (\<lambda>_.
       respond (Created (P_VersionRow dsv)))))))"

definition new_version_of :: "'m request \<Rightarrow> version_info list \<Rightarrow> new_version" where
  "new_version_of req vers = \<lparr>nv_Workspace = path_param req ''workspace'', nv_Version = path_param req ''version'',
     nv_Type = currentType req, nv_Name = path_param req ''name'',
     nv_Latest = (case vers of [] \<Rightarrow> False | v # _ \<Rightarrow> vi_Version v = path_param req ''version'')\<rparr>"

definition api_commitVersion :: "('m, 'v) api_env \<Rightarrow> 'm request \<Rightarrow> ('m api, unit) prog" where
  "api_commitVersion en req = with_dataset en req (\<lambda>dataset.
     or_respond (on_db (CommitVersion (en_vless en) (en_settings en) (rq_masterclient req) dataset (path_param req ''version'')
                   (query_param req ''message''))) WriteError (\<lambda>dsv.
     or_respond (dataset_versions en req dataset) WriteError (\<lambda>vers.
     bnd (reportNewVersion en req (new_version_of req vers)) (\<lambda>_. respond (WriteEntity (P_VersionRow dsv))))))"

section \<open>Trees\<close>

definition getDatasetFS :: "('m, 'v) api_env \<Rightarrow> 'm request \<Rightarrow> ('m api, unit) prog" where
  "getDatasetFS en req = with_dataset en req (\<lambda>dataset.
     let format = (if query_param req ''format'' = [] then ''json'' else query_param req ''format'') in
     or_respond (tree_of en req dataset (path_param req ''version'')) WriteError (\<lambda>fs.
       if format = ''json'' then respond (WriteEntity (P_FS format fs))
       else if format = ''gob'' \<or> format = ''gobgz'' then respond [Body (P_FS format fs)]
       else respond (WriteErrorString 400 ''Wrong format, allowed json/gob/gobgz'')))"

text \<open>
  The posted structure, or the answer. For a body that is no gzip the reader is \<^verbatim>\<open>nil\<close>, and its deferred
  \<^verbatim>\<open>Close\<close> panics after the answer.
\<close>

definition read_structure :: "('m, 'v) api_env \<Rightarrow> 'm request \<Rightarrow> string \<Rightarrow> (file_structure + reply list) option" where
  "read_structure en req format =
     (if format = ''json'' then
        (case en_json en (rq_Body req) of Inl e \<Rightarrow> Some (Inr (WriteStatusError 400 e)) | Inr fs \<Rightarrow> Some (Inl fs))
      else if format = ''gobgz'' then
        (case en_gunzip en (rq_Body req) of
           Inl e \<Rightarrow> None
         | Inr rd \<Rightarrow> (case en_gob en rd of Inl e \<Rightarrow> Some (Inr (WriteError e)) | Inr fs \<Rightarrow> Some (Inl fs)))
      else Some (Inr (WriteErrorString 400 ''Wrong format: allowed json and gobgz'')))"

definition saveFS :: "('m, 'v) api_env \<Rightarrow> 'm request \<Rightarrow> ('m api, unit) prog" where
  "saveFS en req =
     (let comment = query_param req ''comment''; create = getBoolQueryParam req ''create'';
          publish = getBoolQueryParam req ''publish''; editing = getBoolQueryParam req ''editing'';
          version = path_param req ''version''; name = path_param req ''name''; workspace = path_param req ''workspace'';
          format = (if query_param req ''format'' = [] then ''json'' else query_param req ''format'');
          master = rq_masterclient req in
      bnd (lift_option (read_structure en req format)) (\<lambda>r.
      case r of Inr rs \<Rightarrow> respond rs
      | Inl structure \<Rightarrow>
      or_respond (check_version en version) (WriteStatusError 400) (\<lambda>_.
      or_respond (on_db (NewDataset (currentType req) workspace name)) WriteError (\<lambda>dataset.
      or_respond (on_db (Save (en_settings en) master dataset structure version comment create publish editing True)) (WriteStatusError 500) (\<lambda>_.
      if editing then
        respond (Created (P_VersionRow (blank_version\<lparr>v_Version := version, v_Name := name, v_Type := currentType req,
          v_Workspace := workspace, v_Editing := True\<rparr>)))
      else
        attempt (on_db (CommitVersion (en_vless en) (en_settings en) master dataset version comment)) (\<lambda>r. case r of
          Inl e \<Rightarrow> respond (WriteErrorString 500 (''Failed to commit version '' @ version @ '': '' @ error_text e))
        | Inr dsv \<Rightarrow>
            bnd (invalidateVersionCache dataset version) (\<lambda>_.
            or_respond (if create then createDatasetOnDealer en req workspace name publish else ret ()) (WriteStatusError 500) (\<lambda>_.
            or_respond (dataset_versions en req dataset) WriteError (\<lambda>vers.
            bnd (reportNewVersion en req (new_version_of req vers)) (\<lambda>_.
              respond (Created (P_VersionRow dsv))))))))))))"

section \<open>Administration\<close>

definition runGC :: "('m api, unit) prog" where
  "runGC = bnd (on_db (send_gc ''Run GC by API request'')) (\<lambda>_. respond [Body (P_Text (''GC started!'' @ [CHR 0x0A]))])"

end
