(* ===== verification/Watcher.thy ===== *)
theory Watcher
  imports ApiDatasets
begin

text \<open>
  \<^verbatim>\<open>pkg/api/watcher.go\<close> and \<^verbatim>\<open>pkg/api/ws.go\<close>: a slave listens to the hub of its first master over a
  websocket and deletes what was deleted there. Three goroutines share the watcher: one connects and
  receives, one pings, one works off the queue; here each turn of a loop is one operation.
\<close>

section \<open>Messages\<close>

text \<open>
  The content of a message as \<^verbatim>\<open>LoadAsJson\<close> reads it, as a dataset and as a version; \<open>None\<close> when it is no
  JSON object, where the type assertion panics.
\<close>

record message =
  wm_Type :: string
  wm_Content :: "(dataset_info res \<times> version_info res) option"

datatype mode = Connect | Receive

text \<open>
  \<open>wt_running\<close>: \<^verbatim>\<open>processQueue\<close> has not returned. \<open>wt_slept\<close> are the seconds \<^verbatim>\<open>continuousConnect\<close> slept.
\<close>

record 'm watcher =
  wt_api :: "'m api"
  wt_attempt :: nat
  wt_mode :: mode
  wt_queue :: "message list"
  wt_lastMessages :: "message list"
  wt_running :: bool
  wt_slept :: "nat list"

definition sleepLimit :: nat where
  "sleepLimit = 10"

definition queueCap :: nat where
  "queueCap = 10"

text \<open>\<^verbatim>\<open>StartWatcher\<close>: \<open>None\<close> without masters.\<close>

definition StartWatcher :: "('m, 'v) api_env \<Rightarrow> 'm api \<Rightarrow> 'm watcher option" where
  "StartWatcher en a =
     (if 0 < length (Masters (en_getenv en))
      then Some \<lparr>wt_api = a, wt_attempt = 0, wt_mode = Connect, wt_queue = [], wt_lastMessages = [], wt_running = True, wt_slept = []\<rparr>
      else None)"

section \<open>Connecting and receiving\<close>

text \<open>The address that \<^verbatim>\<open>connect\<close> dials.\<close>

definition connect_url :: "string \<Rightarrow> string res" where
  "connect_url master =
     (case url_parse master of
        Inl e \<Rightarrow> Inl e
      | Inr base \<Rightarrow>
          let path = (if length (u_Path base) < 2 then ''/pluk/v1'' else u_Path base);
              scheme = (if u_Scheme base = ''http'' then ''ws'' else if u_Scheme base = ''https'' then ''wss'' else []);
              urlStr = scheme @ ''://'' @ u_Host base @ ''/'' @ trim_prefix path ''/''
          in Inr (trim_suffix urlStr ''/'' @ ''/websocket''))"

text \<open>\<open>dial\<close> says whether the dialer connects to an address and the answer is no error.\<close>

definition watcher_connect :: "string \<Rightarrow> (string \<Rightarrow> bool) \<Rightarrow> 'm watcher \<Rightarrow> bool \<times> 'm watcher" where
  "watcher_connect master dial w =
     (case connect_url master of
        Inl e \<Rightarrow> (False, w)
      | Inr u \<Rightarrow> if dial u then (True, w\<lparr>wt_attempt := 0\<rparr>) else (False, w))"

text \<open>One turn of \<^verbatim>\<open>continuousConnect\<close>.\<close>

definition continuousConnect_turn :: "string \<Rightarrow> (string \<Rightarrow> bool) \<Rightarrow> 'm watcher \<Rightarrow> 'm watcher" where
  "continuousConnect_turn master dial w =
     (case watcher_connect master dial w of
        (True, w1) \<Rightarrow> w1\<lparr>wt_mode := Receive\<rparr>
      | (False, w1) \<Rightarrow>
          let toSleep = (if wt_attempt w1 < sleepLimit then wt_attempt w1 else sleepLimit)
          in w1\<lparr>wt_slept := wt_slept w1 @ [toSleep], wt_attempt := wt_attempt w1 + 1\<rparr>)"

text \<open>What \<^verbatim>\<open>ReadJSON\<close> gives: a message, a syntax error (a pong), or another error.\<close>

datatype received = Got message | Syntax_Error | Broken

text \<open>One turn of \<^verbatim>\<open>continuousReceive\<close>; with a full queue it waits for \<^verbatim>\<open>processQueue\<close> (\<open>None\<close>).\<close>

definition continuousReceive_turn :: "received \<Rightarrow> 'm watcher \<Rightarrow> 'm watcher option" where
  "continuousReceive_turn r w =
     (case r of
        Got m \<Rightarrow> if length (wt_queue w) < queueCap then Some (w\<lparr>wt_queue := wt_queue w @ [m]\<rparr>) else None
      | Syntax_Error \<Rightarrow> Some w
      | Broken \<Rightarrow> Some (w\<lparr>wt_mode := Connect\<rparr>))"

text \<open>One tick of \<^verbatim>\<open>pinger\<close>; the flag says whether it goes on.\<close>

definition pinger_turn :: "bool \<Rightarrow> 'm watcher \<Rightarrow> bool \<times> 'm watcher" where
  "pinger_turn sent w =
     (if wt_mode w = Receive then (if sent then (True, w) else (False, w\<lparr>wt_mode := Connect\<rparr>)) else (False, w))"

section \<open>The queue\<close>

definition dataset_named :: "string \<Rightarrow> string \<Rightarrow> string \<Rightarrow> dataset_row" where
  "dataset_named eType workspace name = blank_dataset\<lparr>d_Name := name, d_Type := eType, d_Workspace := workspace\<rparr>"

text \<open>The result says whether the loop goes on.\<close>

definition process_message :: "('m, 'v) api_env \<Rightarrow> message \<Rightarrow> ('m api, bool) prog" where
  "process_message en m =
     (if wm_Type m = ''dataset'' then
        bnd (lift_option (wm_Content m)) (\<lambda>(ds, _).
          case ds of
            Inl _ \<Rightarrow> ret True
          | Inr ds \<Rightarrow>
              attempt (on_db (mgr_DeleteDataset (en_settings en) (en_hub en) None (di_DType ds) (di_Workspace ds) (di_Name ds) True)) (\<lambda>_.
              bnd (invalidateCache (Some (dataset_named (di_DType ds) (di_Workspace ds) (di_Name ds)))) (\<lambda>_. ret True)))
      else if wm_Type m = ''dataset_version'' then
        bnd (lift_option (wm_Content m)) (\<lambda>(_, dsv).
          case dsv of
            Inl _ \<Rightarrow> ret True
          | Inr dsv \<Rightarrow>
              bnd (invalidateVersionCache (dataset_named (vi_DType dsv) (vi_Workspace dsv) (vi_Name dsv)) (vi_Version dsv)) (\<lambda>_.
              attempt (on_db (mgr_GetDataset (en_settings en) None (vi_DType dsv) (vi_Workspace dsv) (vi_Name dsv))) (\<lambda>r.
                case r of
                  Inl _ \<Rightarrow> ret False
                | Inr dataset \<Rightarrow>
                    attempt (on_db (ds_DeleteVersion (en_vless en) (en_settings en) None dataset (vi_Version dsv) True)) (\<lambda>r.
                      ret (case r of Inl _ \<Rightarrow> False | Inr _ \<Rightarrow> True)))))
      else ret True)"

definition keep_last :: "message \<Rightarrow> message list \<Rightarrow> message list" where
  "keep_last m ms = (let ms' = ms @ [m] in if 5 < length ms' then tl ms' else ms')"

text \<open>One turn of \<^verbatim>\<open>processQueue\<close> with a message; \<open>None\<close> when there is none to come, or at a panic.\<close>

definition processQueue_turn :: "('m, 'v) api_env \<Rightarrow> 'm watcher \<Rightarrow> 'm watcher option" where
  "processQueue_turn en w =
     (if \<not> wt_running w then None
      else case wt_queue w of
        [] \<Rightarrow> None
      | m # ms \<Rightarrow>
          (case process_message en m (wt_api w) of
             None \<Rightarrow> None
           | Some (r, a) \<Rightarrow> Some (w\<lparr>wt_api := a, wt_queue := ms, wt_lastMessages := keep_last m (wt_lastMessages w),
                                  wt_running := (r = Inr True)\<rparr>)))"

text \<open>
  \<^verbatim>\<open>lastReceivedMessages\<close>: without a watcher an empty list; with one the loop of the queue has to answer,
  and for ever nobody does once it has returned.
\<close>

definition lastReceivedMessages :: "'m watcher option \<Rightarrow> message list option" where
  "lastReceivedMessages wt =
     (case wt of None \<Rightarrow> Some [] | Some w \<Rightarrow> if wt_running w then Some (wt_lastMessages w) else None)"

section \<open>The other side\<close>

text \<open>
  \<^verbatim>\<open>wsReader\<close> on what the client sends until an error: how many pongs it writes. \<open>ok k\<close> says whether the
  \<open>k\<close>-th write succeeds.
\<close>

fun wsReader :: "(nat \<Rightarrow> bool) \<Rightarrow> nat \<Rightarrow> string res list \<Rightarrow> nat" where
  "wsReader ok k [] = k"
| "wsReader ok k (Inl e # ms) = k"
| "wsReader ok k (Inr msg # ms) =
     (if msg = ''ping'' then (if ok k then wsReader ok (Suc k) ms else k) else wsReader ok k ms)"

end
