(* ===== verification/Samples.thy ===== *)
theory Samples
  imports ApiDatasets Collect
begin

text \<open>
  Concrete servers and requests, for the witnesses of the properties of the handlers.
\<close>

text \<open>A server without masters and without authentication; one version that is edited.\<close>

definition sample_env :: "(unit, string) api_env" where
  "sample_env = \<lparr>en_settings = sample_settings_of ''/d'', en_getenv = \<lambda>_. [], en_authURL = [],
     en_newVersion = \<lambda>s. if s = [] then Inl ''Invalid Semantic Version'' else Inr s, en_verString = \<lambda>v. v,
     en_verLess = \<lambda>a b. length a < length b, en_newClient = \<lambda>_ _. Inl Db_Error, en_chunks = sample_master,
     en_do = \<lambda>_ m. (Inl Db_Error, m), en_dealer = \<lambda>_ _. Inl Db_Error, en_mimeType = \<lambda>_. [],
     en_json = \<lambda>_. Inl Db_Error, en_gunzip = Inr, en_gob = \<lambda>_. Inl Db_Error, en_hub = False\<rparr>"

definition sample_row :: dataset_row where
  "sample_row = blank_dataset\<lparr>d_ID := 1, d_Workspace := ''w'', d_Name := ''d'', d_Type := ''dataset''\<rparr>"

definition sample_api :: "unit api" where
  "sample_api = \<lparr>ap_db = sample_db (sample_tables\<lparr>
       t_datasets := [sample_row],
       t_dataset_versions := [sample_version\<lparr>v_Editing := True\<rparr>]\<rparr>),
     ap_disk = \<lparr>dk_files = [], dk_dirs = [], dk_denied = []\<rparr>, ap_cache = [], ap_fsCache = [], ap_saveLocks = [], ap_resp = []\<rparr>"

definition sample_request :: "unit request" where
  "sample_request = \<lparr>rq_Method = ''POST'', rq_Path = [],
     rq_Params = [(''workspace'', ''w''), (''name'', ''d''), (''version'', ''1.0.0''), (''path'', ''y'')],
     rq_Query = [], rq_Headers = [], rq_Body = ([], None), rq_entityType = None, rq_masterclient = None\<rparr>"

end
