(* ===== verification/Server.thy ===== *)
theory Server
  imports Watcher Samples
begin

text \<open>
  \<^verbatim>\<open>NewApiContainer\<close> and \<^verbatim>\<open>GlobalHandler\<close> of \<^verbatim>\<open>pkg/api/api.go\<close>: the routes and the filters before them, and
  the server as a transition system. Which route a request is given to is decided by the third-party
  router and is a parameter of a step. The routes of the websocket and \<^verbatim>\<open>/admin/clear-chunks\<close> are left out.
\<close>

record ('m, 'v) route =
  rt_Method :: string
  rt_Path :: string
  rt_To :: "('m, 'v) api_env \<Rightarrow> 'm request \<Rightarrow> ('m api, unit) prog"

definition GET :: "string \<Rightarrow> (('m, 'v) api_env \<Rightarrow> 'm request \<Rightarrow> ('m api, unit) prog) \<Rightarrow> ('m, 'v) route" where
  "GET path handler = \<lparr>rt_Method = ''GET'', rt_Path = path, rt_To = handler\<rparr>"

definition POST :: "string \<Rightarrow> (('m, 'v) api_env \<Rightarrow> 'm request \<Rightarrow> ('m api, unit) prog) \<Rightarrow> ('m, 'v) route" where
  "POST path handler = \<lparr>rt_Method = ''POST'', rt_Path = path, rt_To = handler\<rparr>"

definition DELETE :: "string \<Rightarrow> (('m, 'v) api_env \<Rightarrow> 'm request \<Rightarrow> ('m api, unit) prog) \<Rightarrow> ('m, 'v) route" where
  "DELETE path handler = \<lparr>rt_Method = ''DELETE'', rt_Path = path, rt_To = handler\<rparr>"

definition api_routes :: "('m, 'v) route list" where
  "api_routes = [
     GET ''/workspaces/{workspace}'' checkWorkspace,
     GET ''/workspaces/{workspace}/{entityType}/{dataset}'' checkDatasetExists,
     GET ''/workspaces/{workspace}/{entityType}/{dataset}/permission'' checkDatasetPermission,
     POST ''/workspaces/{workspace}/{entityType}/{dataset}/spec'' postSpec,
     POST ''/workspaces/{workspace}/{entityType}/{dataset}/versions/{version}/spec'' postVersionSpec,
     GET ''/{entityType}/{workspace}'' api_datasets,
     GET ''/{entityType}/{workspace}/{name}'' api_getDataset,
     GET ''/{entityType}/{workspace}/{name}/versions/{version}'' downloadDataset,
     POST ''/{entityType}/{workspace}/{name}'' createDataset,
     POST ''/{entityType}/{workspace}/{name}/fork/{targetWorkspace}'' forkDataset,
     DELETE ''/{entityType}/{workspace}/{name}'' api_deleteDataset,
     GET ''/{entityType}/{workspace}/{name}/versions'' api_versions,
     POST ''/{entityType}/{workspace}/{name}/versions/{version}'' createVersion,
     GET ''/{entityType}/{workspace}/{name}/versions/{version}/get'' getVersion,
     POST ''/{entityType}/{workspace}/{name}/versions/{version}/clone/{targetVersion}'' cloneVersion,
     POST ''/{entityType}/{workspace}/{name}/versions/{version}/commit'' api_commitVersion,
     GET ''/{entityType}/{workspace}/{name}/versions/{version}/fs'' getDatasetFS,
     DELETE ''/{entityType}/{workspace}/{name}/versions/{version}'' api_deleteVersion,
     GET ''/{entityType}/{workspace}/{name}/versions/{version}/tarsize'' datasetTarSize,
     GET ''/{entityType}/{workspace}/{name}/versions/{version}/tree'' fsReadDir,
     GET ''/{entityType}/{workspace}/{name}/versions/{version}/tree/{path:*}'' fsReadDir,
     GET ''/{entityType}/{workspace}/{name}/versions/{version}/raw/{path:*}'' fsReadFile,
     POST ''/{entityType}/{workspace}/{name}/versions/{version}/upload/{path:*}'' uploadDatasetFile,
     DELETE ''/{entityType}/{workspace}/{name}/versions/{version}/upload/{path:*}'' deleteDatasetFile,
     POST ''/{entityType}/{workspace}/{name}/{version}'' saveFS,
     GET ''/chunks/{hash}'' api_checkChunk,
     GET ''/chunks/{hash}/{version}'' api_checkChunk,
     GET ''/chunks/{hash}/download'' downloadChunk,
     GET ''/chunks/{hash}/download/{version}'' downloadChunk,
     POST ''/chunks/{hash}'' api_saveChunk,
     POST ''/chunks/{hash}/{version}'' api_saveChunk,
     GET ''/admin/gc'' (\<lambda>en req. runGC)]"

text \<open>The container of the public or the internal prefix: its own hook, then the filter on the type.\<close>

definition serve :: "('m, 'v) api_env \<Rightarrow> bool \<Rightarrow> ('m, 'v) route \<Rightarrow> 'm request \<Rightarrow> ('m api, unit) prog" where
  "serve en public rt req =
     (if public then AuthHook en (setCurrentType (rt_To rt en)) req
      else InternalHook en (setCurrentType (rt_To rt en)) req)"

text \<open>
  What happens to a server: a request arrives, the collector runs, the watcher has a message, and the
  world outside goes on (the network, the clock, and which statements are going to fail).
\<close>

inductive server_step :: "('m, 'v) api_env \<Rightarrow> 'm api \<Rightarrow> 'm api \<Rightarrow> bool" for en where
  Request: "server_step en s s'"
    if "rt \<in> set api_routes" and "rq_entityType req = None" and "rq_masterclient req = None"
      and "serve en public rt req (s\<lparr>ap_resp := []\<rparr>) = Some (r, s')"
| Collector: "server_step en s s'" if "on_db (GoGC (en_settings en) (internal_masters en)) s = Some (r, s')"
| Watched: "server_step en s s'" if "process_message en m s = Some (r, s')"
| World: "server_step en s (s\<lparr>ap_db := (ap_db s)\<lparr>db_remote := m, db_now := n, db_faults := fs\<rparr>\<rparr>)"

inductive_cases server_stepE: "server_step en s s'"

end
