(* ===== verification/ServerInvariants.thy ===== *)
theory ServerInvariants
  imports TableInvariants Server
begin

text \<open>
  What the laws of \<open>table_invariant\<close> give for the whole server: the programs of \<^verbatim>\<open>pkg/datasets\<close>, the
  collector, every handler behind its filters, and so every step, keep the invariant.
\<close>

definition api_steady :: "(tables \<Rightarrow> bool) \<Rightarrow> 'm api \<Rightarrow> bool" where
  "api_steady Q s \<longleftrightarrow> steady Q (ap_db s)"

context table_invariant
begin

section \<open>Datasets and versions\<close>

lemma saves [upholds_intros]:
  "upholds (steady Q) (Save st ms ds structure version comment create publish editing masterSave)"
  "upholds (steady Q) (CloneVersion st ds version targetVersion message)"
  unfolding Save_def SaveFSToDB_def CloneVersion_def by (intro upholds_intros)+

lemma trees [upholds_intros]: "upholds (steady Q) (GetFSStructure st ms ds version)"
  unfolding GetFSStructure_def GetFSFromDB_def GetFS_def getFSStructureFromMaster_def SaveFSLocally_def
  by (intro upholds_intros)

lemma sync_versions [upholds_intros]: "upholds (steady Q) (sync_versions ds vs m)"
proof (induction vs arbitrary: m)
  case (Cons v vs)
  then show ?case unfolding sync_versions.simps by (intro upholds_intros)
qed (simp add: upholds_basic)

lemma Versions [upholds_intros]: "upholds (steady Q) (Versions vless st ms ds)"
  unfolding Versions_def Let_def by (intro upholds_intros)

lemma version_ops [upholds_intros]:
  "upholds (steady Q) (ds_DeleteVersion vless st ms ds version force)" "upholds (steady Q) (CommitVersion vless st ms ds version message)"
  unfolding ds_DeleteVersion_def CommitVersion_def ds_CheckVersion_def by (intro upholds_intros)+

section \<open>The manager and the collector\<close>

lemma NewDataset: "ok_type ty \<Longrightarrow> upholds (steady Q) (NewDataset ty ws name)"
  unfolding NewDataset_def by (intro upholds_intros CreateDataset) simp

lemma mgr_GetDataset: "ok_type ty \<Longrightarrow> upholds (steady Q) (mgr_GetDataset st ms ty ws name)"
  unfolding mgr_GetDataset_def by (intro upholds_intros NewDataset)

text \<open>Without a master nothing is created.\<close>

lemma mgr_GetDataset_local [upholds_intros]: "upholds (steady Q) (mgr_GetDataset st None ty ws name)"
  unfolding mgr_GetDataset_def option.case by (intro upholds_intros)

lemma mgr_DeleteDataset [upholds_intros]: "upholds (steady Q) (mgr_DeleteDataset st hub ms ty ws name force)"
  unfolding mgr_DeleteDataset_def
proof (rule upholds_attempt_with [where Q = "\<lambda>r. \<forall>ds. r = Inr ds \<longrightarrow> ok_type (d_Type ds)"], goal_cases)
  case (1 d r d')
  then show ?case using dataset_rows(2) [of "{}" "{}" ty ws name] GetDataset_type by (fastforce simp: upholds_def)
next
  case (2 r)
  show ?case
  proof (cases r)
    case (Inl e)
    then show ?thesis by (simp only: sum.case) (intro upholds_intros)
  next
    case (Inr ds)
    then show ?thesis using 2 by (simp only: sum.case) (intro upholds_intros UpdateDataset, simp)
  qed
qed

lemma ForkDataset:
  "ok_type (di_DType src) \<Longrightarrow> ok_type (di_DType target) \<Longrightarrow> upholds (steady Q) (ForkDataset vless st ms src target)"
  unfolding ForkDataset_def by (intro upholds_intros mgr_GetDataset NewDataset)

lemma each_last_err [upholds_intros]: "(\<And>x. upholds (steady Q) (body x)) \<Longrightarrow> upholds (steady Q) (each_last_err body xs err)"
proof (induction xs arbitrary: err)
  case (Cons x xs)
  show ?case unfolding each_last_err.simps by (intro upholds_intros Cons.IH Cons.prems)
qed (simp add: upholds_basic)

lemma gc_candidates [upholds_intros]: "upholds (steady Q) (gc_candidates ms ls cs)"
proof (induction ls arbitrary: cs)
  case (Cons l ls)
  then show ?case by (cases l) (simp only: gc_candidates.simps, intro upholds_intros)
qed (simp add: upholds_basic)

lemma GoGC [upholds_intros]: "upholds (steady Q) (GoGC st ms)"
  unfolding GoGC_def gcFromMasters_def endTx_def deleteDatasetVersion_def deleteDataset_def
  by (intro upholds_intros holding_exec) (simp_all add: put_versions)

section \<open>Handlers\<close>

lemma api_on_db [upholds_intros]: "upholds (steady Q) m \<Longrightarrow> upholds (api_steady Q) (on_db m)"
  by (fastforce simp: upholds_def api_steady_def on_db_def split: option.splits)

lemma api_on_node [upholds_intros]: "upholds (api_steady Q) (on_node f)"
  by (auto simp: upholds_def api_steady_def on_node_def with_node_def holding_def split: option.splits)

lemma api_put [upholds_intros]: "(\<And>s. ap_db (f s) = ap_db s) \<Longrightarrow> upholds (api_steady Q) (put_state f)"
  by (simp add: upholds_def api_steady_def put_state_def)

lemma api_get [upholds_intros]: "upholds (api_steady Q) (get_state h)"
  by (simp add: upholds_def api_steady_def get_state_def)

lemma api_locks [upholds_intros]: "upholds (api_steady Q) (lockForSave a b c)" "upholds (api_steady Q) (unlockForSave a b c)"
  by (auto simp: upholds_def api_steady_def lockForSave_def unlockForSave_def split: option.splits bool.splits if_splits)

lemma api_basic [upholds_intros]:
  "upholds (api_steady Q) (on_remote g)" "upholds (api_steady Q) (respond rs)"
  "upholds (api_steady Q) (invalidateCache dso)" "upholds (api_steady Q) (invalidateVersionCache ds ver)"
  unfolding on_remote_def respond_def invalidateCache_def invalidateVersionCache_def by (intro upholds_intros; simp)+

lemma api_or_respond [upholds_intros]:
  "upholds (api_steady Q) m \<Longrightarrow> (\<And>x. upholds (api_steady Q) (k x)) \<Longrightarrow> upholds (api_steady Q) (or_respond m w k)"
  unfolding or_respond_def by (intro upholds_intros)

lemma api_tx_steady [upholds_intros]: "upholds (api_steady Q) m \<Longrightarrow> upholds (api_steady Q) (api_tx m)"
  unfolding api_tx_def by (intro upholds_intros)

lemma api_getFS_steady [upholds_intros]: "upholds (api_steady Q) (api_getFS st ms ds ver)"
  unfolding api_getFS_def by (intro upholds_intros) simp

lemma api_calls [upholds_intros]:
  "upholds (api_steady Q) (checkEntityExists en req a b)" "upholds (api_steady Q) (checkEntityAccess en req w)"
  "upholds (api_steady Q) (postSpecToDealer en req a b c d)" "upholds (api_steady Q) (createDatasetOnDealer en req a b w)"
  "upholds (api_steady Q) (deleteDatasetOnDealer en req a b)" "upholds (api_steady Q) (reportNewVersion en req nv)"
  unfolding checkEntityExists_def checkEntityAccess_def postSpecToDealer_def createDatasetOnDealer_def deleteDatasetOnDealer_def
    reportNewVersion_def dealerClient_def do_action_def by_type_def Let_def
  by (intro upholds_intros)+

lemma api_CheckAuth [upholds_intros]: "upholds (api_steady Q) (CheckAuth en a b c d e f g mc)"
  unfolding CheckAuth_def check_master_auth_def check_dealer_auth_def check_workspace_auth_def check_secret_def ask_auth_def Let_def
  by (intro upholds_intros) simp

lemma api_versions_steady [upholds_intros]:
  "upholds (api_steady Q) (dataset_versions en req ds)" "upholds (api_steady Q) (findDatasetVersion en req ds ver e)"
  unfolding findDatasetVersion_def dataset_versions_def by (intro upholds_intros)+

lemma api_with_dataset:
  "ok_type (currentType req) \<Longrightarrow> (\<And>ds. upholds (api_steady Q) (k ds)) \<Longrightarrow> upholds (api_steady Q) (with_dataset en req k)"
  unfolding with_dataset_def Let_def by (intro upholds_intros mgr_GetDataset)

lemma api_find_dataset:
  "ok_type ty \<Longrightarrow> upholds (api_steady Q) (find_dataset en req ty ws name)"
  unfolding find_dataset_def by (intro upholds_intros mgr_GetDataset)

text \<open>The handlers, for a request whose type is allowed.\<close>

lemma api_file_handlers:
  assumes "ok_type (currentType req)"
  shows "upholds (api_steady Q) (fsReadDir en req)" "upholds (api_steady Q) (fsReadFile en req)" "upholds (api_steady Q) (deleteDatasetFile en req)"
    "upholds (api_steady Q) (uploadDatasetFile en req)"
  unfolding fsReadDir_def fsReadFile_def deleteDatasetFile_def uploadDatasetFile_def readAndSaveFile_def Let_def
  by (intro upholds_intros api_with_dataset assms)+

lemma api_chunk_handlers [upholds_intros]:
  "upholds (api_steady Q) (api_checkChunk en req)" "upholds (api_steady Q) (downloadChunk en req)" "upholds (api_steady Q) (api_saveChunk en req)"
  "upholds (api_steady Q) runGC"
  unfolding api_checkChunk_def downloadChunk_def api_saveChunk_def runGC_def by (intro upholds_intros)+

lemma api_access_handlers [upholds_intros]:
  "upholds (api_steady Q) (checkWorkspace en req)" "upholds (api_steady Q) (checkDatasetExists en req)" "upholds (api_steady Q) (checkDatasetPermission en req)"
  "upholds (api_steady Q) (postSpec en req)" "upholds (api_steady Q) (postVersionSpec en req)" "upholds (api_steady Q) (api_datasets en req)"
  "upholds (api_steady Q) (NotFoundHandler req)"
  unfolding checkWorkspace_def checkDatasetExists_def checkDatasetPermission_def postSpec_def postVersionSpec_def api_datasets_def
    mgr_ListDatasets_def dealerClient_def NotFoundHandler_def Let_def
  by (intro upholds_intros)+

lemma api_tar_size [upholds_intros]: "upholds (api_steady Q) (tar_size_of fs)"
  unfolding tar_size_of_def by (intro upholds_intros)

lemma api_delete_entity [upholds_intros]: "upholds (api_steady Q) (delete_entity en req ty ws name)"
  unfolding delete_entity_def by (intro upholds_intros)

lemma api_dataset_handlers:
  assumes "ok_type (currentType req)"
  shows "upholds (api_steady Q) (downloadDataset en req)" "upholds (api_steady Q) (api_getDataset en req)" "upholds (api_steady Q) (datasetTarSize en req)"
    "upholds (api_steady Q) (api_deleteDataset en req)" "upholds (api_steady Q) (createDataset en req)"
  unfolding downloadDataset_def api_getDataset_def datasetTarSize_def api_deleteDataset_def createDataset_def Let_def
  by (intro upholds_intros api_with_dataset api_find_dataset NewDataset assms)+

lemma api_forkDataset:
  assumes "ok_type (currentType req)"
  shows "upholds (api_steady Q) (forkDataset en req)"
  unfolding forkDataset_def Let_def
  by (intro upholds_intros api_find_dataset ForkDataset; use assms allowed in \<open>simp split: if_splits\<close>)

lemma api_check_version [upholds_intros]: "upholds (api_steady Q) (check_version en ver)"
  unfolding check_version_def by (intro upholds_intros)

lemma api_version_handlers:
  assumes "ok_type (currentType req)"
  shows "upholds (api_steady Q) (api_versions en req)" "upholds (api_steady Q) (getVersion en req)" "upholds (api_steady Q) (createVersion en req)"
    "upholds (api_steady Q) (api_deleteVersion en req)" "upholds (api_steady Q) (cloneVersion en req)" "upholds (api_steady Q) (api_commitVersion en req)"
  unfolding api_versions_def getVersion_def createVersion_def api_deleteVersion_def cloneVersion_def api_commitVersion_def Let_def
  by (intro upholds_intros api_with_dataset api_find_dataset NewDataset assms)+

lemma api_tree_handlers:
  assumes "ok_type (currentType req)"
  shows "upholds (api_steady Q) (getDatasetFS en req)" "upholds (api_steady Q) (saveFS en req)"
  unfolding getDatasetFS_def saveFS_def Let_def
  by (intro upholds_intros api_with_dataset NewDataset assms)+

lemmas api_handlers = api_file_handlers api_dataset_handlers api_forkDataset api_version_handlers api_tree_handlers

lemma route_steady:
  assumes "rt \<in> set api_routes" and "ok_type (currentType req)"
  shows "upholds (api_steady Q) (rt_To rt en req)"
  using assms
  by (auto simp: api_routes_def GET_def POST_def DELETE_def intro: upholds_intros api_handlers)

lemma setCurrentType_steady:
  assumes "rt \<in> set api_routes" and "rq_entityType req = None"
  shows "upholds (api_steady Q) (setCurrentType (rt_To rt en) req)"
proof (cases "map_of (rq_Params req) ''entityType''")
  case None
  then show ?thesis using route_steady [OF assms(1)] allowed [of "''dataset''"] assms(2)
    by (simp add: setCurrentType_def currentType_def AllowedTypes_def)
next
  case (Some ty)
  then show ?thesis using route_steady [OF assms(1), where req = "req\<lparr>rq_entityType := Some ty\<rparr>"]
    by (simp add: setCurrentType_def currentType_def api_access_handlers allowed)
qed

lemma serve_steady:
  assumes "rt \<in> set api_routes" and "rq_entityType req = None"
  shows "upholds (api_steady Q) (serve en public rt req)"
  unfolding serve_def AuthHook_def InternalHook_def Let_def
  by (intro upholds_intros setCurrentType_steady; use assms in simp)

lemma watched_steady [upholds_intros]: "upholds (api_steady Q) (process_message en m)"
  unfolding process_message_def by (intro upholds_intros)

lemma server_step_steady: "server_step en s s' \<Longrightarrow> api_steady Q s \<Longrightarrow> api_steady Q s'"
proof (induction rule: server_step.induct)
  case (Request rt req public s r s')
  have "api_steady Q (s\<lparr>ap_resp := []\<rparr>)" using Request.prems by (simp add: api_steady_def)
  then show ?case using serve_steady [OF Request(1,2), of en public] Request(4) unfolding upholds_def by blast
next
  case (Collector s r s')
  then show ?case using api_on_db [OF GoGC] unfolding upholds_def by blast
next
  case (Watched m s r s')
  then show ?case using watched_steady unfolding upholds_def by blast
next
  case (World s m n fs)
  then show ?case by (simp add: api_steady_def holding_def)
qed

text \<open>Every state that is reached keeps the invariant.\<close>

lemma reached:
  assumes "(server_step en)\<^sup>*\<^sup>* s s'" and "steady Q (ap_db s)"
  shows "steady Q (ap_db s')"
  using assms by (induction rule: rtranclp_induct) (use server_step_steady in \<open>auto simp: api_steady_def\<close>)

end

end
