(* ===== verification/EntityTypes.thy ===== *)
theory EntityTypes
  imports ServerInvariants
begin

text \<open>
  Every dataset of the database is of an allowed type, whatever requests arrive, whatever masters,
  dealer and watcher say, and whichever statements fail.
\<close>

definition typed_tables :: "tables \<Rightarrow> bool" where
  "typed_tables t \<longleftrightarrow> (\<forall>r \<in> set (t_datasets t). d_Type r \<in> set AllowedTypes)"

text \<open>Those of the open transactions too: a rollback brings them back.\<close>

definition typed :: "'m db \<Rightarrow> bool" where
  "typed d \<longleftrightarrow> typed_tables (db_tables d) \<and> list_all typed_tables (db_saved d)"

lemma typed_steady: "typed d = steady typed_tables d"
  by (simp add: typed_def holding_def)

text \<open>Only the rows of datasets matter.\<close>

interpretation types: table_invariant typed_tables "\<lambda>ty. ty \<in> set AllowedTypes"
  by unfold_locales (auto simp: typed_tables_def)

section \<open>Properties\<close>


section \<open>Witnesses\<close>

definition create_model_request :: "unit request" where
  "create_model_request = sample_request\<lparr>rq_Params := [(''entityType'', ''model''), (''workspace'', ''w''), (''name'', ''m'')]\<rparr>"

definition create_other_request :: "unit request" where
  "create_other_request = sample_request\<lparr>rq_Params := [(''entityType'', ''other''), (''workspace'', ''w''), (''name'', ''m'')]\<rparr>"

text \<open>A model is created, and a request for another type is answered with 404.\<close>

lemma create_requests:
  "\<exists>s1. serve sample_env True (POST ''/{entityType}/{workspace}/{name}'' createDataset) create_model_request (sample_api\<lparr>ap_resp := []\<rparr>) = Some (Inr (), s1)
     \<and> map d_Type (t_datasets (db_tables (ap_db s1))) = [''dataset'', ''model''] \<and> http_status (ap_resp s1) = 201
     \<and> (\<exists>s2. serve sample_env True (POST ''/{entityType}/{workspace}/{name}'' createDataset) create_other_request (s1\<lparr>ap_resp := []\<rparr>) = Some (Inr (), s2)
         \<and> map d_Type (t_datasets (db_tables (ap_db s2))) = [''dataset'', ''model''] \<and> http_status (ap_resp s2) = 404)"
proof -
  let ?rt = "POST ''/{entityType}/{workspace}/{name}'' createDataset :: (unit, string) route"
  let ?r = "serve sample_env True ?rt create_model_request (sample_api\<lparr>ap_resp := []\<rparr>)"
  have "case ?r of None \<Rightarrow> False | Some (r, s1) \<Rightarrow> r = Inr () \<and> map d_Type (t_datasets (db_tables (ap_db s1))) = [''dataset'', ''model'']
      \<and> http_status (ap_resp s1) = 201 \<and>
      (case serve sample_env True ?rt create_other_request (s1\<lparr>ap_resp := []\<rparr>) of None \<Rightarrow> False | Some (r, s2) \<Rightarrow>
         r = Inr () \<and> map d_Type (t_datasets (db_tables (ap_db s2))) = [''dataset'', ''model''] \<and> http_status (ap_resp s2) = 404)"
    by code_simp
  then show ?thesis by (auto split: option.splits)
qed


end
