(* ===== verification/Uploads.thy ===== *)
theory Uploads
  imports Samples
begin

text \<open>
  Uploading a file over HTTP (\<open>readAndSaveFile\<close>, \<open>uploadDatasetFile\<close>): the body is cut into pieces, and
  what is read back from the stored pieces is the body. The length \<open>n\<close> of a piece is any positive number;
  the code's is \<open>uploadChunkSize\<close>.
\<close>

section \<open>The pieces of a body\<close>

text \<open>The last piece is the one that is not full; it is empty when the length is a multiple of \<open>n\<close>.\<close>

fun pieces :: "nat \<Rightarrow> byte list \<Rightarrow> byte list list" where
  "pieces n bs = (if n = 0 \<or> length bs < n then [bs] else take n bs # pieces n (drop n bs))"

declare pieces.simps [simp del]

definition piece_ref :: "nat \<Rightarrow> byte list \<Rightarrow> hash_ref" where
  "piece_ref n p = \<lparr>h_Hash = CalcHash (padded n p), h_Size = int (length p), h_Version = ChunkVersion\<rparr>"

lemma concat_pieces: "concat (pieces n bs) = bs"
proof (induction n bs rule: pieces.induct)
  case (1 n bs)
  then show ?case by (subst pieces.simps) auto
qed

lemma pieces_nonempty: "pieces n bs \<noteq> []"
  by (subst pieces.simps) simp

lemma length_pieces: "0 < n \<Longrightarrow> length (pieces n bs) = length bs div n + 1"
proof (induction n bs rule: pieces.induct)
  case (1 n bs)
  show ?case
  proof (cases "length bs < n")
    case True
    then show ?thesis by (subst pieces.simps) simp
  next
    case False
    then have "length (drop n bs) div n + 1 = length bs div n" using "1.prems" by (simp add: le_div_geq)
    then show ?thesis using 1 False by (subst pieces.simps) simp
  qed
qed

lemma piece_at_most: "0 < n \<Longrightarrow> p \<in> set (pieces n bs) \<Longrightarrow> length p \<le> n"
proof (induction n bs rule: pieces.induct)
  case (1 n bs)
  from "1.prems"(2) show ?case by (subst (asm) pieces.simps) (use 1 in \<open>auto split: if_splits\<close>)
qed

section \<open>One turn of the loop\<close>

abbreviation body_end :: "body \<Rightarrow> go_error" where
  "body_end b \<equiv> (case snd b of None \<Rightarrow> Io_EOF | Some e \<Rightarrow> e)"

lemma read_full_piece:
  assumes "0 < n" and "n \<le> length (fst b)"
  shows "PreciseReader_Read body_read b n = Some (take n (fst b), n, None, (drop n (fst b), snd b))"
  using assms unfolding PreciseReader_Read_def
  by (subst precise_loop.simps) (auto simp: body_read_def)

lemma read_last_piece:
  assumes "length (fst b) < n"
  shows "PreciseReader_Read body_read b n =
    Some (fst b, if body_end b = Io_EOF then length (fst b) else 0, Some (body_end b), ([], snd b))"
proof -
  have stop: "precise_loop body_read m ([], snd b) acc =
      Some (acc, if body_end b = Io_EOF then length acc else 0, Some (body_end b), ([], snd b))" if "0 < m" for m acc
    using that by (subst precise_loop.simps) (auto simp: body_read_def split: option.splits)
  show ?thesis
  proof (cases "fst b = []")
    case True
    then have "b = ([], snd b)" by (metis prod.collapse)
    then show ?thesis using stop [of n "[]"] assms True by (simp add: PreciseReader_Read_def)
  next
    case False
    then show ?thesis using stop [of "n - length (fst b)" "fst b"] assms unfolding PreciseReader_Read_def
      by (subst precise_loop.simps) (simp add: body_read_def)
  qed
qed

text \<open>What a turn does with a piece: a chunk that is there with this length is left alone.\<close>

definition store_piece :: "settings \<Rightarrow> 'm master \<Rightarrow> nat \<Rightarrow> byte list \<Rightarrow> 'm node \<Rightarrow> (go_error option \<times> 'm node) option" where
  "store_piece st ms n p nd =
     (case CheckChunk st ms (CalcHash (padded n p)) ChunkVersion nd of
        None \<Rightarrow> None
      | Some (Inl e, nd1) \<Rightarrow> Some (Some e, nd1)
      | Some (Inr check, nd1) \<Rightarrow>
          if cc_Exists check \<and> cc_Size check = int (length p) then Some (None, nd1)
          else SaveChunk st ms (CalcHash (padded n p)) ChunkVersion (p, None) True nd1)"

lemma upload_loop_more:
  assumes "0 < n" and "n \<le> length (fst b)"
  shows "upload_loop st ms n err b hs sz nd =
    (case store_piece st ms n (take n (fst b)) nd of
       None \<Rightarrow> None
     | Some (Some e, nd1) \<Rightarrow> Some (Inl e, nd1)
     | Some (None, nd1) \<Rightarrow> upload_loop st ms n None (drop n (fst b), snd b) (hs @ [piece_ref n (take n (fst b))]) (wrap64 (sz + int n)) nd1)"
  using assms
  by (subst upload_loop.simps)
    (auto simp: read_full_piece store_piece_def piece_ref_def Let_def split: option.splits sum.splits)

lemma upload_loop_last:
  assumes "length (fst b) < n"
  shows "upload_loop st ms n err b hs sz nd =
    (if body_end b \<noteq> Io_EOF then Some (case err of Some e \<Rightarrow> Inl e | None \<Rightarrow> Inr None, nd)
     else case store_piece st ms n (fst b) nd of
       None \<Rightarrow> None
     | Some (Some e, nd1) \<Rightarrow> Some (Inl e, nd1)
     | Some (None, nd1) \<Rightarrow> Some (Inr (Some (hs @ [piece_ref n (fst b)], wrap64 (sz + int (length (fst b))))), nd1))"
  using assms
  by (subst upload_loop.simps)
    (auto simp: read_last_piece store_piece_def piece_ref_def Let_def split: option.splits sum.splits)

text \<open>A hash is long enough for every layout, so no turn panics.\<close>

lemma store_piece_returns: "\<exists>r nd'. store_piece st ms n p nd = Some (r, nd')"
proof -
  obtain q where "GetHashedFilename (st_DataDir st) (CalcHash (padded n p)) ChunkVersion = Some q"
    using good_hash_filename [OF CalcHash_good, of ChunkVersion] by (auto simp: ChunkVersion_def)
  then show ?thesis
    by (auto simp: store_piece_def CheckChunk_def CheckLocalChunk_def SaveChunk_def Let_def
        split: option.splits sum.splits prod.splits)
qed

section \<open>The whole loop\<close>

lemma store_piece_cases:
  obtains (err) e nd1 where "store_piece st ms n p nd = Some (Some e, nd1)"
    | (ok) nd1 where "store_piece st ms n p nd = Some (None, nd1)"
  using store_piece_returns [of st ms n p nd] by (metis option.exhaust)

lemma upload_loop_ends:
  assumes "0 < n"
  shows "\<exists>r nd'. upload_loop st ms n err b hs sz nd = Some (r, nd')
    \<and> (\<forall>hs' sz'. r = Inr (Some (hs', sz')) \<longrightarrow> body_end b = Io_EOF
         \<and> hs' = hs @ map (piece_ref n) (pieces n (fst b)) \<and> sz' = wrap64 (sz + int (length (fst b))))
    \<and> (r = Inr None \<longrightarrow> body_end b \<noteq> Io_EOF)"
proof (induction "length (fst b)" arbitrary: err b hs sz nd rule: less_induct)
  case less
  show ?case
  proof (cases "length (fst b) < n")
    case True
    have pc: "pieces n (fst b) = [fst b]" using True by (subst pieces.simps) simp
    show ?thesis unfolding upload_loop_last [OF True] pc
      by (rule store_piece_cases [of st ms n "fst b" nd]) (auto split: option.splits)
  next
    case False
    then have n: "n \<le> length (fst b)" by simp
    have pc: "pieces n (fst b) = take n (fst b) # pieces n (drop n (fst b))"
      using False assms by (subst pieces.simps) simp
    show ?thesis
    proof (rule store_piece_cases [of st ms n "take n (fst b)" nd])
      fix e nd1
      assume "store_piece st ms n (take n (fst b)) nd = Some (Some e, nd1)"
      then show ?thesis by (simp add: upload_loop_more [OF assms n])
    next
      fix nd1
      assume sp: "store_piece st ms n (take n (fst b)) nd = Some (None, nd1)"
      let ?b = "(drop n (fst b), snd b)" and ?hs = "hs @ [piece_ref n (take n (fst b))]"
      have "length (fst ?b) < length (fst b)" using n assms by simp
      from less.hyps [OF this, of None ?hs "wrap64 (sz + int n)" nd1] show ?thesis
        using sp n by (auto simp: upload_loop_more [OF assms n] pc wrap64_add_left)
    qed
  qed
qed

section \<open>What the store holds afterwards\<close>

definition piece_path :: "settings \<Rightarrow> nat \<Rightarrow> byte list \<Rightarrow> string" where
  "piece_path st n p = the (GetHashedFilename (st_DataDir st) (CalcHash (padded n p)) ChunkVersion)"

lemma piece_path_of: "GetHashedFilename (st_DataDir st) (CalcHash (padded n p)) ChunkVersion = Some (piece_path st n p)"
  using good_hash_filename [OF CalcHash_good, of ChunkVersion] by (auto simp: ChunkVersion_def piece_path_def)

lemma piece_path_inj:
  "piece_path st n p = piece_path st n q \<Longrightarrow> CalcHash (padded n p) = CalcHash (padded n q)"
  using hashed_filename_inj [OF CalcHash_good CalcHash_good _ _ piece_path_of [of st n p], of _ "padded n q"]
    piece_path_of [of st n q]
  by (auto simp: ChunkVersion_def)

text \<open>A chunk that is there with the length of the piece is the piece.\<close>

definition intact :: "settings \<Rightarrow> nat \<Rightarrow> 'm node \<Rightarrow> byte list \<Rightarrow> bool" where
  "intact st n nd p \<longleftrightarrow>
     (CheckLocalChunk st (nd_disk nd) (CalcHash (padded n p)) ChunkVersion = Some (int (length p), True)
        \<longrightarrow> stored nd (piece_path st n p) = Some p)"

lemma CheckLocalChunk_returns: "\<exists>sz ex. CheckLocalChunk st d (CalcHash x) ChunkVersion = Some (sz, ex)"
proof -
  obtain q where "GetHashedFilename (st_DataDir st) (CalcHash x) ChunkVersion = Some q"
    using good_hash_filename [OF CalcHash_good, of ChunkVersion] by (auto simp: ChunkVersion_def)
  then show ?thesis by (cases "os_stat d q") (auto simp: CheckLocalChunk_def)
qed

lemma store_piece_stored:
  assumes "\<not> st_HasMasters st" and "store_piece st ms n p nd = Some (None, nd')" and "intact st n nd p"
  shows "stored nd' (piece_path st n p) = Some p"
proof -
  obtain sz ex where c: "CheckLocalChunk st (nd_disk nd) (CalcHash (padded n p)) ChunkVersion = Some (sz, ex)"
    using CheckLocalChunk_returns by blast
  show ?thesis
  proof (cases "ex \<and> sz = int (length p)")
    case True
    then show ?thesis using assms c by (auto simp: store_piece_def CheckChunk_def intact_def)
  next
    case False
    then have "SaveChunk st ms (CalcHash (padded n p)) ChunkVersion (p, None) True nd = Some (None, nd')"
      using assms(1,2) c by (auto simp: store_piece_def CheckChunk_def)
    from SaveChunk_ok_stored [OF this] show ?thesis by (simp add: piece_path_of)
  qed
qed

text \<open>The directories that a save makes are never the file of a chunk: they have fewer elements.\<close>

lemma split_path_count: "length (go_split c s) = Suc (count_list s c)"
  by (induction s) (auto split: list.splits)

lemma dir_prefix_shorter:
  assumes "q \<in> set (dir_prefixes (parent_dir p))" and "1 < length (split_path p)"
  shows "length (split_path q) < length (split_path p)"
proof -
  let ?ps = "split_path p"
  have ne: "butlast ?ps \<noteq> []" using assms(2) by (cases ?ps rule: rev_cases) auto
  have par: "split_path (parent_dir p) = butlast ?ps"
    using assms(2) go_split_pieces [where c = "CHR ''/''" and s = p] unfolding parent_dir_def
    by (intro go_split_join ne) (auto dest: in_set_butlastD)
  obtain i where i: "q = join_path (take (Suc i) (butlast ?ps))" "i < length (butlast ?ps)"
    using assms(1) by (auto simp: dir_prefixes_def par)
  have "split_path q = take (Suc i) (butlast ?ps)" unfolding i(1)
    using ne go_split_pieces [where c = "CHR ''/''" and s = p]
    by (intro go_split_join) (auto dest: in_set_butlastD in_set_takeD)
  then show ?thesis using i(2) assms(2) by simp
qed

lemma piece_path_parts: "length (split_path (piece_path st n p)) = length (split_path (st_DataDir st)) + 3"
proof -
  let ?h = "CalcHash (padded n p)"
  have "CHR ''/'' \<notin> set ?h" using CalcHash_good by (auto simp: good_hash_def)
  moreover have "piece_path st n p = st_DataDir st @ ''/'' @ take 2 ?h @ ''/'' @ take 2 (drop 2 ?h) @ ''/'' @ drop 4 ?h"
    by (simp add: piece_path_def ChunkVersion_def hashed_filename_v2 CalcHash_length)
  ultimately show ?thesis
    using slash_free_take_drop [of "CHR ''/''" ?h]
    by (simp add: split_path_count count_list_slash_free)
qed

lemma SaveChunk_dirs:
  assumes "SaveChunk st ms h v data send nd = Some (r, nd')" and "GetHashedFilename (st_DataDir st) h v = Some p"
  shows "set (dk_dirs (nd_disk nd)) \<subseteq> set (dk_dirs (nd_disk nd'))
       \<and> set (dk_dirs (nd_disk nd')) \<subseteq> set (dk_dirs (nd_disk nd)) \<union> set (dir_prefixes (parent_dir p))"
  using assms
  by (auto simp: SaveChunk_def Let_def write_frame os_MkdirAll_def os_Create_def parent_dir_def
      split: prod.splits option.splits if_splits)

lemma SaveChunk_other_piece:
  assumes "SaveChunk st ms (CalcHash (padded n p)) ChunkVersion data send nd = Some (r, nd')"
    and "CalcHash (padded n q) \<noteq> CalcHash (padded n p)"
  shows "stored nd' (piece_path st n q) = stored nd (piece_path st n q)"
    and "CheckLocalChunk st (nd_disk nd') (CalcHash (padded n q)) ChunkVersion
           = CheckLocalChunk st (nd_disk nd) (CalcHash (padded n q)) ChunkVersion"
proof -
  let ?p = "piece_path st n p" and ?q = "piece_path st n q"
  have ne: "?q \<noteq> ?p" using piece_path_inj assms(2) by metis
  have "?q \<notin> set (dir_prefixes (parent_dir ?p))"
    using dir_prefix_shorter [of ?q ?p] by (auto simp: piece_path_parts)
  then have "?q \<in> set (dk_dirs (nd_disk nd')) \<longleftrightarrow> ?q \<in> set (dk_dirs (nd_disk nd))"
    using SaveChunk_dirs [OF assms(1) piece_path_of] by blast
  then show "CheckLocalChunk st (nd_disk nd') (CalcHash (padded n q)) ChunkVersion
           = CheckLocalChunk st (nd_disk nd) (CalcHash (padded n q)) ChunkVersion"
    using SaveChunk_frame [OF assms(1) piece_path_of] ne by (simp add: CheckLocalChunk_def piece_path_of os_stat_def)
  show "stored nd' ?q = stored nd ?q" by (rule SaveChunk_other_stored [OF assms(1) piece_path_of ne])
qed

lemma store_piece_other:
  assumes "\<not> st_HasMasters st" and "store_piece st ms n p nd = Some (r, nd')"
    and "CalcHash (padded n q) \<noteq> CalcHash (padded n p)"
  shows "stored nd' (piece_path st n q) = stored nd (piece_path st n q)"
    and "intact st n nd q \<Longrightarrow> intact st n nd' q"
proof -
  have "nd' = nd \<or> (\<exists>r. SaveChunk st ms (CalcHash (padded n p)) ChunkVersion (p, None) True nd = Some (r, nd'))"
    using assms(1,2) by (auto simp: store_piece_def CheckChunk_def split: option.splits if_splits prod.splits bind_splits)
  then have "stored nd' (piece_path st n q) = stored nd (piece_path st n q)
       \<and> CheckLocalChunk st (nd_disk nd') (CalcHash (padded n q)) ChunkVersion
           = CheckLocalChunk st (nd_disk nd) (CalcHash (padded n q)) ChunkVersion"
    using SaveChunk_other_piece [OF _ assms(3), where st = st and ms = ms] by metis
  then show "stored nd' (piece_path st n q) = stored nd (piece_path st n q)" "intact st n nd q \<Longrightarrow> intact st n nd' q"
    by (simp_all add: intact_def)
qed

text \<open>Two pieces with one hash are one piece.\<close>

definition distinct_hashes :: "nat \<Rightarrow> byte list list \<Rightarrow> bool" where
  "distinct_hashes n ps \<longleftrightarrow>
     (\<forall>p \<in> set ps. \<forall>q \<in> set ps. CalcHash (padded n p) = CalcHash (padded n q) \<longrightarrow> p = q)"

lemma store_piece_step:
  assumes "\<not> st_HasMasters st" and "store_piece st ms n p nd = Some (None, nd')" and "intact st n nd p"
    and "CalcHash (padded n p) = CalcHash (padded n q) \<longrightarrow> p = q"
  shows "stored nd (piece_path st n q) = Some q \<or> q = p \<Longrightarrow> stored nd' (piece_path st n q) = Some q"
    and "intact st n nd q \<or> q = p \<Longrightarrow> intact st n nd' q"
proof -
  note st = store_piece_stored [OF assms(1-3)] store_piece_other [OF assms(1,2), where q = q]
  show "stored nd (piece_path st n q) = Some q \<or> q = p \<Longrightarrow> stored nd' (piece_path st n q) = Some q"
    using st assms(4) by metis
  show "intact st n nd q \<or> q = p \<Longrightarrow> intact st n nd' q"
    using st assms(4) by (metis intact_def)
qed

lemma upload_loop_stores:
  assumes "0 < n" and "\<not> st_HasMasters st"
  shows "upload_loop st ms n err (bs, None) hs sz nd = Some (Inr (Some y), nd') \<Longrightarrow>
    distinct_hashes n (kept_ps @ pieces n bs) \<Longrightarrow>
    \<forall>p \<in> set kept_ps. stored nd (piece_path st n p) = Some p \<Longrightarrow>
    \<forall>p \<in> set (pieces n bs). intact st n nd p \<Longrightarrow>
    \<forall>p \<in> set (kept_ps @ pieces n bs). stored nd' (piece_path st n p) = Some p"
proof (induction "length bs" arbitrary: err bs hs sz nd kept_ps rule: less_induct)
  case less
  show ?case
  proof (cases "length bs < n")
    case True
    then have pc: "pieces n bs = [bs]" by (subst pieces.simps) simp
    have sp: "store_piece st ms n bs nd = Some (None, nd')"
      using less.prems(1) True by (auto simp: upload_loop_last split: option.splits)
    have "stored nd' (piece_path st n q) = Some q" if "q \<in> set (kept_ps @ [bs])" for q
      using store_piece_step(1) [OF assms(2) sp, of q] less.prems(2-4) that
      by (auto simp: pc distinct_hashes_def)
    then show ?thesis by (simp add: pc)
  next
    case False
    then have n: "n \<le> length (fst (bs, None :: go_error option))" by simp
    let ?p = "take n bs" and ?ps = "pieces n (drop n bs)"
    have pc: "pieces n bs = ?p # ?ps" using False assms(1) by (subst pieces.simps) simp
    obtain nd1 where sp: "store_piece st ms n ?p nd = Some (None, nd1)"
      and rest: "upload_loop st ms n None (drop n bs, None) (hs @ [piece_ref n ?p]) (wrap64 (sz + int n)) nd1 = Some (Inr (Some y), nd')"
      using less.prems(1) unfolding upload_loop_more [OF assms(1) n] by (auto split: option.splits)
    have step: "CalcHash (padded n ?p) = CalcHash (padded n q) \<longrightarrow> ?p = q" if "q \<in> set (kept_ps @ ?p # ?ps)" for q
      using less.prems(2) that by (auto simp: pc distinct_hashes_def)
    have ip: "intact st n nd ?p" using less.prems(4) by (simp add: pc)
    have "\<forall>p \<in> set ((kept_ps @ [?p]) @ ?ps). stored nd' (piece_path st n p) = Some p"
    proof (rule less.hyps [OF _ rest])
      show "length (drop n bs) < length bs" using n assms(1) by simp
      show "distinct_hashes n ((kept_ps @ [?p]) @ ?ps)" using less.prems(2) by (simp add: pc)
      show "\<forall>p \<in> set (kept_ps @ [?p]). stored nd1 (piece_path st n p) = Some p"
        using less.prems(3) step store_piece_step(1) [OF assms(2) sp ip] by auto
      show "\<forall>p \<in> set ?ps. intact st n nd1 p"
        using less.prems(4) step store_piece_step(2) [OF assms(2) sp ip] by (auto simp: pc)
    qed
    then show ?thesis by (simp add: pc)
  qed
qed

section \<open>Reading the file back\<close>

text \<open>A chunk of the file, as \<open>GetFS\<close> makes it of a stored reference.\<close>

definition ref_chunk :: "settings \<Rightarrow> hash_ref \<Rightarrow> chunk" where
  "ref_chunk st h = \<lparr>ck_Path = the (GetHashedFilename (st_DataDir st) (h_Hash h) (h_Version h)),
     ck_Size = h_Size h, ck_Version = h_Version h\<rparr>"

lemma ref_chunk_piece [simp]:
  "ref_chunk st (piece_ref n p) = \<lparr>ck_Path = piece_path st n p, ck_Size = int (length p), ck_Version = ChunkVersion\<rparr>"
  by (simp add: ref_chunk_def piece_ref_def piece_path_def)

lemma pieces_stored:
  assumes "\<forall>p \<in> set ps. stored nd (piece_path st n p) = Some p"
    and "cf_Chunks f = map (ref_chunk st) (map (piece_ref n) ps)"
  shows "stored_content nd f = concat ps"
    and "\<forall>c \<in> set (cf_Chunks f). stored nd (ck_Path c) \<noteq> None \<and> ck_Size c = int (length (stored_data nd c))"
proof -
  have "map (stored_data nd) (cf_Chunks f) = ps"
    using assms(1) unfolding assms(2) by (auto simp: stored_data_def intro!: map_idI)
  then show "stored_content nd f = concat ps" by (simp add: stored_content_def)
  show "\<forall>c \<in> set (cf_Chunks f). stored nd (ck_Path c) \<noteq> None \<and> ck_Size c = int (length (stored_data nd c))"
    using assms(1) unfolding assms(2) by (auto simp: stored_data_def)
qed

lemma padded_padded [simp]: "padded n (padded n p) = padded n p"
  by (simp add: padded_def)

lemma length_padded [simp]: "length p \<le> n \<Longrightarrow> length (padded n p) = n"
  by (simp add: padded_def)

text \<open>After a stored piece the chunk of its hash has the length of the piece, if it was no directory.\<close>

lemma store_piece_check:
  assumes "\<not> st_HasMasters st" and "store_piece st ms n p nd = Some (None, nd')"
  shows "CheckLocalChunk st (nd_disk nd') (CalcHash (padded n p)) ChunkVersion = Some (int (length p), True)"
proof -
  obtain sz ex where c: "CheckLocalChunk st (nd_disk nd) (CalcHash (padded n p)) ChunkVersion = Some (sz, ex)"
    using CheckLocalChunk_returns by blast
  show ?thesis
  proof (cases "ex \<and> sz = int (length p)")
    case True
    then show ?thesis using assms c by (auto simp: store_piece_def CheckChunk_def)
  next
    case False
    then have "SaveChunk st ms (CalcHash (padded n p)) ChunkVersion (p, None) True nd = Some (None, nd')"
      using assms c by (auto simp: store_piece_def CheckChunk_def)
    from SaveChunk_ok_stored [OF this] show ?thesis using CheckLocalChunk_of_stored by fastforce
  qed
qed

text \<open>A chunk of another length is written over.\<close>

lemma store_piece_overwrites:
  assumes "\<not> st_HasMasters st" and "store_piece st ms n p nd = Some (None, nd')"
    and "CheckLocalChunk st (nd_disk nd) (CalcHash (padded n p)) ChunkVersion = Some (k, True)" and "k \<noteq> int (length p)"
  shows "stored nd' (piece_path st n p) = Some p"
proof -
  have "SaveChunk st ms (CalcHash (padded n p)) ChunkVersion (p, None) True nd = Some (None, nd')"
    using assms by (auto simp: store_piece_def CheckChunk_def)
  from SaveChunk_ok_stored [OF this] show ?thesis by (simp add: piece_path_of)
qed

section \<open>Properties\<close>

text \<open>C23: the loop that stores an uploaded body ends for every body, whatever the store answers, and
  never panics. When it returns references, the body ended without an error, and they are those of its pieces of \<open>n\<close> bytes,
  in order, as many as the length of the body divided by \<open>n\<close> and one more, with the length as size.\<close>

theorem upload_always_ends:
  assumes "0 < n"
  shows "\<exists>r nd'. upload_loop st ms n err b [] 0 nd = Some (r, nd')
    \<and> (\<forall>hs sz. r = Inr (Some (hs, sz)) \<longrightarrow> body_end b = Io_EOF \<and> hs = map (piece_ref n) (pieces n (fst b))
         \<and> length hs = length (fst b) div n + 1 \<and> sz = wrap64 (int (length (fst b))))"
  using upload_loop_ends [OF assms, of st ms err b "[]" 0 nd] length_pieces [OF assms, of "fst b"]
  by (metis append_Nil add_0 length_map)

text \<open>C9: a file that was uploaded to a server without masters reads back as the body: a copy of the
  file whose chunks are the returned references ends without error and delivers exactly the bytes of
  the body, as many as the returned size; provided that no two different pieces have one hash and
  that a chunk that was already there with the length of a piece is that piece.\<close>

theorem uploaded_file_reads_back:
  fixes ms :: "'m master" and nd :: "'m node"
  assumes "0 < n" and "int (length bs) < 2 ^ 62"
    and "upload_loop (standalone st) ms n err (bs, None) [] 0 nd = Some (Inr (Some (hs, sz)), nd')"
    and "distinct_hashes n (pieces n bs)" and "\<forall>p \<in> set (pieces n bs). intact (standalone st) n nd p"
    and "cf_Chunks f = map (ref_chunk (standalone st)) hs" and "cf_Size f = sz"
    and "0 < b" and "b < 2 ^ 62"
  shows "\<exists>s'. io_copy (ChunkedFile_reader (GetChunk (standalone st) ms)) b (ChunkedFile_Clone f, nd') [] = Some (bs, None, s')
           \<and> sz = int (length bs)"
proof -
  have hs: "hs = map (piece_ref n) (pieces n bs)" and sz: "sz = wrap64 (int (length bs))"
    using upload_loop_ends [OF assms(1), of "standalone st" ms err "(bs, None)" "[]" 0 nd] assms(3) by auto
  have sz': "sz = int (length bs)" using sz assms(2) by (simp add: wrap64_id in64_def)
  have "\<forall>p \<in> set (pieces n bs). stored nd' (piece_path (standalone st) n p) = Some p"
    using upload_loop_stores [OF assms(1) standalone_simp assms(3), where kept_ps = "[]"] assms(4,5) by simp
  note st = pieces_stored [OF this assms(6) [unfolded hs]]
  have "file_stored nd' f" using st assms(2,7) sz' by (simp add: file_stored_def concat_pieces)
  from file_copy [OF this assms(8,9), of st ms] st(1) sz' show ?thesis by (auto simp: concat_pieces)
qed

text \<open>C32: the whole buffer is hashed, zeros included: a body that is a short piece \<open>p\<close>, filled up with
  zeros to \<open>n\<close> bytes, and then \<open>p\<close> again, is stored under one hash, the second piece over the first. The
  upload ends without error with references that the store does not fulfil: what is stored for the
  file is \<open>p\<close> twice, the zeros are lost. With \<open>p\<close> empty this is any file of exactly \<open>n\<close> zeros.\<close>

theorem zero_padding_corrupts_the_file:
  fixes ms :: "'m master" and nd :: "'m node"
  assumes "length p < n" and "\<not> st_HasMasters st"
    and "upload_loop st ms n err (padded n p @ p, None) [] 0 nd = Some (Inr (Some (hs, sz)), nd')"
    and "cf_Chunks f = map (ref_chunk st) hs"
  shows "map h_Hash hs = [CalcHash (padded n p), CalcHash (padded n p)] \<and> map h_Size hs = [int n, int (length p)]
       \<and> stored_content nd' f = p @ p \<and> \<not> file_stored nd' f"
proof -
  have n: "0 < n" "n \<le> length (fst (padded n p @ p, None :: go_error option))" using assms(1) by auto
  have pc: "pieces n (padded n p @ p) = [padded n p, p]"
    using assms(1) by (subst pieces.simps) (simp add: pieces.simps [of n p])
  have hs: "hs = map (piece_ref n) [padded n p, p]"
    using upload_loop_ends [OF n(1), of st ms err "(padded n p @ p, None)" "[]" 0 nd] assms(3) pc by auto
  obtain nd1 where s1: "store_piece st ms n (padded n p) nd = Some (None, nd1)"
    and s2: "store_piece st ms n p nd1 = Some (None, nd')"
    using assms(1,3) unfolding upload_loop_more [OF n] by (auto simp: upload_loop_last split: option.splits)
  have "stored nd' (piece_path st n p) = Some p"
    using store_piece_overwrites [OF assms(2) s2] store_piece_check [OF assms(2) s1] assms(1) by simp
  moreover have "piece_path st n (padded n p) = piece_path st n p" by (simp add: piece_path_def)
  ultimately have "map (stored_data nd') (cf_Chunks f) = [p, p]"
    "cf_Chunks f = [\<lparr>ck_Path = piece_path st n p, ck_Size = int n, ck_Version = ChunkVersion\<rparr>, ref_chunk st (piece_ref n p)]"
    using assms(1,4) by (simp_all add: hs stored_data_def)
  then show ?thesis using assms(1) by (auto simp: hs piece_ref_def stored_content_def file_stored_def)
qed


section \<open>Witnesses\<close>

text \<open>On an empty disk every piece can be stored.\<close>

lemma writable_after_store:
  assumes "\<not> st_HasMasters st" and "writable (nd_disk nd) (piece_path st n p)"
  shows "\<exists>nd'. store_piece st ms n p nd = Some (None, nd') \<and> writable (nd_disk nd') (piece_path st n p)"
proof -
  obtain sz ex where c: "CheckLocalChunk st (nd_disk nd) (CalcHash (padded n p)) ChunkVersion = Some (sz, ex)"
    using CheckLocalChunk_returns by blast
  obtain nd' where s: "SaveChunk st ms (CalcHash (padded n p)) ChunkVersion (p, None) True nd = Some (None, nd')"
    using SaveChunk_writable [OF piece_path_of assms(2), of True ms p] assms(1) by blast
  have "writable (nd_disk nd') (piece_path st n p)"
  proof -
    have "\<forall>q \<in> set (dir_prefixes (parent_dir (piece_path st n p))). q \<noteq> piece_path st n p"
      using assms(2) by (auto simp: writable_def)
    then show ?thesis
      using assms(2) SaveChunk_frame [OF s piece_path_of] SaveChunk_dirs [OF s piece_path_of] by (auto simp: writable_def)
  qed
  then show ?thesis using s c assms by (auto simp: store_piece_def CheckChunk_def)
qed

definition empty_node :: "unit node" where
  "empty_node = \<lparr>nd_disk = \<lparr>dk_files = [], dk_dirs = [], dk_denied = []\<rparr>, nd_remote = ()\<rparr>"

lemma empty_writable: "writable (nd_disk empty_node) (piece_path st n p)"
proof -
  have "piece_path st n p \<notin> set (dir_prefixes (parent_dir (piece_path st n p)))"
    using dir_prefix_shorter [of "piece_path st n p" "piece_path st n p"] by (auto simp: piece_path_parts)
  moreover have "parent_dir (piece_path st n p) \<noteq> []"
  proof -
    have "CHR ''/'' \<in> set (join_path (butlast (split_path (piece_path st n p))))"
    proof -
      let ?ps = "butlast (split_path (piece_path st n p))"
      have "2 \<le> length ?ps" by (simp add: piece_path_parts)
      then obtain a b cs where "?ps = a # b # cs" by (metis Suc_le_length_iff numeral_2_eq_2)
      then show ?thesis by (simp add: go_join_Cons)
    qed
    then show ?thesis by (auto simp: parent_dir_def)
  qed
  ultimately show ?thesis by (simp add: writable_def empty_node_def)
qed

text \<open>Three bytes, in pieces of four; and one byte filled up to two, and the byte again.\<close>

theorem upload_always_ends_witness:
  "\<exists>r nd'. upload_loop (standalone sample_settings) sample_master 2 None ([1, 2, 3, 4], None) [] 0 empty_node = Some (r, nd')
    \<and> (\<forall>hs sz. r = Inr (Some (hs, sz)) \<longrightarrow> length hs = 3)"
  using upload_always_ends [of 2 "standalone sample_settings" sample_master None "([1, 2, 3, 4], None)" empty_node] by fastforce

theorem uploaded_file_reads_back_witness:
  "\<exists>hs nd' s'. upload_loop (standalone sample_settings) sample_master 4 None ([1, 2, 3], None) [] 0 empty_node = Some (Inr (Some (hs, 3)), nd')
     \<and> io_copy (ChunkedFile_reader (GetChunk (standalone sample_settings) sample_master)) 32768
         (ChunkedFile_Clone (new_file (map (ref_chunk (standalone sample_settings)) hs) ''f'' 3 420 False 0), nd') [] = Some ([1, 2, 3], None, s')"
proof -
  let ?st = "standalone sample_settings" and ?f = "\<lambda>hs. new_file (map (ref_chunk (standalone sample_settings)) hs) ''f'' 3 420 False 0"
  obtain nd' where s: "store_piece ?st sample_master 4 [1, 2, 3] empty_node = Some (None, nd')"
    using writable_after_store [OF standalone_simp empty_writable] by blast
  have up: "upload_loop ?st sample_master 4 None ([1, 2, 3], None) [] 0 empty_node = Some (Inr (Some ([piece_ref 4 [1, 2, 3]], 3)), nd')"
    by (simp add: upload_loop_last s wrap64_def)
  have pc: "pieces 4 [1, 2, 3] = [[1, 2, 3]]" by (simp add: pieces.simps)
  have "os_stat (nd_disk empty_node) q = Inl Not_Exist" for q by (simp add: os_stat_def empty_node_def)
  then have "intact ?st 4 empty_node [1, 2, 3]" by (auto simp: intact_def CheckLocalChunk_def bind_eq_Some_conv)
  then obtain s' where "io_copy (ChunkedFile_reader (GetChunk ?st sample_master)) 32768 (ChunkedFile_Clone (?f [piece_ref 4 [1, 2, 3]]), nd') [] = Some ([1, 2, 3], None, s')"
    using uploaded_file_reads_back [OF _ _ up, of "?f [piece_ref 4 [1, 2, 3]]" 32768]
    by (auto simp: pc distinct_hashes_def new_file_def)
  then show ?thesis using up by blast
qed

theorem zero_padding_corrupts_the_file_witness:
  "\<exists>hs nd'. upload_loop (standalone sample_settings) sample_master 2 None ([7, 0, 7], None) [] 0 empty_node = Some (Inr (Some (hs, 3)), nd')
     \<and> stored_content nd' (new_file (map (ref_chunk (standalone sample_settings)) hs) ''f'' 3 420 False 0) = [7, 7]"
proof -
  let ?st = "standalone sample_settings"
  obtain nd1 where s1: "store_piece ?st sample_master 2 [7, 0] empty_node = Some (None, nd1)" "writable (nd_disk nd1) (piece_path ?st 2 [7, 0])"
    using writable_after_store [OF standalone_simp empty_writable] by blast
  have pp: "padded 2 [7] = [7, 0]" "padded 2 [7, 0] = [7, 0]" by (simp_all add: padded_def numeral_2_eq_2)
  then have "piece_path ?st 2 [7] = piece_path ?st 2 [7, 0]" by (simp add: piece_path_def)
  then obtain nd' where s2: "store_piece ?st sample_master 2 [7] nd1 = Some (None, nd')"
    using writable_after_store [OF standalone_simp] s1(2) by metis
  have "upload_loop ?st sample_master 2 None ([7, 0, 7], None) [] 0 empty_node
      = Some (Inr (Some ([piece_ref 2 [7, 0], piece_ref 2 [7]], 3)), nd')"
    by (subst upload_loop_more) (simp_all add: s1(1) s2 upload_loop_last wrap64_def)
  note up = this
  have "upload_loop ?st sample_master 2 None (padded 2 [7] @ [7], None) [] 0 empty_node
      = Some (Inr (Some ([piece_ref 2 [7, 0], piece_ref 2 [7]], 3)), nd')"
    using up by (simp add: pp)
  from zero_padding_corrupts_the_file [OF _ _ this, of "new_file (map (ref_chunk ?st) [piece_ref 2 [7, 0], piece_ref 2 [7]]) ''f'' 3 420 False 0"]
  show ?thesis using up by (auto simp: new_file_def)
qed

definition broken_request :: "unit request" where
  "broken_request = sample_request\<lparr>rq_Body := ([1, 2], Some (Errorf ''unexpected EOF''))\<rparr>"

definition begun_db :: "unit db" where
  "begun_db = (ap_db sample_api)\<lparr>db_saved := [db_tables (ap_db sample_api)]\<rparr>"

definition cleared_db :: "unit db" where
  "cleared_db = snd (the (DeleteFiles (en_settings sample_env) ''dataset'' ''w'' ''d'' ''1.0.0'' ''y'' True False begun_db))"


end
