(* ===== verification/Access.thy ===== *)
theory Access
  imports Samples
begin

text \<open>
  What \<open>CheckAuth\<close> lets through when the cloud dealer decides, and what its cache lets through afterwards.
\<close>

section \<open>What the dealer has granted\<close>

text \<open>\<open>asked_ok\<close>: the dealer gave the address some answer below 400 whose body satisfies \<open>P\<close>.\<close>

definition asked_ok :: "('m, 'v) api_env \<Rightarrow> string \<Rightarrow> string \<Rightarrow> string \<Rightarrow> (auth_answer \<Rightarrow> bool) \<Rightarrow> bool" where
  "asked_ok en u cookie authHeader P \<longleftrightarrow>
     (\<exists>m a m'. en_do en \<lparr>ar_URL = u, ar_Cookie = cookie, ar_Authorization = authHeader\<rparr> m = (Inr a, m') \<and> aa_StatusCode a < 400 \<and> P a)"

definition below_ok :: "('m, 'v) api_env \<Rightarrow> string \<Rightarrow> string \<Rightarrow> string \<Rightarrow> string \<Rightarrow> (auth_answer \<Rightarrow> bool) \<Rightarrow> bool" where
  "below_ok en kind name cookie authHeader P \<longleftrightarrow>
     (\<exists>u. url_parse (en_authURL en) = Inr u \<and> asked_ok en (validation_url u kind name) cookie authHeader P)"

lemma asked_okI:
  "\<exists>m m'. en_do en \<lparr>ar_URL = u, ar_Cookie = cookie, ar_Authorization = authHeader\<rparr> m = (Inr a, m') \<Longrightarrow>
   aa_StatusCode a < 400 \<Longrightarrow> P a \<Longrightarrow> asked_ok en u cookie authHeader P"
  by (auto simp: asked_ok_def)

lemma below_okI:
  "url_parse (en_authURL en) = Inr u \<Longrightarrow> asked_ok en (validation_url u kind name) cookie authHeader P \<Longrightarrow>
   below_ok en kind name cookie authHeader P"
  by (auto simp: below_ok_def)

text \<open>The caller has a permission on the workspace, or it is a public one and that is enough.\<close>

definition may_enter :: "bool \<Rightarrow> auth_answer \<Rightarrow> bool" where
  "may_enter public a \<longleftrightarrow>
     (case aa_Workspace a of Inl _ \<Rightarrow> False | Inr w \<Rightarrow> dw_Can w \<noteq> [] \<or> public \<and> dw_Type w = ''public'')"

definition foreign_workspace :: "string \<Rightarrow> string \<Rightarrow> bool" where
  "foreign_workspace requestWorkspace ws \<longleftrightarrow> requestWorkspace \<noteq> [] \<and> requestWorkspace \<noteq> ws \<and> requestWorkspace \<noteq> ''kuberlab''"

text \<open>Asking changes nothing but the network.\<close>

definition same_server :: "'m api \<Rightarrow> 'm api \<Rightarrow> bool" where
  "same_server s s' \<longleftrightarrow> (\<exists>m. s' = s\<lparr>ap_db := (ap_db s)\<lparr>db_remote := m\<rparr>\<rparr>)"

lemma same_server_refl [simp]: "same_server s s"
  by (auto simp: same_server_def intro: exI [of _ "db_remote (ap_db s)"])

lemma same_server_trans: "same_server s t \<Longrightarrow> same_server t u \<Longrightarrow> same_server s u"
  by (fastforce simp: same_server_def)

lemma same_server_fields:
  "same_server s s' \<Longrightarrow> ap_now s' = ap_now s \<and> ap_cache s' = ap_cache s \<and> db_tables (ap_db s') = db_tables (ap_db s)
     \<and> ap_disk s' = ap_disk s \<and> ap_fsCache s' = ap_fsCache s \<and> ap_resp s' = ap_resp s"
  by (auto simp: same_server_def ap_now_def)

lemma ask_auth_run:
  assumes "ask_auth en u cookie authHeader s = Some (r, s')"
  shows "same_server s s'
    \<and> (\<forall>a. r = Inr a \<longrightarrow> (\<exists>m m'. en_do en \<lparr>ar_URL = u, ar_Cookie = cookie, ar_Authorization = authHeader\<rparr> m = (Inr a, m')))"
  using assms
  by (auto simp: ask_auth_def on_remote_def on_db_def remote_def lift_res_def bnd_def attempt_def fail_def ret_def same_server_def
      split: option.splits sum.splits prod.splits)

lemma bnd_cases:
  assumes "bnd m k s = Some (r, s')"
  obtains (err) e where "m s = Some (Inl e, s')" "r = Inl e"
    | (ok) x t where "m s = Some (Inr x, t)" "k x t = Some (r, s')"
  using assms by (auto simp: bnd_def attempt_def fail_def split: option.splits sum.splits)

lemma lift_res_run: "lift_res r s = Some (r', s') \<longleftrightarrow> r' = r \<and> s' = s"
  by (auto simp: lift_res_def fail_def ret_def split: sum.splits)

lemma check_workspace_auth_run:
  assumes "check_workspace_auth en (en_authURL en) rw cookie authHeader public s = Some (r, s')"
  shows "same_server s s' \<and> (r = Inr () \<longrightarrow> below_ok en ''workspace'' rw cookie authHeader (may_enter public))"
  using assms unfolding check_workspace_auth_def
proof (cases rule: bnd_cases)
  case err
  then show ?thesis by (simp add: lift_res_run)
next
  case (ok u t)
  then have u: "url_parse (en_authURL en) = Inr u" "t = s" by (simp_all add: lift_res_run)
  from ok(2) show ?thesis
  proof (cases rule: bnd_cases)
    case err
    then show ?thesis using ask_auth_run u by fastforce
  next
    case inner: (ok a t2)
    have "same_server s t2" "\<exists>m m'. en_do en \<lparr>ar_URL = validation_url u ''workspace'' rw, ar_Cookie = cookie, ar_Authorization = authHeader\<rparr> m = (Inr a, m')"
      using ask_auth_run [OF inner(1)] u(2) by auto
    then show ?thesis using inner(2) u(1)
      by (auto simp: may_enter_def fail_def ret_def split: if_splits sum.splits intro!: below_okI asked_okI)
  qed
qed

lemma check_secret_run:
  assumes "check_secret en (en_authURL en) secret s = Some (r, s')"
  shows "same_server s s' \<and> (r = Inr () \<longrightarrow> below_ok en ''secret'' secret [] [] (\<lambda>_. True))"
  using assms unfolding check_secret_def
proof (cases rule: bnd_cases)
  case err
  then show ?thesis by (simp add: lift_res_run)
next
  case (ok u t)
  then have u: "url_parse (en_authURL en) = Inr u" "t = s" by (simp_all add: lift_res_run)
  from ok(2) show ?thesis
  proof (cases rule: bnd_cases)
    case err
    then show ?thesis using ask_auth_run u by fastforce
  next
    case inner: (ok a t2)
    have "same_server s t2" "\<exists>m m'. en_do en \<lparr>ar_URL = validation_url u ''secret'' secret, ar_Cookie = [], ar_Authorization = []\<rparr> m = (Inr a, m')"
      using ask_auth_run [OF inner(1)] u(2) by auto
    then show ?thesis using inner(2) u(1)
      by (auto simp: fail_def ret_def split: if_splits intro!: below_okI asked_okI)
  qed
qed

definition dealer_grants :: "('m, 'v) api_env \<Rightarrow> string \<Rightarrow> string \<Rightarrow> string \<Rightarrow> string \<Rightarrow> string \<Rightarrow> string \<Rightarrow> bool" where
  "dealer_grants en method authHeader rw cookie ws secret \<longleftrightarrow>
     (if ws \<noteq> [] \<and> secret \<noteq> [] then
        below_ok en ''secret'' secret [] [] (\<lambda>_. True)
        \<and> (foreign_workspace rw ws \<longrightarrow> method = ''GET'' \<and> below_ok en ''workspace'' rw cookie authHeader (may_enter True))
      else if rw \<noteq> [] then below_ok en ''workspace'' rw cookie authHeader (may_enter False)
      else asked_ok en (en_authURL en) cookie authHeader (\<lambda>_. True))"

lemma check_dealer_auth_run:
  assumes "check_dealer_auth en method authHeader rw cookie ws secret s = Some (r, s')"
  shows "same_server s s' \<and> (r = Inr () \<longrightarrow> dealer_grants en method authHeader rw cookie ws secret)"
proof (cases "ws \<noteq> [] \<and> secret \<noteq> []")
  case True
  from assms have "bnd (if foreign_workspace rw ws then
               (if method \<noteq> ''GET'' then fail (Status 403 ''Forbidden access to another workspace.'')
                else check_workspace_auth en (en_authURL en) rw cookie authHeader True)
             else ret ()) (\<lambda>_. check_secret en (en_authURL en) secret) s = Some (r, s')"
    using True by (simp add: check_dealer_auth_def foreign_workspace_def Let_def)
  then show ?thesis
  proof (cases rule: bnd_cases)
    case err
    then show ?thesis using check_workspace_auth_run
      by (fastforce simp: fail_def ret_def split: if_splits)
  next
    case (ok x t)
    then show ?thesis using True check_workspace_auth_run check_secret_run [OF ok(2)]
      by (fastforce simp: dealer_grants_def fail_def ret_def split: if_splits intro: same_server_trans)
  qed
next
  case False
  show ?thesis
  proof (cases "rw = []")
    case True
    with False assms have "bnd (ask_auth en (en_authURL en) cookie authHeader) (\<lambda>a.
        if 400 \<le> aa_StatusCode a then fail (Status (aa_StatusCode a) (cannot_authenticate (en_authURL en))) else ret ()) s = Some (r, s')"
      by (auto simp: check_dealer_auth_def Let_def)
    then show ?thesis
      by (cases rule: bnd_cases) (use False True ask_auth_run in \<open>fastforce simp: dealer_grants_def asked_ok_def fail_def ret_def split: if_splits\<close>)+
  next
    case rw: False
    with False assms have "check_workspace_auth en (en_authURL en) rw cookie authHeader False s = Some (r, s')"
      by (auto simp: check_dealer_auth_def Let_def)
    from check_workspace_auth_run [OF this] show ?thesis using False rw by (auto simp: dealer_grants_def)
  qed
qed

lemma CheckAuth_run:
  assumes "CheckAuth en method t authHeader rw cookie ws secret mc s = Some (Inr (), s')"
    and "en_authURL en \<noteq> []" and "\<not> has_masters en"
    and "\<not> cache_GetBool (ap_now s) (ap_cache s) (authKey authHeader rw cookie ws secret)"
  shows "\<exists>s1. check_dealer_auth en method authHeader rw cookie ws secret s = Some (Inr (), s1) \<and> same_server s s1
           \<and> s' = s1\<lparr>ap_cache := cache_Set (ap_now s) (authKey authHeader rw cookie ws secret) True (ap_cache s)\<rparr>"
proof -
  from assms have "bnd (check_dealer_auth en method authHeader rw cookie ws secret)
       (\<lambda>_. put_state (\<lambda>s. s\<lparr>ap_cache := cache_Set (ap_now s) (authKey authHeader rw cookie ws secret) True (ap_cache s)\<rparr>)) s
     = Some (Inr (), s')"
    by (simp add: CheckAuth_def Let_def bnd_def attempt_def get_state_def)
  then show ?thesis
  proof (cases rule: bnd_cases)
    case (ok x s1)
    then show ?thesis using check_dealer_auth_run [OF ok(1)] same_server_fields by (fastforce simp: put_state_def)
  qed simp
qed

section \<open>Properties\<close>

text \<open>C17: a server that asks the cloud dealer lets a request whose answer it does not know yet pass only
  when the dealer granted it: with a workspace and a secret, the dealer accepted the secret, and for
  another workspace than one's own and the common one the method is GET and the caller has a
  permission there or the workspace is public; without a secret the caller has a permission on the
  workspace of the request; without that, the dealer accepted the credentials. Whatever it asked, it
  has changed no table, no file and no cached tree and written no answer.\<close>

theorem unknown_requests_pass_only_if_granted:
  assumes "CheckAuth en method t authHeader rw cookie ws secret mc s = Some (Inr (), s')"
    and "en_authURL en \<noteq> []" and "\<not> has_masters en"
    and "\<not> cache_GetBool (ap_now s) (ap_cache s) (authKey authHeader rw cookie ws secret)"
  shows "dealer_grants en method authHeader rw cookie ws secret
       \<and> db_tables (ap_db s') = db_tables (ap_db s) \<and> ap_disk s' = ap_disk s \<and> ap_fsCache s' = ap_fsCache s \<and> ap_resp s' = ap_resp s"
  using CheckAuth_run [OF assms] check_dealer_auth_run same_server_fields by fastforce

text \<open>C34: the key of the cache of \<^verbatim>\<open>CheckAuth\<close> has no method in it. After one allowed GET on a foreign
  public workspace every request of the same caller on that workspace passes, a POST or a DELETE
  too, which before it were refused with the status 403.\<close>

theorem allowed_read_opens_for_writing:
  assumes "CheckAuth en ''GET'' t authHeader rw cookie ws secret mc s = Some (Inr (), s')"
    and "en_authURL en \<noteq> []" and "\<not> has_masters en"
    and "\<not> cache_GetBool (ap_now s) (ap_cache s) (authKey authHeader rw cookie ws secret)"
    and "ws \<noteq> []" and "secret \<noteq> []" and "foreign_workspace rw ws" and "method \<noteq> ''GET''"
  shows "CheckAuth en method t2 authHeader rw cookie ws secret mc2 s = Some (Inl (Status 403 ''Forbidden access to another workspace.''), s)
       \<and> CheckAuth en method t2 authHeader rw cookie ws secret mc2 s' = Some (Inr (), s')"
proof
  show "CheckAuth en method t2 authHeader rw cookie ws secret mc2 s = Some (Inl (Status 403 ''Forbidden access to another workspace.''), s)"
    using assms(2-) by (simp add: CheckAuth_def check_dealer_auth_def foreign_workspace_def Let_def bnd_def attempt_def get_state_def fail_def)
  have "cache_GetBool (ap_now s') (ap_cache s') (authKey authHeader rw cookie ws secret)"
    using CheckAuth_run [OF assms(1-4)] same_server_fields
    by (auto simp: cache_GetBool_def cache_Set_Get DefaultExpiration_def ap_now_def same_server_def)
  then show "CheckAuth en method t2 authHeader rw cookie ws secret mc2 s' = Some (Inr (), s')"
    using assms(2,3) by (simp add: CheckAuth_def Let_def bnd_def attempt_def get_state_def ret_def)
qed

section \<open>Witnesses\<close>

text \<open>A dealer that answers every address with a public workspace, for a caller without permissions.\<close>

definition public_env :: "(unit, string) api_env" where
  "public_env = sample_env\<lparr>en_authURL := ''http://cloud'',
     en_do := \<lambda>_ m. (Inr \<lparr>aa_StatusCode = 200, aa_Workspace = Inr \<lparr>dw_Name = ''other'', dw_Type = ''public'', dw_Can = []\<rparr>\<rparr>, m)\<rparr>"

definition allowed_api :: "unit api" where
  "allowed_api = sample_api\<lparr>ap_cache := [(''otherwsecret'', True, 3600000000007)]\<rparr>"

lemma public_env_grants:
  "CheckAuth public_env ''GET'' ''dataset'' [] ''other'' [] ''w'' ''secret'' None sample_api = Some (Inr (), allowed_api)"
  "en_authURL public_env \<noteq> []" "\<not> has_masters public_env"
  "\<not> cache_GetBool (ap_now sample_api) (ap_cache sample_api) (authKey [] ''other'' [] ''w'' ''secret'')"
  by code_simp+

theorem unknown_requests_pass_only_if_granted_witness:
  "dealer_grants public_env ''GET'' [] ''other'' [] ''w'' ''secret''"
  using unknown_requests_pass_only_if_granted [OF public_env_grants] by simp

theorem allowed_read_opens_for_writing_witness:
  "CheckAuth public_env ''DELETE'' ''dataset'' [] ''other'' [] ''w'' ''secret'' None sample_api
     = Some (Inl (Status 403 ''Forbidden access to another workspace.''), sample_api)
   \<and> CheckAuth public_env ''DELETE'' ''dataset'' [] ''other'' [] ''w'' ''secret'' None allowed_api = Some (Inr (), allowed_api)"
  using allowed_read_opens_for_writing [OF public_env_grants] by (simp add: foreign_workspace_def)

end
