(* ===== verification/TreeCache.thy ===== *)
theory TreeCache
  imports Samples
begin

text \<open>
  The cache of trees: a handler that changes the files of a version and confirms it has dropped the
  cached tree of that version.
\<close>

section \<open>Answers\<close>

text \<open>The answers of the handlers that change files: 204 alone, or 201 with the stored file.\<close>

definition confirmed :: "reply list \<Rightarrow> bool" where
  "confirmed rs \<longleftrightarrow> rs = [Code 204] \<or> (\<exists>f. rs = [Code 201, Body (P_File f)])"

lemma errors_confirm_nothing [simp]:
  "\<not> confirmed []" "\<not> confirmed (WriteError err)" "\<not> confirmed (WriteStatusError n err)" "\<not> confirmed (WriteErrorString n msg)"
  by (auto simp: confirmed_def WriteError_def WriteStatusError_def WriteErrorString_def split: go_error.splits)

text \<open>Programs that write no answer.\<close>

definition silent :: "('m api, 'a) prog \<Rightarrow> bool" where
  "silent m \<longleftrightarrow> (\<forall>s r s'. m s = Some (r, s') \<longrightarrow> ap_resp s' = ap_resp s)"

named_theorems silent_intros

lemma silent_basic [silent_intros]:
  "silent (ret x)" "silent (fail e)" "silent crash" "silent (lift_option z)" "silent (lift_res q)" "silent (get_state h)"
  "silent (on_db m)" "silent (on_node f)" "silent (invalidateVersionCache ds ver)" "silent (lockForSave a b c)" "silent (unlockForSave a b c)"
  by (auto simp: silent_def ret_def fail_def crash_def lift_option_def lift_res_def get_state_def on_db_def on_node_def with_node_def
      invalidateVersionCache_def put_state_def lockForSave_def unlockForSave_def split: option.splits sum.splits bool.splits if_splits)

lemma silent_attempt [silent_intros]:
  assumes "silent m" and "\<And>r. silent (k r)"
  shows "silent (attempt m k)"
  unfolding silent_def
proof (intro allI impI)
  fix s r s'
  assume "attempt m k s = Some (r, s')"
  then obtain x t where "m s = Some (x, t)" "k x t = Some (r, s')" by (auto simp: attempt_def split: option.splits)
  then show "ap_resp s' = ap_resp s" using assms unfolding silent_def by metis
qed

lemma silent_bnd [silent_intros]: "silent m \<Longrightarrow> (\<And>x. silent (k x)) \<Longrightarrow> silent (bnd m k)"
  unfolding bnd_def by (rule silent_attempt) (auto split: sum.split intro: silent_basic)

lemma silent_cases [silent_intros]:
  "(b \<Longrightarrow> silent m) \<Longrightarrow> (\<not> b \<Longrightarrow> silent n) \<Longrightarrow> silent (if b then m else n)"
  "silent m \<Longrightarrow> (\<And>x. silent (k x)) \<Longrightarrow> silent (case o' of None \<Rightarrow> m | Some x \<Rightarrow> k x)"
  "(\<And>e. silent (h e)) \<Longrightarrow> (\<And>x. silent (k' x)) \<Longrightarrow> silent (case s of Inl e \<Rightarrow> h e | Inr x \<Rightarrow> k' x)"
  by (simp_all split: option.split sum.split)

lemma silent_version [silent_intros]: "silent (findDatasetVersion en req ds ver e)"
  unfolding findDatasetVersion_def dataset_versions_def by (intro silent_intros)

lemma silent_readAndSaveFile [silent_intros]: "silent (readAndSaveFile en req)"
  unfolding readAndSaveFile_def api_tx_def Let_def by (intro silent_intros)

section \<open>Programs that confirm only when a tree is gone\<close>

definition drops :: "string \<Rightarrow> ('m api, 'a) prog \<Rightarrow> bool" where
  "drops key m \<longleftrightarrow> (\<forall>s r s'. ap_resp s = [] \<longrightarrow> m s = Some (r, s') \<longrightarrow> confirmed (ap_resp s') \<longrightarrow> map_of (ap_fsCache s') key = None)"

lemma drops_silent: "silent m \<Longrightarrow> drops key m"
  by (auto simp: drops_def silent_def)

lemma drops_respond: "\<not> confirmed rs \<Longrightarrow> drops key (respond rs)"
  by (auto simp: drops_def respond_def put_state_def)

lemma drops_bnd:
  assumes "silent m" and "\<And>x. drops key (k x)"
  shows "drops key (bnd m k)"
  unfolding drops_def
proof (intro allI impI)
  fix s r s'
  assume *: "ap_resp s = []" "bnd m k s = Some (r, s')" "confirmed (ap_resp s')"
  from *(2) show "map_of (ap_fsCache s') key = None"
  proof (cases "m s")
    case None
    with *(2) show ?thesis by (simp add: bnd_def attempt_def)
  next
    case (Some p)
    obtain x t where m: "m s = Some (x, t)" using Some by (cases p) auto
    then have t: "ap_resp t = []" using assms(1) *(1) by (simp add: silent_def)
    show ?thesis
    proof (cases x)
      case (Inl e)
      then show ?thesis using m t * by (simp add: bnd_def attempt_def fail_def)
    next
      case (Inr y)
      then have "k y t = Some (r, s')" using m *(2) by (simp add: bnd_def attempt_def)
      then show ?thesis using assms(2) t *(3) unfolding drops_def by blast
    qed
  qed
qed

lemma drops_or_respond:
  assumes "silent m" and "\<And>e. \<not> confirmed (w e)" and "\<And>x. drops key (k x)"
  shows "drops key (or_respond m w k)"
  unfolding drops_def
proof (intro allI impI)
  fix s r s'
  assume *: "ap_resp s = []" "or_respond m w k s = Some (r, s')" "confirmed (ap_resp s')"
  obtain x t where m: "m s = Some (x, t)" using *(2) by (auto simp: or_respond_def attempt_def split: option.splits)
  then have t: "ap_resp t = []" using assms(1) *(1) by (simp add: silent_def)
  show "map_of (ap_fsCache s') key = None"
  proof (cases x)
    case (Inl e)
    then show ?thesis using m t * assms(2) by (auto simp: or_respond_def attempt_def respond_def put_state_def)
  next
    case (Inr y)
    then have "k y t = Some (r, s')" using m *(2) by (simp add: or_respond_def attempt_def)
    then show ?thesis using assms(3) t *(3) unfolding drops_def by blast
  qed
qed

text \<open>The end of a handler: the tree is dropped, the answer written, and the lock given back.\<close>

lemma invalidate_then_respond: "drops (fsCacheKey ds ver) (bnd (invalidateVersionCache ds ver) (\<lambda>_. respond rs))"
  by (auto simp: drops_def bnd_def attempt_def invalidateVersionCache_def respond_def put_state_def)

lemma drops_if: "drops key m \<Longrightarrow> drops key n \<Longrightarrow> drops key (if b then m else n)"
  by simp

lemma drops_then_unlock:
  assumes "drops key m"
  shows "drops key (bnd m (\<lambda>_. unlockForSave a b c))"
  using assms
  by (fastforce simp: drops_def bnd_def attempt_def fail_def unlockForSave_def split: option.splits sum.splits bool.splits)

lemma deleteDatasetFile_drops:
  "\<exists>h. deleteDatasetFile en req = with_dataset en req h \<and> (\<forall>ds. drops (fsCacheKey ds (path_param req ''version'')) (h ds))"
  unfolding deleteDatasetFile_def Let_def
  by (intro exI conjI allI, rule refl)
    (intro drops_if drops_respond drops_or_respond invalidate_then_respond silent_intros errors_confirm_nothing)

lemma uploadDatasetFile_drops:
  "\<exists>h. uploadDatasetFile en req = with_dataset en req h \<and> (\<forall>ds. drops (fsCacheKey ds (path_param req ''version'')) (h ds))"
  unfolding uploadDatasetFile_def Let_def
  by (intro exI conjI allI, rule refl)
    (intro drops_if drops_respond drops_or_respond drops_then_unlock drops_bnd [OF silent_basic(10)] invalidate_then_respond silent_intros errors_confirm_nothing)

lemma api_deleteVersion_drops:
  "\<exists>h. api_deleteVersion en req = with_dataset en req h \<and> (\<forall>ds. drops (fsCacheKey ds (path_param req ''version'')) (h ds))"
  unfolding api_deleteVersion_def Let_def
  by (intro exI conjI allI, rule refl)
    (intro drops_or_respond drops_bnd [OF silent_basic(7)] invalidate_then_respond silent_intros errors_confirm_nothing)

definition tree_handlers :: "(('m, 'v) api_env \<Rightarrow> 'm request \<Rightarrow> ('m api, unit) prog) list" where
  "tree_handlers = [deleteDatasetFile, uploadDatasetFile, api_deleteVersion]"

lemma tree_handler_drops:
  assumes "handler \<in> set tree_handlers"
  obtains h where "handler en req = with_dataset en req h" and "\<And>ds. drops (fsCacheKey ds (path_param req ''version'')) (h ds)"
  using assms deleteDatasetFile_drops [of en req] uploadDatasetFile_drops [of en req] api_deleteVersion_drops [of en req]
  by (auto simp: tree_handlers_def)

lemma with_dataset_confirms:
  assumes "with_dataset en req h s = Some (r, s')" and "ap_resp s = []" and "confirmed (ap_resp s')"
  obtains ds d1 where "mgr_GetDataset (en_settings en) (rq_masterclient req) (currentType req) (path_param req ''workspace'') (path_param req ''name'') (ap_db s)
      = Some (Inr ds, d1)" and "h ds (s\<lparr>ap_db := d1\<rparr>) = Some (r, s')"
  using assms
  by (auto simp: with_dataset_def or_respond_def on_db_def attempt_def respond_def put_state_def Let_def
      split: option.splits prod.splits sum.splits)

lemma api_getFS_uncached:
  assumes "map_of (ap_fsCache s) (fsCacheKey ds ver) = None"
  shows "case GetFSStructure st ms ds ver (ap_db s) of
       None \<Rightarrow> api_getFS st ms ds ver s = None
     | Some (Inl e, d) \<Rightarrow> api_getFS st ms ds ver s = Some (Inl (Status 404 (error_text e)), s\<lparr>ap_db := d\<rparr>)
     | Some (Inr fs, d) \<Rightarrow> \<exists>c. api_getFS st ms ds ver s = Some (Inr fs, s\<lparr>ap_db := d, ap_fsCache := c\<rparr>)"
  using assms
  by (auto simp: api_getFS_def bnd_def attempt_def get_state_def cache_Get_def on_db_def fail_def put_state_def ret_def
      split: option.splits sum.splits prod.splits)

section \<open>Properties\<close>

text \<open>C18: when the deletion or the upload of a file, or the deletion of a version, is confirmed to the
  client, the next request for the tree of that version does not get the tree of before: it is not in
  the cache, and the answer is what the database or the master gives then.\<close>

theorem confirmed_changes_are_served:
  assumes "handler \<in> set tree_handlers" and "handler en req s = Some (r, s')" and "ap_resp s = []" and "confirmed (ap_resp s')"
  shows "\<exists>ds d1. mgr_GetDataset (en_settings en) (rq_masterclient req) (currentType req) (path_param req ''workspace'') (path_param req ''name'') (ap_db s)
      = Some (Inr ds, d1)
    \<and> (case GetFSStructure st ms ds (path_param req ''version'') (ap_db s') of
         None \<Rightarrow> api_getFS st ms ds (path_param req ''version'') s' = None
       | Some (Inl e, d) \<Rightarrow> api_getFS st ms ds (path_param req ''version'') s' = Some (Inl (Status 404 (error_text e)), s'\<lparr>ap_db := d\<rparr>)
       | Some (Inr fs, d) \<Rightarrow> \<exists>c. api_getFS st ms ds (path_param req ''version'') s' = Some (Inr fs, s'\<lparr>ap_db := d, ap_fsCache := c\<rparr>))"
proof -
  obtain h where h: "handler en req = with_dataset en req h" "\<And>ds. drops (fsCacheKey ds (path_param req ''version'')) (h ds)"
    using tree_handler_drops [OF assms(1)] by blast
  obtain ds d1 where ds: "mgr_GetDataset (en_settings en) (rq_masterclient req) (currentType req) (path_param req ''workspace'') (path_param req ''name'') (ap_db s)
      = Some (Inr ds, d1)" "h ds (s\<lparr>ap_db := d1\<rparr>) = Some (r, s')"
    using with_dataset_confirms assms(2-4) unfolding h(1) by blast
  have "map_of (ap_fsCache s') (fsCacheKey ds (path_param req ''version'')) = None"
    using h(2) [of ds, unfolded drops_def, rule_format, OF _ ds(2) assms(4)] assms(3) by simp
  from api_getFS_uncached [OF this] ds(1) show ?thesis by blast
qed

section \<open>Witnesses\<close>

text \<open>A tree without files is cached for the version; the file \<^verbatim>\<open>y\<close> is deleted.\<close>

definition cached_api :: "unit api" where
  "cached_api = sample_api\<lparr>ap_fsCache := [(''dataset/w/d:1.0.0-fs'', (new_dir ''/'' 0, 9))]\<rparr>"

theorem confirmed_changes_are_served_witness:
  "\<exists>s' fs c. deleteDatasetFile sample_env sample_request cached_api = Some (Inr (), s')
     \<and> api_getFS (en_settings sample_env) None sample_row ''1.0.0'' cached_api = Some (Inr (new_dir ''/'' 0), cached_api)
     \<and> api_getFS (en_settings sample_env) None sample_row ''1.0.0'' s' = Some (Inr fs, s'\<lparr>ap_fsCache := c\<rparr>)
     \<and> map fst (fs_Files fs) = [] \<and> map fst (fs_Dirs fs) = [''a'']"
proof -
  have "case deleteDatasetFile sample_env sample_request cached_api of None \<Rightarrow> False
      | Some (r, s') \<Rightarrow> r = Inr () \<and> ap_resp s' = [Code 204] \<and>
          (case GetFSStructure (en_settings sample_env) None sample_row ''1.0.0'' (ap_db s') of
             Some (Inr fs, d) \<Rightarrow> d = ap_db s' \<and> map fst (fs_Files fs) = [] \<and> map fst (fs_Dirs fs) = [''a''] | _ \<Rightarrow> False)"
    by code_simp
  then obtain s' where run: "deleteDatasetFile sample_env sample_request cached_api = Some (Inr (), s')" "ap_resp s' = [Code 204]"
    and tree: "case GetFSStructure (en_settings sample_env) None sample_row ''1.0.0'' (ap_db s') of
             Some (Inr fs, d) \<Rightarrow> d = ap_db s' \<and> map fst (fs_Files fs) = [] \<and> map fst (fs_Dirs fs) = [''a''] | _ \<Rightarrow> False"
    by (auto split: option.splits)
  obtain fs where fs: "GetFSStructure (en_settings sample_env) None sample_row ''1.0.0'' (ap_db s') = Some (Inr fs, ap_db s')"
    "map fst (fs_Files fs) = []" "map fst (fs_Dirs fs) = [''a'']"
  proof -
    obtain q d where q: "GetFSStructure (en_settings sample_env) None sample_row ''1.0.0'' (ap_db s') = Some (q, d)"
      using tree by (auto split: option.splits)
    then show thesis using tree that by (cases q) auto
  qed
  have ds: "mgr_GetDataset (en_settings sample_env) (rq_masterclient sample_request) (currentType sample_request)
      (path_param sample_request ''workspace'') (path_param sample_request ''name'') (ap_db cached_api) = Some (Inr sample_row, ap_db cached_api)"
    by code_simp
  have old: "api_getFS (en_settings sample_env) None sample_row ''1.0.0'' cached_api = Some (Inr (new_dir ''/'' 0), cached_api)"
    by code_simp
  have v: "path_param sample_request ''version'' = ''1.0.0''" by (simp add: sample_request_def lookup_str_def)
  have "deleteDatasetFile \<in> set (tree_handlers :: ((unit, string) api_env \<Rightarrow> unit request \<Rightarrow> (unit api, unit) prog) list)" "ap_resp cached_api = []"
    by (simp_all add: tree_handlers_def cached_api_def sample_api_def)
  from confirmed_changes_are_served [OF this(1) run(1) this(2), of "en_settings sample_env" None] run(2) ds v fs(1)
  obtain c where "api_getFS (en_settings sample_env) None sample_row ''1.0.0'' s' = Some (Inr fs, s'\<lparr>ap_fsCache := c\<rparr>)"
    by (auto simp: confirmed_def)
  then show ?thesis using run(1) old fs(2,3) by (intro exI [of _ s'] exI [of _ fs] exI [of _ c] conjI)
qed

end
