(* ===== verification/Reopening.thy ===== *)
theory Reopening
  imports Samples
begin

text \<open>
  Creating a version that exists (\<open>createVersion\<close>): the conflict is answered, and then the handler goes on.
\<close>

definition conflict_reply :: "'m request \<Rightarrow> reply list" where
  "conflict_reply req = WriteStatusError 409 (Errorf (''Version '' @ currentType req @ '' for '' @ path_param req ''version'' @ '' ''
     @ path_param req ''workspace'' @ ''/'' @ path_param req ''name'' @ '' already exists''))"

text \<open>The loop over the versions answers once for each that has the name.\<close>

lemma answer_conflicts:
  "for_each (\<lambda>v. if vi_Version v = version then respond rs else ret ()) vs s
     = Some (Inr (), s\<lparr>ap_resp := ap_resp s @ concat (map (\<lambda>_. rs) (filter (\<lambda>v. vi_Version v = version) vs))\<rparr>)"
  by (induction vs arbitrary: s) (auto simp: run_simps ret_def respond_def put_state_def bnd_def attempt_def)

lemma conflict_status:
  "vs \<noteq> [] \<Longrightarrow> http_status (concat (map (\<lambda>_. conflict_reply req) vs) @ rs) = 409"
  by (cases vs) (simp_all add: conflict_reply_def WriteStatusError_def WriteErrorString_def)

lemma createVersion_eq:
  "createVersion en req =
      bnd (find_dataset en req (currentType req) (path_param req ''workspace'') (path_param req ''name'')) (\<lambda>found.
      or_respond (case found of Some ds \<Rightarrow> ret ds | None \<Rightarrow> on_db (NewDataset (currentType req) (path_param req ''workspace'') (path_param req ''name''))) WriteError (\<lambda>dataset.
      or_respond (check_version en (path_param req ''version'')) (WriteStatusError 400) (\<lambda>_.
      or_respond (dataset_versions en req dataset) (WriteStatusError 500) (\<lambda>versions.
      bnd (for_each (\<lambda>v. if vi_Version v = path_param req ''version'' then respond (conflict_reply req) else ret ()) versions) (\<lambda>_.
      or_respond (on_db (SaveDatasetVersion (blank_version\<lparr>v_Version := path_param req ''version'', v_Name := path_param req ''name'',
                    v_Workspace := path_param req ''workspace'',
                    v_Editing := True, v_Message := query_param req ''message'', v_Type := currentType req\<rparr>))) WriteError
        (\<lambda>dsv. respond (Created (P_Version (info_of_version dsv)))))))))"
  unfolding createVersion_def conflict_reply_def Let_def ..

text \<open>A version that is there and not marked as deleted is written over.\<close>

definition reopened_row :: "version_row \<Rightarrow> version_row \<Rightarrow> int \<Rightarrow> version_row" where
  "reopened_row dsv old now = old\<lparr>v_Size := v_Size dsv, v_Editing := True, v_FileCount := v_FileCount dsv,
     v_Message := (if v_Message dsv \<noteq> [] then v_Message dsv else v_Message old), v_UpdatedAt := now\<rparr>"

lemma SaveDatasetVersion_existing:
  assumes "db_faults d = []" and "v_Editing dsv"
    and "GetDatasetVersion (v_Type dsv) (v_Workspace dsv) (v_Name dsv) (v_Version dsv) d = Some (Inr old, d)" and "\<not> v_Deleted old"
  shows "SaveDatasetVersion dsv d = Some (Inr dsv, d\<lparr>db_tables := (db_tables d)\<lparr>t_dataset_versions :=
      save_row v_ID (reopened_row dsv old (db_now d)) (t_dataset_versions (db_tables d))\<rparr>\<rparr>)"
  using assms
  by (simp add: SaveDatasetVersion_def attempt_def bnd_def UpdateDatasetVersion_def ask_now_def stmt_run ret_def reopened_row_def Let_def)

section \<open>Property\<close>

text \<open>C36: a request to create a version that the dataset already has is answered with the status 409, and
  all the same the version, committed or not, is opened for editing: its row is written with the flag
  set and with size and number of files 0, and the created version is sent after the error.\<close>

theorem conflicting_create_reopens_the_version:
  assumes "mgr_GetDataset (en_settings en) (rq_masterclient req) (currentType req) (path_param req ''workspace'') (path_param req ''name'') (ap_db s)
      = Some (Inr ds, d1)"
    and "CheckVersion (en_newVersion en) (en_verString en) (path_param req ''version'') = None"
    and "Versions (en_vless en) (en_settings en) (rq_masterclient req) ds d1 = Some (Inr vs, d2)"
    and "path_param req ''version'' \<in> vi_Version ` set vs"
    and "GetDatasetVersion (currentType req) (path_param req ''workspace'') (path_param req ''name'') (path_param req ''version'') d2 = Some (Inr old, d2)"
    and "\<not> v_Deleted old" and "db_faults d2 = []" and "ap_resp s = []"
  shows "\<exists>s' v info. createVersion en req s = Some (Inr (), s') \<and> http_status (ap_resp s') = 409
    \<and> last (bodies (ap_resp s')) = P_Version info \<and> vi_Editing info
    \<and> v \<in> set (t_dataset_versions (db_tables (ap_db s'))) \<and> v_ID v = v_ID old \<and> v_Version v = v_Version old
    \<and> v_Editing v \<and> v_Size v = 0 \<and> v_FileCount v = 0"
proof -
  let ?version = "path_param req ''version''"
  let ?dsv = "blank_version\<lparr>v_Version := ?version, v_Name := path_param req ''name'', v_Workspace := path_param req ''workspace'',
      v_Editing := True, v_Message := query_param req ''message'', v_Type := currentType req\<rparr>"
  let ?row = "reopened_row ?dsv old (db_now d2)"
  let ?rows = "save_row v_ID ?row (t_dataset_versions (db_tables d2))"
  let ?d = "d2\<lparr>db_tables := (db_tables d2)\<lparr>t_dataset_versions := ?rows\<rparr>\<rparr>"
  let ?matching = "filter (\<lambda>v. vi_Version v = ?version) vs"
  let ?rs = "concat (map (\<lambda>_. conflict_reply req) ?matching) @ Created (P_Version (info_of_version ?dsv))"
  have save: "SaveDatasetVersion ?dsv d2 = Some (Inr ?dsv, ?d)"
    using SaveDatasetVersion_existing [of d2 ?dsv old] assms(5-7) by (simp add: blank_version_def)
  have find: "find_dataset en req (currentType req) (path_param req ''workspace'') (path_param req ''name'') s = Some (Inr (Some ds), s\<lparr>ap_db := d1\<rparr>)"
    using assms(1) by (simp add: find_dataset_def attempt_def on_db_def ret_def)
  have vers: "dataset_versions en req ds (s\<lparr>ap_db := d1\<rparr>) = Some (Inr vs, s\<lparr>ap_db := d2\<rparr>)"
    using assms(3) by (simp add: dataset_versions_def on_db_def)
  have run: "createVersion en req s = Some (Inr (), s\<lparr>ap_db := ?d, ap_resp := ?rs\<rparr>)"
    using find vers save assms(2,8) answer_conflicts [of ?version "conflict_reply req" vs "s\<lparr>ap_db := d2\<rparr>"]
    by (simp add: createVersion_eq check_version_def lift_err_def or_respond_def bnd_def attempt_def ret_def
        on_db_def respond_run Let_def)
  have "?matching \<noteq> []" using assms(4) by (auto simp: filter_empty_conv)
  then have st: "http_status ?rs = 409" by (rule conflict_status)
  have b: "bodies (rs @ [Code 201, Body p]) = bodies rs @ [p]" for rs p
    by (induction rs rule: bodies.induct) auto
  have "last (bodies ?rs) = P_Version (info_of_version ?dsv)" by (simp add: Created_def b)
  moreover have "v_ID ?row = v_ID old \<and> v_Version ?row = v_Version old \<and> v_Editing ?row \<and> v_Size ?row = 0 \<and> v_FileCount ?row = 0"
    by (simp add: reopened_row_def blank_version_def)
  moreover have "vi_Editing (info_of_version ?dsv)" by (simp add: info_of_version_def)
  ultimately show ?thesis using run st save_row_member [where x = ?row and key = v_ID]
    by (intro exI [of _ "s\<lparr>ap_db := ?d, ap_resp := ?rs\<rparr>"] exI [of _ ?row] exI [of _ "info_of_version ?dsv"]) simp
qed

section \<open>Witness\<close>

text \<open>The version 1.0.0 is committed and has 8 bytes in two files.\<close>

definition committed_api :: "unit api" where
  "committed_api = sample_api\<lparr>ap_db := sample_db (sample_tables\<lparr>t_datasets := [sample_row],
     t_dataset_versions := [sample_version\<lparr>v_Size := 8, v_FileCount := 2\<rparr>]\<rparr>)\<rparr>"

theorem conflicting_create_reopens_the_version_witness:
  "\<exists>s' v. createVersion sample_env sample_request committed_api = Some (Inr (), s') \<and> http_status (ap_resp s') = 409
     \<and> v \<in> set (t_dataset_versions (db_tables (ap_db s'))) \<and> v_ID v = 1 \<and> v_Editing v \<and> v_Size v = 0"
proof -
  let ?old = "sample_version\<lparr>v_Size := 8, v_FileCount := 2\<rparr>"
  have param: "path_param sample_request ''workspace'' = ''w''" "path_param sample_request ''name'' = ''d''"
    "path_param sample_request ''version'' = ''1.0.0''" "currentType sample_request = ''dataset''" "rq_masterclient sample_request = None"
    by (simp_all add: sample_request_def lookup_str_def currentType_def)
  have d: "mgr_GetDataset (en_settings sample_env) None ''dataset'' ''w'' ''d'' (ap_db committed_api) = Some (Inr sample_row, ap_db committed_api)"
    "CheckVersion (en_newVersion sample_env) (en_verString sample_env) ''1.0.0'' = None"
    "Versions (en_vless sample_env) (en_settings sample_env) None sample_row (ap_db committed_api) = Some (Inr [info_of_version ?old], ap_db committed_api)"
    "GetDatasetVersion ''dataset'' ''w'' ''d'' ''1.0.0'' (ap_db committed_api) = Some (Inr ?old, ap_db committed_api)"
    "db_faults (ap_db committed_api) = []" "ap_resp committed_api = []"
    by code_simp+
  have old: "\<not> v_Deleted ?old" "v_ID ?old = 1" "vi_Version (info_of_version ?old) = ''1.0.0''"
    by (simp_all add: sample_version_def blank_version_def info_of_version_def)
  show ?thesis
    using conflicting_create_reopens_the_version [of sample_env sample_request committed_api sample_row "ap_db committed_api"
        "[info_of_version ?old]" "ap_db committed_api" ?old] d old
    by (auto simp: param)
qed

end
