(* ===== verification/PlukClient.thy ===== *)
theory PlukClient
  imports Auth
begin

text \<open>
  \<^verbatim>\<open>pkg/plukclient/plukclient.go\<close>: the client of one master over HTTP. The network is a function over the
  state \<open>'m\<close> that sends a request and gives the response, or the error of \<^verbatim>\<open>http.Client.Do\<close>; what decodes and
  encodes bodies (JSON, gob, gzip) is the record \<open>codecs\<close>. The transport reads a body to its end.
\<close>

section \<open>Requests and responses\<close>

record http_request =
  hq_Method :: string
  hq_URL :: string
  hq_Headers :: "(string \<times> string) list"
  hq_Body :: "body option"

record http_response =
  hs_StatusCode :: nat
  hs_Body :: body

type_synonym 'm network = "http_request \<Rightarrow> 'm \<Rightarrow> http_response res \<times> 'm"

text \<open>
  A decoder gives \<open>Io_EOF\<close> for an empty body. \<open>co_error\<close> reads a body as an error of \<^verbatim>\<open>kuberlab/lib\<close>: status,
  message, reason. \<open>co_gobgz\<close> is gob through gzip, \<open>None\<close> where \<^verbatim>\<open>Encode\<close> fails.
\<close>

record codecs =
  co_workspace :: "body \<Rightarrow> string res"
  co_dataset :: "body \<Rightarrow> dataset_info res"
  co_datasets :: "body \<Rightarrow> dataset_info list res"
  co_version :: "body \<Rightarrow> version_info res"
  co_versions :: "body \<Rightarrow> version_info list res"
  co_check :: "body \<Rightarrow> chunk_check res"
  co_hashed :: "body \<Rightarrow> hashed_file res"
  co_fs :: "body \<Rightarrow> fs res"
  co_error :: "byte list \<Rightarrow> (nat \<times> string \<times> string) option"
  co_gobgz :: "file_structure \<Rightarrow> byte list option"

definition text_bytes :: "string \<Rightarrow> byte list" where
  "text_bytes s = map (\<lambda>c. word_of_nat (of_char c)) s"

definition bytes_text :: "byte list \<Rightarrow> string" where
  "bytes_text bs = map (\<lambda>b. char_of (unat b)) bs"

section \<open>The client\<close>

record pluk_client =
  pc_BaseURL :: url
  pc_UserAgent :: string
  pc_auth :: auth_opts

definition NewClient :: "string \<Rightarrow> auth_opts \<Rightarrow> pluk_client res" where
  "NewClient baseURL auth =
     (case url_parse (trim_suffix baseURL ''/'') of
        Inl e \<Rightarrow> Inl e
      | Inr base \<Rightarrow>
          Inr \<lparr>pc_BaseURL = (if length (u_Path base) < 2 then base\<lparr>u_Path := ''/pluk/v1''\<rparr> else base),
               pc_UserAgent = ''go-plukclient/1'', pc_auth = auth\<rparr>)"

text \<open>\<^verbatim>\<open>URL.String\<close>.\<close>

definition url_string :: "url \<Rightarrow> string" where
  "url_string u =
     (if u_Scheme u = [] then [] else u_Scheme u @ '':'')
     @ (if u_Scheme u = [] \<and> u_Host u = [] then [] else ''//'' @ u_Host u) @ u_Path u"

definition authHeaders :: "auth_opts \<Rightarrow> (string \<times> string) list" where
  "authHeaders auth =
     (if au_Cookie auth \<noteq> [] then [(''Cookie'', au_Cookie auth)] else [])
     @ (if au_Token auth \<noteq> [] then [(''Authorization'', ''Bearer '' @ au_Token auth)] else [])
     @ (if au_InternalKey auth \<noteq> [] then [(''Internal'', au_InternalKey auth)] else [])
     @ (if au_Workspace auth \<noteq> [] then [(''X-Workspace-Name'', au_Workspace auth)] else [])
     @ (if au_Secret auth \<noteq> [] then [(''X-Workspace-Secret'', au_Secret auth)] else [])"

definition setNeededHeaders :: "pluk_client \<Rightarrow> http_request \<Rightarrow> http_request" where
  "setNeededHeaders c req =
     (let h1 = fold (\<lambda>(k, v). AList.update k v) (authHeaders (pc_auth c)) (hq_Headers req);
          h2 = (if hq_Body req \<noteq> None \<and> lookup_str h1 ''Content-Type'' = []
                then AList.update ''Content-Type'' ''application/json'' h1 else h1);
          h3 = (if pc_UserAgent c \<noteq> [] then AList.update ''User-Agent'' (pc_UserAgent c) h2 else h2)
      in req\<lparr>hq_Headers := h3\<rparr>)"

definition NewRequest :: "pluk_client \<Rightarrow> string \<Rightarrow> string \<Rightarrow> body option \<Rightarrow> http_request res" where
  "NewRequest c method urlStr body =
     (let u = trim_suffix (url_string (pc_BaseURL c)) ''/'' @ urlStr in
      case url_parse u of
        Inl e \<Rightarrow> Inl e
      | Inr _ \<Rightarrow> Inr (setNeededHeaders c \<lparr>hq_Method = method, hq_URL = u, hq_Headers = [], hq_Body = body\<rparr>))"

definition checkResponse :: "codecs \<Rightarrow> http_response \<Rightarrow> http_response res" where
  "checkResponse co resp =
     (if 400 \<le> hs_StatusCode resp then
        (let messageBytes = fst (hs_Body resp) in
         case co_error co messageBytes of
           None \<Rightarrow> Inl (Errorf (show_nat (hs_StatusCode resp) @ '': '' @ bytes_text messageBytes))
         | Some (status, msg, reason) \<Rightarrow> Inl (Status status (if reason \<noteq> [] then msg @ ''; '' @ reason else msg)))
      else Inr resp)"

text \<open>\<^verbatim>\<open>Do\<close> up to the use of the body.\<close>

definition send_request :: "'m network \<Rightarrow> codecs \<Rightarrow> http_request \<Rightarrow> 'm \<Rightarrow> http_response res \<times> 'm" where
  "send_request net co req m =
     (case net req m of
        (Inl e, m') \<Rightarrow> (Inl e, m')
      | (Inr resp, m') \<Rightarrow> (checkResponse co resp, m'))"

text \<open>\<^verbatim>\<open>Do\<close> into a value that is decoded from JSON: an empty body leaves it as it is, \<open>zero\<close>.\<close>

definition decode_into :: "(body \<Rightarrow> 'a res) \<Rightarrow> 'a \<Rightarrow> body \<Rightarrow> 'a res" where
  "decode_into dec zero b = (case dec b of Inl Io_EOF \<Rightarrow> Inr zero | r \<Rightarrow> r)"

definition with_request ::
  "pluk_client \<Rightarrow> string \<Rightarrow> string \<Rightarrow> body option \<Rightarrow> (http_request \<Rightarrow> 'm \<Rightarrow> 'a res \<times> 'm) \<Rightarrow> 'm \<Rightarrow> 'a res \<times> 'm" where
  "with_request c method u body k m = (case NewRequest c method u body of Inl e \<Rightarrow> (Inl e, m) | Inr req \<Rightarrow> k req m)"

definition do_body :: "'m network \<Rightarrow> codecs \<Rightarrow> http_request \<Rightarrow> 'm \<Rightarrow> body res \<times> 'm" where
  "do_body net co req m = (case send_request net co req m of (Inl e, m') \<Rightarrow> (Inl e, m') | (Inr resp, m') \<Rightarrow> (Inr (hs_Body resp), m'))"

definition do_json :: "'m network \<Rightarrow> codecs \<Rightarrow> (body \<Rightarrow> 'a res) \<Rightarrow> 'a \<Rightarrow> http_request \<Rightarrow> 'm \<Rightarrow> 'a res \<times> 'm" where
  "do_json net co dec zero req m =
     (case do_body net co req m of (Inl e, m') \<Rightarrow> (Inl e, m') | (Inr b, m') \<Rightarrow> (decode_into dec zero b, m'))"

definition do_nil :: "'m network \<Rightarrow> codecs \<Rightarrow> http_request \<Rightarrow> 'm \<Rightarrow> unit res \<times> 'm" where
  "do_nil net co req m = (case do_body net co req m of (Inl e, m') \<Rightarrow> (Inl e, m') | (Inr _, m') \<Rightarrow> (Inr (), m'))"

text \<open>\<^verbatim>\<open>return nil, err\<close> and \<^verbatim>\<open>return res, nil\<close>.\<close>

definition as_call :: "('m \<Rightarrow> 'a res \<times> 'm) \<Rightarrow> ('m, 'a) call" where
  "as_call f m = (case f m of (Inl e, m') \<Rightarrow> ((None, Some e), m') | (Inr x, m') \<Rightarrow> ((Some x, None), m'))"

definition as_action :: "('m \<Rightarrow> unit res \<times> 'm) \<Rightarrow> 'm action" where
  "as_action f m = (case f m of (Inl e, m') \<Rightarrow> (Some e, m') | (Inr _, m') \<Rightarrow> (None, m'))"

section \<open>The calls\<close>

definition entity_url :: "string \<Rightarrow> string \<Rightarrow> string \<Rightarrow> string" where
  "entity_url entityType workspace name = ''/'' @ entityType @ ''/'' @ workspace @ ''/'' @ name"

definition version_url :: "string \<Rightarrow> string \<Rightarrow> string \<Rightarrow> string \<Rightarrow> string" where
  "version_url entityType workspace name version = entity_url entityType workspace name @ ''/versions/'' @ version"

definition chunk_url :: "string \<Rightarrow> nat \<Rightarrow> string" where
  "chunk_url hash version = ''/chunks/'' @ hash @ ''/'' @ show_nat version"

definition zero_dataset :: dataset_info where
  "zero_dataset = \<lparr>di_Workspace = [], di_Name = [], di_DType = []\<rparr>"

definition zero_version :: version_info where
  "zero_version = info_of_version blank_version"

definition pc_CheckWorkspace :: "'m network \<Rightarrow> codecs \<Rightarrow> pluk_client \<Rightarrow> string \<Rightarrow> ('m, string) call" where
  "pc_CheckWorkspace net co c workspace =
     as_call (with_request c ''GET'' (''/workspaces/'' @ workspace) None (do_json net co (co_workspace co) []))"

definition pc_PostEntitySpec :: "'m network \<Rightarrow> codecs \<Rightarrow> pluk_client \<Rightarrow> string \<Rightarrow> string \<Rightarrow> string \<Rightarrow> string \<Rightarrow> 'm action" where
  "pc_PostEntitySpec net co c entityType workspace name spec =
     as_action (with_request c ''POST'' (''/workspaces'' @ entity_url workspace entityType name @ ''/spec'')
       (Some (text_bytes spec, None)) (do_nil net co))"

definition pc_PostEntitySpecForVersion ::
  "'m network \<Rightarrow> codecs \<Rightarrow> pluk_client \<Rightarrow> string \<Rightarrow> string \<Rightarrow> string \<Rightarrow> string \<Rightarrow> string \<Rightarrow> 'm action" where
  "pc_PostEntitySpecForVersion net co c entityType workspace name version spec =
     as_action (with_request c ''POST'' (''/workspaces'' @ version_url workspace entityType name version @ ''/spec'')
       (Some (text_bytes spec, None)) (do_nil net co))"

definition pc_CheckEntityPermission ::
  "'m network \<Rightarrow> codecs \<Rightarrow> pluk_client \<Rightarrow> string \<Rightarrow> string \<Rightarrow> string \<Rightarrow> bool \<Rightarrow> ('m, dataset_info) call" where
  "pc_CheckEntityPermission net co c entityType workspace name write =
     as_call (with_request c ''GET'' (''/workspaces'' @ entity_url workspace entityType name @ ''/permission''
         @ (if write then ''?write=true'' else [])) None
       (do_json net co (co_dataset co) zero_dataset))"

definition pc_CheckEntityExists ::
  "'m network \<Rightarrow> codecs \<Rightarrow> pluk_client \<Rightarrow> string \<Rightarrow> string \<Rightarrow> string \<Rightarrow> ('m, dataset_info) call" where
  "pc_CheckEntityExists net co c entityType workspace name =
     as_call (with_request c ''GET'' (''/workspaces'' @ entity_url workspace entityType name) None
       (do_json net co (co_dataset co) zero_dataset))"

definition pc_ListEntities :: "'m network \<Rightarrow> codecs \<Rightarrow> pluk_client \<Rightarrow> string \<Rightarrow> string \<Rightarrow> ('m, dataset_info list) call" where
  "pc_ListEntities net co c entityType workspace =
     as_call (with_request c ''GET'' (''/'' @ entityType @ ''/'' @ workspace) None (do_json net co (co_datasets co) []))"

definition pc_GetEntity :: "'m network \<Rightarrow> codecs \<Rightarrow> pluk_client \<Rightarrow> string \<Rightarrow> string \<Rightarrow> string \<Rightarrow> ('m, dataset_info) call" where
  "pc_GetEntity net co c entityType workspace name =
     as_call (with_request c ''GET'' (entity_url entityType workspace name) None (do_json net co (co_dataset co) zero_dataset))"

definition pc_GetVersion ::
  "'m network \<Rightarrow> codecs \<Rightarrow> pluk_client \<Rightarrow> string \<Rightarrow> string \<Rightarrow> string \<Rightarrow> string \<Rightarrow> ('m, version_info) call" where
  "pc_GetVersion net co c entityType workspace name version =
     as_call (with_request c ''GET'' (version_url entityType workspace name version @ ''/get'') None
       (do_json net co (co_version co) zero_version))"

definition pc_CreateEntity :: "'m network \<Rightarrow> codecs \<Rightarrow> pluk_client \<Rightarrow> string \<Rightarrow> string \<Rightarrow> string \<Rightarrow> ('m, dataset_info) call" where
  "pc_CreateEntity net co c entityType workspace name =
     as_call (with_request c ''POST'' (entity_url entityType workspace name) None (do_json net co (co_dataset co) zero_dataset))"

definition pc_CreateVersion ::
  "'m network \<Rightarrow> codecs \<Rightarrow> pluk_client \<Rightarrow> string \<Rightarrow> string \<Rightarrow> string \<Rightarrow> string \<Rightarrow> ('m, version_info) call" where
  "pc_CreateVersion net co c entityType workspace name version =
     as_call (with_request c ''POST'' (version_url entityType workspace name version) None
       (do_json net co (co_version co) zero_version))"

definition pc_ListVersions ::
  "'m network \<Rightarrow> codecs \<Rightarrow> pluk_client \<Rightarrow> string \<Rightarrow> string \<Rightarrow> string \<Rightarrow> ('m, version_info list) call" where
  "pc_ListVersions net co c entityType workspace datasetName =
     as_call (with_request c ''GET'' (entity_url entityType workspace datasetName @ ''/versions'') None
       (do_json net co (co_versions co) []))"

text \<open>\<^verbatim>\<open>url.Values.Encode\<close>: the keys in order, the values escaped.\<close>

definition plain_query_char :: "char \<Rightarrow> bool" where
  "plain_query_char c \<longleftrightarrow> is_letter c \<or> (let n = (of_char c :: nat) in 48 \<le> n \<and> n \<le> 57) \<or> c \<in> set ''-_.~''"

definition upper_hex :: "nat \<Rightarrow> char" where
  "upper_hex n = (if n < 10 then char_of (48 + n) else char_of (55 + n))"

definition query_escape :: "string \<Rightarrow> string" where
  "query_escape s = concat (map (\<lambda>c.
     if plain_query_char c then [c] else if c = CHR '' '' then ''+''
     else [CHR ''%'', upper_hex (of_char c div 16), upper_hex (of_char c mod 16)]) s)"

definition save_query :: "save_opts \<Rightarrow> string" where
  "save_query opts = go_join ''&''
     ((if so_Comment opts \<noteq> [] then [''comment='' @ query_escape (so_Comment opts)] else [])
      @ (if so_Create opts then [''create=true''] else [])
      @ (if so_Editing opts then [''editing=true''] else [])
      @ [''format=gobgz'']
      @ (if so_Publish opts then [''publish=true''] else []))"

text \<open>A structure that cannot be encoded is reported as saved.\<close>

definition pc_SaveFileStructure ::
  "'m network \<Rightarrow> codecs \<Rightarrow> pluk_client \<Rightarrow> file_structure \<Rightarrow> string \<Rightarrow> string \<Rightarrow> string \<Rightarrow> string \<Rightarrow> save_opts \<Rightarrow> 'm action" where
  "pc_SaveFileStructure net co c structure entityType workspace name version opts =
     (case co_gobgz co structure of
        None \<Rightarrow> (\<lambda>m. (None, m))
      | Some buf \<Rightarrow>
          as_action (with_request c ''POST'' (entity_url entityType workspace name @ ''/'' @ version @ ''?'' @ save_query opts)
            (Some (buf, None)) (do_nil net co)))"

definition upload_url :: "string \<Rightarrow> string \<Rightarrow> string \<Rightarrow> string \<Rightarrow> string \<Rightarrow> string" where
  "upload_url entityType workspace entityName version fileName =
     version_url entityType workspace entityName version @ ''/upload/'' @ fileName"

text \<open>The file is handed back with every outcome of \<^verbatim>\<open>Do\<close>.\<close>

definition pc_UploadFile ::
  "'m network \<Rightarrow> codecs \<Rightarrow> pluk_client \<Rightarrow> string \<Rightarrow> string \<Rightarrow> string \<Rightarrow> string \<Rightarrow> string \<Rightarrow> body
     \<Rightarrow> 'm \<Rightarrow> ((hashed_file option \<times> go_error option) \<times> body) \<times> 'm" where
  "pc_UploadFile net co c entityType workspace entityName version fileName body m =
     (let zero = \<lparr>hf_Path = [], hf_Size = 0, hf_Hashes = [], hf_Mode = 0, hf_ModeTime = 0\<rparr> in
      case NewRequest c ''POST'' (upload_url entityType workspace entityName version fileName) (Some body) of
        Inl e \<Rightarrow> (((None, Some e), body), m)
      | Inr req \<Rightarrow>
          (case do_json net co (co_hashed co) zero req m of
             (Inl e, m') \<Rightarrow> (((Some zero, Some e), ([], snd body)), m')
           | (Inr f, m') \<Rightarrow> (((Some f, None), ([], snd body)), m')))"

definition pc_DownloadFile ::
  "'m network \<Rightarrow> codecs \<Rightarrow> pluk_client \<Rightarrow> string \<Rightarrow> string \<Rightarrow> string \<Rightarrow> string \<Rightarrow> string \<Rightarrow> ('m, body) call" where
  "pc_DownloadFile net co c entityType workspace entityName version fileName =
     as_call (with_request c ''GET'' (version_url entityType workspace entityName version @ ''/raw/'' @ fileName) None (do_body net co))"

definition pc_DeleteFile ::
  "'m network \<Rightarrow> codecs \<Rightarrow> pluk_client \<Rightarrow> string \<Rightarrow> string \<Rightarrow> string \<Rightarrow> string \<Rightarrow> string \<Rightarrow> 'm action" where
  "pc_DeleteFile net co c entityType workspace entityName version fileName =
     as_action (with_request c ''DELETE'' (upload_url entityType workspace entityName version fileName) None (do_nil net co))"

definition zero_check :: chunk_check where
  "zero_check = \<lparr>cc_Hash = [], cc_Size = 0, cc_Exists = False\<rparr>"

definition pc_CheckChunk :: "'m network \<Rightarrow> codecs \<Rightarrow> pluk_client \<Rightarrow> string \<Rightarrow> nat \<Rightarrow> ('m, chunk_check) call" where
  "pc_CheckChunk net co c hash version =
     as_call (with_request c ''GET'' (chunk_url hash version) None (do_json net co (co_check co) zero_check))"

definition pc_DownloadChunk :: "'m network \<Rightarrow> codecs \<Rightarrow> pluk_client \<Rightarrow> string \<Rightarrow> nat \<Rightarrow> ('m, body) call" where
  "pc_DownloadChunk net co c hash version =
     as_call (with_request c ''GET'' (''/chunks/'' @ hash @ ''/download/'' @ show_nat version) None (do_body net co))"

text \<open>The tree is decoded from the copied body.\<close>

definition pc_GetFSStructure ::
  "'m network \<Rightarrow> codecs \<Rightarrow> pluk_client \<Rightarrow> string \<Rightarrow> string \<Rightarrow> string \<Rightarrow> string \<Rightarrow> ('m, fs) call" where
  "pc_GetFSStructure net co c entityType workspace name version =
     as_call (with_request c ''GET'' (version_url entityType workspace name version @ ''/fs?format=gob'') None (\<lambda>req m.
       case do_body net co req m of
         (Inl e, m') \<Rightarrow> (Inl e, m')
       | (Inr b, m') \<Rightarrow> (co_fs co (fst b, None), m')))"

text \<open>The body is set after the request was made, so its headers have no \<^verbatim>\<open>Content-Type\<close>.\<close>

definition pc_SaveChunk :: "'m network \<Rightarrow> codecs \<Rightarrow> pluk_client \<Rightarrow> string \<Rightarrow> byte list \<Rightarrow> nat \<Rightarrow> 'm action" where
  "pc_SaveChunk net co c hash data version =
     as_action (with_request c ''POST'' (chunk_url hash version) None
       (\<lambda>req. do_nil net co (req\<lparr>hq_Body := Some (data, None)\<rparr>)))"

definition pc_SaveChunkReader ::
  "'m network \<Rightarrow> codecs \<Rightarrow> pluk_client \<Rightarrow> string \<Rightarrow> body \<Rightarrow> nat \<Rightarrow> 'm \<Rightarrow> (go_error option \<times> body) \<times> 'm" where
  "pc_SaveChunkReader net co c hash reader version m =
     (case NewRequest c ''POST'' (chunk_url hash version) None of
        Inl e \<Rightarrow> ((Some e, reader), m)
      | Inr req \<Rightarrow>
          (case do_nil net co (req\<lparr>hq_Body := Some reader\<rparr>) m of
             (Inl e, m') \<Rightarrow> ((Some e, ([], snd reader)), m')
           | (Inr _, m') \<Rightarrow> ((None, ([], snd reader)), m')))"

definition pc_DownloadEntity ::
  "'m network \<Rightarrow> codecs \<Rightarrow> pluk_client \<Rightarrow> string \<Rightarrow> string \<Rightarrow> string \<Rightarrow> string \<Rightarrow> 'm \<Rightarrow> (byte list \<times> go_error option) \<times> 'm" where
  "pc_DownloadEntity net co c entityType workspace name version m =
     (case with_request c ''GET'' (version_url entityType workspace name version) None (do_body net co) m of
        (Inl e, m') \<Rightarrow> (([], Some e), m')
      | (Inr b, m') \<Rightarrow> ((fst b, None), m'))"

definition pc_EntityTarSize ::
  "'m network \<Rightarrow> codecs \<Rightarrow> pluk_client \<Rightarrow> string \<Rightarrow> string \<Rightarrow> string \<Rightarrow> string \<Rightarrow> 'm \<Rightarrow> (int \<times> go_error option) \<times> 'm" where
  "pc_EntityTarSize net co c entityType workspace name version m =
     (case with_request c ''GET'' (version_url entityType workspace name version @ ''/tarsize'') None (do_body net co) m of
        (Inl e, m') \<Rightarrow> ((0, Some e), m')
      | (Inr b, m') \<Rightarrow> (parse_int 64 (trim_suffix (bytes_text (fst b)) [CHR 0x0A]), m'))"

definition pc_DeleteEntity :: "'m network \<Rightarrow> codecs \<Rightarrow> pluk_client \<Rightarrow> string \<Rightarrow> string \<Rightarrow> string \<Rightarrow> bool \<Rightarrow> 'm action" where
  "pc_DeleteEntity net co c entityType workspace name force =
     as_action (with_request c ''DELETE'' (entity_url entityType workspace name @ (if force then ''?force=true'' else [])) None (do_nil net co))"

definition pc_DeleteVersion :: "'m network \<Rightarrow> codecs \<Rightarrow> pluk_client \<Rightarrow> string \<Rightarrow> string \<Rightarrow> string \<Rightarrow> string \<Rightarrow> 'm action" where
  "pc_DeleteVersion net co c entityType workspace name version =
     as_action (with_request c ''DELETE'' (version_url entityType workspace name version) None (do_nil net co))"

text \<open>\<^verbatim>\<open>SetBasicAuth\<close>: base64 of user and password.\<close>

definition b64_char :: "nat \<Rightarrow> char" where
  "b64_char n = (if n < 26 then char_of (65 + n) else if n < 52 then char_of (71 + n)
                 else if n < 62 then char_of (n - 4) else if n = 62 then CHR ''+'' else CHR ''/'')"

fun base64 :: "nat list \<Rightarrow> string" where
  "base64 [] = []"
| "base64 [a] = [b64_char (a div 4), b64_char (a mod 4 * 16), CHR ''='', CHR ''='']"
| "base64 [a, b] = [b64_char (a div 4), b64_char (a mod 4 * 16 + b div 16), b64_char (b mod 16 * 4), CHR ''='']"
| "base64 (a # b # c # bs) =
     [b64_char (a div 4), b64_char (a mod 4 * 16 + b div 16), b64_char (b mod 16 * 4 + c div 64), b64_char (c mod 64)] @ base64 bs"

text \<open>The path of the request is replaced by \<open>path\<close>: that of the base address is gone.\<close>

definition pc_WebdavAuth :: "'m network \<Rightarrow> codecs \<Rightarrow> pluk_client \<Rightarrow> string \<Rightarrow> string \<Rightarrow> string \<Rightarrow> 'm \<Rightarrow> (bool \<times> go_error option) \<times> 'm" where
  "pc_WebdavAuth net co c user pass path m =
     (case with_request c ''OPTIONS'' path None (\<lambda>req. do_nil net co
             (req\<lparr>hq_URL := url_string ((pc_BaseURL c)\<lparr>u_Path := path\<rparr>),
                  hq_Headers := AList.update ''Authorization'' (''Basic '' @ base64 (map of_char (user @ '':'' @ pass))) (hq_Headers req)\<rparr>)) m of
        (Inl e, m') \<Rightarrow> ((False, Some e), m')
      | (Inr _, m') \<Rightarrow> ((True, None), m'))"

text \<open>The client as a \<^verbatim>\<open>PlukClient\<close>, and its factory as the client of several masters uses it.\<close>

definition http_client :: "'m network \<Rightarrow> codecs \<Rightarrow> pluk_client \<Rightarrow> 'm client" where
  "http_client net co c = \<lparr>cl_CheckWorkspace = pc_CheckWorkspace net co c,
     cl_CheckEntityPermission = pc_CheckEntityPermission net co c,
     cl_CheckEntityExists = pc_CheckEntityExists net co c,
     cl_ListEntities = pc_ListEntities net co c,
     cl_GetEntity = pc_GetEntity net co c,
     cl_GetVersion = pc_GetVersion net co c,
     cl_CreateEntity = pc_CreateEntity net co c,
     cl_CreateVersion = pc_CreateVersion net co c,
     cl_ListVersions = pc_ListVersions net co c,
     cl_DownloadChunk = pc_DownloadChunk net co c,
     cl_GetFSStructure = pc_GetFSStructure net co c,
     cl_CheckChunk = pc_CheckChunk net co c,
     cl_PostEntitySpec = pc_PostEntitySpec net co c,
     cl_PostEntitySpecForVersion = pc_PostEntitySpecForVersion net co c,
     cl_DeleteEntity = pc_DeleteEntity net co c,
     cl_DeleteVersion = pc_DeleteVersion net co c,
     cl_SaveChunk = pc_SaveChunk net co c,
     cl_DeleteFile = pc_DeleteFile net co c,
     cl_SaveFileStructure = pc_SaveFileStructure net co c,
     cl_SaveChunkReader = pc_SaveChunkReader net co c,
     cl_UploadFile = pc_UploadFile net co c,
     cl_DownloadFile = pc_DownloadFile net co c,
     cl_DownloadEntity = pc_DownloadEntity net co c,
     cl_EntityTarSize = pc_EntityTarSize net co c,
     cl_WebdavAuth = pc_WebdavAuth net co c\<rparr>"

definition new_http_client :: "'m network \<Rightarrow> codecs \<Rightarrow> string \<Rightarrow> auth_opts \<Rightarrow> 'm client res" where
  "new_http_client net co baseURL auth =
     (case NewClient baseURL auth of Inl e \<Rightarrow> Inl e | Inr c \<Rightarrow> Inr (http_client net co c))"

end
