(* ===== verification/Kdataset.thy ===== *)
theory Kdataset
  imports PlukClient
begin

text \<open>
  The command line client \<^verbatim>\<open>cmd/kdataset\<close>: its configuration and its commands, over the client of the
  server. A command is a program over the network; \<^verbatim>\<open>logrus.Fatal\<close> and a returned error end it with \<open>fail\<close>.
  Progress bars, tables and log output are left out.
\<close>

section \<open>Configuration\<close>

record dealer_config =
  cg_BaseURL :: string
  cg_PlukURL :: string
  cg_Token :: string
  cg_Workspace :: string
  cg_WorkspaceSecret :: string
  cg_Insecure :: bool

definition empty_config :: dealer_config where
  "empty_config = \<lparr>cg_BaseURL = [], cg_PlukURL = [], cg_Token = [], cg_Workspace = [], cg_WorkspaceSecret = [], cg_Insecure = False\<rparr>"

definition InitConfigField :: "env \<Rightarrow> string \<Rightarrow> string \<Rightarrow> string \<Rightarrow> string \<Rightarrow> string" where
  "InitConfigField getenv field cliValue envVarName defaultValue =
     (if cliValue \<noteq> [] then cliValue
      else if getenv envVarName \<noteq> [] then getenv envVarName
      else if field = [] then defaultValue else field)"

text \<open>The values of the command line.\<close>

record cli_flags =
  fl_configPath :: string
  fl_baseURL :: string
  fl_oldPlukURL :: string
  fl_plukURL :: string
  fl_token :: string
  fl_workspace :: string
  fl_workspaceSecret :: string
  fl_insecure :: bool

definition defaultConfigPath :: string where
  "defaultConfigPath = ''~/.kuberlab/config''"

definition defaultBaseURL :: string where
  "defaultBaseURL = ''http://localhost:8082/internal''"

definition overridePlukURL :: "cli_flags \<Rightarrow> dealer_config \<Rightarrow> dealer_config" where
  "overridePlukURL fl cg =
     (let cg1 = (if cg_BaseURL cg \<noteq> [] \<and> cg_PlukURL cg = [] then
                   (case url_parse (cg_BaseURL cg) of
                      Inl _ \<Rightarrow> cg\<lparr>cg_PlukURL := defaultBaseURL\<rparr>
                    | Inr u \<Rightarrow> cg\<lparr>cg_PlukURL := u_Scheme u @ ''://'' @ u_Host u @ ''/pluk/v1''\<rparr>)
                 else cg)
      in if fl_baseURL fl = [] \<and> cg_PlukURL cg1 = [] then cg1\<lparr>cg_PlukURL := defaultBaseURL\<rparr> else cg1)"

text \<open>
  The path of the configuration: a path with a tilde is replaced by the default one in the home of
  the user. \<open>home\<close> is \<^verbatim>\<open>u.HomeDir\<close>.
\<close>

definition config_path :: "env \<Rightarrow> string \<Rightarrow> cli_flags \<Rightarrow> string" where
  "config_path getenv home fl =
     (let path = InitConfigField getenv (fl_configPath fl) (fl_configPath fl) ''KUBERLAB_CONFIG'' defaultConfigPath
      in if CHR ''~'' \<in> set path
         then concat (map (\<lambda>c. if c = CHR ''~'' then home else [c]) defaultConfigPath) else path)"

text \<open>\<open>file\<close> is what is found at a path: nothing, or what \<^verbatim>\<open>InitConfig\<close> makes of it.\<close>

definition initConfig :: "env \<Rightarrow> string \<Rightarrow> (string \<Rightarrow> dealer_config res option) \<Rightarrow> cli_flags \<Rightarrow> dealer_config res" where
  "initConfig getenv home file fl =
     (case (case file (config_path getenv home fl) of None \<Rightarrow> Inr empty_config | Some r \<Rightarrow> r) of
        Inl e \<Rightarrow> Inl e
      | Inr cg0 \<Rightarrow>
          let cg1 = cg0\<lparr>cg_Token := InitConfigField getenv (cg_Token cg0) (fl_token fl) ''KUBERLAB_TOKEN'' []\<rparr>;
              cg2 = (if cg_Token cg1 = [] then
                       cg1\<lparr>cg_Workspace := InitConfigField getenv (cg_Workspace cg1) (fl_workspace fl) ''WORKSPACE_NAME'' [],
                           cg_WorkspaceSecret := InitConfigField getenv (cg_WorkspaceSecret cg1) (fl_workspaceSecret fl) ''WORKSPACE_SECRET'' []\<rparr>
                     else cg1);
              cg3 = (if to_lower (getenv ''KUBERLAB_INSECURE'') = ''true'' \<or> fl_insecure fl then cg2\<lparr>cg_Insecure := True\<rparr> else cg2);
              cg4 = cg3\<lparr>cg_PlukURL := InitConfigField getenv (cg_PlukURL cg3) (fl_plukURL fl) ''PLUKE_URL'' []\<rparr>;
              cg5 = cg4\<lparr>cg_PlukURL := InitConfigField getenv (cg_PlukURL cg4) (fl_oldPlukURL fl) ''PLUKE_URL'' []\<rparr>
          in Inr (overridePlukURL fl cg5))"

definition initClient :: "'m network \<Rightarrow> codecs \<Rightarrow> dealer_config \<Rightarrow> 'm client res" where
  "initClient net co cg = new_http_client net co (cg_PlukURL cg)
     (no_auth\<lparr>au_Token := cg_Token cg, au_Workspace := cg_Workspace cg, au_Secret := cg_WorkspaceSecret cg,
             au_InsecureSkipVerify := cg_Insecure cg\<rparr>)"

definition EntityType_Set :: "string \<Rightarrow> string res" where
  "EntityType_Set value =
     (let value = (if value = [] then ''dataset'' else value) in
      if value \<in> set AllowedTypes then Inr value
      else Inl (Errorf (''Allowed values for entityType: ['' @ go_join '' '' AllowedTypes @ '']'')))"

section \<open>Calls in commands\<close>

definition call_client :: "('m, 'a) call \<Rightarrow> ('m, 'a) prog" where
  "call_client f = (\<lambda>m. case f m of
     ((_, Some e), m') \<Rightarrow> Some (Inl e, m')
   | ((Some x, None), m') \<Rightarrow> Some (Inr x, m')
   | ((None, None), m') \<Rightarrow> None)"

definition act_client :: "'m action \<Rightarrow> ('m, unit) prog" where
  "act_client f = (\<lambda>m. case f m of (Some e, m') \<Rightarrow> Some (Inl e, m') | (None, m') \<Rightarrow> Some (Inr (), m'))"

definition too_few :: go_error where
  "too_few = Errorf ''Too few arguments.''"

text \<open>\<^verbatim>\<open><workspace> <entity-name>:<version>\<close>.\<close>

definition parse_target :: "go_error \<Rightarrow> string list \<Rightarrow> (string \<times> string \<times> string) res" where
  "parse_target err args =
     (case args of
        workspace # target # _ \<Rightarrow>
          (case go_split (CHR '':'') target of
             [name, version] \<Rightarrow> Inr (workspace, name, version)
           | _ \<Rightarrow> Inl err)
      | _ \<Rightarrow> Inl too_few)"

definition list_cmd :: "'m client \<Rightarrow> string \<Rightarrow> string list \<Rightarrow> ('m, string list) prog" where
  "list_cmd client entityType args =
     (case args of
        [] \<Rightarrow> fail too_few
      | workspace # _ \<Rightarrow>
          bnd (call_client (cl_ListEntities client entityType workspace)) (\<lambda>items.
            ret (if items = [] then [''No '' @ entityType @ ''s.'']
                 else (map (\<lambda>c. upper_char c) entityType @ ''S:'') # map di_Name items)))"

definition versions_cmd :: "'m client \<Rightarrow> string \<Rightarrow> string list \<Rightarrow> ('m, version_info list) prog" where
  "versions_cmd client entityType args =
     (case args of
        workspace # name # _ \<Rightarrow> call_client (cl_ListVersions client entityType workspace name)
      | _ \<Rightarrow> fail too_few)"

definition delete_cmd :: "'m client \<Rightarrow> string \<Rightarrow> bool \<Rightarrow> string list \<Rightarrow> ('m, unit) prog" where
  "delete_cmd client entityType force args =
     (case args of
        workspace # name # _ \<Rightarrow> act_client (cl_DeleteEntity client entityType workspace name force)
      | _ \<Rightarrow> fail too_few)"

definition version_delete_cmd :: "'m client \<Rightarrow> string \<Rightarrow> string list \<Rightarrow> ('m, unit) prog" where
  "version_delete_cmd client entityType args =
     (case parse_target (Errorf ''Entity name and version is invalid. Must be in form <entity-name>:<version>'') args of
        Inl e \<Rightarrow> fail e
      | Inr (workspace, name, version) \<Rightarrow> act_client (cl_DeleteVersion client entityType workspace name version))"

text \<open>The result is the output file and what is written to it.\<close>

definition pull_cmd :: "'m client \<Rightarrow> string \<Rightarrow> string \<Rightarrow> string list \<Rightarrow> ('m, string \<times> byte list) prog" where
  "pull_cmd client entityType output args =
     (case parse_target (Errorf (entityType @ '' and version is invalid. Must be in form <'' @ entityType @ ''-name>:<version>'')) args of
        Inl e \<Rightarrow> fail e
      | Inr (workspace, name, version) \<Rightarrow>
          let out = (if output = [] then workspace @ ''-'' @ name @ ''.'' @ version @ ''.tar'' else output) in
          (\<lambda>m. case cl_EntityTarSize client entityType workspace name version m of
             ((_, Some e), m') \<Rightarrow> Some (Inl e, m')
           | ((sz, None), m') \<Rightarrow>
               (case cl_DownloadEntity client entityType workspace name version m' of
                  ((_, Some e), m'') \<Rightarrow> Some (Inl e, m'')
                | ((bs, None), m'') \<Rightarrow> Some (Inr (out, bs), m''))))"

end
