(* ===== verification/Push.thy ===== *)
theory Push
  imports Kdataset
begin

text \<open>
  \<^verbatim>\<open>cmd/kdataset/push.go\<close>: the current directory becomes a version. Its files are cut into chunks, a chunk
  the server does not have is uploaded, and the list of files is sent, in parts of 5000 files of which
  only the last one commits. The uploads, which the source runs concurrently, run here in their order.
\<close>

record push_opts =
  po_chunkSize :: nat
  po_entityType :: string
  po_workspace :: string
  po_name :: string
  po_version :: string
  po_comment :: string
  po_create :: bool
  po_force :: bool
  po_publish :: bool
  po_skipUpload :: bool
  po_spec :: "string option"

text \<open>What \<^verbatim>\<open>filepath.Walk\<close> visits: the path, the file info, and the content or the error of opening it.\<close>

record walked =
  wk_path :: string
  wk_name :: string
  wk_isDir :: bool
  wk_mode :: nat
  wk_modTime :: int
  wk_open :: "body res"

section \<open>Walking\<close>

text \<open>The visit leaves out directories, hidden files and files below hidden directories.\<close>

definition pushed :: "string \<Rightarrow> walked \<Rightarrow> bool" where
  "pushed cwd f \<longleftrightarrow> \<not> prefix ''.'' (wk_name f) \<and> \<not> wk_isDir f
     \<and> (\<forall>part \<in> set (split_path (trim_prefix (wk_path f) cwd)). \<not> prefix ''.'' part)"

text \<open>The body of a file as a reader, and the chunks \<^verbatim>\<open>NextChunk\<close> gives, up to the empty one.\<close>

definition file_read :: "body \<Rightarrow> nat \<Rightarrow> (byte list \<times> go_error option \<times> body) option" where
  "file_read b n =
     (if n = 0 then Some ([], None, b)
      else if fst b = [] then Some ([], Some (case snd b of None \<Rightarrow> Io_EOF | Some e \<Rightarrow> e), b)
      else Some (take n (fst b), None, (drop n (fst b), snd b)))"

partial_function (option) next_chunks :: "nat \<Rightarrow> body \<Rightarrow> (byte list \<times> string) list \<Rightarrow> (byte list \<times> string) list res option" where
  "next_chunks n b acc =
     (case NextChunk CalcHash file_read n b of
        None \<Rightarrow> None
      | Some (Inl e, b') \<Rightarrow> Some (if e = Io_EOF then Inr acc else Inl e)
      | Some (Inr chunk, b') \<Rightarrow> next_chunks n b' (acc @ [chunk]))"

definition hashed_of_walked :: "string \<Rightarrow> walked \<Rightarrow> (byte list \<times> string) list \<Rightarrow> hashed_file" where
  "hashed_of_walked cwd f chunks =
     \<lparr>hf_Path = trim_prefix (wk_path f) (cwd @ ''/''), hf_Size = fold (\<lambda>(bs, _) sz. wrap64 (sz + int (length bs))) chunks 0,
      hf_Hashes = map (\<lambda>(bs, h). \<lparr>h_Hash = h, h_Size = int (length bs), h_Version = ChunkVersion\<rparr>) chunks,
      hf_Mode = wk_mode f, hf_ModeTime = wk_modTime f\<rparr>"

section \<open>Uploading\<close>

definition checkAndUpload :: "'m client \<Rightarrow> bool \<Rightarrow> byte list \<times> string \<Rightarrow> ('m, unit) prog" where
  "checkAndUpload client upload chunk =
     (case chunk of (chunkData, hash) \<Rightarrow>
        if \<not> upload then ret ()
        else bnd (call_client (cl_CheckChunk client hash ChunkVersion)) (\<lambda>resp.
          if \<not> cc_Exists resp \<or> cc_Size resp \<noteq> int (length chunkData) then
            (\<lambda>m. case cl_SaveChunkReader client hash (chunkData, None) ChunkVersion m of
               ((Some e, _), m') \<Rightarrow> Some (Inl e, m')
             | ((None, _), m') \<Rightarrow> Some (Inr (), m'))
          else ret ()))"

definition push_file :: "'m client \<Rightarrow> nat \<Rightarrow> bool \<Rightarrow> string \<Rightarrow> walked \<Rightarrow> ('m, hashed_file) prog" where
  "push_file client chunkSize upload cwd f =
     bnd (lift_res (wk_open f)) (\<lambda>b.
     bnd (bnd (lift_option (next_chunks chunkSize b [])) lift_res) (\<lambda>chunks.
     bnd (for_each (checkAndUpload client upload) chunks) (\<lambda>_.
       ret (hashed_of_walked cwd f chunks))))"

definition uploadChunks :: "'m client \<Rightarrow> nat \<Rightarrow> bool \<Rightarrow> string \<Rightarrow> walked list \<Rightarrow> ('m, hashed_file list) prog" where
  "uploadChunks client chunkSize upload cwd files =
     map_each (push_file client chunkSize upload cwd) (filter (pushed cwd) files)"

section \<open>Committing\<close>

definition bufLimit :: nat where
  "bufLimit = 5000"

definition flushBuf :: "'m client \<Rightarrow> push_opts \<Rightarrow> hashed_file list \<Rightarrow> bool \<Rightarrow> ('m, unit) prog" where
  "flushBuf client po fileBuf is_last =
     act_client (cl_SaveFileStructure client fileBuf (po_entityType po) (po_workspace po) (po_name po) (po_version po)
       \<lparr>so_Comment = po_comment po, so_Create = po_create po, so_Publish = po_publish po, so_Editing = \<not> is_last\<rparr>)"

text \<open>\<^verbatim>\<open>uploadFS\<close> and the flush at the end.\<close>

fun uploadFS :: "'m client \<Rightarrow> push_opts \<Rightarrow> hashed_file list \<Rightarrow> hashed_file list \<Rightarrow> ('m, unit) prog" where
  "uploadFS client po [] fileBuf = flushBuf client po fileBuf True"
| "uploadFS client po (f # fs) fileBuf =
     (if bufLimit \<le> length fileBuf
      then bnd (flushBuf client po fileBuf False) (\<lambda>_. uploadFS client po fs [f])
      else uploadFS client po fs (fileBuf @ [f]))"

section \<open>The command\<close>

text \<open>An error of the existence check stops the command only when it says so.\<close>

definition check_target :: "'m client \<Rightarrow> push_opts \<Rightarrow> ('m, unit) prog" where
  "check_target client po =
     bnd (call_client (cl_CheckWorkspace client (po_workspace po))) (\<lambda>_.
     bnd (call_client (cl_CheckEntityPermission client (po_entityType po) (po_workspace po) (po_name po) True)) (\<lambda>_.
     attempt (call_client (cl_CheckEntityExists client (po_entityType po) (po_workspace po) (po_name po))) (\<lambda>r.
       case r of
         Inr _ \<Rightarrow> ret ()
       | Inl e \<Rightarrow>
           if has_substring (error_text e) ''not found'' \<and> \<not> po_force po \<and> \<not> po_create po
           then fail (Errorf (go_title (po_entityType po) @ '' '' @ CHR 0x27 # po_name po @ CHR 0x27 #
                  '' doesn't exist. Consider using --create option to automatically create dataset or use --force.''))
           else ret ())))"

definition push_run :: "'m client \<Rightarrow> (string \<Rightarrow> string + 'v) \<Rightarrow> ('v \<Rightarrow> string) \<Rightarrow> push_opts \<Rightarrow> string \<Rightarrow> walked list \<Rightarrow> ('m, unit) prog" where
  "push_run client newVersion verString po cwd files =
     (if po_spec po \<noteq> None \<and> po_entityType po \<noteq> ''model'' then fail (Errorf ''Only model is allowed to have --spec'')
      else bnd (lift_err (CheckVersion newVersion verString (po_version po))) (\<lambda>_.
      bnd (check_target client po) (\<lambda>_.
      bnd (uploadChunks client (po_chunkSize po) (\<not> po_skipUpload po) cwd files) (\<lambda>hashed.
      bnd (uploadFS client po hashed []) (\<lambda>_.
        case po_spec po of
          None \<Rightarrow> ret ()
        | Some spec \<Rightarrow> act_client (cl_PostEntitySpec client (po_entityType po) (po_workspace po) (po_name po) spec))))))"

definition push_cmd ::
  "'m client \<Rightarrow> (string \<Rightarrow> string + 'v) \<Rightarrow> ('v \<Rightarrow> string) \<Rightarrow> push_opts \<Rightarrow> string \<Rightarrow> walked list \<Rightarrow> string list \<Rightarrow> ('m, unit) prog" where
  "push_cmd client newVersion verString po cwd files args =
     (case parse_target (Errorf (go_title (po_entityType po) @ '' and version are invalid. Must be in form <''
              @ po_entityType po @ ''-name>:<version>'')) args of
        Inl e \<Rightarrow> fail e
      | Inr (workspace, name, version) \<Rightarrow>
          push_run client newVersion verString (po\<lparr>po_workspace := workspace, po_name := name, po_version := version\<rparr>) cwd files)"

end
