(* ===== verification/Batches.thy ===== *)
theory Batches
  imports Push
begin

text \<open>
  What \<^verbatim>\<open>kdataset push\<close> sends: the chunks of a file, and the list of files in batches.
\<close>

section \<open>The chunks of a file\<close>

text \<open>Full pieces of \<open>n\<close> bytes and a shorter one at the end, none of them empty.\<close>

fun cut :: "nat \<Rightarrow> byte list \<Rightarrow> byte list list" where
  "cut n bs = (if n = 0 \<or> bs = [] then [] else take n bs # cut n (drop n bs))"

declare cut.simps [simp del]

lemma concat_cut: "0 < n \<Longrightarrow> concat (cut n bs) = bs"
proof (induction n bs rule: cut.induct)
  case (1 n bs)
  then show ?case by (subst cut.simps) auto
qed

lemma cut_pieces: "p \<in> set (cut n bs) \<Longrightarrow> p \<noteq> [] \<and> length p \<le> n"
proof (induction n bs rule: cut.induct)
  case (1 n bs)
  from "1.prems" show ?case by (subst (asm) cut.simps) (use 1 in \<open>auto split: if_splits\<close>)
qed

lemma next_chunks_returns:
  assumes "0 < n"
  shows "next_chunks n b acc = Some (case snd b of
      None \<Rightarrow> Inr (acc @ map (\<lambda>p. (p, CalcHash p)) (cut n (fst b)))
    | Some e \<Rightarrow> if e = Io_EOF then Inr (acc @ map (\<lambda>p. (p, CalcHash p)) (cut n (fst b))) else Inl e)"
proof (induction "length (fst b)" arbitrary: b acc rule: less_induct)
  case less
  show ?case
  proof (cases "fst b = []")
    case True
    then show ?thesis using assms
      by (subst next_chunks.simps) (auto simp: NextChunk_def file_read_def cut.simps [of n "[]"] split: option.splits)
  next
    case False
    then have "next_chunks n b acc = next_chunks n (drop n (fst b), snd b) (acc @ [(take n (fst b), CalcHash (take n (fst b)))])"
      using assms by (subst next_chunks.simps) (simp add: NextChunk_def file_read_def)
    moreover have "length (fst (drop n (fst b), snd b)) < length (fst b)" using False assms by simp
    ultimately show ?thesis using less(1) False assms
      by (simp add: cut.simps [of n "fst b"] split: option.splits)
  qed
qed

lemma sum_of_pieces:
  "fold (\<lambda>(bs, _) sz. wrap64 (sz + int (length bs))) (map (\<lambda>p. (p, CalcHash p)) ps) (wrap64 sz) = wrap64 (sz + int (length (concat ps)))"
proof (induction ps arbitrary: sz)
  case (Cons p ps)
  then show ?case by (simp add: wrap64_add_left add.assoc)
qed simp

text \<open>
  A file that was pushed: its chunks are the pieces of its content, and the description that is sent
  has their hashes and lengths in order and the length of the whole.
\<close>

lemma pushed_file:
  assumes "0 < n" and "push_file client n upload cwd f m = Some (Inr hf, m')"
  shows "\<exists>bs e. wk_open f = Inr (bs, e) \<and> (e = None \<or> e = Some Io_EOF) \<and> hf_Size hf = wrap64 (int (length bs))
    \<and> hf_Hashes hf = map (\<lambda>p. \<lparr>h_Hash = CalcHash p, h_Size = int (length p), h_Version = ChunkVersion\<rparr>) (cut n bs)
    \<and> concat (cut n bs) = bs"
proof -
  have run: "push_file client n upload cwd f m = bnd (lift_res (wk_open f)) (\<lambda>b.
     bnd (bnd (lift_option (next_chunks n b [])) lift_res) (\<lambda>chunks.
     bnd (for_each (checkAndUpload client upload) chunks) (\<lambda>_. ret (hashed_of_walked cwd f chunks)))) m"
    by (simp add: push_file_def)
  from assms(2) obtain b chunks where b: "wk_open f = Inr b" and c: "next_chunks n b [] = Some (Inr chunks)"
    and hf: "hf = hashed_of_walked cwd f chunks"
    unfolding run
    by (auto simp: bnd_def attempt_def lift_res_def lift_option_def crash_def ret_def fail_def split: option.splits sum.splits)
  have "chunks = map (\<lambda>p. (p, CalcHash p)) (cut n (fst b)) \<and> (snd b = None \<or> snd b = Some Io_EOF)"
    using c unfolding next_chunks_returns [OF assms(1)] by (auto split: option.splits if_splits)
  moreover have "wrap64 0 = 0" by (simp add: wrap64_def)
  ultimately show ?thesis using b hf sum_of_pieces [of "cut n (fst b)" 0] concat_cut [OF assms(1), of "fst b"]
    by (cases b) (simp add: hashed_of_walked_def comp_def)
qed

section \<open>The batches of files\<close>

fun chop :: "nat \<Rightarrow> 'a list \<Rightarrow> 'a list list" where
  "chop n xs = (if n = 0 \<or> length xs \<le> n then [xs] else take n xs # chop n (drop n xs))"

declare chop.simps [simp del]

lemma chop_facts: "concat (chop n xs) = xs \<and> chop n xs \<noteq> [] \<and> (\<forall>b \<in> set (butlast (chop n xs)). length b = n) \<and> (0 < n \<longrightarrow> length (last (chop n xs)) \<le> n)"
proof (induction n xs rule: chop.induct)
  case (1 n xs)
  show ?case
  proof (cases "n = 0 \<or> length xs \<le> n")
    case True
    then show ?thesis by (auto simp: chop.simps [of n xs])
  next
    case False
    then show ?thesis using 1 [OF False] by (simp add: chop.simps [of n xs])
  qed
qed

text \<open>Each batch with the flag of the last one.\<close>

definition flagged :: "'a list \<Rightarrow> ('a \<times> bool) list" where
  "flagged bs = zip bs (replicate (length bs - 1) False @ [True])"

lemma flagged_Cons: "bs \<noteq> [] \<Longrightarrow> flagged (b # bs) = (b, False) # flagged bs"
  by (cases bs) (simp_all add: flagged_def)

lemma flagged_single: "flagged [b] = [(b, True)]"
  by (simp add: flagged_def)

lemma uploadFS_batches:
  "length buf \<le> bufLimit \<Longrightarrow> uploadFS client po files buf
     = for_each (\<lambda>(b, is_last). flushBuf client po b is_last) (flagged (chop bufLimit (buf @ files)))"
proof (induction client po files buf rule: uploadFS.induct)
  case (1 client po buf)
  have "bnd m (\<lambda>_. ret ()) = m" for m :: "('a, unit) prog"
    by (auto simp: fun_eq_iff bnd_def attempt_def ret_def fail_def split: option.splits sum.splits)
  then show ?case using 1 by (simp add: chop.simps [of bufLimit buf] flagged_single)
next
  case (2 client po f fs buf)
  show ?case
  proof (cases "bufLimit \<le> length buf")
    case True
    then have len: "length buf = bufLimit" using "2.prems" by simp
    have pos: "bufLimit \<noteq> 0" by (simp add: bufLimit_def)
    have "chop bufLimit (buf @ f # fs) = buf # chop bufLimit (f # fs)"
      using len pos by (subst chop.simps) simp
    moreover have "uploadFS client po fs [f] = for_each (\<lambda>(b, is_last). flushBuf client po b is_last) (flagged (chop bufLimit (f # fs)))"
      using 2(1) [OF True] pos by simp
    ultimately show ?thesis using True chop_facts [of bufLimit "f # fs"] by (simp add: flagged_Cons)
  next
    case False
    then show ?thesis using 2 by simp
  qed
qed

section \<open>Property\<close>


end
