(* ===== verification/Slots.thy ===== *)
theory Slots
  imports Utils
begin

text \<open>
  What the goroutines of the server wait for: the slots of the semaphore that bounds concurrent work
  (\<^verbatim>\<open>pkg/utils/vars.go\<close>), the channels of the collector and its loop (\<^verbatim>\<open>pkg/gc/gc.go\<close>), the handlers that
  take a slot or send to the collector (\<^verbatim>\<open>pkg/api\<close>), and the locks of the loops that delete
  (\<^verbatim>\<open>pkg/datasets/utils.go\<close>). Here goroutines are interleaved; what they do between two such operations is
  one operation \<open>Work\<close>, which the other theories model.
\<close>

section \<open>Operations on what is shared\<close>

datatype op =
    Acquire      \<comment> \<open>\<^verbatim>\<open>acquireConcurrency\<close>, \<^verbatim>\<open>utils.AcqureSem(1)\<close>\<close>
  | Release      \<comment> \<open>\<^verbatim>\<open>releaseConcurrency\<close>, \<^verbatim>\<open>utils.ReleaseSem(1)\<close>\<close>
  | SendGC       \<comment> \<open>\<^verbatim>\<open>utils.GCChan <- msg\<close>\<close>
  | SendClear    \<comment> \<open>\<^verbatim>\<open>utils.GCClearChunks <- msg\<close>\<close>
  | AwaitGC      \<comment> \<open>\<^verbatim>\<open>gc.WaitGCCompleted\<close>\<close>
  | SetActive
  | SetInactive
  | Work

text \<open>
  Process 0 is the loop of \<^verbatim>\<open>gc.Start\<close>, process 1 \<^verbatim>\<open>Watcher.processQueue\<close>, the others are requests and runs of
  \<^verbatim>\<open>ClearChunks\<close>; each is what it still has to do. \<open>sl_waiters\<close> are those inside \<^verbatim>\<open>Acquire\<close>, in the order of
  their calls.
\<close>

record slots =
  sl_free :: nat
  sl_waiters :: "nat list"
  sl_queue :: nat
  sl_clear :: nat
  sl_active :: "bool option"
  sl_procs :: "op list list"

text \<open>
  The semaphore is third-party: a released slot goes to the waiter that \<open>pick\<close> names. No slot is ever given
  by a semaphore without slots.
\<close>

type_synonym pick = "nat list \<Rightarrow> nat"

definition hands_on :: "pick \<Rightarrow> bool" where
  "hands_on pick \<longleftrightarrow> (\<forall>ws. ws \<noteq> [] \<longrightarrow> pick ws \<in> set ws)"

definition advance :: "nat \<Rightarrow> slots \<Rightarrow> slots" where
  "advance i s = s\<lparr>sl_procs := (sl_procs s)[i := tl (sl_procs s ! i)]\<rparr>"

definition AcqureSem :: "nat \<Rightarrow> nat \<Rightarrow> slots \<Rightarrow> slots option" where
  "AcqureSem n i s =
     (if n = 0 \<or> i \<in> set (sl_waiters s) then None
      else if 0 < sl_free s \<and> sl_waiters s = [] then Some (advance i (s\<lparr>sl_free := sl_free s - 1\<rparr>))
      else Some (s\<lparr>sl_waiters := sl_waiters s @ [i]\<rparr>))"

definition ReleaseSem :: "pick \<Rightarrow> nat \<Rightarrow> slots \<Rightarrow> slots" where
  "ReleaseSem pick i s =
     (if sl_waiters s = [] then advance i (s\<lparr>sl_free := Suc (sl_free s)\<rparr>)
      else let w = pick (sl_waiters s) in advance w (advance i (s\<lparr>sl_waiters := remove1 w (sl_waiters s)\<rparr>)))"

text \<open>\<^verbatim>\<open>make(chan string, utils.UploadConcurrency()+1)\<close> and \<^verbatim>\<open>make(chan string, 2)\<close>.\<close>

definition gc_capacity :: "nat \<Rightarrow> nat" where
  "gc_capacity n = n + 1"

definition clear_capacity :: nat where
  "clear_capacity = 2"

definition setActive :: "nat \<Rightarrow> slots \<Rightarrow> slots" where
  "setActive i s = advance i (s\<lparr>sl_active := Some True\<rparr>)"

definition setInactive :: "nat \<Rightarrow> slots \<Rightarrow> slots" where
  "setInactive i s = advance i (s\<lparr>sl_active := Some False\<rparr>)"

text \<open>It ends when the flag is set and false, and in any case after 30 seconds; so it always ends.\<close>

definition WaitGCCompleted :: "nat \<Rightarrow> slots \<Rightarrow> slots" where
  "WaitGCCompleted i s = advance i s"

text \<open>\<open>fire\<close>: process \<open>i\<close> does what is next, unless it has to wait.\<close>

definition fire :: "nat \<Rightarrow> pick \<Rightarrow> nat \<Rightarrow> slots \<Rightarrow> slots option" where
  "fire n pick i s =
     (case sl_procs s ! i of
        [] \<Rightarrow> None
      | oper # _ \<Rightarrow>
          (case oper of
             Acquire \<Rightarrow> AcqureSem n i s
           | Release \<Rightarrow> Some (ReleaseSem pick i s)
           | SendGC \<Rightarrow> if sl_queue s < gc_capacity n then Some (advance i (s\<lparr>sl_queue := Suc (sl_queue s)\<rparr>)) else None
           | SendClear \<Rightarrow> if sl_clear s < clear_capacity then Some (advance i (s\<lparr>sl_clear := Suc (sl_clear s)\<rparr>)) else None
           | AwaitGC \<Rightarrow> Some (WaitGCCompleted i s)
           | SetActive \<Rightarrow> Some (setActive i s)
           | SetInactive \<Rightarrow> Some (setInactive i s)
           | Work \<Rightarrow> Some (advance i s)))"

section \<open>The processes\<close>

text \<open>
  The operations of each handler, one list per way through it; a slot is released by a deferred call, so on
  every way. The lock of the package \<^verbatim>\<open>gc\<close> is only taken by the one loop.
\<close>

definition GoGC_ops :: "op list" where
  "GoGC_ops = [Acquire, SetActive, Work, Release, SetInactive]"

definition ClearChunks_ops :: "op list" where
  "ClearChunks_ops = [Work]"

definition deleteDataset_ops :: "op list list" where
  "deleteDataset_ops = [[Acquire, Work, SendGC, Work, Release], [Acquire, Work, Release]]"

definition deleteVersion_ops :: "op list list" where
  "deleteVersion_ops = [[Acquire, Work, SendGC, Work, Release], [Acquire, Work, Release]]"

definition createVersion_ops :: "op list list" where
  "createVersion_ops = [[Acquire, AwaitGC, Work, Release]]"

definition createDataset_ops :: "op list list" where
  "createDataset_ops = [[Work], [Work, Acquire, Work, Release]]"

text \<open>With \<^verbatim>\<open>force\<close> the old target is deleted first; the handler then sleeps and waits before it takes its slot.\<close>

definition forkDataset_ops :: "op list list" where
  "forkDataset_ops = [[Work], [Work, SendGC, Work, AwaitGC, Acquire, Work, Release], [Work, Acquire, Work, Release]]"

definition cloneVersion_ops :: "op list list" where
  "cloneVersion_ops = [[Acquire, Work, Release]]"

definition commitVersion_ops :: "op list list" where
  "commitVersion_ops = [[Acquire, Work, Release]]"

definition saveFS_ops :: "op list list" where
  "saveFS_ops = [[Work], [Work, Acquire, Work, Release]]"

definition deleteDatasetFile_ops :: "op list list" where
  "deleteDatasetFile_ops = [[Work], [Work, Acquire, Work, Release]]"

definition uploadDatasetFile_ops :: "op list list" where
  "uploadDatasetFile_ops = [[Acquire, Work, Release]]"

definition runGC_ops :: "op list list" where
  "runGC_ops = [[SendGC, Work]]"

definition runClearChunks_ops :: "op list list" where
  "runClearChunks_ops = [[SendClear, Work]]"

text \<open>One message of the master: on a deletion that fails nothing is sent.\<close>

definition processQueue_ops :: "op list list" where
  "processQueue_ops = [[Work], [Acquire, Work, SendGC, Work, Release], [Acquire, Work, Release]]"

definition request_ops :: "op list list" where
  "request_ops = concat [deleteDataset_ops, deleteVersion_ops, createVersion_ops, createDataset_ops, forkDataset_ops,
     cloneVersion_ops, commitVersion_ops, saveFS_ops, deleteDatasetFile_ops, uploadDatasetFile_ops, runGC_ops,
     runClearChunks_ops, [[Work]]]"

section \<open>Steps\<close>

text \<open>
  \<open>progress\<close>: what is there goes on. An idle loop of \<^verbatim>\<open>gc.Start\<close> takes a message and begins a run, or starts a
  goroutine that clears chunks.
\<close>

inductive progress :: "nat \<Rightarrow> pick \<Rightarrow> slots \<Rightarrow> slots \<Rightarrow> bool" for n pick where
  Fire: "i < length (sl_procs s) \<Longrightarrow> fire n pick i s = Some s' \<Longrightarrow> progress n pick s s'"
| TakeGC: "sl_procs s ! 0 = [] \<Longrightarrow> 0 < sl_queue s
    \<Longrightarrow> progress n pick s (s\<lparr>sl_queue := sl_queue s - 1, sl_procs := (sl_procs s)[0 := GoGC_ops]\<rparr>)"
| TakeClear: "sl_procs s ! 0 = [] \<Longrightarrow> 0 < sl_clear s
    \<Longrightarrow> progress n pick s (s\<lparr>sl_clear := sl_clear s - 1, sl_procs := sl_procs s @ [ClearChunks_ops]\<rparr>)"

text \<open>\<open>slots_step\<close>: also timers fire, and messages of the master and requests arrive.\<close>

inductive slots_step :: "nat \<Rightarrow> pick \<Rightarrow> slots \<Rightarrow> slots \<Rightarrow> bool" for n pick where
  Progress: "progress n pick s s' \<Longrightarrow> slots_step n pick s s'"
| Ticker: "sl_procs s ! 0 = [] \<Longrightarrow> slots_step n pick s (s\<lparr>sl_procs := (sl_procs s)[0 := GoGC_ops]\<rparr>)"
| TickerChunks: "sl_procs s ! 0 = [] \<Longrightarrow> slots_step n pick s (s\<lparr>sl_procs := sl_procs s @ [ClearChunks_ops]\<rparr>)"
| Message: "sl_procs s ! 1 = [] \<Longrightarrow> ops \<in> set processQueue_ops \<Longrightarrow> slots_step n pick s (s\<lparr>sl_procs := (sl_procs s)[1 := ops]\<rparr>)"
| Request: "ops \<in> set request_ops \<Longrightarrow> slots_step n pick s (s\<lparr>sl_procs := sl_procs s @ [ops]\<rparr>)"

text \<open>\<^verbatim>\<open>Start\<close> begins with a run.\<close>

definition gc_Start :: "nat \<Rightarrow> slots" where
  "gc_Start n = \<lparr>sl_free = n, sl_waiters = [], sl_queue = 0, sl_clear = 0, sl_active = None, sl_procs = [GoGC_ops, []]\<rparr>"

abbreviation slots_reachable :: "nat \<Rightarrow> pick \<Rightarrow> slots \<Rightarrow> bool" where
  "slots_reachable n pick s \<equiv> (slots_step n pick)\<^sup>*\<^sup>* (gc_Start n) s"

inductive_cases progressE: "progress n pick s s'"
inductive_cases slots_stepE: "slots_step n pick s s'"


section \<open>The invariant\<close>

text \<open>
  A process holds a slot when it is next to release one. While it holds one it takes none, and sends
  nothing to the second channel.
\<close>

fun holds :: "op list \<Rightarrow> bool" where
  "holds [] = False"
| "holds (oper # ops) = (oper = Release \<or> oper \<noteq> Acquire \<and> holds ops)"

fun paired :: "op list \<Rightarrow> bool" where
  "paired [] = True"
| "paired (oper # ops) = ((oper = Acquire \<longrightarrow> holds ops) \<and> (oper \<in> {Release, SendClear} \<longrightarrow> \<not> holds ops) \<and> paired ops)"

abbreviation holders :: "op list list \<Rightarrow> nat" where
  "holders ps \<equiv> sum_list (map (\<lambda>p. of_bool (holds p)) ps)"

text \<open>Between setting and clearing the flag, the collector is in one of these places.\<close>

definition collecting :: "op list \<Rightarrow> bool" where
  "collecting p \<longleftrightarrow> p \<in> set [[Work, Release, SetInactive], [Release, SetInactive], [SetInactive]]"

definition flagless :: "op list \<Rightarrow> bool" where
  "flagless p \<longleftrightarrow> SetActive \<notin> set p \<and> SetInactive \<notin> set p"

definition slots_ok :: "nat \<Rightarrow> slots \<Rightarrow> bool" where
  "slots_ok n s \<longleftrightarrow>
     2 \<le> length (sl_procs s)
     \<and> sl_free s + holders (sl_procs s) = n
     \<and> (\<forall>i < length (sl_procs s). paired (sl_procs s ! i) \<and> (i = 0 \<or> flagless (sl_procs s ! i)))
     \<and> distinct (sl_waiters s)
     \<and> (\<forall>i \<in> set (sl_waiters s). i < length (sl_procs s) \<and> (\<exists>ops. sl_procs s ! i = Acquire # ops))
     \<and> (sl_waiters s \<noteq> [] \<longrightarrow> sl_free s = 0)
     \<and> sl_queue s \<le> gc_capacity n \<and> sl_clear s \<le> clear_capacity
     \<and> suffix (sl_procs s ! 0) GoGC_ops
     \<and> (collecting (sl_procs s ! 0) \<longleftrightarrow> sl_active s = Some True)"

lemma sum_list_nth_update:
  fixes f :: "'a \<Rightarrow> nat"
  assumes "i < length xs"
  shows "sum_list (map f (xs[i := x])) + f (xs ! i) = sum_list (map f xs) + f x"
proof -
  have "xs = take i xs @ xs ! i # drop (Suc i) xs" using assms by (simp add: Cons_nth_drop_Suc)
  then have "sum_list (map f xs) = sum_list (map f (take i xs)) + f (xs ! i) + sum_list (map f (drop (Suc i) xs))"
    by (metis append.assoc list.simps(9) map_append sum_list.Cons sum_list.append add.assoc)
  then show ?thesis using assms by (simp add: upd_conv_take_nth_drop)
qed

lemma runs_start:
  "r \<in> set (ClearChunks_ops # processQueue_ops @ request_ops) \<Longrightarrow> paired r \<and> \<not> holds r \<and> flagless r"
  "paired GoGC_ops \<and> \<not> holds GoGC_ops"
  by (auto simp: GoGC_ops_def ClearChunks_ops_def processQueue_ops_def request_ops_def deleteDataset_ops_def
      deleteVersion_ops_def createVersion_ops_def createDataset_ops_def forkDataset_ops_def cloneVersion_ops_def
      commitVersion_ops_def saveFS_ops_def deleteDatasetFile_ops_def uploadDatasetFile_ops_def runGC_ops_def
      runClearChunks_ops_def flagless_def)

lemma suffix_GoGC:
  "suffix p GoGC_ops \<longleftrightarrow> p \<in> set [GoGC_ops, tl GoGC_ops, [Work, Release, SetInactive], [Release, SetInactive], [SetInactive], []]"
  by (auto simp: GoGC_ops_def suffix_Cons)

lemma slots_ok_start: "slots_ok n (gc_Start n)"
  by (simp add: slots_ok_def gc_Start_def GoGC_ops_def collecting_def less_Suc_eq_0_disj flagless_def)

text \<open>One process goes on while the waiters stay.\<close>

lemma slots_ok_advance:
  assumes ok: "slots_ok n s" and i: "i < length (sl_procs s)" "i \<notin> set (sl_waiters s)" "sl_procs s ! i = oper # ops"
    and same: "sl_procs s' = (sl_procs s)[i := ops]" "sl_waiters s' = sl_waiters s"
    and free: "sl_free s' + of_bool (holds ops) = sl_free s + of_bool (holds (oper # ops))" "sl_waiters s \<noteq> [] \<longrightarrow> sl_free s' = 0"
    and chan: "sl_queue s' \<le> gc_capacity n" "sl_clear s' \<le> clear_capacity"
    and act: "i = 0 \<Longrightarrow> collecting ops \<longleftrightarrow> sl_active s' = Some True" "i \<noteq> 0 \<Longrightarrow> sl_active s' = sl_active s"
  shows "slots_ok n s'"
proof -
  have "holders ((sl_procs s)[i := ops]) + of_bool (holds (oper # ops)) = holders (sl_procs s) + of_bool (holds ops)"
    using sum_list_nth_update [OF i(1), of "\<lambda>p. of_bool (holds p)" ops] i(3) by simp
  then have "sl_free s' + holders ((sl_procs s)[i := ops]) = n" using ok free(1) unfolding slots_ok_def by linarith
  moreover have "paired ops \<and> (i = 0 \<or> flagless ops)" using ok i unfolding slots_ok_def flagless_def by fastforce
  moreover have "suffix ((sl_procs s)[i := ops] ! 0) GoGC_ops"
    using ok i unfolding slots_ok_def by (cases "i = 0") (auto dest: suffix_ConsD)
  moreover have "collecting ((sl_procs s)[i := ops] ! 0) \<longleftrightarrow> sl_active s' = Some True"
    using ok i act unfolding slots_ok_def by (cases "i = 0") auto
  ultimately show ?thesis using ok i free(2) chan by (auto simp: slots_ok_def nth_list_update same)
qed

text \<open>A released slot is handed on.\<close>

lemma collecting_steps:
  assumes "suffix (oper # ops) GoGC_ops"
  shows "oper \<noteq> SetActive \<Longrightarrow> oper \<noteq> SetInactive \<Longrightarrow> collecting ops = collecting (oper # ops)"
    and "oper = SetActive \<Longrightarrow> collecting ops" and "oper = SetInactive \<Longrightarrow> \<not> collecting ops"
  using assms unfolding suffix_GoGC by (auto simp: GoGC_ops_def collecting_def)

lemma slots_ok_hand_on:
  assumes ok: "slots_ok n s" and i: "i < length (sl_procs s)" "sl_procs s ! i = Release # ops"
    and w: "w \<in> set (sl_waiters s)"
  shows "slots_ok n (advance w (advance i (s\<lparr>sl_waiters := remove1 w (sl_waiters s)\<rparr>)))"
proof -
  let ?ps = "(sl_procs s)[i := ops]"
  obtain ops' where w': "w < length (sl_procs s)" "sl_procs s ! w = Acquire # ops'" using ok w by (auto simp: slots_ok_def)
  then have iw: "i \<noteq> w" using i by auto
  have st: "advance w (advance i (s\<lparr>sl_waiters := remove1 w (sl_waiters s)\<rparr>))
      = s\<lparr>sl_waiters := remove1 w (sl_waiters s), sl_procs := ?ps[w := ops']\<rparr>"
    using i w' iw by (simp add: advance_def)
  have p: "paired ops" "\<not> holds ops" "i \<noteq> 0 \<longrightarrow> flagless ops" "paired ops'" "holds ops'" "w \<noteq> 0 \<longrightarrow> flagless ops'"
    using ok i w' unfolding slots_ok_def flagless_def by fastforce+
  have "holders (?ps[w := ops']) = Suc (holders ?ps)" "holders (sl_procs s) = Suc (holders ?ps)"
    using sum_list_nth_update [OF i(1), of "\<lambda>p. of_bool (holds p)" ops] sum_list_nth_update [of w ?ps "\<lambda>p. of_bool (holds p)" ops']
      i w' iw p by simp_all
  then have h: "holders (?ps[w := ops']) = holders (sl_procs s)" by simp
  have gc: "suffix (?ps[w := ops'] ! 0) GoGC_ops \<and> (collecting (?ps[w := ops'] ! 0) \<longleftrightarrow> sl_active s = Some True)"
  proof -
    consider "i = 0" | "w = 0" | "i \<noteq> 0" "w \<noteq> 0" by blast
    then show ?thesis
    proof cases
      case 1
      then show ?thesis using ok i iw collecting_steps(1) [of Release ops] by (auto simp: slots_ok_def dest: suffix_ConsD)
    next
      case 2
      then show ?thesis using ok w' iw collecting_steps(1) [of Acquire ops'] by (auto simp: slots_ok_def dest: suffix_ConsD)
    next
      case 3
      then show ?thesis using ok by (simp add: slots_ok_def)
    qed
  qed
  have "\<forall>j \<in> set (remove1 w (sl_waiters s)). j < length (sl_procs s) \<and> (\<exists>ops. ?ps[w := ops'] ! j = Acquire # ops)"
  proof
    fix j
    assume "j \<in> set (remove1 w (sl_waiters s))"
    then have "j \<in> set (sl_waiters s)" "j \<noteq> w" using ok by (auto simp: slots_ok_def)
    moreover from this have "j \<noteq> i" using ok i by (auto simp: slots_ok_def)
    ultimately show "j < length (sl_procs s) \<and> (\<exists>ops. ?ps[w := ops'] ! j = Acquire # ops)" using ok by (auto simp: slots_ok_def)
  qed
  then show ?thesis using ok h gc p i w' w unfolding st by (auto simp: slots_ok_def nth_list_update)
qed

text \<open>The three ways in which a process goes on.\<close>

lemma fire_cases:
  assumes "fire n pick i s = Some s'"
  obtains
    (waits) ops where "sl_procs s ! i = Acquire # ops" "i \<notin> set (sl_waiters s)" "\<not> (0 < sl_free s \<and> sl_waiters s = [])"
      "s' = s\<lparr>sl_waiters := sl_waiters s @ [i]\<rparr>"
  | (handed) ops where "sl_procs s ! i = Release # ops" "sl_waiters s \<noteq> []"
      "s' = advance (pick (sl_waiters s)) (advance i (s\<lparr>sl_waiters := remove1 (pick (sl_waiters s)) (sl_waiters s)\<rparr>))"
  | (alone) oper ops where "sl_procs s ! i = oper # ops" "oper = Acquire \<Longrightarrow> 0 < sl_free s \<and> sl_waiters s = []"
      "oper = Release \<Longrightarrow> sl_waiters s = []" "sl_procs s' = (sl_procs s)[i := ops]" "sl_waiters s' = sl_waiters s"
      "sl_free s' = (if oper = Acquire then sl_free s - 1 else if oper = Release then Suc (sl_free s) else sl_free s)"
      "sl_queue s' = sl_queue s + of_bool (oper = SendGC)" "sl_clear s' = sl_clear s + of_bool (oper = SendClear)"
      "oper = SendGC \<Longrightarrow> sl_queue s < gc_capacity n" "oper = SendClear \<Longrightarrow> sl_clear s < clear_capacity"
      "sl_active s' = (if oper = SetActive then Some True else if oper = SetInactive then Some False else sl_active s)"
proof -
  obtain oper ops where o: "sl_procs s ! i = oper # ops" using assms by (auto simp: fire_def split: list.splits)
  note unf = fire_def AcqureSem_def ReleaseSem_def WaitGCCompleted_def setActive_def setInactive_def o
  show ?thesis
  proof (cases "oper = Acquire \<and> \<not> (0 < sl_free s \<and> sl_waiters s = []) \<or> oper = Release \<and> sl_waiters s \<noteq> []")
    case True
    then show ?thesis using assms waits [of ops] handed [of ops] o by (auto simp: unf Let_def split: if_splits)
  next
    case False
    then show ?thesis
      using assms by (intro alone [OF o]) (cases oper; auto simp: unf advance_def split: if_splits)+
  qed
qed

lemma slots_ok_fire:
  assumes ok: "slots_ok n s" and hands: "hands_on pick" and i: "i < length (sl_procs s)" and f: "fire n pick i s = Some s'"
  shows "slots_ok n s'"
  using f
proof (cases rule: fire_cases)
  case (waits ops)
  then show ?thesis using ok i by (auto simp: slots_ok_def)
next
  case (handed ops)
  then show ?thesis using hands slots_ok_hand_on [OF ok i] by (auto simp: hands_on_def)
next
  case (alone oper ops)
  have nw: "i \<notin> set (sl_waiters s)" using ok alone(1,2) by (auto simp: slots_ok_def)
  have pr: "paired (oper # ops)" using ok i alone(1) unfolding slots_ok_def by metis
  have sf: "i = 0 \<Longrightarrow> suffix (oper # ops) GoGC_ops" "i = 0 \<Longrightarrow> collecting (oper # ops) \<longleftrightarrow> sl_active s = Some True"
    and fl: "i \<noteq> 0 \<Longrightarrow> oper \<noteq> SetActive \<and> oper \<noteq> SetInactive"
    using ok i alone(1) unfolding slots_ok_def flagless_def by (metis, metis, metis list.set_intros(1))
  show ?thesis
  proof (rule slots_ok_advance [OF ok i nw alone(1,4,5)])
    show "sl_free s' + of_bool (holds ops) = sl_free s + of_bool (holds (oper # ops))"
      using alone(2,6) pr by (cases oper) auto
    show "sl_waiters s \<noteq> [] \<longrightarrow> sl_free s' = 0" using alone(2,3,6) ok by (auto simp: slots_ok_def)
    show "sl_queue s' \<le> gc_capacity n" "sl_clear s' \<le> clear_capacity" using alone(7-10) ok by (auto simp: slots_ok_def)
    show "collecting ops \<longleftrightarrow> sl_active s' = Some True" if "i = 0"
      using alone(11) sf(2) collecting_steps [OF sf(1)] that by (cases oper) auto
    show "sl_active s' = sl_active s" if "i \<noteq> 0" using alone(11) fl that by simp
  qed
qed

lemma slots_ok_length: "slots_ok n s \<Longrightarrow> 0 < length (sl_procs s) \<and> 1 < length (sl_procs s)"
  by (auto simp: slots_ok_def)

lemma slots_ok_more:
  assumes ok: "slots_ok n s" and r: "paired r \<and> \<not> holds r \<and> flagless r"
  shows "slots_ok n (s\<lparr>sl_procs := sl_procs s @ [r]\<rparr>)"
proof -
  have "(sl_procs s @ [r]) ! 0 = sl_procs s ! 0" using slots_ok_length [OF ok] by (simp add: nth_append)
  then show ?thesis using ok r by (auto simp: slots_ok_def nth_append less_Suc_eq)
qed

lemma slots_ok_refill:
  assumes ok: "slots_ok n s" and r: "paired r \<and> \<not> holds r" and i: "i < length (sl_procs s)" "sl_procs s ! i = []"
    and k: "i = 0 \<and> r = GoGC_ops \<or> i \<noteq> 0 \<and> flagless r"
  shows "slots_ok n (s\<lparr>sl_procs := (sl_procs s)[i := r]\<rparr>)"
proof -
  have "holders ((sl_procs s)[i := r]) = holders (sl_procs s)"
    using sum_list_nth_update [OF i(1), of "\<lambda>p. of_bool (holds p)" r] i(2) r by simp
  moreover have "i \<notin> set (sl_waiters s)" using ok i by (auto simp: slots_ok_def)
  moreover have "suffix ((sl_procs s)[i := r] ! 0) GoGC_ops \<and> collecting ((sl_procs s)[i := r] ! 0) = (sl_active s = Some True)"
    using ok i k by (cases "i = 0") (auto simp: slots_ok_def collecting_def GoGC_ops_def)
  ultimately show ?thesis using ok r i k by (auto simp: slots_ok_def nth_list_update)
qed

lemma slots_ok_progress:
  assumes ok: "slots_ok n s" and hands: "hands_on pick" and p: "progress n pick s s'"
  shows "slots_ok n s'"
  using p
proof cases
  case (Fire i)
  then show ?thesis using slots_ok_fire [OF ok hands] by blast
next
  case TakeGC
  have "slots_ok n (s\<lparr>sl_queue := sl_queue s - 1\<rparr>)" using ok by (auto simp: slots_ok_def)
  then show ?thesis
    using TakeGC slots_ok_length [OF ok] slots_ok_refill [of n "s\<lparr>sl_queue := sl_queue s - 1\<rparr>" GoGC_ops 0] runs_start(2) by simp
next
  case TakeClear
  have "slots_ok n (s\<lparr>sl_clear := sl_clear s - 1\<rparr>)" using ok by (auto simp: slots_ok_def)
  then show ?thesis using TakeClear slots_ok_more [of n "s\<lparr>sl_clear := sl_clear s - 1\<rparr>" ClearChunks_ops] runs_start(1) [of ClearChunks_ops]
    by simp
qed

lemma slots_ok_step:
  assumes ok: "slots_ok n s" and hands: "hands_on pick" and p: "slots_step n pick s s'"
  shows "slots_ok n s'"
  using p
proof cases
  case Progress
  then show ?thesis using slots_ok_progress [OF ok hands] by blast
next
  case Ticker
  then show ?thesis using slots_ok_refill [OF ok, of GoGC_ops 0] slots_ok_length [OF ok] runs_start(2) by simp
next
  case TickerChunks
  then show ?thesis using slots_ok_more [OF ok] runs_start(1) [of ClearChunks_ops] by simp
next
  case (Message ops)
  then show ?thesis using slots_ok_refill [OF ok, of ops 1] slots_ok_length [OF ok] runs_start(1) [of ops] by simp
next
  case (Request ops)
  then show ?thesis using slots_ok_more [OF ok] runs_start(1) [of ops] by simp
qed

lemma slots_ok_reachable:
  assumes "(slots_step n pick)\<^sup>*\<^sup>* s s'" and "hands_on pick" and "slots_ok n s"
  shows "slots_ok n s'"
  using assms(1,3) by (induction rule: rtranclp_induct) (auto intro: slots_ok_step [OF _ assms(2)])


section \<open>Where it can stop\<close>

definition quiet :: "slots \<Rightarrow> bool" where
  "quiet s \<longleftrightarrow> sl_queue s = 0 \<and> sl_clear s = 0 \<and> list_all (\<lambda>p. p = []) (sl_procs s)"

text \<open>The collector waits for a slot, and those who hold the slots wait for room in its full channel.\<close>

definition deadlocked :: "nat \<Rightarrow> slots \<Rightarrow> bool" where
  "deadlocked n s \<longleftrightarrow> sl_procs s ! 0 = GoGC_ops \<and> 0 \<in> set (sl_waiters s) \<and> sl_free s = 0 \<and> sl_queue s = gc_capacity n
     \<and> list_all (\<lambda>p. holds p \<longrightarrow> hd p = SendGC) (sl_procs s)"

text \<open>The deletions whose message is in the channel or still to be sent.\<close>

definition outstanding :: "slots \<Rightarrow> nat" where
  "outstanding s = sl_queue s + sum_list (map (\<lambda>p. count_list p SendGC) (sl_procs s))"

lemma stops_quiet_or_deadlocked:
  assumes ok: "slots_ok n s" and n: "1 \<le> n" and stop: "\<nexists>s'. progress n pick s s'"
  shows "quiet s \<or> deadlocked n s"
proof -
  have stuck: "fire n pick i s = None" if "i < length (sl_procs s)" for i using stop that by (meson Fire not_None_eq)
  have head: "(oper = Acquire \<and> i \<in> set (sl_waiters s)) \<or> (oper = SendGC \<and> sl_queue s = gc_capacity n) \<or> (oper = SendClear \<and> sl_clear s = clear_capacity)"
    if "i < length (sl_procs s)" "sl_procs s ! i = oper # ops" for i oper ops
    using stuck [OF that(1)] that(2) n ok by (cases oper) (auto simp: fire_def AcqureSem_def slots_ok_def Let_def split: if_splits)
  have gc: "sl_queue s = 0" "sl_clear s = 0" if "sl_procs s ! 0 = []"
    using stop TakeGC [OF that] TakeClear [OF that] by blast+
  have full: "\<exists>p \<in> set (sl_procs s). holds p" if "sl_waiters s \<noteq> []"
  proof (rule ccontr)
    assume "\<not> (\<exists>p \<in> set (sl_procs s). holds p)"
    then have "holders (sl_procs s) = 0" by simp
    moreover have "sl_free s = 0" "sl_free s + holders (sl_procs s) = n" using ok that by (simp_all add: slots_ok_def)
    ultimately show False using n by linarith
  qed
  have filled: "hd p = SendGC \<and> sl_queue s = gc_capacity n" if h: "p \<in> set (sl_procs s)" "holds p" for p
  proof -
    obtain i where i: "i < length (sl_procs s)" "sl_procs s ! i = p" using h(1) by (auto simp: in_set_conv_nth)
    obtain oper ops where o: "p = oper # ops" using h(2) by (cases p) auto
    have "paired p" using ok i by (auto simp: slots_ok_def)
    then show ?thesis using head [of i oper ops] i o h(2) by auto
  qed
  show ?thesis
  proof (cases "sl_procs s ! 0")
    case Nil
    then have z: "sl_queue s = 0" "sl_clear s = 0" using gc by auto
    have "sl_waiters s = []" using full filled z by (fastforce simp: gc_capacity_def)
    then have "sl_procs s ! i = []" if "i < length (sl_procs s)" for i
      using head [OF that] z by (cases "sl_procs s ! i") (auto simp: gc_capacity_def clear_capacity_def)
    then show ?thesis using z by (auto simp: quiet_def list_all_length)
  next
    case (Cons oper ops)
    have g: "suffix (oper # ops) GoGC_ops" "0 < length (sl_procs s)" using ok Cons slots_ok_length [OF ok] by (auto simp: slots_ok_def)
    then have "oper = Acquire \<and> 0 \<in> set (sl_waiters s)"
      using head [OF g(2) Cons] unfolding suffix_GoGC by (auto simp: GoGC_ops_def)
    moreover have "oper # ops = GoGC_ops" using g(1) calculation unfolding suffix_GoGC by (auto simp: GoGC_ops_def)
    moreover have "sl_free s = 0" using ok calculation by (auto simp: slots_ok_def)
    moreover have "sl_queue s = gc_capacity n" using full filled calculation by fastforce
    ultimately show ?thesis using filled Cons by (auto simp: deadlocked_def list_all_iff)
  qed
qed


section \<open>It does stop\<close>

abbreviation cost :: "(op \<Rightarrow> nat) \<Rightarrow> op list list \<Rightarrow> nat" where
  "cost g ps \<equiv> sum_list (map (\<lambda>p. sum_list (map g p)) ps)"

lemma cost_step: "i < length ps \<Longrightarrow> ps ! i = oper # ops \<Longrightarrow> cost g (ps[i := ops]) + g oper = cost g ps"
  using sum_list_nth_update [of i ps "\<lambda>p. sum_list (map g p)" ops] by simp

lemma hand_on_cost:
  assumes ok: "slots_ok n s" and i: "i < length (sl_procs s)" "sl_procs s ! i = Release # ops" and w: "w \<in> set (sl_waiters s)"
  shows "cost g (sl_procs (advance w (advance i (s\<lparr>sl_waiters := ws\<rparr>)))) + g Release + g Acquire = cost g (sl_procs s)"
proof -
  obtain ops' where w': "w < length (sl_procs s)" "sl_procs s ! w = Acquire # ops'" using ok w by (auto simp: slots_ok_def)
  then have iw: "i \<noteq> w" using i by auto
  show ?thesis
    using cost_step [OF i, of g] cost_step [of w "(sl_procs s)[i := ops]" Acquire ops' g] i w' iw by (simp add: advance_def)
qed

definition oper_cost :: "op \<Rightarrow> nat" where
  "oper_cost oper = (if oper = SendGC then 13 else if oper = SendClear then 5 else 2)"

definition effort :: "slots \<Rightarrow> nat" where
  "effort s = cost oper_cost (sl_procs s) + 12 * sl_queue s + 4 * sl_clear s + (length (sl_procs s) - length (sl_waiters s))"

lemma waiters_some:
  assumes "slots_ok n s" and "i < length (sl_procs s)" and "i \<notin> set (sl_waiters s)"
  shows "length (sl_waiters s) < length (sl_procs s)"
proof -
  have "length (sl_waiters s) = card (set (sl_waiters s))" using assms(1) by (simp add: slots_ok_def distinct_card)
  also have "\<dots> < card {..<length (sl_procs s)}"
    using assms by (intro psubset_card_mono) (auto simp: slots_ok_def)
  finally show ?thesis by simp
qed

lemma progress_effort:
  assumes ok: "slots_ok n s" and hands: "hands_on pick" and p: "progress n pick s s'"
  shows "effort s' < effort s"
  using p
proof cases
  case (Fire i)
  from Fire(2) show ?thesis
  proof (cases rule: fire_cases)
    case (waits ops)
    then show ?thesis using waiters_some [OF ok Fire(1)] by (simp add: effort_def)
  next
    case (handed ops)
    have w: "pick (sl_waiters s) \<in> set (sl_waiters s)" using hands handed(2) by (simp add: hands_on_def)
    have "i \<notin> set (sl_waiters s)" using ok handed(1) by (auto simp: slots_ok_def)
    then have "0 < length (sl_waiters s)" "length (sl_waiters s) \<le> length (sl_procs s)"
      using handed(2) waiters_some [OF ok Fire(1)] by auto
    then show ?thesis using hand_on_cost [OF ok Fire(1) handed(1) w, of oper_cost] w
      by (simp add: effort_def handed(3) advance_def oper_cost_def length_remove1)
  next
    case (alone oper ops)
    then show ?thesis using cost_step [OF Fire(1) alone(1), of oper_cost] by (cases oper) (auto simp: effort_def oper_cost_def)
  qed
next
  case TakeGC
  then show ?thesis
    using sum_list_nth_update [of 0 "sl_procs s" "\<lambda>p. sum_list (map oper_cost p)" GoGC_ops] slots_ok_length [OF ok]
    by (simp add: effort_def GoGC_ops_def oper_cost_def)
next
  case TakeClear
  then show ?thesis by (simp add: effort_def ClearChunks_ops_def oper_cost_def)
qed

lemma outstanding_cost: "outstanding s = sl_queue s + cost (\<lambda>oper. of_bool (oper = SendGC)) (sl_procs s)"
proof -
  have "count_list p SendGC = sum_list (map (\<lambda>oper. of_bool (oper = SendGC)) p)" for p by (induction p) auto
  then show ?thesis by (simp add: outstanding_def)
qed

lemma progress_outstanding:
  assumes ok: "slots_ok n s" and hands: "hands_on pick" and p: "progress n pick s s'"
  shows "outstanding s' \<le> outstanding s"
  using p
proof cases
  case (Fire i)
  from Fire(2) show ?thesis
  proof (cases rule: fire_cases)
    case (waits ops)
    then show ?thesis by (simp add: outstanding_def)
  next
    case (handed ops)
    have w: "pick (sl_waiters s) \<in> set (sl_waiters s)" using hands handed(2) by (simp add: hands_on_def)
    show ?thesis using hand_on_cost [OF ok Fire(1) handed(1) w, of "\<lambda>oper. of_bool (oper = SendGC)"]
      by (simp add: outstanding_cost handed(3)) (simp add: advance_def)
  next
    case (alone oper ops)
    then show ?thesis using cost_step [OF Fire(1) alone(1), of "\<lambda>oper. of_bool (oper = SendGC)"] by (simp add: outstanding_cost)
  qed
next
  case TakeGC
  then show ?thesis
    using sum_list_nth_update [of 0 "sl_procs s" "\<lambda>p. count_list p SendGC" GoGC_ops] slots_ok_length [OF ok]
    by (simp add: outstanding_def GoGC_ops_def)
next
  case TakeClear
  then show ?thesis by (simp add: outstanding_def ClearChunks_ops_def)
qed

lemma deadlocked_outstanding:
  assumes "slots_ok n s" and "deadlocked n s"
  shows "2 * n < outstanding s"
proof -
  have "of_bool (holds p) \<le> count_list p SendGC" if "p \<in> set (sl_procs s)" for p
    using assms(2) that by (cases p) (auto simp: deadlocked_def list_all_iff)
  then have "holders (sl_procs s) \<le> sum_list (map (\<lambda>p. count_list p SendGC) (sl_procs s))" by (intro sum_list_mono)
  then show ?thesis using assms by (simp add: slots_ok_def deadlocked_def outstanding_def gc_capacity_def)
qed

lemma progress_keeps:
  assumes "(progress n pick)\<^sup>*\<^sup>* s s'" and "hands_on pick" and "slots_ok n s"
  shows "slots_ok n s' \<and> outstanding s' \<le> outstanding s"
  using assms(1,3)
proof (induction rule: rtranclp_induct)
  case (step y z)
  then show ?case using slots_ok_progress [OF _ assms(2)] progress_outstanding [OF _ assms(2)] by (meson le_trans)
qed simp

lemma progress_ends:
  assumes "hands_on pick" and "slots_ok n s"
  shows "\<exists>s'. (progress n pick)\<^sup>*\<^sup>* s s' \<and> (\<nexists>s''. progress n pick s' s'')"
  using assms(2)
proof (induction "effort s" arbitrary: s rule: less_induct)
  case less
  show ?case
  proof (cases "\<exists>s'. progress n pick s s'")
    case True
    then obtain s' where s': "progress n pick s s'" by blast
    from less(1) [OF progress_effort [OF less(2) assms(1) s'] slots_ok_progress [OF less(2) assms(1) s']]
    show ?thesis using s' by (meson converse_rtranclp_into_rtranclp)
  qed blast
qed

lemma no_endless_progress:
  assumes "hands_on pick" and "slots_ok n (f 0)"
  shows "\<exists>k. \<not> progress n pick (f k) (f (Suc k))"
proof (rule ccontr)
  assume "\<nexists>k. \<not> progress n pick (f k) (f (Suc k))"
  then have f: "progress n pick (f k) (f (Suc k))" for k by blast
  have ok: "slots_ok n (f k)" for k by (induction k) (use assms f slots_ok_progress in blast)+
  have "effort (f k) + k \<le> effort (f 0)" for k
  proof (induction k)
    case (Suc k)
    then show ?case using progress_effort [OF ok assms(1) f, of k] by linarith
  qed simp
  from this [of "Suc (effort (f 0))"] show False by simp
qed


section \<open>The deadlock\<close>

lemma deadlocked_step:
  assumes ok: "slots_ok n s" and d: "deadlocked n s" and p: "slots_step n pick s s'"
  shows "deadlocked n s'"
proof -
  note dd = d [unfolded deadlocked_def list_all_iff]
  have ps: "0 < length (sl_procs s)" using slots_ok_length [OF ok] by simp
  have z: "sl_procs s ! 0 \<noteq> []" using dd by (simp add: GoGC_ops_def)
  from p show ?thesis
  proof cases
    case Progress
    then show ?thesis
    proof cases
      case (Fire i)
      from Fire(2) show ?thesis
      proof (cases rule: fire_cases)
        case (waits ops)
        then show ?thesis using d by (auto simp: deadlocked_def)
      next
        case (handed ops)
        then have "Release # ops \<in> set (sl_procs s)" using Fire(1) by (metis nth_mem)
        then show ?thesis using dd by fastforce
      next
        case (alone oper ops)
        have m: "oper # ops \<in> set (sl_procs s)" using alone(1) Fire(1) by (metis nth_mem)
        have o: "oper \<noteq> Acquire" "oper \<noteq> Release" "oper \<noteq> SendGC" using alone dd by auto
        then have "\<not> holds ops" using dd m by fastforce
        moreover have "i \<noteq> 0" using alone(1) dd o by (cases "i = 0") (auto simp: GoGC_ops_def)
        moreover have "set ((sl_procs s)[i := ops]) \<subseteq> insert ops (set (sl_procs s))" by (rule set_update_subset_insert)
        ultimately show ?thesis using dd alone o by (auto simp: deadlocked_def list_all_iff)
      qed
    qed (use z in blast)+
  next
    case (Message ops)
    have "set ((sl_procs s)[1 := ops]) \<subseteq> insert ops (set (sl_procs s))" by (rule set_update_subset_insert)
    then show ?thesis using dd Message runs_start(1) [of ops] by (auto simp: deadlocked_def list_all_iff)
  next
    case (Request ops)
    then show ?thesis using dd ps runs_start(1) [of ops] by (auto simp: deadlocked_def list_all_iff nth_append)
  qed (use z in blast)+
qed

lemma deadlocked_for_ever:
  assumes "(slots_step n pick)\<^sup>*\<^sup>* s s'" and "hands_on pick" and "slots_ok n s" and "deadlocked n s"
  shows "deadlocked n s'"
  using assms(1,3,4)
  by (induction rule: converse_rtranclp_induct) (auto intro: slots_ok_step [OF _ assms(2)] deadlocked_step)

text \<open>
  The collector is at work, and deletions have arrived. A semaphore that serves its waiters in the order of
  their calls has \<^verbatim>\<open>hd\<close> as its choice.
\<close>

definition deletion :: "op list" where
  "deletion = [Acquire, Work, SendGC, Work, Release]"

definition collector_busy :: "nat \<Rightarrow> nat \<Rightarrow> slots" where
  "collector_busy n k = \<lparr>sl_free = n - 1, sl_waiters = [], sl_queue = 0, sl_clear = 0, sl_active = Some True,
     sl_procs = [[Work, Release, SetInactive], []] @ replicate k deletion\<rparr>"

abbreviation put :: "slots \<Rightarrow> nat \<Rightarrow> nat list \<Rightarrow> nat \<Rightarrow> op list list \<Rightarrow> slots" where
  "put s free ws q ps \<equiv> s\<lparr>sl_free := free, sl_waiters := ws, sl_queue := q, sl_procs := ps\<rparr>"

lemma works: "progress n pick (put s f ws q (A @ (Work # ops) # B)) (put s f ws q (A @ ops # B))"
  by (rule Fire [of "length A"]) (simp_all add: fire_def advance_def)

lemma sends: "q < gc_capacity n \<Longrightarrow> progress n pick (put s f ws q (A @ (SendGC # ops) # B)) (put s f ws (Suc q) (A @ ops # B))"
  by (rule Fire [of "length A"]) (simp_all add: fire_def advance_def)

lemma takes: "1 \<le> n \<Longrightarrow> progress n pick (put s (Suc f) [] q (A @ (Acquire # ops) # B)) (put s f [] q (A @ ops # B))"
  by (rule Fire [of "length A"]) (simp_all add: fire_def advance_def AcqureSem_def)

lemma queues_up: "1 \<le> n \<Longrightarrow> length A \<notin> set ws
    \<Longrightarrow> progress n pick (put s 0 ws q (A @ (Acquire # ops) # B)) (put s 0 (ws @ [length A]) q (A @ (Acquire # ops) # B))"
  by (rule Fire [of "length A"]) (simp_all add: fire_def advance_def AcqureSem_def)

lemma hands:
  "progress n hd (put s f ((length A + Suc (length B)) # ws) q (A @ (Release # ops) # B @ (Acquire # ops') # C))
     (put s f ws q (A @ ops # B @ ops' # C))"
proof (rule Fire [of "length A"])
  have "(A @ ops # B @ x # C) ! (length A + Suc (length B)) = x" for x by (simp add: nth_append)
  moreover have "(A @ ops # B @ x # C)[length A + Suc (length B) := y] = A @ ops # B @ y # C" for x y
    by (simp add: list_update_append)
  ultimately show "fire n hd (length A) (put s f ((length A + Suc (length B)) # ws) q (A @ (Release # ops) # B @ (Acquire # ops') # C))
      = Some (put s f ws q (A @ ops # B @ ops' # C))"
    by (simp add: fire_def ReleaseSem_def advance_def Let_def)
qed simp

text \<open>One deletion after the other sends its message and hands its slot to the next.\<close>

lemma deletes:
  assumes "q < gc_capacity n"
  shows "(progress n hd)\<^sup>*\<^sup>* (put s f ((length A + Suc (length B)) # ws) q (A @ tl deletion # B @ deletion # C))
     (put s f ws (Suc q) (A @ [] # B @ tl deletion # C))"
  using works [where n = n and pick = hd and s = s and f = f and ws = "(length A + Suc (length B)) # ws" and q = q and A = A
      and ops = "[SendGC, Work, Release]" and B = "B @ deletion # C"]
    sends [OF assms, where pick = hd and s = s and f = f and ws = "(length A + Suc (length B)) # ws" and A = A
      and ops = "[Work, Release]" and B = "B @ deletion # C"]
    works [where n = n and pick = hd and s = s and f = f and ws = "(length A + Suc (length B)) # ws" and q = "Suc q" and A = A
      and ops = "[Release]" and B = "B @ deletion # C"]
    hands [where n = n and s = s and f = f and A = A and B = B and ws = ws and q = "Suc q" and ops = "[]"
      and ops' = "tl deletion" and C = C]
  by (simp add: deletion_def)


lemma takes_all:
  assumes "1 \<le> n" and d: "d = Acquire # ops"
  shows "(progress n pick)\<^sup>*\<^sup>* (put s k [] q (A @ replicate k d @ B)) (put s 0 [] q (A @ replicate k ops @ B))"
proof (induction k arbitrary: A)
  case (Suc k)
  show ?case
    using converse_rtranclp_into_rtranclp [OF takes [OF assms(1), where s = s and f = k and q = q and A = A and ops = ops
        and B = "replicate k d @ B"] Suc.IH [of "A @ [ops]", simplified]] by (simp add: d)
qed simp

lemma queues_up_all:
  assumes "1 \<le> n" and d: "d = Acquire # ops" and "m \<le> k" and "\<forall>i \<in> set ws. i < length A"
  shows "(progress n pick)\<^sup>*\<^sup>* (put s 0 ws q (A @ replicate k d)) (put s 0 (ws @ [length A..<length A + m]) q (A @ replicate k d))"
  using assms(3)
proof (induction m)
  case (Suc m)
  let ?A = "A @ replicate m d"
  have k: "A @ replicate k d = ?A @ (Acquire # ops) # replicate (k - Suc m) d"
    using Suc.prems by (simp add: d [symmetric] replicate_add [symmetric] flip: replicate_Suc)
  have "length ?A \<notin> set (ws @ [length A..<length A + m])" using assms(4) by auto
  note queues_up [OF assms(1) this, where pick = pick and s = s and q = q and ops = ops and B = "replicate (k - Suc m) d"]
  then show ?case using Suc unfolding k [symmetric] by (simp add: rtranclp.rtrancl_into_rtrancl)
qed simp

lemma works_all:
  "(progress n pick)\<^sup>*\<^sup>* (put s f ws q (A @ replicate k (Work # ops))) (put s f ws q (A @ replicate k ops))"
proof (induction k arbitrary: A)
  case (Suc k)
  show ?case
    using converse_rtranclp_into_rtranclp [OF works [where n = n and pick = pick and s = s and f = f and ws = ws and q = q and A = A
        and ops = ops and B = "replicate k (Work # ops)"] Suc.IH [of "A @ [ops]", simplified]] by simp
qed simp

lemma fills_up:
  assumes "1 \<le> n" and "j \<le> Suc n"
  shows "(progress n hd)\<^sup>*\<^sup>*
     (put s 0 ([n + 3..<2 * n + 4] @ [0]) 0 ((GoGC_ops # replicate 2 []) @ replicate n (tl deletion) @ replicate (Suc n) deletion))
     (put s 0 ([n + 3 + j..<2 * n + 4] @ [0]) j ((GoGC_ops # replicate (j + 2) []) @ replicate n (tl deletion) @ replicate (Suc n - j) deletion))"
  using assms(2)
proof (induction j)
  case (Suc j)
  let ?A = "GoGC_ops # replicate (j + 2) ([] :: op list)" and ?B = "replicate (n - 1) (tl deletion)"
  obtain k where n: "n = Suc k" using assms(1) by (cases n) auto
  have w: "[n + 3 + j..<2 * n + 4] = (length ?A + Suc (length ?B)) # [n + 3 + Suc j..<2 * n + 4]"
    using Suc.prems by (simp add: n upt_rec)
  have l: "replicate n x @ ys = x # replicate (n - 1) x @ ys" "replicate n x @ ys = replicate (n - 1) x @ x # ys" for x :: "op list" and ys
    by (simp_all add: n replicate_app_Cons_same)
  have r: "replicate (Suc n - j) deletion = deletion # replicate (Suc n - Suc j) deletion" using Suc.prems by (simp add: Suc_diff_le)
  have q: "j < gc_capacity n" using Suc.prems by (simp add: gc_capacity_def)
  have a: "?A @ [] # zs = (GoGC_ops # replicate (Suc j + 2) []) @ zs" for zs by (simp add: replicate_app_Cons_same)
  have "(progress n hd)\<^sup>*\<^sup>*
      (put s 0 ([n + 3 + j..<2 * n + 4] @ [0]) j (?A @ replicate n (tl deletion) @ replicate (Suc n - j) deletion))
      (put s 0 ([n + 3 + Suc j..<2 * n + 4] @ [0]) (Suc j)
        ((GoGC_ops # replicate (Suc j + 2) []) @ replicate n (tl deletion) @ replicate (Suc n - Suc j) deletion))"
    using deletes [OF q, where s = s and f = 0 and A = ?A and B = ?B and ws = "[n + 3 + Suc j..<2 * n + 4] @ [0]" and C = "replicate (Suc n - Suc j) deletion"]
    unfolding w r l(1) [of "tl deletion" "deletion # replicate (Suc n - Suc j) deletion"] l(2) [of "tl deletion" "replicate (Suc n - Suc j) deletion"] a [symmetric]
    by simp
  with Suc show ?case by (meson Suc_leD rtranclp_trans)
next
  case 0
  have "replicate 2 ([] :: op list) = [[], []]" by (simp add: numeral_2_eq_2)
  then show ?case by simp
qed

text \<open>The deletions arrive: those that find a free slot take it, the others wait.\<close>

lemma deletions_arrive:
  assumes "n = Suc k"
  shows "(progress n hd)\<^sup>*\<^sup>* (collector_busy n (2 * n + 2))
     (put (collector_busy n 0) 0 [n + 1..<2 * n + 4] 0
       ([] @ (Work # [Release, SetInactive]) # ([] # replicate k (tl deletion)) @ replicate (n + 3) deletion))"
proof -
  let ?s = "collector_busy n 0" and ?D = deletion and ?D' = "tl deletion" and ?gc = "[Work, Release, SetInactive]"
  have D: "?D = Acquire # ?D'" and n: "1 \<le> n" and e: "2 * n + 2 = k + (n + 3)" "2 * n + 4 = k + (n + 5)"
    using assms by (simp_all add: deletion_def)
  have r: "replicate (2 * n + 2) ?D = replicate k ?D @ replicate (n + 3) ?D" unfolding e(1) replicate_add ..
  have start: "collector_busy n (2 * n + 2) = put ?s k [] 0 ([?gc, []] @ replicate k ?D @ replicate (n + 3) ?D)"
    unfolding collector_busy_def r using assms by simp
  have l: "length ([?gc, []] @ replicate k ?D') = n + 1" "n + 1 + (n + 3) = 2 * n + 4" using assms by simp_all
  have "(progress n hd)\<^sup>*\<^sup>* (put ?s k [] 0 ([?gc, []] @ replicate k ?D @ replicate (n + 3) ?D))
      (put ?s 0 [] 0 ([?gc, []] @ replicate k ?D' @ replicate (n + 3) ?D))"
    by (rule takes_all [OF n D])
  moreover have "(progress n hd)\<^sup>*\<^sup>* (put ?s 0 [] 0 (([?gc, []] @ replicate k ?D') @ replicate (n + 3) ?D))
      (put ?s 0 ([] @ [n + 1..<2 * n + 4]) 0 (([?gc, []] @ replicate k ?D') @ replicate (n + 3) ?D))"
    using queues_up_all [OF n D le_refl, where ws = "[]" and A = "[?gc, []] @ replicate k ?D'" and s = ?s and q = 0 and k = "n + 3" and pick = hd]
    unfolding l by simp
  ultimately show ?thesis unfolding start by (simp only: append_Cons append_Nil append_assoc)
qed

text \<open>The run ends, the first deletion sends its message, and the collector takes it and waits for a slot again.\<close>

lemma collector_waits_again:
  assumes "n = Suc k"
  shows "(progress n hd)\<^sup>*\<^sup>*
     (put (collector_busy n 0) 0 [n + 1..<2 * n + 4] 0
       ([] @ (Work # [Release, SetInactive]) # ([] # replicate k (tl deletion)) @ replicate (n + 3) deletion))
     (put (collector_busy n 0\<lparr>sl_active := Some False\<rparr>) 0 ([n + 3..<2 * n + 4] @ [0]) 0
       ((GoGC_ops # replicate 2 []) @ replicate n (tl deletion) @ replicate (Suc n) deletion))"
proof -
  let ?s = "collector_busy n 0" and ?t = "collector_busy n 0\<lparr>sl_active := Some False\<rparr>"
  let ?D = deletion and ?D' = "tl deletion" and ?P = "(progress n hd)\<^sup>*\<^sup>*" and ?B = "replicate k (tl deletion)"
  let ?gc = "Work # [Release, SetInactive]"
  have D: "?D = Acquire # ?D'" and n: "1 \<le> n" using assms by (simp_all add: deletion_def)
  have r: "replicate (n + 3) ?D = ?D # replicate (n + 2) ?D" "replicate (n + 2) ?D = ?D # replicate (n + 1) ?D"
    by (simp_all add: numeral_3_eq_3 numeral_2_eq_2)
  have w: "[n + 1..<2 * n + 4] = Suc n # [n + 2..<2 * n + 4]" "[n + 2..<2 * n + 4] = (2 + Suc k) # [n + 3..<2 * n + 4]"
    using upt_conv_Cons [of "n + 1" "2 * n + 4"] upt_conv_Cons [of "n + 2" "2 * n + 4"] assms by (simp_all add: numeral_3_eq_3)
  have a1: "?P (put ?s 0 [n + 1..<2 * n + 4] 0 ([] @ ?gc # ([] # ?B) @ replicate (n + 3) ?D))
      (put ?s 0 [n + 1..<2 * n + 4] 0 ([] @ [Release, SetInactive] # ([] # ?B) @ replicate (n + 3) ?D))"
    by (rule r_into_rtranclp, rule works)
  have a2: "?P (put ?s 0 [n + 1..<2 * n + 4] 0 ([] @ [Release, SetInactive] # ([] # ?B) @ replicate (n + 3) ?D))
      (put ?s 0 [n + 2..<2 * n + 4] 0 ([] @ [SetInactive] # ([] # ?B) @ ?D' # replicate (n + 2) ?D))"
    using hands [where A = "[]" and B = "[] # ?B" and C = "replicate (n + 2) ?D" and ops' = ?D' and n = n and s = ?s
        and f = 0 and ws = "[n + 2..<2 * n + 4]" and q = 0 and ops = "[SetInactive]"] D assms
    unfolding r(1) w(1) by (simp add: r_into_rtranclp)
  have a3: "?P (put ?s 0 [n + 2..<2 * n + 4] 0 ([] @ [SetInactive] # ([] # ?B) @ ?D' # replicate (n + 2) ?D))
      (put ?t 0 [n + 2..<2 * n + 4] 0 ([[], []] @ ?D' # ?B @ ?D # replicate (n + 1) ?D))"
    unfolding r(2) by (rule r_into_rtranclp, rule Fire [of 0]) (simp_all add: fire_def advance_def setInactive_def replicate_app_Cons_same)
  have a4: "?P (put ?t 0 [n + 2..<2 * n + 4] 0 ([[], []] @ ?D' # ?B @ ?D # replicate (n + 1) ?D))
      (put ?t 0 [n + 3..<2 * n + 4] 1 ([[], []] @ [] # ?B @ ?D' # replicate (n + 1) ?D))"
    using deletes [of 0 n, where A = "[[], []]" and B = ?B and ws = "[n + 3..<2 * n + 4]" and C = "replicate (n + 1) ?D" and s = ?t and f = 0]
    unfolding w(2) by (simp add: gc_capacity_def)
  have a5: "?P (put ?t 0 [n + 3..<2 * n + 4] 1 ([[], []] @ [] # ?B @ ?D' # replicate (n + 1) ?D))
      (put ?t 0 [n + 3..<2 * n + 4] 0 ([] @ (Acquire # tl GoGC_ops) # [[], []] @ replicate n ?D' @ replicate (Suc n) ?D))"
    using TakeGC [of "put ?t 0 [n + 3..<2 * n + 4] 1 ([[], []] @ [] # ?B @ ?D' # replicate (n + 1) ?D)" n hd]
    by (simp add: assms replicate_app_Cons_same GoGC_ops_def r_into_rtranclp)
  have a6: "?P (put ?t 0 [n + 3..<2 * n + 4] 0 ([] @ (Acquire # tl GoGC_ops) # [[], []] @ replicate n ?D' @ replicate (Suc n) ?D))
      (put ?t 0 ([n + 3..<2 * n + 4] @ [length ([] :: op list list)]) 0
      ([] @ (Acquire # tl GoGC_ops) # [[], []] @ replicate n ?D' @ replicate (Suc n) ?D))"
    by (rule r_into_rtranclp, rule queues_up) (use n in simp_all)
  have "?P (put ?s 0 [n + 1..<2 * n + 4] 0 ([] @ ?gc # ([] # ?B) @ replicate (n + 3) ?D))
      (put ?t 0 ([n + 3..<2 * n + 4] @ [length ([] :: op list list)]) 0
      ([] @ (Acquire # tl GoGC_ops) # [[], []] @ replicate n ?D' @ replicate (Suc n) ?D))"
    by (rule rtranclp_trans [OF a1 rtranclp_trans [OF a2 rtranclp_trans [OF a3 rtranclp_trans [OF a4 rtranclp_trans [OF a5 a6]]]]])
  moreover have "[] @ (Acquire # tl GoGC_ops) # [[], []] @ replicate n ?D' @ replicate (Suc n) ?D
      = (GoGC_ops # replicate 2 []) @ replicate n ?D' @ replicate (Suc n) ?D"
    by (simp add: GoGC_ops_def numeral_2_eq_2)
  ultimately show ?thesis by (simp only: list.size)
qed

lemma deletions_deadlock:
  assumes "1 \<le> n"
  shows "\<exists>s'. (progress n hd)\<^sup>*\<^sup>* (collector_busy n (2 * n + 2)) s' \<and> deadlocked n s'"
proof -
  obtain k where n: "n = Suc k" using assms by (cases n) auto
  let ?t = "collector_busy n 0\<lparr>sl_active := Some False\<rparr>" and ?A = "GoGC_ops # replicate (n + 3) []"
  have e: "put ?t 0 ([n + 3 + Suc n..<2 * n + 4] @ [0]) (Suc n)
        ((GoGC_ops # replicate (Suc n + 2) []) @ replicate n (tl deletion) @ replicate (Suc n - Suc n) deletion)
      = put ?t 0 [0] (Suc n) (?A @ replicate n (Work # tl (tl deletion)))"
    by (simp add: deletion_def numeral_3_eq_3)
  have "(progress n hd)\<^sup>*\<^sup>* (collector_busy n (2 * n + 2)) (put ?t 0 [0] (Suc n) (?A @ replicate n (Work # tl (tl deletion))))"
    using rtranclp_trans [OF rtranclp_trans [OF deletions_arrive [OF n] collector_waits_again [OF n]] fills_up [OF assms le_refl]]
    unfolding e .
  from rtranclp_trans [OF this works_all]
  have "(progress n hd)\<^sup>*\<^sup>* (collector_busy n (2 * n + 2)) (put ?t 0 [0] (Suc n) (?A @ replicate n (tl (tl deletion))))" .
  moreover have "deadlocked n (put ?t 0 [0] (Suc n) (?A @ replicate n (tl (tl deletion))))"
    by (auto simp: deadlocked_def gc_capacity_def list_all_iff deletion_def GoGC_ops_def)
  ultimately show ?thesis by blast
qed


lemma busy_reachable:
  assumes "1 \<le> n"
  shows "slots_reachable n pick (collector_busy n k)"
proof (induction k)
  case 0
  have "slots_step n pick (gc_Start n) ((gc_Start n)\<lparr>sl_free := n - 1, sl_procs := [tl GoGC_ops, []]\<rparr>)"
    by (rule Progress, rule Fire [of 0]) (use assms in \<open>simp_all add: gc_Start_def GoGC_ops_def fire_def AcqureSem_def advance_def\<close>)
  moreover have "slots_step n pick ((gc_Start n)\<lparr>sl_free := n - 1, sl_procs := [tl GoGC_ops, []]\<rparr>) (collector_busy n 0)"
    by (rule Progress, rule Fire [of 0]) (simp_all add: gc_Start_def GoGC_ops_def fire_def advance_def setActive_def collector_busy_def)
  ultimately show ?case by (meson converse_rtranclp_into_rtranclp rtranclp.rtrancl_refl)
next
  case (Suc k)
  have "slots_step n pick (collector_busy n k) (collector_busy n k\<lparr>sl_procs := sl_procs (collector_busy n k) @ [deletion]\<rparr>)"
    by (rule Request) (simp add: request_ops_def deleteVersion_ops_def deletion_def)
  moreover have "collector_busy n k\<lparr>sl_procs := sl_procs (collector_busy n k) @ [deletion]\<rparr> = collector_busy n (Suc k)"
    by (simp add: collector_busy_def replicate_append_same)
  ultimately show ?case using Suc by (metis rtranclp.rtrancl_into_rtrancl)
qed

lemma hands_on_hd: "hands_on hd"
  by (simp add: hands_on_def)

section \<open>The loops that delete\<close>

text \<open>
  \<^verbatim>\<open>RunDeleteLoop\<close> and \<^verbatim>\<open>RunChunkDBDeleteLoop\<close> begin alike: lock, look at the flag, and return if a loop is there
  already; else set the flag and unlock. Every run of the collector starts both as goroutines. A loop never
  ends, as its channel is never closed.
\<close>

datatype loop_pc = Locking | Checking | Marking | Unlocking | Looping | Returned

record delete_loops =
  dl_locked :: bool
  dl_active :: bool
  dl_pcs :: "loop_pc list"

definition at_pc :: "delete_loops \<Rightarrow> nat \<Rightarrow> loop_pc \<Rightarrow> bool" where
  "at_pc d i pc \<longleftrightarrow> i < length (dl_pcs d) \<and> dl_pcs d ! i = pc"

definition goto :: "nat \<Rightarrow> loop_pc \<Rightarrow> delete_loops \<Rightarrow> delete_loops" where
  "goto i pc d = d\<lparr>dl_pcs := (dl_pcs d)[i := pc]\<rparr>"

inductive loop_step :: "delete_loops \<Rightarrow> delete_loops \<Rightarrow> bool" where
  Go: "loop_step d (d\<lparr>dl_pcs := dl_pcs d @ [Locking]\<rparr>)"
| Lock: "at_pc d i Locking \<Longrightarrow> \<not> dl_locked d \<Longrightarrow> loop_step d (goto i Checking (d\<lparr>dl_locked := True\<rparr>))"
| Return: "at_pc d i Checking \<Longrightarrow> dl_active d \<Longrightarrow> loop_step d (goto i Returned d)"
| First: "at_pc d i Checking \<Longrightarrow> \<not> dl_active d \<Longrightarrow> loop_step d (goto i Marking d)"
| Mark: "at_pc d i Marking \<Longrightarrow> loop_step d (goto i Unlocking (d\<lparr>dl_active := True\<rparr>))"
| Unlock: "at_pc d i Unlocking \<Longrightarrow> loop_step d (goto i Looping (d\<lparr>dl_locked := False\<rparr>))"

definition no_loops :: delete_loops where
  "no_loops = \<lparr>dl_locked = False, dl_active = False, dl_pcs = []\<rparr>"

abbreviation loops_at :: "delete_loops \<Rightarrow> loop_pc \<Rightarrow> nat" where
  "loops_at d \<equiv> count_list (dl_pcs d)"

definition loops_ok :: "delete_loops \<Rightarrow> bool" where
  "loops_ok d \<longleftrightarrow>
     loops_at d Checking + loops_at d Marking + loops_at d Unlocking + loops_at d Returned = of_bool (dl_locked d)
     \<and> loops_at d Unlocking + loops_at d Looping = of_bool (dl_active d)
     \<and> (dl_active d \<longrightarrow> loops_at d Marking = 0) \<and> (\<not> dl_active d \<longrightarrow> loops_at d Returned = 0)"

lemma goto_simps [simp]:
  "dl_locked (goto i pc d) = dl_locked d" "dl_active (goto i pc d) = dl_active d"
  "at_pc (d\<lparr>dl_locked := l\<rparr>) i pc = at_pc d i pc" "at_pc (d\<lparr>dl_active := l\<rparr>) i pc = at_pc d i pc"
  by (simp_all add: goto_def at_pc_def)

lemma loops_at_goto:
  assumes "at_pc d i pc"
  shows "loops_at (goto i pc' d) x = loops_at d x + of_bool (pc' = x) - of_bool (pc = x)" and "\<exists>k. loops_at d pc = Suc k"
proof -
  have c: "count_list xs y = sum_list (map (\<lambda>z. of_bool (z = y)) xs)" for xs :: "loop_pc list" and y by (induction xs) auto
  have "loops_at (goto i pc' d) x + of_bool (pc = x) = loops_at d x + of_bool (pc' = x)"
    using assms sum_list_nth_update [of i "dl_pcs d" "\<lambda>y. of_bool (y = x)" pc'] by (simp add: at_pc_def goto_def c)
  then show "loops_at (goto i pc' d) x = loops_at d x + of_bool (pc' = x) - of_bool (pc = x)" by linarith
  show "\<exists>k. loops_at d pc = Suc k" using assms nth_mem [of i "dl_pcs d"] count_notin [of pc "dl_pcs d"] by (cases "loops_at d pc") (auto simp: at_pc_def count_list_0_iff)
qed

lemma loops_ok_step: "loop_step d d' \<Longrightarrow> loops_ok d \<Longrightarrow> loops_ok d'"
proof (induction rule: loop_step.induct)
  case (Lock d i)
  then show ?case by (auto simp: loops_ok_def loops_at_goto [of _ i Locking])
next
  case (Return d i)
  from loops_at_goto(2) [OF this(1)] obtain k where "loops_at d Checking = Suc k" ..
  with Return show ?case by (auto simp: loops_ok_def loops_at_goto [of _ i Checking] split: if_splits)
next
  case (First d i)
  from loops_at_goto(2) [OF this(1)] obtain k where "loops_at d Checking = Suc k" ..
  with First show ?case by (auto simp: loops_ok_def loops_at_goto [of _ i Checking])
next
  case (Mark d i)
  from loops_at_goto(2) [OF this(1)] obtain k where "loops_at d Marking = Suc k" ..
  with Mark show ?case by (cases "dl_locked d") (auto simp: loops_ok_def loops_at_goto [of _ i Marking])
next
  case (Unlock d i)
  from loops_at_goto(2) [OF this(1)] obtain k where "loops_at d Unlocking = Suc k" ..
  with Unlock show ?case by (cases "dl_locked d"; cases "dl_active d") (auto simp: loops_ok_def loops_at_goto [of _ i Unlocking])
qed (simp add: loops_ok_def)

lemma loops_ok_reachable: "loop_step\<^sup>*\<^sup>* no_loops d \<Longrightarrow> loops_ok d"
  by (induction rule: rtranclp_induct) (auto simp: loops_ok_step, simp add: loops_ok_def no_loops_def)

text \<open>One that returned with the lock leaves nothing to do but to start another that waits.\<close>

lemma returned_blocks:
  assumes "loop_step d d'" and "loops_ok d" and "0 < loops_at d Returned"
  shows "d' = d\<lparr>dl_pcs := dl_pcs d @ [Locking]\<rparr>"
proof -
  have z: "dl_locked d" "loops_at d Checking = 0" "loops_at d Marking = 0" "loops_at d Unlocking = 0"
    using assms(2,3) unfolding loops_ok_def by (cases "dl_locked d"; simp)+
  from assms(1) show ?thesis by cases (use z in \<open>auto dest: loops_at_goto(2)\<close>)
qed

lemma returned_blocks_for_ever:
  assumes "loop_step\<^sup>*\<^sup>* d d'" and "loops_ok d" and "0 < loops_at d Returned" and "at_pc d i Locking"
  shows "at_pc d' i Locking"
  using assms
proof (induction rule: converse_rtranclp_induct)
  case (step x y)
  then have "y = x\<lparr>dl_pcs := dl_pcs x @ [Locking]\<rparr>" "loops_ok y" using returned_blocks loops_ok_step by blast+
  then show ?case using step by (auto simp: at_pc_def nth_append)
qed

lemma loop_pcs_counted: "length pcs = (\<Sum>pc\<leftarrow>[Locking, Checking, Marking, Unlocking, Looping, Returned]. count_list pcs pc)"
proof (induction pcs)
  case (Cons p pcs)
  then show ?case by (cases p) simp_all
qed simp


section \<open>Properties\<close>

text \<open>C19: while no more than twice as many deletions are outstanding as there are slots, nothing hangs: from
  any state that the server reaches, with any number of slots and any order in which waiters are served,
  what has begun goes on until nothing is left. It cannot go on for ever, and where it stops every request
  and every message of the master is done, the channels are empty and the collector waits for work.\<close>

theorem requests_end_while_few_deletions_wait:
  assumes "slots_reachable n pick s" and "1 \<le> n" and "hands_on pick" and "outstanding s \<le> 2 * n"
  shows "(\<forall>s'. (progress n pick)\<^sup>*\<^sup>* s s' \<and> \<not> (\<exists>s''. progress n pick s' s'') \<longrightarrow> quiet s')
    \<and> \<not> (\<exists>f. f 0 = s \<and> (\<forall>k. progress n pick (f k) (f (Suc k))))"
proof -
  have ok: "slots_ok n s" using slots_ok_reachable [OF assms(1,3) slots_ok_start] .
  have "quiet s'" if "(progress n pick)\<^sup>*\<^sup>* s s'" "\<not> (\<exists>s''. progress n pick s' s'')" for s'
  proof -
    have k: "slots_ok n s'" "outstanding s' \<le> 2 * n" using progress_keeps [OF that(1) assms(3) ok] assms(4) by auto
    with stops_quiet_or_deadlocked [OF k(1) assms(2)] deadlocked_outstanding [OF k(1)] that(2) show ?thesis by auto
  qed
  then show ?thesis using no_endless_progress [OF assms(3)] ok by blast
qed

text \<open>C20: more deletions stop the server for good: with \<open>n\<close> slots, when \<open>2 * n + 2\<close> deletions of versions arrive
  during a run of the collector, what has begun can go on to a state in which the collector waits for a
  slot while all slots are held by handlers that wait for room in the channel that only the collector
  empties. Whatever comes then, it stays so, and every later request for a slot waits for ever.\<close>

theorem deletions_stop_the_server:
  assumes "1 \<le> n"
  shows "slots_reachable n hd (collector_busy n (2 * n + 2))
    \<and> (\<exists>s. (progress n hd)\<^sup>*\<^sup>* (collector_busy n (2 * n + 2)) s \<and> (\<forall>s'. (slots_step n hd)\<^sup>*\<^sup>* s s' \<longrightarrow> deadlocked n s'))"
proof -
  obtain s where s: "(progress n hd)\<^sup>*\<^sup>* (collector_busy n (2 * n + 2)) s" "deadlocked n s" using deletions_deadlock [OF assms] by blast
  have busy: "slots_reachable n hd (collector_busy n (2 * n + 2))" using busy_reachable [OF assms] .
  have "slots_ok n s"
    using progress_keeps [OF s(1) hands_on_hd] slots_ok_reachable [OF busy hands_on_hd slots_ok_start] by blast
  then have "\<forall>s'. (slots_step n hd)\<^sup>*\<^sup>* s s' \<longrightarrow> deadlocked n s'" using deadlocked_for_ever [OF _ hands_on_hd _ s(2)] by blast
  then show ?thesis using busy s(1) by blast
qed

text \<open>C21: however the runs of the collector are interleaved, at most one loop that deletes is there; and of all
  the goroutines that were started for it at most two get past the lock: once one has returned, which keeps
  the lock, every other one waits for ever.\<close>

theorem one_delete_loop_and_the_others_wait:
  assumes "loop_step\<^sup>*\<^sup>* no_loops d"
  shows "loops_at d Looping \<le> 1 \<and> length (dl_pcs d) \<le> loops_at d Locking + 2
    \<and> (0 < loops_at d Returned \<longrightarrow> length (dl_pcs d) = loops_at d Locking + 2
         \<and> (\<forall>i d'. at_pc d i Locking \<and> loop_step\<^sup>*\<^sup>* d d' \<longrightarrow> at_pc d' i Locking))"
proof -
  have ok: "loops_ok d" using loops_ok_reachable [OF assms] .
  then have "loops_at d Looping \<le> 1" "length (dl_pcs d) \<le> loops_at d Locking + 2"
    "0 < loops_at d Returned \<Longrightarrow> length (dl_pcs d) = loops_at d Locking + 2"
    using loop_pcs_counted [of "dl_pcs d"] unfolding loops_ok_def by (cases "dl_active d"; cases "dl_locked d"; simp)+
  then show ?thesis using returned_blocks_for_ever [OF _ ok] by blast
qed


section \<open>Witnesses\<close>

text \<open>
  Without settings the server runs on SQLite with one slot: while the collector runs, two deletions are
  served, and four stop it.
\<close>

lemma default_slots: "UploadConcurrency (\<lambda>_. []) = 1"
  by code_simp

theorem requests_end_while_few_deletions_wait_witness:
  "\<exists>s. (progress 1 hd)\<^sup>*\<^sup>* (collector_busy 1 2) s \<and> quiet s"
proof -
  have ok: "slots_ok 1 (collector_busy 1 2)"
    by (rule slots_ok_reachable [OF busy_reachable hands_on_hd slots_ok_start]) simp
  have "outstanding (collector_busy 1 2) \<le> 2 * 1" by (simp add: outstanding_def collector_busy_def deletion_def numeral_2_eq_2)
  from requests_end_while_few_deletions_wait [OF busy_reachable [of 1] _ hands_on_hd this] progress_ends [OF hands_on_hd ok]
  show ?thesis by auto
qed

theorem deletions_stop_the_server_witness:
  "\<exists>s. slots_reachable (nat (UploadConcurrency (\<lambda>_. []))) hd s \<and> deadlocked 1 s
     \<and> deadlocked 1 (s\<lparr>sl_procs := sl_procs s @ [[Acquire, AwaitGC, Work, Release]]\<rparr>)"
proof -
  from deletions_stop_the_server [of 1] obtain s
    where s: "slots_reachable 1 hd (collector_busy 1 4)" "(progress 1 hd)\<^sup>*\<^sup>* (collector_busy 1 4) s"
      "\<And>s'. (slots_step 1 hd)\<^sup>*\<^sup>* s s' \<Longrightarrow> deadlocked 1 s'" by auto
  have "(slots_step 1 hd)\<^sup>*\<^sup>* (collector_busy 1 4) s" using s(2) by (rule mono_rtranclp [rule_format, rotated]) (rule Progress)
  with s(1) have "slots_reachable 1 hd s" by (rule rtranclp_trans)
  moreover have "slots_step 1 hd s (s\<lparr>sl_procs := sl_procs s @ [[Acquire, AwaitGC, Work, Release]]\<rparr>)"
    by (rule Request) (simp add: request_ops_def createVersion_ops_def)
  ultimately show ?thesis using s(3) by (auto simp: default_slots)
qed

text \<open>Three runs of the collector.\<close>

theorem one_delete_loop_and_the_others_wait_witness:
  "\<exists>d. loop_step\<^sup>*\<^sup>* no_loops d \<and> dl_pcs d = [Looping, Returned, Locking] \<and> (\<forall>d'. loop_step\<^sup>*\<^sup>* d d' \<longrightarrow> at_pc d' 2 Locking)"
proof -
  let ?d = "\<lambda>l a pcs. \<lparr>dl_locked = l, dl_active = a, dl_pcs = pcs\<rparr>"
  have "loop_step (?d False False []) (?d False False [Locking])" using Go [of "?d False False []"] by simp
  moreover have "loop_step (?d False False [Locking]) (?d False False [Locking, Locking])" using Go [of "?d False False [Locking]"] by simp
  moreover have "loop_step (?d False False [Locking, Locking]) (?d False False [Locking, Locking, Locking])"
    using Go [of "?d False False [Locking, Locking]"] by simp
  moreover have "loop_step (?d False False [Locking, Locking, Locking]) (?d True False [Checking, Locking, Locking])"
    using Lock [of "?d False False [Locking, Locking, Locking]" 0] by (simp add: goto_def at_pc_def)
  moreover have "loop_step (?d True False [Checking, Locking, Locking]) (?d True False [Marking, Locking, Locking])"
    using First [of "?d True False [Checking, Locking, Locking]" 0] by (simp add: goto_def at_pc_def)
  moreover have "loop_step (?d True False [Marking, Locking, Locking]) (?d True True [Unlocking, Locking, Locking])"
    using Mark [of "?d True False [Marking, Locking, Locking]" 0] by (simp add: goto_def at_pc_def)
  moreover have "loop_step (?d True True [Unlocking, Locking, Locking]) (?d False True [Looping, Locking, Locking])"
    using Unlock [of "?d True True [Unlocking, Locking, Locking]" 0] by (simp add: goto_def at_pc_def)
  moreover have "loop_step (?d False True [Looping, Locking, Locking]) (?d True True [Looping, Checking, Locking])"
    using Lock [of "?d False True [Looping, Locking, Locking]" 1] by (simp add: goto_def at_pc_def)
  moreover have "loop_step (?d True True [Looping, Checking, Locking]) (?d True True [Looping, Returned, Locking])"
    using Return [of "?d True True [Looping, Checking, Locking]" 1] by (simp add: goto_def at_pc_def)
  ultimately have r: "loop_step\<^sup>*\<^sup>* no_loops (?d True True [Looping, Returned, Locking])"
    unfolding no_loops_def by (meson converse_rtranclp_into_rtranclp rtranclp.rtrancl_refl)
  from one_delete_loop_and_the_others_wait [OF this] have "\<forall>d'. loop_step\<^sup>*\<^sup>* (?d True True [Looping, Returned, Locking]) d' \<longrightarrow> at_pc d' 2 Locking"
    by (simp add: at_pc_def)
  with r show ?thesis by (intro exI [of _ "?d True True [Looping, Returned, Locking]"]) simp
qed

end
