(* ===== verification/Fuse.thy ===== *)
theory Fuse
  imports PlukClient
begin

text \<open>
  \<^verbatim>\<open>pkg/fuse\<close>: a version mounted as a file system that is only read, and \<^verbatim>\<open>pkg/grpc\<close>, over which it gets
  its chunks. The library of FUSE calls the operations; the network is the state \<open>'m\<close>.
\<close>

section \<open>Chunks over gRPC\<close>

record grpc_auth =
  ga_Token :: string
  ga_Workspace :: string
  ga_Secret :: string

text \<open>\<^verbatim>\<open>Server.GetChunk\<close>; a request without \<^verbatim>\<open>Auth\<close> panics. The version is cut to a byte.\<close>

definition grpc_checkAuth :: "('m, 'v) api_env \<Rightarrow> grpc_auth option \<Rightarrow> ('m api, unit) prog" where
  "grpc_checkAuth en auth =
     (case auth of
        None \<Rightarrow> crash
      | Some au \<Rightarrow> CheckAuth en ''GET'' ''dataset'' [] [] [] (ga_Workspace au) (ga_Secret au) None)"

definition grpc_GetChunk :: "('m, 'v) api_env \<Rightarrow> string \<Rightarrow> int \<Rightarrow> grpc_auth option \<Rightarrow> ('m api, byte list) prog" where
  "grpc_GetChunk en path version auth =
     bnd (grpc_checkAuth en auth) (\<lambda>_.
     bnd (bnd (on_node (GetChunk (en_settings en) (en_chunks en) path (nat (version mod 256)))) lift_res) (\<lambda>reader.
     bnd (lift_option (io_copy reader_read 32768 reader [])) (\<lambda>(bs, e, r). ret bs)))"

text \<open>\<^verbatim>\<open>Client.GetChunk\<close>: \<open>internal\<close> is the generated client.\<close>

definition grpc_client_GetChunk ::
  "(string \<Rightarrow> int \<Rightarrow> grpc_auth option \<Rightarrow> 'm \<Rightarrow> byte list res \<times> 'm) \<Rightarrow> auth_opts \<Rightarrow> string \<Rightarrow> nat \<Rightarrow> 'm \<Rightarrow> byte list res \<times> 'm" where
  "grpc_client_GetChunk internal opts path version =
     internal path (int version) (Some \<lparr>ga_Token = au_Token opts, ga_Workspace = au_Workspace opts, ga_Secret = au_Secret opts\<rparr>)"

section \<open>The file system\<close>

record 'm pluke_fs =
  pf_workspace :: string
  pf_dataset :: string
  pf_version :: string
  pf_dsType :: string
  pf_client :: "'m client"
  pf_innerFS :: fs

definition plukefs_auth :: "string \<Rightarrow> string \<Rightarrow> auth_opts" where
  "plukefs_auth secretWorkspace secret = no_auth\<lparr>au_Workspace := secretWorkspace, au_Secret := secret\<rparr>"

text \<open>\<open>dial\<close> says whether a gRPC client for an address can be made; the second result is the address used.\<close>

definition grpc_address :: "env \<Rightarrow> (string \<Rightarrow> bool) \<Rightarrow> string \<Rightarrow> string res" where
  "grpc_address getenv dial server =
     (case url_parse server of
        Inl e \<Rightarrow> Inl e
      | Inr u \<Rightarrow>
          let host = hd (go_split (CHR '':'') (u_Host u)); standard = host @ '':30805''; own = host @ '':'' @ GrpcPort getenv
          in if dial standard then Inr standard
             else if dial own then Inr own else Inl (Errorf (''did not connect: '' @ own)))"

definition NewPlukeFS ::
  "(string \<Rightarrow> auth_opts \<Rightarrow> 'm client res) \<Rightarrow> env \<Rightarrow> (string \<Rightarrow> bool) \<Rightarrow> string \<Rightarrow> string \<Rightarrow> string \<Rightarrow> string \<Rightarrow> string
     \<Rightarrow> string \<Rightarrow> string \<Rightarrow> 'm \<Rightarrow> (('m pluke_fs \<times> string) res \<times> 'm) option" where
  "NewPlukeFS newClient getenv dial dsType workspace dataset version server secret secretWorkspace m =
     (let dsType = (if dsType = [] then ''dataset'' else dsType) in
      case newClient server (plukefs_auth secretWorkspace secret) of
        Inl e \<Rightarrow> Some (Inl e, m)
      | Inr client \<Rightarrow>
          (case cl_GetFSStructure client dsType workspace dataset version m of
             ((_, Some e), m') \<Rightarrow> Some (Inl e, m')
           | ((None, None), m') \<Rightarrow> None
           | ((Some innerFS, None), m') \<Rightarrow>
               (case grpc_address getenv dial server of
                  Inl e \<Rightarrow> Some (Inl e, m')
                | Inr addr \<Rightarrow> Some (Inr (\<lparr>pf_workspace = workspace, pf_dataset = dataset, pf_version = version, pf_dsType = dsType,
                     pf_client = client, pf_innerFS = Prepare innerFS\<rparr>, addr), m'))))"

text \<open>Statuses of FUSE.\<close>

datatype fuse_status = FUSE_OK | ENOENT | EPERM | ENODATA

record attr =
  at_Size :: int
  at_Mode :: nat
  at_Time :: int
  at_Blocks :: int

definition S_IFDIR :: nat where "S_IFDIR = 16384"
definition S_IFREG :: nat where "S_IFREG = 32768"

text \<open>\<^verbatim>\<open>S_IFDIR | mode\<close>; of the times there are only seconds.\<close>

definition file_mode_bits :: "chunked_file \<Rightarrow> nat" where
  "file_mode_bits f = or (if cf_Dir f then S_IFDIR else S_IFREG) (cf_Mode f)"

definition GetAttr :: "'m pluke_fs \<Rightarrow> string \<Rightarrow> attr option \<times> fuse_status" where
  "GetAttr fs name =
     (case GetFile (pf_innerFS fs) name of
        None \<Rightarrow> (None, ENOENT)
      | Some f \<Rightarrow> (Some \<lparr>at_Size = cf_Size f mod 2 ^ 64, at_Mode = file_mode_bits f mod 2 ^ 32, at_Time = cf_ModTime f div 1000000000,
           at_Blocks = - ((- cf_Size f) div 512)\<rparr>, FUSE_OK))"

definition fuse_OpenDir :: "'m pluke_fs \<Rightarrow> string \<Rightarrow> ((nat \<times> string) list \<times> fuse_status) option" where
  "fuse_OpenDir fs name =
     (case ReaddirFiles (pf_innerFS fs) name 0 of
        None \<Rightarrow> None
      | Some (Inl e) \<Rightarrow> Some ([], ENODATA)
      | Some (Inr files) \<Rightarrow> (if None \<in> set files then None else Some (map (\<lambda>f. (cf_Mode (the f), cf_Name (the f))) files, FUSE_OK)))"

record statfs =
  sf_Files :: nat
  sf_Blocks :: int

definition StatFs :: "'m pluke_fs \<Rightarrow> string \<Rightarrow> statfs option" where
  "StatFs fs name =
     map_option (\<lambda>(e, st). st)
       (Walk (\<lambda>path f st. Some (None, if cf_Dir f then st else \<lparr>sf_Files = Suc (sf_Files st), sf_Blocks = (sf_Blocks st + cf_Size f) mod 2 ^ 64\<rparr>))
          (pf_innerFS fs) name \<lparr>sf_Files = 0, sf_Blocks = 0\<rparr>)"

section \<open>Open files\<close>

text \<open>
  An open file refers to the file object in the tree, which all who opened it share; the result of a
  read is the open file itself: its \<open>pl_data\<close> and \<open>pl_size\<close> are what the last read put there.
\<close>

record pluk_file =
  pl_chunked :: chunked_file
  pl_data :: "byte list"
  pl_size :: nat

definition NewPlukFile :: "chunked_file \<Rightarrow> pluk_file" where
  "NewPlukFile chunked = \<lparr>pl_chunked = chunked, pl_data = [], pl_size = 0\<rparr>"

definition fuse_Open :: "'m pluke_fs \<Rightarrow> string \<Rightarrow> bool \<Rightarrow> pluk_file option \<times> fuse_status" where
  "fuse_Open fs name anywrite =
     (if anywrite then (None, EPERM)
      else case GetFile (pf_innerFS fs) name of None \<Rightarrow> (None, ENOENT) | Some f \<Rightarrow> (Some (NewPlukFile f), FUSE_OK))"

text \<open>An error of the read is only logged.\<close>

definition resultData :: "'w fetch \<Rightarrow> pluk_file \<Rightarrow> nat \<Rightarrow> int \<Rightarrow> 'w \<Rightarrow> (pluk_file \<times> 'w) option" where
  "resultData fetch f n off w =
     (case SeekAndRead fetch (pl_chunked f) n off w of
        None \<Rightarrow> None
      | Some ((bs, e), c, w') \<Rightarrow> Some (f\<lparr>pl_chunked := c, pl_data := bs, pl_size := length bs\<rparr>, w'))"

definition PlukFile_Read :: "'w fetch \<Rightarrow> pluk_file \<Rightarrow> nat \<Rightarrow> int \<Rightarrow> 'w \<Rightarrow> (pluk_file \<times> 'w) option" where
  "PlukFile_Read fetch f n off w = resultData fetch f n off w"

definition PlukFile_Bytes :: "pluk_file \<Rightarrow> byte list" where
  "PlukFile_Bytes f = pl_data f"

definition PlukFile_Flush :: "pluk_file \<Rightarrow> pluk_file" where
  "PlukFile_Flush f = f\<lparr>pl_chunked := ChunkedFile_Close (pl_chunked f)\<rparr>"

definition PlukFile_GetAttr :: "pluk_file \<Rightarrow> attr" where
  "PlukFile_GetAttr f = (let c = pl_chunked f in
     \<lparr>at_Size = cf_Size c mod 2 ^ 64, at_Mode = file_mode_bits c mod 2 ^ 32, at_Time = cf_ModTime c div 1000000000, at_Blocks = 0\<rparr>)"

section \<open>Service files\<close>

definition name_char :: "char \<Rightarrow> bool" where
  "name_char c \<longleftrightarrow> is_scheme_char c \<and> c \<noteq> CHR ''+'' \<or> c = CHR ''_''"

definition version_char :: "char \<Rightarrow> bool" where
  "version_char c \<longleftrightarrow> is_scheme_char c \<and> c \<noteq> CHR ''+'' \<and> \<not> (65 \<le> (of_char c :: nat) \<and> (of_char c :: nat) \<le> 90)"

text \<open>
  \<^verbatim>\<open>ChangeDatasetRegex\<close>: a dot, a name, two underscores, a version; the first place where it matches, and there
  the longest name. The result are the two groups.
\<close>

definition regex_at :: "string \<Rightarrow> (string \<times> string) option" where
  "regex_at s =
     (case s of
        [] \<Rightarrow> None
      | c # cs \<Rightarrow>
          if c \<noteq> CHR ''.'' then None
          else let m = length (takeWhile name_char cs) in
            map_option (\<lambda>k. (take k cs, takeWhile version_char (drop (k + 2) cs)))
              (find (\<lambda>k. prefix ''__'' (drop k cs) \<and> takeWhile version_char (drop (k + 2) cs) \<noteq> []) (rev [1..<Suc m])))"

fun change_dataset_match :: "string \<Rightarrow> (string \<times> string) option" where
  "change_dataset_match [] = None"
| "change_dataset_match (c # cs) = (case regex_at (c # cs) of Some r \<Rightarrow> Some r | None \<Rightarrow> change_dataset_match cs)"

definition serviceGetAttr :: "'m pluke_fs \<Rightarrow> int \<Rightarrow> string \<Rightarrow> attr option \<times> fuse_status" where
  "serviceGetAttr fs now filename =
     (let attr = (\<lambda>size. Some \<lparr>at_Size = size, at_Mode = S_IFREG + 420, at_Time = now, at_Blocks = 0\<rparr>) in
      if change_dataset_match filename \<noteq> None then (attr 12, FUSE_OK)
      else if filename = ''.current_version'' then (attr (int (length (pf_version fs))), FUSE_OK)
      else if filename = ''.current_dataset'' then (attr (int (length (pf_dataset fs))), FUSE_OK)
      else if filename = ''.current_workspace'' then (attr (int (length (pf_workspace fs))), FUSE_OK)
      else (None, ENOENT))"

text \<open>The tree that is fetched here is not prepared. The first result is the text of the file.\<close>

definition tryChangeDataset :: "string \<Rightarrow> 'm pluke_fs \<Rightarrow> 'm \<Rightarrow> ((string option \<times> fuse_status) \<times> 'm pluke_fs \<times> 'm) option" where
  "tryChangeDataset filename fs m =
     (case change_dataset_match filename of
        None \<Rightarrow> Some ((None, ENOENT), fs, m)
      | Some (dataset, version) \<Rightarrow>
          if dataset \<noteq> pf_dataset fs \<or> version \<noteq> pf_version fs then
            (case cl_GetFSStructure (pf_client fs) (pf_dsType fs) (pf_workspace fs) dataset version m of
               ((_, Some e), m') \<Rightarrow>
                 Some ((Some (''Failed to change FS to '' @ dataset @ '':'' @ version @ '': '' @ error_text e @ [CHR 0x0A]), FUSE_OK), fs, m')
             | ((None, None), m') \<Rightarrow> None
             | ((Some newFS, None), m') \<Rightarrow>
                 Some ((Some (''dataset_new'' @ [CHR 0x0A]), FUSE_OK),
                       fs\<lparr>pf_innerFS := newFS, pf_dataset := dataset, pf_version := version\<rparr>, m'))
          else Some ((Some (''dataset_old'' @ [CHR 0x0A]), FUSE_OK), fs, m))"

definition serviceFileRead :: "string \<Rightarrow> 'm pluke_fs \<Rightarrow> 'm \<Rightarrow> ((string option \<times> fuse_status) \<times> 'm pluke_fs \<times> 'm) option" where
  "serviceFileRead filename fs m =
     (if change_dataset_match filename \<noteq> None then tryChangeDataset filename fs m
      else if filename = ''.current_version'' then Some ((Some (pf_version fs @ [CHR 0x0A]), FUSE_OK), fs, m)
      else if filename = ''.current_dataset'' then Some ((Some (pf_dataset fs @ [CHR 0x0A]), FUSE_OK), fs, m)
      else if filename = ''.current_workspace'' then Some ((Some (pf_workspace fs @ [CHR 0x0A]), FUSE_OK), fs, m)
      else Some ((None, ENOENT), fs, m))"

end
