(* ===== verification/SavedTree.thy ===== *)
theory SavedTree
  imports TreeCache Clone
begin

text \<open>
  From the request that saves a tree (\<open>saveFS\<close>) to the request that reads it (\<open>getDatasetFS\<close>), on a server
  without masters: the rows written, the version committed, the cached tree dropped, and the tree
  built from the rows.
\<close>

section \<open>Prepared trees\<close>

lemma map_of_prepared: "map_of (map (\<lambda>(k, d). (k, prepare_as (g k d) d)) ds) k = map_option (\<lambda>d. prepare_as (g k d) d) (map_of ds k)"
  by (induction ds) auto

lemma prepared_fields [simp]:
  "fs_Files (prepare_as a fs) = fs_Files fs" "fs_Root (prepare_as a fs) = fs_Root fs"
  "map_of (fs_Dirs (prepare_as a fs)) k = map_option (\<lambda>d. prepare_as (Some (dirObj k (fs_ModTime d))) d) (map_of (fs_Dirs fs) k)"
  by (cases fs; simp add: map_of_prepared [of "\<lambda>k d. Some (dirObj k (fs_ModTime d))"])+

lemma find_file_prepared [simp]: "find_file (prepare_as a fs) cs = find_file fs cs"
  by (induction fs cs arbitrary: a rule: find_file.induct) (auto split: option.split)

lemma descend_prepared [simp]: "descend (prepare_as a fs) cs = None \<longleftrightarrow> descend fs cs = None"
  by (induction cs arbitrary: a fs) (auto split: option.split)

section \<open>The tree of a version\<close>

text \<open>A file of the tree that stands for an entry; one without chunks is not in the tree.\<close>

definition shows_entry :: "string \<Rightarrow> entry option \<Rightarrow> chunked_file option \<Rightarrow> bool" where
  "shows_entry dataDir entry file = (case entry of
     None \<Rightarrow> file = None
   | Some e \<Rightarrow> if e_Chunks e = [] then file = None
       else (case file of None \<Rightarrow> False | Some f \<Rightarrow> \<not> cf_Dir f \<and> cf_Size f = e_Size e \<and> cf_Mode f = e_Mode e
               \<and> cf_Chunks f = map (chunk_at dataDir) (e_Chunks e)))"

lemma catalog_shown: "shows_entry dataDir (catalog t key path) (Option.bind (the_file t key path) (tree_file dataDir t))"
  by (auto simp: shows_entry_def catalog_def tree_file_def new_file_def split: option.split)

lemma GetFSStructure_run:
  assumes "server_ok d" and "named_key (dataset_key ds ver)" and "paths_ok (db_tables d) (dataset_key ds ver)"
    and "dataset_key ds ver \<in> dsv_key ` set (t_dataset_versions (db_tables d))"
  shows "\<exists>fs. GetFSStructure st ms ds ver d = Some (Inr fs, d)
    \<and> (\<forall>path. plain_comps (split_path path) \<longrightarrow> \<not> is_dir_path (db_tables d) (dataset_key ds ver) path \<longrightarrow>
          shows_entry (st_DataDir st) (catalog (db_tables d) (dataset_key ds ver) path) (GetFile fs path))"
proof -
  let ?t = "db_tables d" and ?k = "dataset_key ds ver"
  let ?raws = "raw_files (db_type d) (d_Type ds) (d_Workspace ds) (d_Name ds) ver [] False ?t"
  have ok: "db_faults d = []" "db_wf ?t" "chunks_ok ?t" "ver \<noteq> []"
    using assms(1,2) by (simp_all add: server_ok_def named_key_def dataset_key_def)
  note key = dataset_key_def [of ds ver]
  obtain fs where fs: "put_raws (st_DataDir st) ?raws (new_fs ?raws (db_now d)) = Some fs" "fs_Root fs = ''/''"
    and ff: "\<And>path. find_file fs (split_path path) = Option.bind (the_file ?t ?k path) (tree_file (st_DataDir st) ?t)"
    and nd: "\<And>path. \<not> is_dir_path ?t ?k path \<Longrightarrow> descend fs (split_path path) = None"
    using find_file_catalog [OF ok(2,3) assms(3) [unfolded key] ok(4) refl, of "st_DataDir st" "db_type d" "db_now d"]
    unfolding key by blast
  have "GetFS (st_DataDir st) (d_Type ds) (d_Workspace ds) (d_Name ds) ver d = Some (Inr fs, d)"
    using ok(1) fs(1) by (simp add: GetFS_def GetRawFiles_def run_simps lift_option_def)
  moreover obtain v where "GetDatasetVersion (d_Type ds) (d_Workspace ds) (d_Name ds) ver d = Some (Inr v, d)"
    using GetDatasetVersion_run [OF ok(1) assms(2) [unfolded key] assms(4) [unfolded key]] by blast
  ultimately have "GetFSStructure st ms ds ver d = Some (Inr (Prepare fs), d)"
    by (simp add: GetFSStructure_def GetFSFromDB_def attempt_def bnd_def ret_def)
  moreover have "shows_entry (st_DataDir st) (catalog ?t ?k path) (GetFile (Prepare fs) path)"
    if "plain_comps (split_path path)" "\<not> is_dir_path ?t ?k path" for path
  proof -
    have "GetFile (Prepare fs) path = find_file (Prepare fs) (split_path path)"
      using GetFile_find [OF that(1), of "Prepare fs"] nd [OF that(2)] fs(2) by (simp add: Prepare_def go_join_split)
    also have "\<dots> = Option.bind (the_file ?t ?k path) (tree_file (st_DataDir st) ?t)" by (simp add: Prepare_def ff)
    finally show ?thesis using catalog_shown by simp
  qed
  ultimately show ?thesis by blast
qed

section \<open>Committing a version\<close>

lemma version_map:
  "map_of (fold (\<lambda>v. AList.update (v_Version v) (info_of_version v)) vs m) ver =
     (case filter (\<lambda>v. v_Version v = ver) vs of [] \<Rightarrow> map_of m ver | v # r \<Rightarrow> Some (info_of_version (last (v # r))))"
  by (induction vs arbitrary: m) (auto simp: update_conv split: list.split)

lemma version_map_names:
  assumes "\<exists>v \<in> set vs. v_Version v = ver"
  shows "\<exists>i \<in> set (map snd (fold (\<lambda>v. AList.update (v_Version v) (info_of_version v)) vs [])). vi_Version i = ver"
proof -
  let ?f = "filter (\<lambda>v. v_Version v = ver) vs"
  have ne: "?f \<noteq> []" using assms by (auto simp: filter_empty_conv)
  then have "last ?f \<in> set ?f" by (rule last_in_set)
  then have "vi_Version (info_of_version (last ?f)) = ver" by (simp add: info_of_version_def)
  moreover have "map_of (fold (\<lambda>v. AList.update (v_Version v) (info_of_version v)) vs []) ver = Some (info_of_version (last ?f))"
    using ne by (simp add: version_map split: list.split)
  ultimately show ?thesis by (force dest: map_of_SomeD)
qed

lemma Versions_run:
  assumes "db_faults d = []" and "\<not> st_HasMasters st"
  shows "\<exists>vs. Versions vless st ms ds d = Some (Inr vs, d)
    \<and> (\<forall>ver. live_version (t_dataset_versions (db_tables d)) (dataset_key ds ver) \<longrightarrow> (\<exists>v \<in> set vs. vi_Version v = ver))"
proof -
  let ?q = "blank_version\<lparr>v_Workspace := d_Workspace ds, v_Name := d_Name ds, v_Type := d_Type ds\<rparr>"
  let ?rows = "filter (\<lambda>v. match_version ?q v \<and> (\<not> v_Deleted ?q \<longrightarrow> \<not> v_Deleted v)) (t_dataset_versions (db_tables d))"
  let ?map = "fold (\<lambda>v. AList.update (v_Version v) (info_of_version v)) ?rows []"
  have "Versions vless st ms ds d = Some (Inr (sort_by (reverse_less vless) (map snd ?map)), d)"
    using assms by (simp add: Versions_def ListDatasetVersions_def run_simps bnd_def attempt_def ret_def Let_def split: option.split)
  moreover have "\<exists>v \<in> set ?rows. v_Version v = ver"
    if "live_version (t_dataset_versions (db_tables d)) (dataset_key ds ver)" for ver
    using that
    by (fastforce simp: live_version_def dataset_key_def dsv_key_def match_version_def blank_version_def opt_str_def opt_nat_def
        opt_int_def opt_bool_def)
  ultimately show ?thesis using version_map_names [of ?rows] by simp
qed

lemma live_version_map:
  assumes "live_version vs key" and "\<And>v. dsv_key (f v) = dsv_key v" and "\<And>v. v_Deleted (f v) = v_Deleted v"
  shows "live_version (map f vs) key"
  using assms by (auto simp: live_version_def)

lemma live_version_key: "live_version vs key \<Longrightarrow> key \<in> dsv_key ` set vs"
  by (auto simp: live_version_def)

lemma CommitVersion_run:
  assumes "db_faults d = []" and "\<not> st_HasMasters st" and "named_key (dataset_key ds ver)"
    and "live_version (t_dataset_versions (db_tables d)) (dataset_key ds ver)"
  shows "\<exists>v vs. CommitVersion vless st ms ds ver msg d = Some (Inr v, d\<lparr>db_tables := (db_tables d)\<lparr>t_dataset_versions := vs\<rparr>\<rparr>)
    \<and> live_version vs (dataset_key ds ver)"
proof -
  let ?vs = "map (\<lambda>v. if is_version (d_Type ds) (d_Workspace ds) (d_Name ds) ver v
      then (if msg \<noteq> [] then v\<lparr>v_Editing := False, v_Message := msg\<rparr> else v\<lparr>v_Editing := False\<rparr>) else v)
      (t_dataset_versions (db_tables d))"
  let ?d = "d\<lparr>db_tables := (db_tables d)\<lparr>t_dataset_versions := ?vs\<rparr>\<rparr>"
  have live: "live_version ?vs (dataset_key ds ver)" using assms(4) by (rule live_version_map) (simp_all add: dsv_key_def)
  obtain vs where "Versions vless st ms ds d = Some (Inr vs, d)" "\<exists>v \<in> set vs. vi_Version v = ver"
    using Versions_run [OF assms(1,2)] assms(4) by blast
  then have "ds_CheckVersion vless st ms ds ver d = Some (Inr True, d)"
    by (auto simp: ds_CheckVersion_def bnd_def attempt_def ret_def)
  moreover obtain v where "GetDatasetVersion (d_Type ds) (d_Workspace ds) (d_Name ds) ver ?d = Some (Inr v, ?d)"
    using GetDatasetVersion_run [of ?d "d_Workspace ds" "d_Type ds" "d_Name ds" ver] assms(1,3) live_version_key [OF live]
    by (auto simp: dataset_key_def)
  ultimately have "CommitVersion vless st ms ds ver msg d = Some (Inr v, ?d)"
    using assms(1) by (simp add: CommitVersion_def db_CommitVersion_def exec_def attempt_def bnd_def stmt_run ret_def)
  then show ?thesis using live by blast
qed

section \<open>Property\<close>

text \<open>A path whose elements are names, and which is no directory of the version before or after the saving.\<close>

definition tree_leaf :: "tables \<Rightarrow> version_key \<Rightarrow> file_structure \<Rightarrow> string \<Rightarrow> bool" where
  "tree_leaf t key structure path \<longleftrightarrow> plain_comps (split_path path)
     \<and> (\<forall>p \<in> set (map hf_Path structure @ map f_Path (filter (in_version key) (t_files t))).
           \<not> strict_prefix (split_path path) (split_path p))"

definition entry_after :: "tables \<Rightarrow> version_key \<Rightarrow> file_structure \<Rightarrow> string \<Rightarrow> entry option" where
  "entry_after t key structure path = (case find (\<lambda>f. hf_Path f = path) structure of
     Some f \<Rightarrow> Some (saved_entry t key f) | None \<Rightarrow> catalog t key path)"

lemma listed_files:
  "catalog t key p \<noteq> None \<longleftrightarrow> p \<in> f_Path ` set (filter (in_version key) (t_files t))"
  by (auto simp: catalog_def the_file_None image_iff)

lemma listed_after:
  assumes "\<And>path. catalog t' key path = entry_after t key structure path" and "f \<in> set (t_files t')" and "in_version key f"
  shows "f_Path f \<in> set (map hf_Path structure @ map f_Path (filter (in_version key) (t_files t)))"
proof (cases "find (\<lambda>g. hf_Path g = f_Path f) structure")
  case None
  have "catalog t' key (f_Path f) \<noteq> None" using assms(2,3) listed_files by fastforce
  then show ?thesis using None assms(1) listed_files by (simp add: entry_after_def)
next
  case (Some g)
  then have "g \<in> set structure" "hf_Path g = f_Path f" by (auto simp: find_Some_iff)
  then show ?thesis by force
qed

lemma Save_run:
  fixes d :: "'m db"
  assumes "server_ok d" and "\<not> st_HasMasters st" and "structure_ok (db_tables d) (dataset_key ds ver) structure"
    and "\<forall>f \<in> set structure. aligned (db_tables d) (dataset_key ds ver) f"
  shows "\<exists>d'. Save st ms ds structure ver comment create publish editing masterSave d = Some (Inr (), d') \<and> server_ok d'
    \<and> t_datasets (db_tables d') = t_datasets (db_tables d)
    \<and> live_version (t_dataset_versions (db_tables d')) (dataset_key ds ver)
    \<and> (\<forall>path. catalog (db_tables d') (dataset_key ds ver) path = entry_after (db_tables d) (dataset_key ds ver) structure path)"
proof -
  obtain d' where d': "SaveFSToDB st ds structure ver d = Some (Inr (), d')" "server_ok d'"
    "t_datasets (db_tables d') = t_datasets (db_tables d)" "live_version (t_dataset_versions (db_tables d')) (dataset_key ds ver)"
    and cat: "\<And>key path. catalog (db_tables d') key path = (case find (\<lambda>f. key = dataset_key ds ver \<and> hf_Path f = path) structure of
            Some f \<Rightarrow> Some (saved_entry (db_tables d) (dataset_key ds ver) f) | None \<Rightarrow> catalog (db_tables d) key path)"
    using SaveFSToDB_catalog [OF assms(1,3,4), of st] by blast
  have "Save st ms ds structure ver comment create publish editing masterSave d = Some (Inr (), d')"
    using d'(1) assms(2) by (simp add: Save_def bnd_def attempt_def ret_def)
  then show ?thesis using d'(2-4) cat by (simp add: entry_after_def)
qed

text \<open>\<^verbatim>\<open>saveFS\<close> without \<^verbatim>\<open>editing\<close>, for a dataset that is there.\<close>

lemma saveFS_run:
  fixes s :: "'m api"
  assumes req: "read_structure en req (if query_param req ''format'' = [] then ''json'' else query_param req ''format'') = Some (Inl structure)"
      "CheckVersion (en_newVersion en) (en_verString en) (path_param req ''version'') = None" "\<not> getBoolQueryParam req ''editing''"
    and env: "en_authURL en = []" "\<not> st_HasMasters (en_settings en)"
    and ds: "GetDataset (currentType req) (path_param req ''workspace'') (path_param req ''name'') (ap_db s) = Some (Inr ds, ap_db s)"
      "\<not> d_Deleted ds"
    and sok: "server_ok (ap_db s)" and ok: "structure_ok (db_tables (ap_db s)) (dataset_key ds (path_param req ''version'')) structure"
    and al: "\<forall>f \<in> set structure. aligned (db_tables (ap_db s)) (dataset_key ds (path_param req ''version'')) f"
  shows "\<exists>d dsv. saveFS en req s = Some (Inr (), s\<lparr>ap_db := d, ap_fsCache := AList.delete (fsCacheKey ds (path_param req ''version'')) (ap_fsCache s),
        ap_resp := ap_resp s @ Created (P_VersionRow dsv)\<rparr>)
    \<and> server_ok d \<and> t_datasets (db_tables d) = t_datasets (db_tables (ap_db s))
    \<and> dataset_key ds (path_param req ''version'') \<in> dsv_key ` set (t_dataset_versions (db_tables d))
    \<and> (\<forall>path. catalog (db_tables d) (dataset_key ds (path_param req ''version'')) path
          = entry_after (db_tables (ap_db s)) (dataset_key ds (path_param req ''version'')) structure path)"
proof -
  let ?ver = "path_param req ''version''" and ?st = "en_settings en" and ?d0 = "ap_db s"
  let ?k = "dataset_key ds ?ver"
  have named: "named_key ?k" using ok by (simp add: structure_ok_def)
  have new: "NewDataset (currentType req) (path_param req ''workspace'') (path_param req ''name'') ?d0 = Some (Inr ds, ?d0)"
    using ds by (simp add: NewDataset_def attempt_def ret_def)
  obtain d1 where save: "Save ?st (rq_masterclient req) ds structure ?ver (query_param req ''comment'') (getBoolQueryParam req ''create'')
      (getBoolQueryParam req ''publish'') (getBoolQueryParam req ''editing'') True ?d0 = Some (Inr (), d1)"
    and d1: "server_ok d1" "t_datasets (db_tables d1) = t_datasets (db_tables ?d0)" "live_version (t_dataset_versions (db_tables d1)) ?k"
      "\<forall>path. catalog (db_tables d1) ?k path = entry_after (db_tables ?d0) ?k structure path"
    using Save_run [OF sok env(2) ok al, of "rq_masterclient req" "query_param req ''comment''" "getBoolQueryParam req ''create''"
        "getBoolQueryParam req ''publish''" "getBoolQueryParam req ''editing''" True] by blast
  have f1: "db_faults d1 = []" using d1(1) by (simp add: server_ok_def)
  obtain v vs where commit: "CommitVersion (en_vless en) ?st (rq_masterclient req) ds ?ver (query_param req ''comment'') d1
      = Some (Inr v, d1\<lparr>db_tables := (db_tables d1)\<lparr>t_dataset_versions := vs\<rparr>\<rparr>)" and live: "live_version vs ?k"
    using CommitVersion_run [OF f1 env(2) named d1(3)] by blast
  let ?d2 = "d1\<lparr>db_tables := (db_tables d1)\<lparr>t_dataset_versions := vs\<rparr>\<rparr>"
  obtain infos where vers: "Versions (en_vless en) ?st (rq_masterclient req) ds ?d2 = Some (Inr infos, ?d2)"
    using Versions_run [of ?d2 ?st "en_vless en" "rq_masterclient req" ds] f1 env(2) by auto
  have "saveFS en req s = Some (Inr (), s\<lparr>ap_db := ?d2, ap_fsCache := AList.delete (fsCacheKey ds ?ver) (ap_fsCache s),
        ap_resp := ap_resp s @ Created (P_VersionRow v)\<rparr>)"
    using req env(1) new save commit vers
    by (simp add: saveFS_def Let_def bnd_def attempt_def or_respond_def lift_option_def check_version_def lift_err_def on_db_def ret_def
        invalidateVersionCache_def put_state_def createDatasetOnDealer_def reportNewVersion_def dataset_versions_def respond_def)
  moreover have "server_ok ?d2" using d1(1) by (simp add: server_ok_def versions_only)
  ultimately show ?thesis using d1(2,4) live_version_key [OF live]
    by (intro exI [of _ ?d2] exI [of _ v]) (simp add: versions_only)
qed


section \<open>Witness\<close>

text \<open>The tree with the files \<^verbatim>\<open>a/x\<close> and \<^verbatim>\<open>z\<close> is posted to the version that has the files \<^verbatim>\<open>a/x\<close> and \<^verbatim>\<open>y\<close>.\<close>

definition posting_env :: "(unit, string) api_env" where
  "posting_env = sample_env\<lparr>en_json := \<lambda>_. Inr sample_structure\<rparr>"

lemma rows_only:
  "the_file (t\<lparr>t_datasets := ds\<rparr>) = the_file t" "linkset (t\<lparr>t_datasets := ds\<rparr>) = linkset t"
  "chunk_refs (t\<lparr>t_datasets := ds\<rparr>) = chunk_refs t" "db_wf (t\<lparr>t_datasets := ds\<rparr>) = db_wf t"
  "catalog (t\<lparr>t_datasets := ds\<rparr>) = catalog t" "table_refs (t\<lparr>t_datasets := ds\<rparr>) = table_refs t"
  "chunks_ok (t\<lparr>t_datasets := ds\<rparr>) = chunks_ok t"
  by (auto simp: the_file_def [abs_def] linkset_def [abs_def] chunk_refs_def [abs_def] links_of_def linked_chunks_def [abs_def]
      db_wf_def catalog_def [abs_def] table_refs_def chunks_ok_def)

definition posting_tables :: tables where
  "posting_tables = db_tables (ap_db sample_api)"

lemma posting_tables_same:
  "the_file posting_tables = the_file sample_tables" "linkset posting_tables = linkset sample_tables"
  "catalog posting_tables = catalog sample_tables" "table_refs posting_tables = table_refs sample_tables"
  "db_wf posting_tables" "chunks_ok posting_tables" "t_files posting_tables = t_files sample_tables"
  using sample_tables_ok by (simp_all add: posting_tables_def sample_api_def sample_db_def rows_only versions_only)

lemma posting_links: "old_links posting_tables key p = old_links sample_tables key p"
  by (simp add: old_links_def posting_tables_same cong: option.case_cong)


end
