(* ===== verification/Mounted.thy ===== *)
theory Mounted
  imports Fuse SavedTree
begin

text \<open>
  A mounted version and the server it is mounted from, together: the tree comes from the tables of the
  server (\<^verbatim>\<open>GetFS\<close>), the chunks from its disk over gRPC (\<^verbatim>\<open>pkg/grpc\<close>), and \<^verbatim>\<open>PlukFile\<close> reads across them.
\<close>

section \<open>The calls between the two\<close>

text \<open>A call that makes the server panic fails.\<close>

definition grpc_call ::
  "('m, 'v) api_env \<Rightarrow> string \<Rightarrow> int \<Rightarrow> grpc_auth option \<Rightarrow> 'm api \<Rightarrow> byte list res \<times> 'm api" where
  "grpc_call en path version auth s =
     (case grpc_GetChunk en path version auth s of None \<Rightarrow> (Inl (Errorf ''transport is closing''), s) | Some r \<Rightarrow> r)"

text \<open>\<^verbatim>\<open>getChunkReader\<close> in a process with \<^verbatim>\<open>UseGrpc\<close>, which never looks at its own disk.\<close>

definition grpc_fetch :: "('m, 'v) api_env \<Rightarrow> auth_opts \<Rightarrow> 'm api fetch" where
  "grpc_fetch en opts = getChunkReader True (\<lambda>_ _ _. None) (grpc_client_GetChunk (grpc_call en) opts)"

text \<open>The credentials that the client sends, and a server that accepts them whatever its state is.\<close>

definition grpc_credentials :: "auth_opts \<Rightarrow> grpc_auth" where
  "grpc_credentials opts = \<lparr>ga_Token = au_Token opts, ga_Workspace = au_Workspace opts, ga_Secret = au_Secret opts\<rparr>"

definition admits :: "('m, 'v) api_env \<Rightarrow> auth_opts \<Rightarrow> bool" where
  "admits en opts \<longleftrightarrow>
     (\<forall>s. \<exists>s'. grpc_checkAuth en (Some (grpc_credentials opts)) s = Some (Inr (), s') \<and> ap_disk s' = ap_disk s)"

text \<open>A chunk that such a server has on its disk.\<close>

definition offered :: "('m, 'v) api_env \<Rightarrow> auth_opts \<Rightarrow> 'm api \<Rightarrow> string \<Rightarrow> nat \<Rightarrow> byte list option" where
  "offered en opts s p v =
     (case stored (node_of s) p of
        None \<Rightarrow> None
      | Some bs \<Rightarrow> if admits en opts \<and> \<not> has_masters en \<and> int (length bs) < 2 ^ 62 then Some bs else None)"

lemma stored_disk: "ap_disk s' = ap_disk s \<Longrightarrow> stored (node_of s') p = stored (node_of s) p"
  by (simp add: stored_def node_of_def)

lemma grpc_GetChunk_stored:
  assumes "admits en opts" and "stored (node_of s) p = Some bs" and "int (length bs) < 2 ^ 62"
  shows "\<exists>s'. grpc_GetChunk en p v (Some (grpc_credentials opts)) s = Some (Inr bs, s')"
proof -
  obtain s1 where s1: "grpc_checkAuth en (Some (grpc_credentials opts)) s = Some (Inr (), s1)" "ap_disk s1 = ap_disk s"
    using assms(1) by (auto simp: admits_def)
  have "GetChunk (en_settings en) (en_chunks en) p (nat (v mod 256)) (node_of s1) = Some (Inr (OsFile (os_open bs)), node_of s1)"
    using GetChunk_stored assms(2) stored_disk [OF s1(2)] by metis
  moreover have "\<exists>r. io_copy reader_read 32768 (OsFile (os_open bs)) [] = Some (bs, None, r)"
    using chunk_readers.io_copy_content [of "OsFile (os_open bs)" 32768 "[]"] assms(3)
    by (simp add: reader_ok_def reader_left_def os_open_def)
  ultimately show ?thesis
    using s1(1) by (auto simp: grpc_GetChunk_def bnd_def attempt_def on_node_run lift_res_def lift_option_def ret_def)
qed

text \<open>Without masters a call changes no file of the server.\<close>

lemma grpc_call_disk:
  assumes "admits en opts" and "\<not> has_masters en" and "grpc_call en p v (Some (grpc_credentials opts)) s = (x, s')"
  shows "ap_disk s' = ap_disk s"
proof -
  obtain s1 where s1: "grpc_checkAuth en (Some (grpc_credentials opts)) s = Some (Inr (), s1)" "ap_disk s1 = ap_disk s"
    using assms(1) by (auto simp: admits_def)
  show ?thesis
    using assms(2,3) s1
    by (auto simp: grpc_call_def grpc_GetChunk_def bnd_def attempt_def on_node_def GetChunk_no_master with_node_def node_of_def
        lift_res_def lift_option_def ret_def fail_def crash_def split: option.splits sum.splits prod.splits)
qed

interpretation over_grpc: chunk_source "grpc_fetch en opts" "offered en opts"
  for en :: "('m, 'v) api_env" and opts :: auth_opts
proof
  fix s :: "'m api" and p v d
  assume "offered en opts s p v = Some d"
  then have "admits en opts" "stored (node_of s) p = Some d" "int (length d) < 2 ^ 62"
    by (auto simp: offered_def split: option.splits if_splits)
  from grpc_GetChunk_stored [OF this, of "int v"]
  show "\<exists>r w'. grpc_fetch en opts p v s = Some (Inr r, w') \<and> reader_data r = d \<and> reader_pos r = 0 \<and> reader_open r"
    by (auto simp: grpc_fetch_def getChunkReader_def grpc_client_GetChunk_def grpc_call_def grpc_credentials_def NewChunkReaderFromData_def)
next
  fix s s' :: "'m api" and p v x q u b
  assume f: "grpc_fetch en opts p v s = Some (x, s')" and o: "offered en opts s q u = Some b"
  obtain y where y: "grpc_call en p (int v) (Some (grpc_credentials opts)) s = (y, s')"
    using f by (auto simp: grpc_fetch_def getChunkReader_def grpc_client_GetChunk_def grpc_credentials_def split: prod.splits sum.splits)
  have "admits en opts" "\<not> has_masters en" using o by (auto simp: offered_def split: option.splits if_splits)
  from stored_disk [OF grpc_call_disk [OF this y]] o show "offered en opts s' q u = Some b" by (simp add: offered_def)
qed


section \<open>Reading an open file\<close>

text \<open>The bytes that a sequence of reads at given lengths and offsets gives.\<close>

fun file_reads :: "'w fetch \<Rightarrow> pluk_file \<Rightarrow> (nat \<times> int) list \<Rightarrow> 'w \<Rightarrow> byte list list option" where
  "file_reads fetch f [] w = Some []"
| "file_reads fetch f ((n, off) # rs) w =
     (case PlukFile_Read fetch f n off w of
        None \<Rightarrow> None
      | Some (f', w') \<Rightarrow> map_option (Cons (PlukFile_Bytes f')) (file_reads fetch f' rs w'))"

lemma file_reads_reads: "file_reads fetch f rs w = map_option (map fst) (reads fetch (pl_chunked f) rs w)"
proof (induction rs arbitrary: f w)
  case (Cons r rs)
  obtain n off where r: "r = (n, off)" by (cases r)
  show ?case
  proof (cases "SeekAndRead fetch (pl_chunked f) n off w")
    case (Some x)
    obtain bs e c w' where x: "x = ((bs, e), c, w')" by (cases x) auto
    then show ?thesis using Some r Cons.IH [of "f\<lparr>pl_chunked := c, pl_data := bs, pl_size := length bs\<rparr>" w']
      by (simp add: PlukFile_Read_def resultData_def PlukFile_Bytes_def option.map_comp comp_def)
  qed (simp add: r PlukFile_Read_def resultData_def)
qed simp

text \<open>The content of a listed file: its chunk files, one after the other, each of its recorded size.\<close>

definition entry_data :: "string \<Rightarrow> 'm node \<Rightarrow> entry \<Rightarrow> byte list" where
  "entry_data dataDir nd e = concat (map (\<lambda>r. stored_data nd (chunk_at dataDir r)) (e_Chunks e))"

definition entry_stored :: "string \<Rightarrow> 'm node \<Rightarrow> entry \<Rightarrow> bool" where
  "entry_stored dataDir nd e \<longleftrightarrow>
     list_all (\<lambda>r. stored nd (ck_Path (chunk_at dataDir r)) \<noteq> None \<and> h_Size r = int (length (stored_data nd (chunk_at dataDir r)))) (e_Chunks e)
     \<and> e_Size e = int (length (entry_data dataDir nd e)) \<and> e_Size e < 2 ^ 62"

lemma offered_file:
  assumes e: "entry_stored dataDir (node_of s) e" and srv: "admits en opts" "\<not> has_masters en"
    and f: "f = new_file (map (chunk_at dataDir) (e_Chunks e)) name (e_Size e) mode False time"
  shows "chunk_source.file_content (offered en opts) s f = entry_data dataDir (node_of s) e"
    and "chunk_source.file_ok (offered en opts) s f" and "chunk_source.file_inv (offered en opts) s f"
proof -
  have small: "length (stored_data (node_of s) (chunk_at dataDir r)) \<le> length (entry_data dataDir (node_of s) e)" if "r \<in> set (e_Chunks e)" for r
    using length_concat_map_ge [OF that, of "\<lambda>r. stored_data (node_of s) (chunk_at dataDir r)"] by (simp add: entry_data_def)
  have off: "offered en opts s (ck_Path (chunk_at dataDir r)) v = Some (stored_data (node_of s) (chunk_at dataDir r))"
    if "r \<in> set (e_Chunks e)" for r v
  proof -
    have "stored (node_of s) (ck_Path (chunk_at dataDir r)) \<noteq> None" using e that by (simp add: entry_stored_def list_all_iff)
    then obtain bs where "stored (node_of s) (ck_Path (chunk_at dataDir r)) = Some bs" by blast
    then show ?thesis using small [OF that] e srv by (auto simp: offered_def stored_data_def entry_stored_def)
  qed
  have data: "chunk_source.chunk_data (offered en opts) s (chunk_at dataDir r) = stored_data (node_of s) (chunk_at dataDir r)" if "r \<in> set (e_Chunks e)" for r
    using off [OF that] by (simp add: over_grpc.chunk_data_def)
  have m: "map (chunk_source.chunk_data (offered en opts) s) (map (chunk_at dataDir) (e_Chunks e)) = map (\<lambda>r. stored_data (node_of s) (chunk_at dataDir r)) (e_Chunks e)"
    using data by simp
  show c: "chunk_source.file_content (offered en opts) s f = entry_data dataDir (node_of s) e"
    unfolding over_grpc.file_content_def entry_data_def m [symmetric] by (simp add: f new_file_def)
  show "chunk_source.file_ok (offered en opts) s f"
    using off data c e unfolding over_grpc.file_ok_def
    by (auto simp: f new_file_def entry_stored_def list_all_iff chunk_at_def)
  show "chunk_source.file_inv (offered en opts) s f" by (auto simp: over_grpc.file_inv_def f new_file_def)
qed


lemma prepared_file:
  assumes "server_ok d" and "paths_ok (db_tables d) (ws, ty, ds, ver)" and "ver \<noteq> []" and "plain_comps (split_path path)"
    and "\<not> is_dir_path (db_tables d) (ws, ty, ds, ver) path" and tree: "GetFS dataDir ty ws ds ver d = Some (Inr tree, d)"
  shows "GetFile (Prepare tree) path = Option.bind (the_file (db_tables d) (ws, ty, ds, ver) path) (tree_file dataDir (db_tables d))"
proof -
  let ?raws = "raw_files (db_type d) ty ws ds ver [] False (db_tables d)"
  have ok: "db_faults d = []" "db_wf (db_tables d)" "chunks_ok (db_tables d)" using assms(1) by (simp_all add: server_ok_def)
  obtain fs where fs: "put_raws dataDir ?raws (new_fs ?raws (db_now d)) = Some fs" "fs_Root fs = ''/''"
    and ff: "find_file fs (split_path path) = Option.bind (the_file (db_tables d) (ws, ty, ds, ver) path) (tree_file dataDir (db_tables d))"
    and nd: "descend fs (split_path path) = None"
    using find_file_catalog [OF ok(2,3) assms(2,3) refl, of dataDir "db_type d" "db_now d"] assms(5) by blast
  have "tree = fs" using tree ok(1) fs(1) by (simp add: GetFS_def GetRawFiles_def run_simps lift_option_def)
  then show ?thesis
    using GetFile_find [OF assms(4), of "Prepare fs"] nd fs(2) ff by (simp add: Prepare_def go_join_split)
qed

section \<open>Properties\<close>

text \<open>The version that is mounted: \<open>dataset\<close> also where no type is given.\<close>

definition mounted_key :: "string \<Rightarrow> string \<Rightarrow> string \<Rightarrow> string \<Rightarrow> version_key" where
  "mounted_key dsType workspace dataset version = (workspace, if dsType = [] then ''dataset'' else dsType, dataset, version)"



section \<open>Witness\<close>

definition mounted_api :: "unit api" where
  "mounted_api = sample_api\<lparr>ap_db := sample_db sample_tables,
     ap_disk := \<lparr>dk_files = [(''/d/aa/bb/ccdd'', [1, 2, 3]), (''/d/11/22/3344'', [4, 5])], dk_dirs = [], dk_denied = []\<rparr>\<rparr>"

definition answering :: "fs \<Rightarrow> nat client" where
  "answering tree = live_master\<lparr>cl_GetFSStructure := \<lambda>_ _ _ _ m. ((Some tree, None), m)\<rparr>"

lemma sample_admits: "admits sample_env opts"
  by (simp add: admits_def grpc_checkAuth_def CheckAuth_def sample_env_def sample_settings_of_def Let_def ret_def)


end
