(* ===== verification/SlaveTree.thy ===== *)
theory SlaveTree
  imports Mounted Tar
begin

text \<open>
  A slave that is asked for a version it does not have: it gets the tree from its master, walks over it,
  saves what it finds in its own tables (\<open>SaveFSLocally\<close>) and hands the tree on.
\<close>

section \<open>What the walk collects\<close>

lemma files_of_prepared: "files_of pre (prepare_as a fs) = files_of pre fs"
proof (induction pre fs arbitrary: a rule: files_of.induct)
  case (1 pre r b ds fls t)
  have "map (\<lambda>(k, d). files_of (pre @ [k]) (prepare_as (Some (dirObj k (fs_ModTime d))) d)) ds
      = map (\<lambda>(k, d). files_of (pre @ [k]) d) ds"
    using 1 by (intro map_cong) (auto split: prod.splits)
  then show ?case by (simp add: comp_def case_prod_unfold cong: map_cong)
qed

lemma fs_wf_prepared: "fs_wf pre (prepare_as a fs) = fs_wf pre fs"
proof (induction pre fs arbitrary: a rule: fs_wf.induct)
  case (1 pre r b ds fls t)
  have "\<forall>(k, d) \<in> set ds. fs_wf (pre @ [k]) (prepare_as (Some (dirObj k (fs_ModTime d))) d) = fs_wf (pre @ [k]) d"
    using 1 by auto
  then show ?case by (auto simp: comp_def case_prod_unfold)
qed

lemma collect_visits:
  "foldl (\<lambda>dest (p, f). if cf_Dir f then dest else dest @ [hashed_of_file st p f]) acc vs
     = acc @ map (\<lambda>(p, f). hashed_of_file st p f) (filter (\<lambda>(p, f). \<not> cf_Dir f) vs)"
  by (induction vs arbitrary: acc) auto

definition collected :: "settings \<Rightarrow> fs \<Rightarrow> file_structure" where
  "collected st fs = map (\<lambda>(cs, f). hashed_of_file st (visit_path cs) f) (files_of [] fs)"

lemma Walk_collects:
  assumes "fs_wf [] fs"
  shows "Walk (collect_file st) fs ''/'' [] = Some (None, collected st fs)"
proof -
  have root: "fs_Root fs = ''/''" using assms by (cases fs) simp
  have "collect_file st = (\<lambda>p f s. Some (None, if cf_Dir f then s else s @ [hashed_of_file st p f]))"
    by (intro ext) (simp add: collect_file_def)
  then have "Walk (collect_file st) fs ''/'' [] = Some (None, map (\<lambda>(p, f). hashed_of_file st p f) (filter (\<lambda>(p, f). \<not> cf_Dir f) (visits fs)))"
    by (simp add: Walk_root [OF root] run_visits_pure collect_visits)
  also have "filter (\<lambda>(p, f). \<not> cf_Dir f) (visits fs) = map (\<lambda>(cs, f). (visit_path cs, f)) (files_of [] fs)"
    using visits_files [OF assms] by simp
  finally show ?thesis by (simp add: collected_def comp_def case_prod_unfold)
qed

lemma trim_visit_path:
  assumes "plain_comps cs"
  shows "trim_prefix (visit_path cs) ''/'' = join_path cs"
proof (cases "length cs = 1")
  case True
  then obtain c where "cs = [c]" by (cases cs) auto
  then show ?thesis by (simp add: visit_path_def trim_prefix_def)
next
  case False
  have "\<not> prefix ''/'' (join_path cs)"
    using hd_join_plain [OF assms] join_plain_nonempty [OF assms] by (cases "join_path cs") auto
  then show ?thesis using False by (simp add: visit_path_def trim_prefix_def)
qed

section \<open>The tree of a master\<close>

text \<open>The tree as a slave gets it: at each path the file of the master's tables.\<close>

lemma master_tree:
  assumes ok: "server_ok dm" and named: "named_key (dataset_key ds ver)" and paths: "paths_ok (db_tables dm) (dataset_key ds ver)"
    and there: "dataset_key ds ver \<in> dsv_key ` set (t_dataset_versions (db_tables dm))"
  shows "\<exists>src. GetFSStructure st ms ds ver dm = Some (Inr src, dm) \<and> fs_wf [] src
    \<and> (\<forall>cs f. (cs, f) \<in> set (files_of [] src) \<longleftrightarrow>
          (\<exists>row. the_file (db_tables dm) (dataset_key ds ver) (join_path cs) = Some row \<and> cs = split_path (f_Path row)
             \<and> tree_file (st_DataDir st) (db_tables dm) row = Some f))"
proof -
  let ?t = "db_tables dm" and ?k = "dataset_key ds ver"
  let ?raws = "raw_files (db_type dm) (d_Type ds) (d_Workspace ds) (d_Name ds) ver [] False ?t"
  have o: "db_faults dm = []" "db_wf ?t" "chunks_ok ?t" "ver \<noteq> []"
    using ok named by (simp_all add: server_ok_def named_key_def dataset_key_def)
  note key = dataset_key_def [of ds ver]
  obtain fs where fs: "put_raws (st_DataDir st) ?raws (new_fs ?raws (db_now dm)) = Some fs"
    and ff: "\<And>path. find_file fs (split_path path) = Option.bind (the_file ?t ?k path) (tree_file (st_DataDir st) ?t)"
    using find_file_catalog [OF o(2,3) paths [unfolded key] o(4) refl, of "st_DataDir st" "db_type dm" "db_now dm"] unfolding key by blast
  have rok: "\<forall>r \<in> set ?raws. raw_ok r" using raw_files_ok [OF o(3) paths [unfolded key] o(4)] .
  have wf: "fs_wf [] fs" using put_raws_wf [OF _ rok fs] by (simp add: new_fs_def new_dir_def split: list.split)
  obtain v where v: "GetDatasetVersion (d_Type ds) (d_Workspace ds) (d_Name ds) ver dm = Some (Inr v, dm)"
    using GetDatasetVersion_run [OF o(1) named [unfolded key] there [unfolded key]] by blast
  have "GetFS (st_DataDir st) (d_Type ds) (d_Workspace ds) (d_Name ds) ver dm = Some (Inr fs, dm)"
    using o(1) fs by (simp add: GetFS_def GetRawFiles_def run_simps lift_option_def)
  then have get: "GetFSStructure st ms ds ver dm = Some (Inr (Prepare fs), dm)"
    using v by (simp add: GetFSStructure_def GetFSFromDB_def attempt_def bnd_def ret_def)
  have "(cs, f) \<in> set (files_of [] fs) \<longleftrightarrow>
      (\<exists>row. the_file ?t ?k (join_path cs) = Some row \<and> cs = split_path (f_Path row) \<and> tree_file (st_DataDir st) ?t row = Some f)" for cs f
  proof -
    have "(cs, f) \<in> set (files_of [] fs) \<longleftrightarrow> find_file fs cs = Some f" using files_of_find [OF wf, of cs f] by simp
    also have "\<dots> \<longleftrightarrow> (\<exists>row. the_file ?t ?k (join_path cs) = Some row \<and> cs = split_path (f_Path row) \<and> tree_file (st_DataDir st) ?t row = Some f)"
    proof
      assume f: "find_file fs cs = Some f"
      note r = find_file_of_version(1) [OF rok fs, of cs]
      have "filter (\<lambda>raw. split_path (r_Path raw) = cs) ?raws \<noteq> []" using f unfolding r by (auto simp: file_of_raws_def)
      then obtain raw where "raw \<in> set ?raws" "split_path (r_Path raw) = cs" by (auto simp: filter_empty_conv)
      then have "split_path (join_path cs) = cs" by (metis go_join_split)
      then show "\<exists>row. the_file ?t ?k (join_path cs) = Some row \<and> cs = split_path (f_Path row) \<and> tree_file (st_DataDir st) ?t row = Some f"
        using ff [of "join_path cs"] f by (cases "the_file ?t ?k (join_path cs)") (auto dest: the_file_SomeD)
    next
      assume "\<exists>row. the_file ?t ?k (join_path cs) = Some row \<and> cs = split_path (f_Path row) \<and> tree_file (st_DataDir st) ?t row = Some f"
      then obtain row where row: "the_file ?t ?k (join_path cs) = Some row" "cs = split_path (f_Path row)" "tree_file (st_DataDir st) ?t row = Some f"
        by blast
      then have "split_path (join_path cs) = cs" by (simp add: go_join_split)
      then show "find_file fs cs = Some f" using ff [of "join_path cs"] row(1,3) by simp
    qed
    finally show ?thesis .
  qed
  then show ?thesis using get wf by (intro exI [of _ "Prepare fs"]) (simp add: Prepare_def files_of_prepared fs_wf_prepared)
qed

section \<open>What the slave saves\<close>

text \<open>What is known of a version on the master that a slave copies: paths that make a tree, and modes of 32 bits.\<close>

definition sound_version :: "'m db \<Rightarrow> version_key \<Rightarrow> bool" where
  "sound_version dm key \<longleftrightarrow> server_ok dm \<and> named_key key \<and> paths_ok (db_tables dm) key
     \<and> key \<in> dsv_key ` set (t_dataset_versions (db_tables dm)) \<and> (\<forall>f \<in> set (t_files (db_tables dm)). f_Mode f < 2 ^ 32)"

text \<open>A slave that has nothing of the version, and no chunk of the same hash with another size.\<close>

definition without_version :: "'m db \<Rightarrow> version_key \<Rightarrow> 'n db \<Rightarrow> bool" where
  "without_version d key dm \<longleftrightarrow> server_ok d \<and> key \<notin> dsv_key ` set (t_dataset_versions (db_tables d))
     \<and> (\<forall>f \<in> set (t_files (db_tables d)). \<not> in_version key f) \<and> agree (table_refs (db_tables d) \<union> table_refs (db_tables dm))"

text \<open>An empty file has no chunks and is in no tree.\<close>

definition with_chunks :: "entry option \<Rightarrow> entry option" where
  "with_chunks e = (case e of None \<Rightarrow> None | Some e \<Rightarrow> if e_Chunks e = [] then None else Some e)"

lemma chunk_refs_from: "set (chunk_refs t i) \<subseteq> table_refs t"
  by (auto simp: chunk_refs_def linked_chunks_def table_refs_def)

lemma hashes_read_back:
  assumes "chunks_ok t"
  shows "map (\<lambda>c. case GetHashFromPath dataDir (ck_Path c) of (hash, version) \<Rightarrow> \<lparr>h_Hash = hash, h_Size = ck_Size c, h_Version = version\<rparr>)
      (map (chunk_at dataDir) (chunk_refs t i)) = chunk_refs t i"
proof -
  have "(case GetHashFromPath dataDir (ck_Path (chunk_at dataDir r)) of (hash, version) \<Rightarrow> \<lparr>h_Hash = hash, h_Size = ck_Size (chunk_at dataDir r), h_Version = version\<rparr>) = r"
    if "r \<in> set (chunk_refs t i)" for r
  proof -
    have "good_hash (h_Hash r)" "h_Version r \<le> 2"
      using that chunk_refs_from [of t i] assms by (auto simp: table_refs_def chunks_ok_def ref_of_def)
    moreover from this obtain p where "GetHashedFilename dataDir (h_Hash r) (h_Version r) = Some p" using good_hash_filename by blast
    ultimately show ?thesis using hashed_filename_inverse by (simp add: chunk_at_def)
  qed
  then show ?thesis by (simp add: map_idI)
qed

text \<open>The structure that the walk gives: one entry for each file with chunks.\<close>

definition structure_lists :: "file_structure \<Rightarrow> tables \<Rightarrow> version_key \<Rightarrow> bool" where
  "structure_lists structure t key \<longleftrightarrow> distinct (map hf_Path structure)
     \<and> (\<forall>f \<in> set structure. \<exists>row. the_file t key (hf_Path f) = Some row \<and> hf_Size f = f_Size row \<and> hf_Mode f = f_Mode row
           \<and> hf_Hashes f = chunk_refs t (f_ID row) \<and> chunk_refs t (f_ID row) \<noteq> [])
     \<and> (\<forall>path row. the_file t key path = Some row \<longrightarrow> chunk_refs t (f_ID row) \<noteq> [] \<longrightarrow> path \<in> hf_Path ` set structure)"

lemma collected_lists:
  assumes wf: "fs_wf [] src" and ok: "chunks_ok t" and paths: "paths_ok t key"
    and files: "\<And>cs f. (cs, f) \<in> set (files_of [] src) \<longleftrightarrow>
          (\<exists>row. the_file t key (join_path cs) = Some row \<and> cs = split_path (f_Path row) \<and> tree_file (st_DataDir st) t row = Some f)"
  shows "structure_lists (collected st src) t key"
proof -
  have plain: "plain_comps cs" if "(cs, f) \<in> set (files_of [] src)" for cs f
    using that paths unfolding files paths_ok_def by (auto dest: the_file_SomeD)
  have path: "hf_Path (hashed_of_file st (visit_path cs) f) = join_path cs" if "(cs, f) \<in> set (files_of [] src)" for cs f
    using trim_visit_path [OF plain [OF that]] by (simp add: hashed_of_file_def)
  have "map hf_Path (collected st src) = map (\<lambda>(cs, f). join_path cs) (files_of [] src)"
    using path by (simp add: collected_def comp_def case_prod_unfold)
  also have "\<dots> = map join_path (map fst (files_of [] src))" by (simp add: comp_def case_prod_unfold)
  finally have paths_eq: "map hf_Path (collected st src) = map join_path (map fst (files_of [] src))" .
  have "inj_on join_path (fst ` set (files_of [] src))"
  proof (rule inj_onI)
    fix a b assume ab: "a \<in> fst ` set (files_of [] src)" "b \<in> fst ` set (files_of [] src)" "join_path a = join_path b"
    then have "plain_comps a" "plain_comps b" using plain by auto
    then show "a = b" using ab(3) split_join_plain by metis
  qed
  then have "distinct (map hf_Path (collected st src))"
    unfolding paths_eq using files_of_distinct [OF wf] by (simp add: distinct_map comp_inj_on)
  moreover have "\<exists>row. the_file t key (hf_Path g) = Some row \<and> hf_Size g = f_Size row \<and> hf_Mode g = f_Mode row
           \<and> hf_Hashes g = chunk_refs t (f_ID row) \<and> chunk_refs t (f_ID row) \<noteq> []" if "g \<in> set (collected st src)" for g
  proof -
    obtain cs f where g: "g = hashed_of_file st (visit_path cs) f" "(cs, f) \<in> set (files_of [] src)"
      using \<open>g \<in> set (collected st src)\<close> by (auto simp: collected_def)
    obtain row where row: "the_file t key (join_path cs) = Some row" "tree_file (st_DataDir st) t row = Some f"
      using g(2) unfolding files by blast
    then have f: "chunk_refs t (f_ID row) \<noteq> []" "f = new_file (map (chunk_at (st_DataDir st)) (chunk_refs t (f_ID row)))
        (last (split_path (f_Path row))) (f_Size row) (f_Mode row) False (f_UpdatedAt row)"
      by (auto simp: tree_file_def split: if_splits)
    have "hf_Hashes g = chunk_refs t (f_ID row)"
      using hashes_read_back [OF ok, of "st_DataDir st" "f_ID row"] by (simp add: g(1) f(2) hashed_of_file_def new_file_def)
    then show ?thesis using row(1) f path [OF g(2)] by (simp add: g(1) hashed_of_file_def new_file_def)
  qed
  moreover have "p \<in> hf_Path ` set (collected st src)" if row: "the_file t key p = Some row" and some: "chunk_refs t (f_ID row) \<noteq> []" for p row
  proof -
    obtain f where f: "tree_file (st_DataDir st) t row = Some f" using some by (simp add: tree_file_def)
    have p: "f_Path row = p" using row by (auto dest: the_file_SomeD)
    have "(split_path p, f) \<in> set (files_of [] src)" unfolding files using row f p by (auto simp: go_join_split)
    then have "join_path (split_path p) \<in> set (map hf_Path (collected st src))" unfolding paths_eq by force
    then show ?thesis by (simp add: go_join_split)
  qed
  ultimately show ?thesis unfolding structure_lists_def by blast
qed

lemma fresh_version_files:
  assumes "\<forall>f \<in> set (t_files t). \<not> in_version key f"
  shows "the_file t key p = None" "old_links t key p = {}" "catalog t key p = None"
proof -
  show none: "the_file t key p = None" using assms by (simp add: the_file_None)
  show "old_links t key p = {}" "catalog t key p = None" by (simp_all add: none old_links_def catalog_def)
qed

lemma structure_fits:
  assumes "structure_lists structure (db_tables dm) key" and "sound_version dm key" and "without_version d key dm"
  shows "structure_ok (db_tables d) key structure" "\<forall>f \<in> set structure. aligned (db_tables d) key f"
proof -
  have refs: "structure_refs structure \<subseteq> table_refs (db_tables dm)"
    using assms(1) chunk_refs_from unfolding structure_lists_def structure_refs_def by fastforce
  have "[] \<notin> hf_Path ` set structure"
  proof
    assume "[] \<in> hf_Path ` set structure"
    then obtain f row where "the_file (db_tables dm) key [] = Some row" using assms(1) unfolding structure_lists_def by (metis imageE)
    then have "plain_comps (split_path [])" using assms(2) by (auto simp: sound_version_def paths_ok_def dest!: the_file_SomeD)
    then show False by (simp add: plain_comp_def)
  qed
  moreover have "good_hash (h_Hash r) \<and> h_Version r \<le> 2" if "r \<in> structure_refs structure" for r
    using that refs assms(2) by (auto simp: sound_version_def server_ok_def chunks_ok_def table_refs_def ref_of_def)
  moreover have "agree (table_refs (db_tables d) \<union> structure_refs structure)"
    using refs assms(3) unfolding without_version_def agree_def by blast
  ultimately show "structure_ok (db_tables d) key structure"
    using assms(1,2) by (auto simp: structure_ok_def structure_lists_def sound_version_def)
  show "\<forall>f \<in> set structure. aligned (db_tables d) key f"
    using fresh_version_files(2) assms(3) by (auto simp: aligned_def kept_def without_version_def)
qed

text \<open>The entry that is saved for a file is that of the master.\<close>

lemma saved_as_on_master:
  assumes "structure_lists structure t key" and "\<forall>f \<in> set (t_files t). f_Mode f < 2 ^ 32" and "\<forall>f \<in> set (t_files t'). \<not> in_version key f"
  shows "(case find (\<lambda>f. hf_Path f = path) structure of Some f \<Rightarrow> Some (saved_entry t' key f) | None \<Rightarrow> None)
    = with_chunks (catalog t key path)"
proof (cases "find (\<lambda>f. hf_Path f = path) structure")
  case None
  then have "path \<notin> hf_Path ` set structure" by (auto simp: find_None_iff)
  then show ?thesis using None assms(1) unfolding structure_lists_def
    by (cases "the_file t key path") (auto simp: with_chunks_def catalog_def)
next
  case (Some f)
  then have f: "f \<in> set structure" "hf_Path f = path" by (auto simp: find_Some_iff)
  obtain row where row: "the_file t key path = Some row" "hf_Size f = f_Size row" "hf_Mode f = f_Mode row"
    "hf_Hashes f = chunk_refs t (f_ID row)" "chunk_refs t (f_ID row) \<noteq> []"
    using assms(1) f unfolding structure_lists_def by blast
  have "f_Mode row < 2 ^ 32" using assms(2) row(1) by (auto dest: the_file_SomeD)
  then show ?thesis
    using Some row fresh_version_files(1) [OF assms(3)]
    by (simp add: with_chunks_def catalog_def saved_entry_def saved_mode_def)
qed

text \<open>
  The data directory matters: a slave with another one than its master's takes the directory of the master
  for a part of each hash.
\<close>

lemma other_data_dir_changes_the_hash:
  assumes "good_hash h" and "v \<le> 2" and "GetHashedFilename dir h v = Some p" and "\<not> prefix dir' p"
  shows "fst (GetHashFromPath dir' p) = remove_char (CHR ''/'') dir @ h"
proof -
  obtain tail where p: "p = dir @ tail"
    using assms(2,3) by (auto simp: GetHashedFilename_def bind_eq_Some_conv split: if_splits)
  have "fst (GetHashFromPath dir p) = h" using hashed_filename_inverse [OF assms(1-3)] by simp
  then have "remove_char (CHR ''/'') tail = h" by (simp add: GetHashFromPath_def Let_def p)
  then show ?thesis using assms(4) by (simp add: GetHashFromPath_def Let_def trim_prefix_def p remove_char_append)
qed

section \<open>The property\<close>


section \<open>Witness\<close>

text \<open>A slave that has nothing yet, in front of a master with one version.\<close>

definition empty_slave :: "nat db" where
  "empty_slave = \<lparr>db_tables = \<lparr>t_files = [], t_chunks = [], t_file_chunks = [], t_datasets = [], t_dataset_versions = []\<rparr>,
     db_type = ''sqlite3'', db_saved = [], db_faults = [], db_now = 9, db_chunksBuf = [], db_deleteCh = [], db_gc = [], db_hub = [], db_remote = 0\<rparr>"

definition slave_of_one :: settings where
  "slave_of_one = (sample_settings_of ''/d'')\<lparr>st_HasMasters := True\<rparr>"

lemma empty_slave_ok: "without_version empty_slave (dataset_key sample_dataset ''1.0.0'') versioned_db"
proof -
  have "table_refs (db_tables empty_slave) = {}" by (simp add: table_refs_def empty_slave_def)
  moreover have "agree (table_refs (db_tables versioned_db))"
    by (simp add: agree_def table_refs_def versioned_db_ok(4) sample_tables_def ref_of_def)
  moreover have "server_ok empty_slave"
    by (simp add: server_ok_def empty_slave_def db_wf_def chunks_ok_def)
  ultimately show ?thesis by (simp add: without_version_def) (simp add: empty_slave_def)
qed

lemma versioned_db_sound: "sound_version versioned_db (dataset_key sample_dataset ''1.0.0'')"
proof -
  have "paths_ok (db_tables versioned_db) (dataset_key sample_dataset ''1.0.0'')"
    using sample_tables_ok(3) by (simp add: versioned_db_ok(4) sample_key paths_ok_def)
  moreover have "\<forall>f \<in> set (t_files (db_tables versioned_db)). f_Mode f < 2 ^ 32"
    by (simp add: versioned_db_ok(4) sample_tables_def blank_file_def)
  ultimately show ?thesis using versioned_db_ok(1-3) by (simp add: sound_version_def)
qed


end
