(* ===== verification/Integrity.thy ===== *)
theory Integrity
  imports ServerInvariants
begin

text \<open>
  The tables stay well formed: keys and unique indexes, and no link without its file or its chunk.
\<close>

section \<open>The laws of well-formed tables\<close>

lemma next_id_new: "next_id ids \<notin> set ids" "next_id ids \<noteq> 0"
proof -
  have "foldl max m xs \<ge> m \<and> (\<forall>x \<in> set xs. x \<le> foldl max m xs)" for m and xs :: "nat list"
    by (induction xs arbitrary: m) (simp, metis (no_types, lifting) foldl_Cons insert_iff list.simps(15) max.bounded_iff)
  then have "\<forall>x \<in> set ids. x \<le> foldl max 0 ids" by blast
  then show "next_id ids \<notin> set ids" unfolding next_id_def by (metis Suc_n_not_le_n)
qed (simp add: next_id_def)

lemma map_map_same: "(\<And>x. g (h x) = g x) \<Longrightarrow> map g (map h xs) = map g xs"
  by simp

lemma upsert_file_wf:
  assumes "distinct (map f_ID rows)" and "distinct (map file_key rows)" and "0 \<notin> set (map f_ID rows)"
  shows "distinct (map f_ID (upsert_file f rows)) \<and> distinct (map file_key (upsert_file f rows)) \<and> 0 \<notin> set (map f_ID (upsert_file f rows))"
proof (cases "\<exists>g \<in> set rows. same_file g f")
  case True
  let ?h = "\<lambda>g. if same_file g f then g\<lparr>f_Size := f_Size f\<rparr> else g"
  have "map f_ID (map ?h rows) = map f_ID rows" "map file_key (map ?h rows) = map file_key rows"
    by (rule map_map_same, simp add: file_key_def)+
  then show ?thesis using True assms by (simp add: upsert_file_def del: map_map)
next
  case False
  then have "file_key f \<notin> file_key ` set rows" by (auto simp: same_file_def)
  moreover have "file_key (f\<lparr>f_ID := i\<rparr>) = file_key f" for i by (simp add: file_key_def)
  ultimately show ?thesis using False assms next_id_new [of "map f_ID rows"] by (auto simp: upsert_file_def)
qed

lemma upsert_chunk_wf:
  assumes "distinct (map c_ID rows)" and "distinct (map c_Hash rows)" and "0 \<notin> set (map c_ID rows)" and "keeps_chunk upd"
  shows "distinct (map c_ID (upsert_chunk upd c rows)) \<and> distinct (map c_Hash (upsert_chunk upd c rows)) \<and> 0 \<notin> set (map c_ID (upsert_chunk upd c rows))"
proof (cases "c_Hash c \<in> set (map c_Hash rows)")
  case True
  let ?h = "\<lambda>g. if c_Hash g = c_Hash c then upd g else g"
  have "map c_ID (map ?h rows) = map c_ID rows" "map c_Hash (map ?h rows) = map c_Hash rows"
    by (rule map_map_same, use assms(4) in \<open>simp add: keeps_chunk_def\<close>)+
  then show ?thesis using True assms by (simp add: upsert_chunk_def del: map_map)
next
  case False
  then show ?thesis using assms next_id_new [of "map c_ID rows"] by (auto simp: upsert_chunk_def)
qed

lemma db_wf_parts:
  "db_wf (t\<lparr>t_datasets := ds\<rparr>) = db_wf t" "db_wf (t\<lparr>t_dataset_versions := vs\<rparr>) = db_wf t"
  "db_wf t \<Longrightarrow> db_wf (t\<lparr>t_file_chunks := filter P (t_file_chunks t)\<rparr>)"
  by (auto simp: db_wf_def)

lemma db_wf_drop_files:
  assumes "db_wf t" and "\<And>f. f \<in> set (t_files t) \<Longrightarrow> \<not> W f \<Longrightarrow> f_ID f \<notin> l_FileID ` set (t_file_chunks t)"
  shows "db_wf (t\<lparr>t_files := filter W (t_files t)\<rparr>)"
proof -
  have "l_FileID l \<in> f_ID ` set (filter W (t_files t))" if l: "l \<in> set (t_file_chunks t)" for l
  proof -
    obtain f where f: "f \<in> set (t_files t)" "l_FileID l = f_ID f" using assms(1) l by (auto simp: db_wf_def)
    then have "W f" using assms(2) [OF f(1)] l by (metis imageI)
    then show ?thesis using f by auto
  qed
  then show ?thesis using assms(1) by (auto simp: db_wf_def distinct_map_filter)
qed

lemma db_wf_drop_chunks:
  assumes "db_wf t" and "\<And>c. c \<in> set (t_chunks t) \<Longrightarrow> \<not> V c \<Longrightarrow> c_ID c \<notin> l_ChunkID ` set (t_file_chunks t)"
  shows "db_wf (t\<lparr>t_chunks := filter V (t_chunks t)\<rparr>)"
proof -
  have "swept t (t\<lparr>t_chunks := filter V (t_chunks t)\<rparr>)" using assms(2) by (auto simp: swept_def)
  then show ?thesis using assms(1) by (rule swept_wf)
qed

lemma db_wf_put_file:
  assumes "db_wf t"
  shows "db_wf (t\<lparr>t_files := upsert_file f (t_files t)\<rparr>)"
  using assms upsert_file_wf [of "t_files t" f] upsert_file_ids [of "t_files t" f] by (auto simp: db_wf_def)

lemma db_wf_put_chunk:
  assumes "db_wf t" and "keeps_chunk upd"
  shows "db_wf (t\<lparr>t_chunks := upsert_chunk upd c (t_chunks t)\<rparr>)"
  using assms upsert_chunk_wf [of "t_chunks t" upd c] upsert_chunk_ids(1) [OF assms(2), of "t_chunks t" c] by (auto simp: db_wf_def)

interpretation wf: table_invariant db_wf "\<lambda>_. True"
proof unfold_locales
  fix t :: tables and l :: file_chunk
  assume "db_wf t" "l_FileID l \<in> f_ID ` set (t_files t)" "l_ChunkID l \<in> backed t"
  then show "db_wf (t\<lparr>t_file_chunks := insert_link l (t_file_chunks t)\<rparr>)"
    by (auto simp: db_wf_def insert_link_def backed_def)
qed (auto simp: db_wf_parts db_wf_put_file db_wf_put_chunk intro: db_wf_drop_files db_wf_drop_chunks)

section \<open>Properties\<close>

definition intact :: "'m db \<Rightarrow> bool" where
  "intact d \<longleftrightarrow> db_wf (db_tables d) \<and> list_all db_wf (db_saved d)"

lemma intact_steady: "intact d = steady db_wf d"
  by (simp add: intact_def holding_def)


section \<open>Witness\<close>

text \<open>
  A file is to be deleted. First the statement that deletes its row fails, after the one that deletes its
  links: the request is answered with an error and everything is back. Then it is deleted.
\<close>

definition failing_api :: "unit api" where
  "failing_api = sample_api\<lparr>ap_db := (ap_db sample_api)\<lparr>db_remote := (), db_now := 7, db_faults := [None, None, None, None, Some Db_Error]\<rparr>\<rparr>"

lemma delete_requests:
  "\<exists>s1. serve sample_env True (DELETE ''/{entityType}/{workspace}/{name}/versions/{version}/upload/{path:*}'' deleteDatasetFile) sample_request
       (failing_api\<lparr>ap_resp := []\<rparr>) = Some (Inr (), s1)
     \<and> http_status (ap_resp s1) = 500 \<and> length (t_file_chunks (db_tables (ap_db s1))) = 3 \<and> length (t_files (db_tables (ap_db s1))) = 2
     \<and> (\<exists>s2. serve sample_env True (DELETE ''/{entityType}/{workspace}/{name}/versions/{version}/upload/{path:*}'' deleteDatasetFile) sample_request
         (s1\<lparr>ap_resp := []\<rparr>) = Some (Inr (), s2)
       \<and> http_status (ap_resp s2) = 204 \<and> length (t_file_chunks (db_tables (ap_db s2))) = 2 \<and> length (t_files (db_tables (ap_db s2))) = 1)"
proof -
  let ?rt = "DELETE ''/{entityType}/{workspace}/{name}/versions/{version}/upload/{path:*}'' deleteDatasetFile :: (unit, string) route"
  have "case serve sample_env True ?rt sample_request (failing_api\<lparr>ap_resp := []\<rparr>) of None \<Rightarrow> False | Some (r, s1) \<Rightarrow>
      r = Inr () \<and> http_status (ap_resp s1) = 500 \<and> length (t_file_chunks (db_tables (ap_db s1))) = 3 \<and> length (t_files (db_tables (ap_db s1))) = 2
      \<and> (case serve sample_env True ?rt sample_request (s1\<lparr>ap_resp := []\<rparr>) of None \<Rightarrow> False | Some (r, s2) \<Rightarrow>
         r = Inr () \<and> http_status (ap_resp s2) = 204 \<and> length (t_file_chunks (db_tables (ap_db s2))) = 2 \<and> length (t_files (db_tables (ap_db s2))) = 1)"
    by code_simp
  then show ?thesis by (auto split: option.splits)
qed


end
