(* ===== verification/Startup.thy ===== *)
theory Startup
  imports Fuse Kdataset Integrity
begin

text \<open>
  The programs around the server: the command \<^verbatim>\<open>plukefs\<close> (\<^verbatim>\<open>cmd/plukefs\<close>), from its options to the mounted
  file system; the opening of the database (\<^verbatim>\<open>pkg/db/gorm/db.go\<close>); and the table of versions that
  \<^verbatim>\<open>kdataset\<close> prints. The flags are parsed by third-party code.
\<close>

section \<open>The options of plukefs\<close>

record plukefs_cmd =
  pk_mountPoint :: string
  pk_objectWorkspace :: string
  pk_secretWorkspace :: string
  pk_name :: string
  pk_version :: string
  pk_server :: string
  pk_secret :: string
  pk_dsType :: string

definition no_options :: plukefs_cmd where
  "no_options = \<lparr>pk_mountPoint = [], pk_objectWorkspace = [], pk_secretWorkspace = [], pk_name = [], pk_version = [],
     pk_server = [], pk_secret = [], pk_dsType = []\<rparr>"

text \<open>\<^verbatim>\<open>strconv.ParseUint(value, 10, 32)\<close>, as far as it gives an error.\<close>

definition parses_uint32 :: "string \<Rightarrow> bool" where
  "parses_uint32 s = (case unsigned_val s of None \<Rightarrow> False | Some n \<Rightarrow> n < 2 ^ 32)"

text \<open>One option \<^verbatim>\<open>name=value\<close>, on the command and the environment; \<open>None\<close> where it is refused.\<close>

definition plukefs_option :: "string \<Rightarrow> plukefs_cmd \<times> env \<Rightarrow> (plukefs_cmd \<times> env) option" where
  "plukefs_option opt = (\<lambda>(cmd, getenv).
     case go_split (CHR ''='') opt of
       [name, value] \<Rightarrow>
         if name = ''object_workspace'' then Some (cmd\<lparr>pk_objectWorkspace := value\<rparr>, getenv)
         else if name = ''secret_workspace'' then Some (cmd\<lparr>pk_secretWorkspace := value\<rparr>, getenv)
         else if name = ''name'' then Some (cmd\<lparr>pk_name := value\<rparr>, getenv)
         else if name = ''version'' then Some (cmd\<lparr>pk_version := value\<rparr>, getenv)
         else if name = ''server'' then Some (cmd\<lparr>pk_server := value\<rparr>, getenv)
         else if name = ''grpc_port'' then
           (if parses_uint32 value then Some (cmd, getenv(''PLUK_GRPC_PORT'' := value)) else None)
         else if name = ''secret'' then Some (cmd\<lparr>pk_secret := value\<rparr>, getenv)
         else if name = ''mountPoint'' then Some (cmd\<lparr>pk_mountPoint := value\<rparr>, getenv)
         else if name = ''type'' then Some (cmd\<lparr>pk_dsType := value\<rparr>, getenv)
         else if name = ''workspace'' then Some (cmd\<lparr>pk_objectWorkspace := value, pk_secretWorkspace := value\<rparr>, getenv)
         else None
     | _ \<Rightarrow> None)"

fun plukefs_options :: "string list \<Rightarrow> plukefs_cmd \<times> env \<Rightarrow> (plukefs_cmd \<times> env) option" where
  "plukefs_options [] st = Some st"
| "plukefs_options (opt # opts) st = Option.bind (plukefs_option opt st) (plukefs_options opts)"

section \<open>Running plukefs\<close>

text \<open>
  The end of the process: an exit status, or the mounted file system with the gRPC address and the clients
  for the masters. \<open>mounts\<close> says whether FUSE can mount on a directory.
\<close>

datatype 'm plukefs_end = Exit nat | Serving "'m pluke_fs" string "'m client list"

definition plukefs_complete :: "plukefs_cmd \<Rightarrow> bool" where
  "plukefs_complete cmd \<longleftrightarrow> pk_objectWorkspace cmd \<noteq> [] \<and> pk_secretWorkspace cmd \<noteq> [] \<and> pk_name cmd \<noteq> [] \<and> pk_version cmd \<noteq> []
     \<and> pk_server cmd \<noteq> [] \<and> pk_mountPoint cmd \<noteq> []"

definition plukefs_run ::
  "(string \<Rightarrow> auth_opts \<Rightarrow> 'm client res) \<Rightarrow> (string \<Rightarrow> bool) \<Rightarrow> (string \<Rightarrow> bool) \<Rightarrow> plukefs_cmd \<times> env \<Rightarrow> 'm
     \<Rightarrow> ('m plukefs_end \<times> env \<times> 'm) option" where
  "plukefs_run newClient dial mounts st m =
     (let (cmd, getenv) = st in
      if \<not> plukefs_complete cmd then Some (Exit 1, getenv, m)
      else
        let env = getenv(''DO_NOT_SAVE_CHUNKS'' := ''true'', ''MASTERS'' := pk_server cmd, ''USE_GRPC'' := ''true'');
            masters = NewMasterClientWithSecret newClient env (pk_secretWorkspace cmd) (pk_secret cmd)
        in case NewPlukeFS newClient env dial (pk_dsType cmd) (pk_objectWorkspace cmd) (pk_name cmd) (pk_version cmd) (pk_server cmd)
                  (pk_secret cmd) (pk_secretWorkspace cmd) m of
             None \<Rightarrow> None
           | Some (Inl e, m') \<Rightarrow> Some (Exit 1, env, m')
           | Some (Inr (fs, addr), m') \<Rightarrow> Some (if mounts (pk_mountPoint cmd) then Serving fs addr masters else Exit 1, env, m'))"

text \<open>A refused option only ends \<^verbatim>\<open>Run\<close>, which has no error, so the process ends with the status 0.\<close>

definition plukefs_main ::
  "(string \<Rightarrow> auth_opts \<Rightarrow> 'm client res) \<Rightarrow> (string \<Rightarrow> bool) \<Rightarrow> (string \<Rightarrow> bool) \<Rightarrow> string list \<Rightarrow> env \<Rightarrow> 'm
     \<Rightarrow> ('m plukefs_end \<times> env \<times> 'm) option" where
  "plukefs_main newClient dial mounts opts getenv m =
     (case plukefs_options opts (no_options, getenv) of
        None \<Rightarrow> Some (Exit 0, getenv, m)
      | Some st \<Rightarrow> plukefs_run newClient dial mounts st m)"

lemma plukefs_option_parts:
  assumes "length (go_split (CHR ''='') opt) \<noteq> 2"
  shows "plukefs_option opt st = None"
proof -
  obtain x xs where x: "go_split (CHR ''='') opt = x # xs" using go_split_nonempty by (meson list.exhaust)
  consider "xs = []" | y z zs where "xs = y # z # zs" using assms x by (cases xs; cases "tl xs") auto
  then show ?thesis by cases (simp_all only: plukefs_option_def x list.case prod.case_eq_if)
qed

lemma refused_option_ends_with_0:
  assumes "\<exists>opt \<in> set opts. length (go_split (CHR ''='') opt) \<noteq> 2"
  shows "plukefs_main newClient dial mounts opts getenv m = Some (Exit 0, getenv, m)"
proof -
  have "plukefs_options opts st = None" for st
    using assms
  proof (induction opts arbitrary: st)
    case (Cons opt opts)
    show ?case
    proof (cases "length (go_split (CHR ''='') opt) = 2")
      case True
      then have "\<exists>opt \<in> set opts. length (go_split (CHR ''='') opt) \<noteq> 2" using Cons.prems by auto
      then show ?thesis using Cons.IH by (cases "plukefs_option opt st") auto
    next
      case False
      then have "plukefs_option opt st = None" by (rule plukefs_option_parts)
      then show ?thesis by simp
    qed
  qed simp
  then show ?thesis by (simp add: plukefs_main_def)
qed

text \<open>A value with a \<^verbatim>\<open>=\<close>, as at the end of many encoded secrets, cannot be given.\<close>

lemma secret_with_equals_is_refused:
  "CHR ''='' \<in> set secret \<Longrightarrow> plukefs_main newClient dial mounts [''secret='' @ secret] getenv m = Some (Exit 0, getenv, m)"
proof (rule refused_option_ends_with_0)
  assume "CHR ''='' \<in> set secret"
  then obtain a b where s: "secret = a @ CHR ''='' # b" and a: "CHR ''='' \<notin> set a" by (meson split_list_first)
  have "CHR ''='' \<notin> set ''secret''" by simp
  from go_split_append_sep [OF this, of secret]
  have "go_split (CHR ''='') (''secret='' @ secret) = ''secret'' # go_split (CHR ''='') secret" by simp
  also have "go_split (CHR ''='') secret = a # go_split (CHR ''='') b" unfolding s by (rule go_split_append_sep [OF a])
  finally have "length (go_split (CHR ''='') (''secret='' @ secret)) = Suc (Suc (length (go_split (CHR ''='') b)))"
    by simp
  moreover have "0 < length (go_split (CHR ''='') b)" using go_split_nonempty by blast
  ultimately have "length (go_split (CHR ''='') (''secret='' @ secret)) \<noteq> 2" by linarith
  then show "\<exists>opt \<in> set [''secret='' @ secret]. length (go_split (CHR ''='') opt) \<noteq> 2" by (rule bexI) (rule list.set_intros)
qed

section \<open>Opening the database\<close>

text \<open>
  gorm is third-party: \<open>open_db\<close> opens a connection of a type to an address, \<open>run_sql\<close> runs a statement on a
  connection; both may fail. \<open>None\<close> is a panic.
\<close>

text \<open>\<^verbatim>\<open>%q\<close> on printable ASCII; other bytes are left as they are here.\<close>

fun go_quoted :: "string \<Rightarrow> string" where
  "go_quoted [] = []"
| "go_quoted (c # cs) = (if c = CHR 0x22 \<or> c = CHR 0x5C then CHR 0x5C # c # go_quoted cs else c # go_quoted cs)"

definition create_database :: "string \<Rightarrow> string" where
  "create_database name = ''CREATE DATABASE '' @ CHR 0x22 # go_quoted name @ [CHR 0x22]"

definition InitMain ::
  "(string \<Rightarrow> string \<Rightarrow> 'm \<Rightarrow> ('c \<times> go_error option) \<times> 'm) \<Rightarrow> ('c \<Rightarrow> string \<Rightarrow> 'm \<Rightarrow> go_error option \<times> 'm) \<Rightarrow> ('c \<Rightarrow> 'm \<Rightarrow> go_error option \<times> 'm)
     \<Rightarrow> env \<Rightarrow> 'm \<Rightarrow> ('c \<times> 'm) option" where
  "InitMain open_db run_sql postCreate getenv m =
     (case GetConnString getenv of
        None \<Rightarrow> None
      | Some (dbType, connString) \<Rightarrow>
          let opened =
            (case open_db dbType connString m of
               ((c, None), m1) \<Rightarrow> Some (c, m1)
             | ((c, Some e), m1) \<Rightarrow>
                 if dbType \<noteq> ''postgres'' then None
                 else case GetConnStringForName getenv ''postgres'' of
                   None \<Rightarrow> None
                 | Some (_, conn) \<Rightarrow>
                     (case open_db dbType conn m1 of
                        ((temp, _), m2) \<Rightarrow>
                          (case run_sql temp (create_database (DBName getenv)) m2 of
                             (Some _, m3) \<Rightarrow> None
                           | (None, m3) \<Rightarrow>
                               (case open_db dbType connString m3 of ((c', None), m4) \<Rightarrow> Some (c', m4) | ((c', Some _), m4) \<Rightarrow> None))))
          in case opened of
               None \<Rightarrow> None
             | Some (c, m1) \<Rightarrow>
                 let prepared = (if dbType = ''sqlite3'' then run_sql c ''PRAGMA journal_mode=WAL'' m1 else (None, m1)) in
                 (case prepared of
                    (Some _, m2) \<Rightarrow> None
                  | (None, m2) \<Rightarrow> (case postCreate c m2 of (Some _, m3) \<Rightarrow> None | (None, m3) \<Rightarrow> Some (c, m3))))"

definition InitFake ::
  "(string \<Rightarrow> string \<Rightarrow> 'm \<Rightarrow> ('c \<times> go_error option) \<times> 'm) \<Rightarrow> ('c \<Rightarrow> string \<Rightarrow> 'm \<Rightarrow> go_error option \<times> 'm) \<Rightarrow> ('c \<Rightarrow> 'm \<Rightarrow> go_error option \<times> 'm)
     \<Rightarrow> string \<Rightarrow> 'm \<Rightarrow> ('c \<times> 'm) option" where
  "InitFake open_db run_sql postCreate fname m =
     (case open_db ''sqlite3'' fname m of
        ((c, Some _), m1) \<Rightarrow> None
      | ((c, None), m1) \<Rightarrow>
          (case run_sql c ''PRAGMA journal_mode=WAL'' m1 of
             (Some _, m2) \<Rightarrow> None
           | (None, m2) \<Rightarrow> (case postCreate c m2 of (Some _, m3) \<Rightarrow> None | (None, m3) \<Rightarrow> Some (c, m3))))"

text \<open>With the default settings the server opens its SQLite file exactly as the tests open theirs.\<close>

lemma sqlite_opens_like_the_tests:
  "GetConnString getenv = Some (''sqlite3'', fname) \<Longrightarrow> InitMain open_db run_sql postCreate getenv m = InitFake open_db run_sql postCreate fname m"
  by (simp add: InitMain_def InitFake_def split: prod.split option.split)

text \<open>
  A PostgreSQL database that is not there is created over a connection to \<^verbatim>\<open>postgres\<close> and opened again.
\<close>

lemma missing_database_is_created:
  assumes "GetConnString getenv = Some (''postgres'', conn)" "GetConnStringForName getenv ''postgres'' = Some (dt, conn0)"
    and "open_db ''postgres'' conn m = ((c, Some e), m1)" "open_db ''postgres'' conn0 m1 = ((temp, None), m2)"
    and "run_sql temp (create_database (DBName getenv)) m2 = (None, m3)" "open_db ''postgres'' conn m3 = ((c', None), m4)"
    and "postCreate c' m4 = (None, m5)"
  shows "InitMain open_db run_sql postCreate getenv m = Some (c', m5)"
  using assms by (simp add: InitMain_def)

text \<open>
  The schema: the tables are migrated; the indexes are then made, and an error of one is only logged.
\<close>

datatype ddl =
    AutoMigrate "string list"
  | AddIndex string string "string list"
  | AddUniqueIndex string string "string list"

definition CreateTables :: "('c \<Rightarrow> ddl \<Rightarrow> 'm \<Rightarrow> go_error option \<times> 'm) \<Rightarrow> 'c \<Rightarrow> 'm \<Rightarrow> go_error option \<times> 'm" where
  "CreateTables alter c = alter c (AutoMigrate [''files'', ''chunks'', ''file_chunks'', ''datasets'', ''dataset_versions''])"

definition CreateAll_indexes :: "string \<Rightarrow> ddl list" where
  "CreateAll_indexes dialect =
     [AddIndex ''file_chunks'' ''idx_chunk_id'' [''chunk_id''],
      AddIndex ''files'' ''idx_ws_name_version_type'' [''dataset_name'', ''dataset_type'', ''workspace'', ''version'']]
     @ (if dialect = ''sqlite3'' then [AddUniqueIndex ''chunks'' ''idx_hash'' [''hash'']] else [])
     @ (if dialect = ''postgres'' then [AddIndex ''chunks'' ''idx_chunks_id'' [''id'']] else [])"

definition CreateAll ::
  "('c \<Rightarrow> ddl \<Rightarrow> 'm \<Rightarrow> go_error option \<times> 'm) \<Rightarrow> ('c \<Rightarrow> string) \<Rightarrow> 'c \<Rightarrow> 'm \<Rightarrow> go_error option \<times> 'm" where
  "CreateAll alter dialect c m =
     (case CreateTables alter c m of
        (Some e, m1) \<Rightarrow> (Some e, m1)
      | (None, m1) \<Rightarrow> (None, fold (\<lambda>stmt m. snd (alter c stmt m)) (CreateAll_indexes (dialect c)) m1))"

lemma failed_indexes_do_not_stop_the_start:
  "fst (CreateAll alter dialect c m) = fst (CreateTables alter c m)"
  by (simp add: CreateAll_def split: prod.split option.split)

section \<open>The start of the server\<close>

text \<open>
  A manager of the database over the tables \<open>t\<close> that the opened database holds, and the state of a server
  that is built over it. The queues are those of the process, so they are empty.
\<close>

definition NewDatabaseMgr :: "env \<Rightarrow> tables \<Rightarrow> int \<Rightarrow> 'm \<Rightarrow> 'm db" where
  "NewDatabaseMgr getenv t now m =
     \<lparr>db_tables = t, db_type = DBType getenv, db_saved = [], db_faults = [], db_now = now, db_chunksBuf = [],
      db_deleteCh = [], db_gc = [], db_hub = [], db_remote = m\<rparr>"

definition NewMainDatabaseMgr ::
  "(string \<Rightarrow> string \<Rightarrow> 'm \<Rightarrow> ('c \<times> go_error option) \<times> 'm) \<Rightarrow> ('c \<Rightarrow> string \<Rightarrow> 'm \<Rightarrow> go_error option \<times> 'm)
     \<Rightarrow> ('c \<Rightarrow> ddl \<Rightarrow> 'm \<Rightarrow> go_error option \<times> 'm) \<Rightarrow> ('c \<Rightarrow> string) \<Rightarrow> ('c \<Rightarrow> 'm \<Rightarrow> tables) \<Rightarrow> env \<Rightarrow> int \<Rightarrow> 'm \<Rightarrow> 'm db option" where
  "NewMainDatabaseMgr open_db run_sql alter dialect tables_of getenv now m =
     (case InitMain open_db run_sql (CreateAll alter dialect) getenv m of
        None \<Rightarrow> None
      | Some (c, m') \<Rightarrow> Some (NewDatabaseMgr getenv (tables_of c m') now m'))"

definition api_Build :: "'m db \<Rightarrow> disk \<Rightarrow> 'm api" where
  "api_Build d disk = \<lparr>ap_db = d, ap_disk = disk, ap_cache = [], ap_fsCache = [], ap_saveLocks = [], ap_resp = []\<rparr>"

text \<open>A server that starts on a well-formed database, as an empty one is, keeps it well formed whatever comes.\<close>

lemma started_server_stays_well_formed:
  assumes "NewMainDatabaseMgr open_db run_sql alter dialect tables_of getenv now m = Some d"
    and "\<And>c m'. db_wf (tables_of c m')" and "(server_step en)\<^sup>*\<^sup>* (api_Build d disk) s"
  shows "intact (ap_db s)"
proof -
  have "intact d" using assms(1,2) by (auto simp: NewMainDatabaseMgr_def NewDatabaseMgr_def intact_def split: option.splits)
  then have "intact (ap_db (api_Build d disk))" by (simp add: api_Build_def)
  with assms(3) show ?thesis using wf.reached unfolding intact_steady by blast
qed

section \<open>The table of versions\<close>

text \<open>
  \<^verbatim>\<open>%.3f\<close> of a quotient by a power of two, rounded half to even; below \<open>2 ^ 53\<close> the float is exact.
\<close>

definition fixed3 :: "int \<Rightarrow> int \<Rightarrow> string" where
  "fixed3 num den =
     (let q = num * 1000 div den; r = num * 1000 mod den;
          milli = (if den < 2 * r \<or> (2 * r = den \<and> odd q) then q + 1 else q);
          frac = show_int (milli mod 1000)
      in show_int (milli div 1000) @ ''.'' @ replicate (3 - length frac) (CHR ''0'') @ frac)"

definition sizeString :: "int \<Rightarrow> string" where
  "sizeString sz =
     (if sz \<le> 1024 then show_int sz @ ''b''
      else if sz \<le> 1024 * 1024 then fixed3 sz 1024 @ ''K''
      else if sz \<le> 1024 * 1024 * 1024 then fixed3 sz (1024 * 1024) @ ''M''
      else fixed3 sz (1024 * 1024 * 1024) @ ''G'')"

definition version_columns :: "(int \<Rightarrow> string) \<Rightarrow> version_info \<Rightarrow> string list" where
  "version_columns timeString v = [vi_Version v, sizeString (vi_SizeBytes v), timeString (vi_CreatedAt v), timeString (vi_UpdatedAt v)]"

end
