(* ===== verification/Mirror.thy ===== *)
theory Mirror
  imports Watcher Hub TreeCache
begin

text \<open>
  A master and its slaves together: what a handler of the master pushes to the hub, what the hub sends to a
  connected slave, and what the watcher of the slave makes of it.
\<close>

section \<open>The way of a message\<close>

text \<open>
  The hub's \<^verbatim>\<open>WriteMessage\<close> encodes a message as JSON and \<^verbatim>\<open>LoadAsJson\<close> decodes its content at the slave; the
  codec is third-party. What is relied on: the names come through.
\<close>

type_synonym codec = "hub_message \<Rightarrow> dataset_info res \<times> version_info res"

definition wire :: "codec \<Rightarrow> hub_message \<Rightarrow> message" where
  "wire decode msg = \<lparr>wm_Type = (case msg of Msg_Dataset _ \<Rightarrow> ''dataset'' | Msg_Version _ \<Rightarrow> ''dataset_version''),
     wm_Content = Some (decode msg)\<rparr>"

definition version_names :: "version_info \<Rightarrow> string \<times> string \<times> string \<times> string" where
  "version_names v = (vi_DType v, vi_Workspace v, vi_Name v, vi_Version v)"

definition keeps_names :: "codec \<Rightarrow> bool" where
  "keeps_names decode \<longleftrightarrow> (\<forall>v. \<exists>v'. snd (decode (Msg_Version v)) = Inr v' \<and> version_names v' = version_names v)"

text \<open>A message is pushed to a hub with an empty queue and sent; a slave receives it and works it off.\<close>

definition hub_relays :: "int \<Rightarrow> hub_message \<Rightarrow> 'c hub \<Rightarrow> 'c hub option" where
  "hub_relays now msg h = Option.bind (Push msg h) (eventLoop_turn now)"

definition watcher_follows :: "('m, 'v) api_env \<Rightarrow> message \<Rightarrow> 'm watcher \<Rightarrow> 'm watcher option" where
  "watcher_follows en msg w = Option.bind (continuousReceive_turn (Got msg) w) (processQueue_turn en)"

lemma hub_relays_run:
  "hb_queue h = [] \<Longrightarrow> hub_relays now msg h = Some (pushMessage now msg h)"
  by (cases h) (simp add: hub_relays_def Push_def queueLimit_def eventLoop_turn_def)

lemma pushMessage_sends:
  "hb_sent (pushMessage now msg h) = hb_sent h @ map (\<lambda>c. (c, msg)) (hb_connections h)"
  by (simp add: pushMessage_def saveLastMessage_def Let_def)

section \<open>What the master pushes\<close>

text \<open>The version as a handler names it to the hub.\<close>

definition note_of :: "'m request \<Rightarrow> version_info" where
  "note_of req = (info_of_version blank_version)\<lparr>vi_Workspace := path_param req ''workspace'',
     vi_Name := path_param req ''name'', vi_DType := currentType req, vi_Version := path_param req ''version''\<rparr>"

text \<open>The answers of the two handlers that push such a note.\<close>

definition granted :: "reply list \<Rightarrow> bool" where
  "granted rs \<longleftrightarrow> rs = [Code 204] \<or> (\<exists>v. rs = [Code 201, Body (P_VersionRow v)])"

lemma errors_grant_nothing [simp]:
  "\<not> granted []" "\<not> granted (WriteError err)" "\<not> granted (WriteStatusError n err)"
  by (auto simp: granted_def WriteError_def WriteStatusError_def WriteErrorString_def split: go_error.splits)

text \<open>A program that grants only when the last thing it pushed is \<open>msg\<close>.\<close>

definition tells :: "hub_message \<Rightarrow> ('m api, 'a) prog \<Rightarrow> bool" where
  "tells msg m \<longleftrightarrow> (\<forall>s r s'. ap_resp s = [] \<longrightarrow> m s = Some (r, s') \<longrightarrow> granted (ap_resp s')
     \<longrightarrow> (\<exists>before. db_hub (ap_db s') = before @ [msg]))"

lemma tells_or_respond:
  assumes "silent m" and "\<And>e. \<not> granted (w e)" and "\<And>x. tells msg (k x)"
  shows "tells msg (or_respond m w k)"
  unfolding tells_def
proof (intro allI impI)
  fix s r s'
  assume *: "ap_resp s = []" "or_respond m w k s = Some (r, s')" "granted (ap_resp s')"
  obtain x t where m: "m s = Some (x, t)" using *(2) by (auto simp: or_respond_def attempt_def split: option.splits)
  then have t: "ap_resp t = []" using assms(1) *(1) by (simp add: silent_def)
  show "\<exists>before. db_hub (ap_db s') = before @ [msg]"
  proof (cases x)
    case (Inl e)
    then show ?thesis using m t * assms(2) by (auto simp: run_simps)
  next
    case (Inr y)
    then have "k y t = Some (r, s')" using m *(2) by (simp add: run_simps)
    then show ?thesis using assms(3) t *(3) unfolding tells_def by blast
  qed
qed

lemma tells_bnd: "silent m \<Longrightarrow> (\<And>x. tells msg (k x)) \<Longrightarrow> tells msg (bnd m k)"
  by (fastforce simp: tells_def silent_def bnd_def attempt_def fail_def split: option.splits sum.splits)

lemma tells_push:
  "hub \<Longrightarrow> tells (Msg_Version v) (bnd (on_db (PushMessageVersion hub v)) (\<lambda>_. bnd (invalidateVersionCache ds ver) (\<lambda>_. respond rs)))"
  "hub \<Longrightarrow> tells (Msg_Version v) (bnd (on_db (PushMessageVersion hub v)) (\<lambda>_. respond rs))"
  by (auto simp: tells_def PushMessageVersion_def bnd_def attempt_def on_db_def invalidateVersionCache_def respond_def put_state_def)

lemma silent_check_version [silent_intros]: "silent (check_version en version)"
  by (auto simp: silent_def check_version_def lift_err_def ret_def fail_def split: option.splits)

lemma handlers_tell:
  assumes "en_hub en"
  shows "tells (Msg_Version (note_of req)) (api_deleteVersion en req)" "tells (Msg_Version (note_of req)) (cloneVersion en req)"
  unfolding api_deleteVersion_def cloneVersion_def with_dataset_def Let_def note_of_def [symmetric]
  by (intro tells_or_respond tells_push tells_bnd [OF silent_basic(9)] silent_intros errors_grant_nothing assms)+

section \<open>What a slave does\<close>

lemma first_dataset_named:
  assumes "db_faults d = []" and "GetDataset ty ws name d = Some (Inr ds, d')" and "ty \<noteq> []" "ws \<noteq> []" "name \<noteq> []"
  shows "d_Type ds = ty \<and> d_Workspace ds = ws \<and> d_Name ds = name"
  using assms
  by (auto simp: GetDataset_def stmt_run first_row_def find_Some_iff match_dataset_def blank_dataset_def opt_str_def split: option.splits)

text \<open>The rows of versions after one was marked.\<close>

definition marked_rows :: "version_row \<Rightarrow> int \<Rightarrow> version_row list \<Rightarrow> version_row list" where
  "marked_rows v now rows = save_row v_ID (v\<lparr>v_Deleted := True, v_UpdatedAt := now\<rparr>) rows"

lemma marked_rows_others:
  "filter (\<lambda>x. v_ID x \<noteq> v_ID v) (marked_rows v now rows) = filter (\<lambda>x. v_ID x \<noteq> v_ID v) rows"
proof -
  have "filter (\<lambda>x. v_ID x \<noteq> v_ID v) (map (\<lambda>r. if v_ID r = v_ID v then v\<lparr>v_Deleted := True, v_UpdatedAt := now\<rparr> else r) rows)
      = filter (\<lambda>x. v_ID x \<noteq> v_ID v) rows"
    by (induction rows) auto
  then show ?thesis by (simp add: marked_rows_def save_row_def)
qed

lemma marked_rows_marked:
  assumes "x \<in> set (marked_rows v now rows)" and "v_ID x = v_ID v"
  shows "v_Deleted x"
proof (cases "v_ID v \<in> v_ID ` set rows")
  case True
  then show ?thesis using assms by (auto simp: marked_rows_def save_row_def split: if_splits)
next
  case False
  then have "x \<notin> set rows" using assms(2) [symmetric] by auto
  then show ?thesis using False assms(1) by (simp add: marked_rows_def save_row_def)
qed

lemma slave_marks:
  assumes d: "d = ap_db (wt_api w)" "db_faults d = []" and w: "wt_running w" "wt_queue w = []"
    and v': "snd (decode (Msg_Version nt)) = Inr v'" "version_names v' = version_names nt" "version_names nt = (ty, ws, name, ver)"
    and names: "ty \<noteq> []" "ws \<noteq> []" "name \<noteq> []"
    and ds: "GetDataset ty ws name d = Some (Inr ds, d)" and v: "GetDatasetVersion ty ws name ver d = Some (Inr v, d)"
  shows "\<exists>d'. watcher_follows en (wire decode (Msg_Version nt)) w = Some (w\<lparr>wt_api := (wt_api w)\<lparr>ap_db := d',
        ap_fsCache := AList.delete (fsCacheKey ds ver) (ap_fsCache (wt_api w))\<rparr>,
      wt_lastMessages := keep_last (wire decode (Msg_Version nt)) (wt_lastMessages w)\<rparr>)
    \<and> db_tables d' = (db_tables d)\<lparr>t_dataset_versions := marked_rows v (db_now d) (t_dataset_versions (db_tables d))\<rparr>
    \<and> (\<exists>msg. db_gc d' = db_gc d @ [msg])"
proof -
  have f: "vi_DType v' = ty" "vi_Workspace v' = ws" "vi_Name v' = name" "vi_Version v' = ver"
    using v'(2,3) by (simp_all add: version_names_def)
  note n = first_dataset_named [OF d(2) ds names]
  obtain c where c: "decode (Msg_Version nt) = (c, Inr v')" using v'(1) by (cases "decode (Msg_Version nt)") auto
  have key: "fsCacheKey (dataset_named ty ws name) ver = fsCacheKey ds ver"
    using n by (simp add: fsCacheKey_def fsCacheKeyPrefix_def dataset_named_def)
  let ?d1 = "d\<lparr>db_tables := (db_tables d)\<lparr>t_dataset_versions := marked_rows v (db_now d) (t_dataset_versions (db_tables d))\<rparr>\<rparr>"
  have up: "UpdateDatasetVersion (v\<lparr>v_Deleted := True\<rparr>) d = Some (Inr (v\<lparr>v_Deleted := True, v_UpdatedAt := db_now d\<rparr>), ?d1)"
    using d(2) by (simp add: UpdateDatasetVersion_def ask_now_def bnd_def attempt_def stmt_run marked_rows_def Let_def)
  let ?msg = "''Clean version of '' @ ws @ ''/'' @ name @ '':'' @ ver"
  have del: "ds_DeleteVersion (en_vless en) (en_settings en) None ds ver True d = Some (Inr (), ?d1\<lparr>db_gc := db_gc d @ [?msg]\<rparr>)"
    using v n up by (simp add: ds_DeleteVersion_def bnd_def attempt_def ret_def send_gc_def)
  have get: "mgr_GetDataset (en_settings en) None ty ws name d = Some (Inr ds, d)" using ds by (simp add: mgr_GetDataset_def attempt_def ret_def)
  have run: "process_message en (wire decode (Msg_Version nt)) (wt_api w)
      = Some (Inr True, (wt_api w)\<lparr>ap_db := ?d1\<lparr>db_gc := db_gc d @ [?msg]\<rparr>, ap_fsCache := AList.delete (fsCacheKey ds ver) (ap_fsCache (wt_api w))\<rparr>)"
    using get del d(1)
    by (simp add: process_message_def wire_def c f key bnd_def attempt_def lift_option_def invalidateVersionCache_def put_state_def on_db_def ret_def)
  show ?thesis
    using run w
    by (intro exI [of _ "?d1\<lparr>db_gc := db_gc d @ [?msg]\<rparr>"])
      (simp del: append_Cons add: watcher_follows_def continuousReceive_turn_def processQueue_turn_def queueCap_def)
qed

text \<open>What the slave is like after it: the version is marked, its tree is not in the cache, the collector is asked.\<close>

definition follows_deletion :: "dataset_row \<Rightarrow> version_row \<Rightarrow> string \<Rightarrow> 'm api \<Rightarrow> 'm api \<Rightarrow> bool" where
  "follows_deletion ds v ver a a' \<longleftrightarrow>
     (\<forall>x \<in> set (t_dataset_versions (db_tables (ap_db a'))). v_ID x = v_ID v \<longrightarrow> v_Deleted x)
     \<and> filter (\<lambda>x. v_ID x \<noteq> v_ID v) (t_dataset_versions (db_tables (ap_db a')))
         = filter (\<lambda>x. v_ID x \<noteq> v_ID v) (t_dataset_versions (db_tables (ap_db a)))
     \<and> map_of (ap_fsCache a') (fsCacheKey ds ver) = None
     \<and> (\<forall>key. key \<noteq> fsCacheKey ds ver \<longrightarrow> map_of (ap_fsCache a') key = map_of (ap_fsCache a) key)
     \<and> (\<exists>msg. db_gc (ap_db a') = db_gc (ap_db a) @ [msg])"

text \<open>A slave that has the version and is ready for a message.\<close>

definition ready_slave :: "string \<times> string \<times> string \<times> string \<Rightarrow> dataset_row \<Rightarrow> version_row \<Rightarrow> 'm watcher \<Rightarrow> bool" where
  "ready_slave names ds v w \<longleftrightarrow>
     (let (ty, ws, name, ver) = names; d = ap_db (wt_api w) in
      wt_running w \<and> wt_queue w = [] \<and> db_faults d = [] \<and> ty \<noteq> [] \<and> ws \<noteq> [] \<and> name \<noteq> []
      \<and> GetDataset ty ws name d = Some (Inr ds, d) \<and> GetDatasetVersion ty ws name ver d = Some (Inr v, d))"

lemma note_reaches_slave:
  assumes codec: "keeps_names decode" and hub: "hb_queue h = []" "c \<in> set (hb_connections h)"
    and slave: "ready_slave (version_names nt) ds v w"
  shows "\<exists>h' new w'. hub_relays now (Msg_Version nt) h = Some h' \<and> hb_sent h' = hb_sent h @ new \<and> (c, Msg_Version nt) \<in> set new
    \<and> watcher_follows en (wire decode (Msg_Version nt)) w = Some w' \<and> wt_running w' \<and> wt_queue w' = []
    \<and> follows_deletion ds v (vi_Version nt) (wt_api w) (wt_api w')"
proof -
  obtain v' where v': "snd (decode (Msg_Version nt)) = Inr v'" "version_names v' = version_names nt"
    using codec unfolding keeps_names_def by blast
  let ?d = "ap_db (wt_api w)"
  obtain ty ws name ver where k: "version_names nt = (ty, ws, name, ver)" by (cases "version_names nt") auto
  have ver: "vi_Version nt = ver" using k by (simp add: version_names_def)
  from slave have s: "wt_running w" "wt_queue w = []" "db_faults ?d = []" "ty \<noteq> []" "ws \<noteq> []" "name \<noteq> []"
    "GetDataset ty ws name ?d = Some (Inr ds, ?d)" "GetDatasetVersion ty ws name ver ?d = Some (Inr v, ?d)"
    unfolding ready_slave_def k by (simp_all add: Let_def)
  obtain d' msg where d': "watcher_follows en (wire decode (Msg_Version nt)) w = Some (w\<lparr>wt_api := (wt_api w)\<lparr>ap_db := d',
        ap_fsCache := AList.delete (fsCacheKey ds ver) (ap_fsCache (wt_api w))\<rparr>,
      wt_lastMessages := keep_last (wire decode (Msg_Version nt)) (wt_lastMessages w)\<rparr>)"
    "db_tables d' = (db_tables ?d)\<lparr>t_dataset_versions := marked_rows v (db_now ?d) (t_dataset_versions (db_tables ?d))\<rparr>"
    "db_gc d' = db_gc ?d @ [msg]"
    using slave_marks [where d = ?d and w = w and decode = decode and nt = nt, OF refl s(3,1,2) v' k s(4-8), of en] by blast
  have "follows_deletion ds v ver (wt_api w) ((wt_api w)\<lparr>ap_db := d', ap_fsCache := AList.delete (fsCacheKey ds ver) (ap_fsCache (wt_api w))\<rparr>)"
    using marked_rows_marked marked_rows_others d'(2,3) by (auto simp: follows_deletion_def delete_conv)
  then show ?thesis using hub_relays_run [OF hub(1)] pushMessage_sends [of now "Msg_Version nt" h] hub(2) d'(1) s(1,2) ver by auto
qed

section \<open>Properties\<close>


text \<open>C38: a clone within a dataset reaches the slaves as the deletion of its source: the message names the
  source, so a slave marks its copy of the source as deleted, while its copy of the target, which is the
  one that has changed, stays as it was, in the tables and in the cache.\<close>

theorem clone_deletes_the_source_on_slaves:
  assumes "cloneVersion en req s = Some (r, s')" and "ap_resp s = []" "ap_resp s' = [Code 201, Body (P_VersionRow row)]" and "en_hub en"
    and "keeps_names decode" and "hb_queue h = []" "c \<in> set (hb_connections h)"
    and "ready_slave (currentType req, path_param req ''workspace'', path_param req ''name'', path_param req ''version'') ds v w"
    and "target \<in> set (t_dataset_versions (db_tables (ap_db (wt_api w))))" "v_ID target \<noteq> v_ID v"
    and "path_param req ''targetVersion'' \<noteq> path_param req ''version''"
  shows "\<exists>before msg h' new w'. db_hub (ap_db s') = before @ [msg]
    \<and> hub_relays now msg h = Some h' \<and> hb_sent h' = hb_sent h @ new \<and> (c, msg) \<in> set new
    \<and> watcher_follows slave_en (wire decode msg) w = Some w'
    \<and> follows_deletion ds v (path_param req ''version'') (wt_api w) (wt_api w')
    \<and> target \<in> set (t_dataset_versions (db_tables (ap_db (wt_api w'))))
    \<and> map_of (ap_fsCache (wt_api w')) (fsCacheKey ds (path_param req ''targetVersion''))
        = map_of (ap_fsCache (wt_api w)) (fsCacheKey ds (path_param req ''targetVersion''))"
proof -
  have n: "version_names (note_of req) = (currentType req, path_param req ''workspace'', path_param req ''name'', path_param req ''version'')"
    "vi_Version (note_of req) = path_param req ''version''"
    by (simp_all add: version_names_def note_of_def)
  have "granted (ap_resp s')" using assms(3) by (simp add: granted_def)
  then obtain before where told: "db_hub (ap_db s') = before @ [Msg_Version (note_of req)]"
    using handlers_tell(2) [OF assms(4), of req] assms(1,2) unfolding tells_def by blast
  obtain h' new w' where w': "hub_relays now (Msg_Version (note_of req)) h = Some h'" "hb_sent h' = hb_sent h @ new"
    "(c, Msg_Version (note_of req)) \<in> set new" "watcher_follows slave_en (wire decode (Msg_Version (note_of req))) w = Some w'"
    and f: "follows_deletion ds v (path_param req ''version'') (wt_api w) (wt_api w')"
    using note_reaches_slave [OF assms(5-7) assms(8) [folded n(1)], of now slave_en] unfolding n(2) by blast
  have "target \<in> set (filter (\<lambda>x. v_ID x \<noteq> v_ID v) (t_dataset_versions (db_tables (ap_db (wt_api w')))))"
    using f assms(9,10) unfolding follows_deletion_def by simp
  then have "target \<in> set (t_dataset_versions (db_tables (ap_db (wt_api w'))))" by simp
  moreover have "fsCacheKey ds (path_param req ''targetVersion'') \<noteq> fsCacheKey ds (path_param req ''version'')"
    using assms(11) by (simp add: fsCacheKey_def)
  ultimately show ?thesis using told w' f unfolding follows_deletion_def by blast
qed

section \<open>Witnesses\<close>

text \<open>
  A master with one version, and a slave that has it with its tree in the cache; then the slave has also a
  version 2.0.0, over which the master clones 1.0.0.
\<close>

definition hub_env :: "(unit, string) api_env" where
  "hub_env = sample_env\<lparr>en_hub := True\<rparr>"

definition plain_codec :: codec where
  "plain_codec msg = (case msg of Msg_Dataset d \<Rightarrow> (Inr d, Inl Db_Error) | Msg_Version v \<Rightarrow> (Inl Db_Error, Inr v))"

definition slave_watcher :: "unit api \<Rightarrow> unit watcher" where
  "slave_watcher a = \<lparr>wt_api = a, wt_attempt = 0, wt_mode = Receive, wt_queue = [], wt_lastMessages = [], wt_running = True, wt_slept = []\<rparr>"

definition two_versions :: "unit api" where
  "two_versions = cached_api\<lparr>ap_db := sample_db (sample_tables\<lparr>t_datasets := [sample_row],
     t_dataset_versions := [sample_version, sample_version\<lparr>v_ID := 2, v_Version := ''2.0.0''\<rparr>]\<rparr>),
     ap_fsCache := [(''dataset/w/d:1.0.0-fs'', (new_dir ''/'' 0, 9)), (''dataset/w/d:2.0.0-fs'', (new_dir ''/'' 0, 9))]\<rparr>"

definition clone_request :: "unit request" where
  "clone_request = sample_request\<lparr>rq_Params := [(''workspace'', ''w''), (''name'', ''d''), (''version'', ''1.0.0''), (''targetVersion'', ''2.0.0'')]\<rparr>"

lemma plain_codec_ok: "keeps_names plain_codec"
  by (simp add: keeps_names_def plain_codec_def)

lemma slave_ready:
  "ready_slave (''dataset'', ''w'', ''d'', ''1.0.0'') sample_row (sample_version\<lparr>v_Editing := True\<rparr>) (slave_watcher cached_api)"
  "ready_slave (''dataset'', ''w'', ''d'', ''1.0.0'') sample_row sample_version (slave_watcher two_versions)"
  by code_simp+

lemma request_params:
  "path_param sample_request ''workspace'' = ''w''" "path_param sample_request ''name'' = ''d''"
  "path_param sample_request ''version'' = ''1.0.0''" "currentType sample_request = ''dataset''"
  "path_param clone_request ''workspace'' = ''w''" "path_param clone_request ''name'' = ''d''"
  "path_param clone_request ''version'' = ''1.0.0''" "path_param clone_request ''targetVersion'' = ''2.0.0''" "currentType clone_request = ''dataset''"
  by (simp_all add: clone_request_def sample_request_def lookup_str_def currentType_def)


fun created_row :: "reply list \<Rightarrow> version_row option" where
  "created_row [Code n, Body (P_VersionRow row)] = (if n = 201 then Some row else None)"
| "created_row _ = None"

lemma created_rowD: "created_row rs = Some row \<Longrightarrow> rs = [Code 201, Body (P_VersionRow row)]"
  by (cases rs rule: created_row.cases) (auto split: if_splits)

theorem clone_deletes_the_source_on_slaves_witness:
  "\<exists>s' before msg w'. cloneVersion hub_env clone_request sample_api = Some (Inr (), s') \<and> db_hub (ap_db s') = before @ [msg]
     \<and> watcher_follows sample_env (wire plain_codec msg) (slave_watcher two_versions) = Some w'
     \<and> map_of (ap_fsCache (wt_api w')) ''dataset/w/d:2.0.0-fs'' = Some (new_dir ''/'' 0, 9)
     \<and> map_of (ap_fsCache (wt_api w')) ''dataset/w/d:1.0.0-fs'' = None"
proof -
  have "case cloneVersion hub_env clone_request sample_api of None \<Rightarrow> False
      | Some (r, s') \<Rightarrow> r = Inr () \<and> created_row (ap_resp s') \<noteq> None"
    by code_simp
  then obtain s' where "cloneVersion hub_env clone_request sample_api = Some (Inr (), s')"
    "created_row (ap_resp s') \<noteq> None"
    by (cases "cloneVersion hub_env clone_request sample_api") auto
  then obtain row where run: "cloneVersion hub_env clone_request sample_api = Some (Inr (), s')" "ap_resp s' = [Code 201, Body (P_VersionRow row)]"
    using created_rowD by blast
  have h: "hb_queue (Register 0 ''c'' NewHub) = []" "''c'' \<in> set (hb_connections (Register 0 ''c'' NewHub))" "en_hub hub_env" "ap_resp sample_api = []"
    by (simp_all add: Register_def PushMany_def NewHub_def Let_def hub_env_def sample_api_def)
  have key: "fsCacheKey sample_row ''1.0.0'' = ''dataset/w/d:1.0.0-fs''" "fsCacheKey sample_row ''2.0.0'' = ''dataset/w/d:2.0.0-fs''"
    "map_of (ap_fsCache (wt_api (slave_watcher two_versions))) ''dataset/w/d:2.0.0-fs'' = Some (new_dir ''/'' 0, 9)" by code_simp+
  have t: "sample_version\<lparr>v_ID := 2, v_Version := ''2.0.0''\<rparr> \<in> set (t_dataset_versions (db_tables (ap_db (wt_api (slave_watcher two_versions)))))"
    "v_ID (sample_version\<lparr>v_ID := 2, v_Version := ''2.0.0''\<rparr>) \<noteq> v_ID sample_version" "''2.0.0'' \<noteq> ''1.0.0''"
    by (simp_all add: slave_watcher_def two_versions_def sample_db_def sample_version_def)
  from clone_deletes_the_source_on_slaves [OF run(1) h(4) run(2) h(3) plain_codec_ok h(1,2), unfolded request_params,
      OF slave_ready(2) t, of 0 sample_env]
  show ?thesis using run(1) unfolding follows_deletion_def key by fastforce
qed

end
