(* ===== verification/RequestLog.thy ===== *)
theory RequestLog
  imports PlukClient Server
begin

text \<open>
  The log of requests (\<^verbatim>\<open>WrapLogger\<close>, \<^verbatim>\<open>authInfo\<close> of \<^verbatim>\<open>pkg/api/utils.go\<close>): each request is logged with the status
  that was written and with who made it, whose secrets are shown as their SHA-1 (\<^verbatim>\<open>crypto/sha1\<close>).
\<close>

unbundle bit_operations_syntax

section \<open>SHA-1\<close>

type_synonym word32 = "32 word"

definition rotl32 :: "nat \<Rightarrow> word32 \<Rightarrow> word32" where
  "rotl32 n x = push_bit n x OR drop_bit (32 - n) x"

definition sha1_pad :: "byte list \<Rightarrow> byte list" where
  "sha1_pad m = m @ 0x80 # replicate ((119 - length m mod 64) mod 64) 0 @ word64_bytes (of_nat (8 * length m))"

fun sha1_words :: "nat \<Rightarrow> byte list \<Rightarrow> word32 list" where
  "sha1_words 0 bs = []"
| "sha1_words (Suc n) bs = foldl (\<lambda>w b. push_bit 8 w OR ucast b) 0 (take 4 bs) # sha1_words n (drop 4 bs)"

text \<open>The schedule, newest word first.\<close>

fun sha1_schedule :: "nat \<Rightarrow> word32 list \<Rightarrow> word32 list" where
  "sha1_schedule 0 ws = ws"
| "sha1_schedule (Suc n) ws = sha1_schedule n (rotl32 1 (ws ! 2 XOR ws ! 7 XOR ws ! 13 XOR ws ! 15) # ws)"

definition sha1_f :: "nat \<Rightarrow> word32 \<Rightarrow> word32 \<Rightarrow> word32 \<Rightarrow> word32 \<times> word32" where
  "sha1_f t b c d =
     (if t < 20 then ((b AND c) OR (NOT b AND d), 0x5A827999)
      else if t < 40 then (b XOR c XOR d, 0x6ED9EBA1)
      else if t < 60 then ((b AND c) OR (b AND d) OR (c AND d), 0x8F1BBCDC)
      else (b XOR c XOR d, 0xCA62C1D6))"

fun sha1_round :: "word32 list \<Rightarrow> nat \<times> word32 \<Rightarrow> word32 list" where
  "sha1_round [a, b, c, d, e] (t, w) =
     (let (f, k) = sha1_f t b c d in [rotl32 5 a + f + e + k + w, a, rotl32 30 b, c, d])"
| "sha1_round st tw = st"

definition sha1_compress :: "word32 list \<Rightarrow> byte list \<Rightarrow> word32 list" where
  "sha1_compress hs block =
     (let w = rev (sha1_schedule 64 (rev (sha1_words 16 block)))
      in map2 (+) hs (foldl sha1_round hs (zip [0..<80] w)))"

fun sha1_blocks :: "byte list \<Rightarrow> byte list list" where
  "sha1_blocks bs = (if length bs < 64 then [] else take 64 bs # sha1_blocks (drop 64 bs))"

declare sha1_blocks.simps [simp del]

definition sha1_sum :: "byte list \<Rightarrow> byte list" where
  "sha1_sum m = concat (map (\<lambda>w. map (\<lambda>i. ucast (drop_bit (8 * (3 - i)) w)) [0..<4])
     (foldl sha1_compress [0x67452301, 0xEFCDAB89, 0x98BADCFE, 0x10325476, 0xC3D2E1F0] (sha1_blocks (sha1_pad m))))"

text \<open>\<^verbatim>\<open>%x\<close> of the sum of a string.\<close>

definition sha1_hex :: "string \<Rightarrow> string" where
  "sha1_hex s = concat (map hex_byte (sha1_sum (text_bytes s)))"

section \<open>Who made a request\<close>

definition cacheHash :: "int \<Rightarrow> string cache \<Rightarrow> string \<Rightarrow> string \<Rightarrow> string \<Rightarrow> string \<times> string cache" where
  "cacheHash now c cacheKey pre value =
     (let key = pre @ ''-'' @ cacheKey; val = cache_GetString now c key
      in if val = [] then (''['' @ pre @ ''='' @ sha1_hex value @ '']'', cache_Set now key (sha1_hex value) c)
         else (''['' @ pre @ ''='' @ val @ '']'', c))"

definition ws_secret_key :: "string \<Rightarrow> string \<Rightarrow> string" where
  "ws_secret_key ws secret = ''ws-secret-'' @ ws @ secret"

definition authInfo ::
  "int \<Rightarrow> string cache \<Rightarrow> string \<Rightarrow> string \<Rightarrow> string \<Rightarrow> string \<Rightarrow> string \<Rightarrow> string \<times> string cache" where
  "authInfo now c authHeader cookie ws secret internal =
     (if authHeader = [] \<and> cookie = [] \<and> ws = [] \<and> secret = [] \<and> internal = [] then ([], c)
      else if internal \<noteq> [] then cacheHash now c internal ''internal'' internal
      else if ws \<noteq> [] \<and> secret \<noteq> [] then
        (let key = ws_secret_key ws secret; known = cache_GetString now c key;
             val = (if known = [] then sha1_hex secret else known)
         in (''[ws='' @ ws @ '',secret='' @ val @ '']'', if known = [] then cache_Set now key val c else c))
      else if authHeader \<noteq> [] then cacheHash now c authHeader ''token'' (trim_prefix authHeader ''Bearer '')
      else if cookie \<noteq> [] then cacheHash now c cookie ''cookie'' cookie
      else ([], c))"

section \<open>The wrapper\<close>

text \<open>
  \<^verbatim>\<open>LogRecordHandler\<close> keeps the first status that is written through it; \<^verbatim>\<open>Write\<close> goes past it.
\<close>

fun LogRecordHandler_status :: "nat \<Rightarrow> reply list \<Rightarrow> nat" where
  "LogRecordHandler_status st [] = st"
| "LogRecordHandler_status st (Code n # rs) = LogRecordHandler_status (if st = 0 then n else st) rs"
| "LogRecordHandler_status st (r # rs) = LogRecordHandler_status st rs"

record log_line =
  lg_Method :: string
  lg_Path :: string
  lg_Status :: nat
  lg_Auth :: string

text \<open>The state beside the server's is the cache of the wrapper and the lines so far.\<close>

definition WrapLogger ::
  "('m request \<Rightarrow> ('m api, unit) prog) \<Rightarrow> 'm request \<Rightarrow> ('m api \<times> string cache \<times> log_line list, unit) prog" where
  "WrapLogger f req = (\<lambda>(s, c, lines).
     case f req (s\<lparr>ap_resp := []\<rparr>) of
       None \<Rightarrow> None
     | Some (r, s') \<Rightarrow>
         let st = LogRecordHandler_status 0 (ap_resp s');
             (auth, c') = authInfo (ap_now s') c (header_param req ''Authorization'') (header_param req ''Cookie'')
                (header_param req ''X-Workspace-Name'') (header_param req ''X-Workspace-Secret'') (header_param req ''Internal'')
         in Some (r, s', c', lines @ [\<lparr>lg_Method = rq_Method req, lg_Path = rq_Path req,
              lg_Status = (if st = 0 then 200 else st), lg_Auth = auth\<rparr>]))"

section \<open>What the log says\<close>

text \<open>What the wrapper has cached: hashes of the secrets under keys that begin with their kind.\<close>

definition log_entry :: "string \<Rightarrow> string \<Rightarrow> bool" where
  "log_entry key val \<longleftrightarrow>
     (\<exists>h. key = ''internal-'' @ h \<and> val = sha1_hex h) \<or> (\<exists>h. key = ''token-'' @ h \<and> val = sha1_hex (trim_prefix h ''Bearer ''))
     \<or> (\<exists>h. key = ''cookie-'' @ h \<and> val = sha1_hex h) \<or> (\<exists>ws secret. key = ws_secret_key ws secret \<and> val = sha1_hex secret)"

definition log_cache_ok :: "string cache \<Rightarrow> bool" where
  "log_cache_ok c \<longleftrightarrow> (\<forall>key val e. map_of c key = Some (val, e) \<longrightarrow> log_entry key val)"

lemma log_cache_Set: "log_cache_ok c \<Longrightarrow> log_entry key val \<Longrightarrow> log_cache_ok (cache_Set now key val c)"
  by (auto simp: log_cache_ok_def cache_Set_def update_conv split: if_splits)

lemma log_cache_Get: "log_cache_ok c \<Longrightarrow> cache_GetString now c key \<noteq> [] \<Longrightarrow> log_entry key (cache_GetString now c key)"
  by (auto simp: log_cache_ok_def cache_GetString_def cache_Get_def split: option.splits if_splits)

text \<open>
  A token, a cookie and an internal key are shown as the hash of their own; with a secret of a workspace
  the hash may be that of another secret, if the two names and secrets joined are the same text.
\<close>

lemma authInfo_hashes:
  assumes "log_cache_ok c" and "authInfo now c authHeader cookie ws secret internal = (info, c')"
  shows "log_cache_ok c'"
    and "internal \<noteq> [] \<Longrightarrow> info = ''[internal='' @ sha1_hex internal @ '']''"
    and "internal = [] \<Longrightarrow> ws \<noteq> [] \<Longrightarrow> secret \<noteq> [] \<Longrightarrow>
      \<exists>ws' secret'. ws' @ secret' = ws @ secret \<and> info = ''[ws='' @ ws @ '',secret='' @ sha1_hex secret' @ '']''"
    and "internal = [] \<Longrightarrow> ws = [] \<or> secret = [] \<Longrightarrow> authHeader \<noteq> [] \<Longrightarrow> info = ''[token='' @ sha1_hex (trim_prefix authHeader ''Bearer '') @ '']''"
    and "internal = [] \<Longrightarrow> ws = [] \<or> secret = [] \<Longrightarrow> authHeader = [] \<Longrightarrow> cookie \<noteq> [] \<Longrightarrow> info = ''[cookie='' @ sha1_hex cookie @ '']''"
proof -
  have e: "log_entry (''internal-'' @ internal) (sha1_hex internal)" "log_entry (''cookie-'' @ cookie) (sha1_hex cookie)"
    "log_entry (''token-'' @ authHeader) (sha1_hex (trim_prefix authHeader ''Bearer ''))" "log_entry (ws_secret_key ws secret) (sha1_hex secret)"
    by (auto simp: log_entry_def)
  have u: "log_entry (''internal-'' @ internal) v \<Longrightarrow> v = sha1_hex internal" "log_entry (''cookie-'' @ cookie) v \<Longrightarrow> v = sha1_hex cookie"
    "log_entry (''token-'' @ authHeader) v \<Longrightarrow> v = sha1_hex (trim_prefix authHeader ''Bearer '')"
    "log_entry (ws_secret_key ws secret) v \<Longrightarrow> \<exists>ws' secret'. ws' @ secret' = ws @ secret \<and> v = sha1_hex secret'" for v
    unfolding log_entry_def ws_secret_key_def by (auto, metis)
  note get = log_cache_Get [OF assms(1), of now]
  note d = assms(2) [unfolded authInfo_def cacheHash_def Let_def]
  show "log_cache_ok c'"
    using d assms(1) log_cache_Set [OF assms(1)] e by (auto split: if_splits)
  show "info = ''[internal='' @ sha1_hex internal @ '']''" if "internal \<noteq> []"
    using d that u(1) [OF get] by (auto split: if_splits)
  show "\<exists>ws' secret'. ws' @ secret' = ws @ secret \<and> info = ''[ws='' @ ws @ '',secret='' @ sha1_hex secret' @ '']''"
    if "internal = []" "ws \<noteq> []" "secret \<noteq> []"
    using d that u(4) [OF get] by (auto split: if_splits)
  show "info = ''[token='' @ sha1_hex (trim_prefix authHeader ''Bearer '') @ '']''" if "internal = []" "ws = [] \<or> secret = []" "authHeader \<noteq> []"
    using d that u(3) [OF get] by (auto split: if_splits)
  show "info = ''[cookie='' @ sha1_hex cookie @ '']''" if "internal = []" "ws = [] \<or> secret = []" "authHeader = []" "cookie \<noteq> []"
    using d that u(2) [OF get] by (auto split: if_splits)
qed

text \<open>Within the hour the second of two such secrets is shown as the first.\<close>

lemma log_names_another_secret:
  assumes "ws @ secret = ws' @ secret'" and "ws \<noteq> []" "secret \<noteq> []" "ws' \<noteq> []" "secret' \<noteq> []" and "sha1_hex secret \<noteq> []"
    and "authInfo now [] [] [] ws secret [] = (info, c)"
  shows "authInfo now c [] [] ws' secret' [] = (''[ws='' @ ws' @ '',secret='' @ sha1_hex secret @ '']'', c)"
  using assms by (auto simp: authInfo_def ws_secret_key_def Let_def cache_GetString_def cache_Get_def cache_Set_def
      DefaultExpiration_def split: if_splits)

text \<open>The status in the log is the one the client sees, unless a body is written before a status.\<close>

fun code_first :: "reply list \<Rightarrow> bool" where
  "code_first [] = True"
| "code_first (Code n # rs) = (n \<noteq> 0)"
| "code_first (Header k v # rs) = code_first rs"
| "code_first (Body b # rs) = list_all (\<lambda>r. \<forall>n. r \<noteq> Code n) rs"

lemma logged_status: "st \<noteq> 0 \<Longrightarrow> LogRecordHandler_status st rs = st"
  by (induction st rs rule: LogRecordHandler_status.induct) auto

lemma no_code_status: "list_all (\<lambda>r. \<forall>n. r \<noteq> Code n) rs \<Longrightarrow> LogRecordHandler_status st rs = st"
  by (induction st rs rule: LogRecordHandler_status.induct) auto

lemma log_shows_the_status:
  assumes "code_first rs"
  shows "(let st = LogRecordHandler_status 0 rs in if st = 0 then 200 else st) = http_status rs"
  using assms by (induction rs rule: http_status.induct) (auto simp: logged_status no_code_status Let_def)

end
