(* ===== verification/Websocket.thy ===== *)
theory Websocket
  imports Watcher Hub PlukClient
begin

text \<open>
  The websocket between a client and a server: the connection of the client and the two calls over it
  (\<^verbatim>\<open>pkg/plukclient\<close>), the handlers that take connections (\<^verbatim>\<open>pkg/api/ws.go\<close>) and the client as the hub keeps
  it (\<^verbatim>\<open>pkg/types/types.go\<close>). The websocket library is a parameter.
\<close>

section \<open>The client\<close>

definition ws_url :: "pluk_client \<Rightarrow> string" where
  "ws_url c =
     (let base = pc_BaseURL c;
          scheme = (if u_Scheme base = ''http'' then ''ws'' else if u_Scheme base = ''https'' then ''wss'' else []);
          u = scheme @ ''://'' @ u_Host base @ ''/'' @ trim_prefix (u_Path base) ''/''
      in trim_suffix u ''/'' @ ''/websocket'')"

text \<open>\<open>dial\<close> gives the header \<^verbatim>\<open>Sec-Websocket-Accept\<close> of the answer, or an error.\<close>

record websocket_client =
  wc_ID :: string
  wc_IP :: string
  wc_ConnectedAt :: int

definition NewWebsocketClient :: "int \<Rightarrow> string \<Rightarrow> string \<Rightarrow> websocket_client" where
  "NewWebsocketClient now id' ip = \<lparr>wc_ID = id', wc_IP = ip, wc_ConnectedAt = now\<rparr>"

definition PrepareWebsocket ::
  "int \<Rightarrow> (string \<Rightarrow> (string \<times> string) list \<Rightarrow> 'm \<Rightarrow> string res \<times> 'm) \<Rightarrow> pluk_client \<Rightarrow> 'm \<Rightarrow> websocket_client res \<times> 'm" where
  "PrepareWebsocket now dial c m =
     (case dial (ws_url c) (authHeaders (pc_auth c)) m of
        (Inl e, m') \<Rightarrow> (Inl e, m')
      | (Inr accept, m') \<Rightarrow> (Inr (NewWebsocketClient now accept ''0.0.0.0''), m'))"

text \<open>A message has a type, the identity of the client and a content; \<open>send\<close> is \<^verbatim>\<open>WriteJSON\<close>.\<close>

datatype ws_content = Chunk_Data string "byte list" | Chunk_Check chunk_check

type_synonym 'm ws_send = "string \<Rightarrow> string \<Rightarrow> ws_content \<Rightarrow> 'm \<Rightarrow> go_error option \<times> 'm"

definition SaveChunkWebsocket :: "'m ws_send \<Rightarrow> websocket_client \<Rightarrow> string \<Rightarrow> byte list \<Rightarrow> 'm \<Rightarrow> go_error option \<times> 'm" where
  "SaveChunkWebsocket send ws hash bs = send ''chunkData'' (wc_ID ws) (Chunk_Data hash bs)"

text \<open>
  What \<^verbatim>\<open>ReadJSON\<close> gives: an error, or a type and the content as \<^verbatim>\<open>LoadAsJson\<close> reads it over what is asked,
  \<open>None\<close> when it is no JSON object, where the assertion panics. No message at all is \<open>None\<close> of \<open>receive\<close>.
\<close>

definition CheckChunkWebsocket ::
  "'m ws_send \<Rightarrow> ('m \<Rightarrow> ((string \<times> (chunk_check \<Rightarrow> chunk_check res) option) res \<times> 'm) option) \<Rightarrow> websocket_client \<Rightarrow> string \<Rightarrow> 'm
     \<Rightarrow> (chunk_check res \<times> 'm) option" where
  "CheckChunkWebsocket send receive ws hash m =
     (let asked = \<lparr>cc_Hash = hash, cc_Size = 0, cc_Exists = False\<rparr> in
      case send ''chunkCheck'' (wc_ID ws) (Chunk_Check asked) m of
        (Some e, m1) \<Rightarrow> Some (Inl e, m1)
      | (None, m1) \<Rightarrow>
          (case receive m1 of
             None \<Rightarrow> None
           | Some (Inl e, m2) \<Rightarrow> Some (Inl e, m2)
           | Some (Inr (type, content), m2) \<Rightarrow>
               if type \<noteq> ''chunkCheck'' then Some (Inl (Errorf (''Wrong message type: '' @ type)), m2)
               else (case content of None \<Rightarrow> None | Some load \<Rightarrow> Some (load asked, m2))))"

text \<open>The client and the watcher of a slave dial one address.\<close>

lemma watcher_dials_like_the_client:
  assumes "NewClient baseURL auth = Inr c"
  shows "connect_url (trim_suffix baseURL ''/'') = Inr (ws_url c)"
  using assms
  by (auto simp: NewClient_def connect_url_def ws_url_def Let_def split: sum.splits if_splits)

section \<open>The server\<close>

text \<open>
  A connection: the upgrade fails, by the handshake or otherwise, or the client is registered, is in the
  hub while \<open>meanwhile\<close> other things happen to it, and is dropped when the reader ends. The result has the
  answer and how many pongs were written.
\<close>

definition api_websocket ::
  "int \<Rightarrow> (bool \<times> go_error) + 'c \<Rightarrow> (nat \<Rightarrow> bool) \<Rightarrow> string res list \<Rightarrow> ('c hub \<Rightarrow> 'c hub) \<Rightarrow> 'c hub \<Rightarrow> reply list \<times> nat \<times> 'c hub" where
  "api_websocket now upgraded ok received meanwhile h =
     (case upgraded of
        Inl (handshake, err) \<Rightarrow> (WriteStatusError (if handshake then 400 else 500) err, 0, h)
      | Inr client \<Rightarrow> ([], wsReader ok 0 received, Drop client (meanwhile (Register now client h))))"

definition Connections :: "'c hub \<Rightarrow> 'c list" where
  "Connections h = hb_connections h"

definition wsConnections :: "('c list \<Rightarrow> payload) \<Rightarrow> 'c hub \<Rightarrow> reply list" where
  "wsConnections entity h = WriteEntity (entity (Connections h))"

lemma closed_connection_is_not_listed:
  "api_websocket now (Inr client) ok received meanwhile h = (rs, n, h') \<Longrightarrow> client \<notin> set (Connections h')"
  by (auto simp: api_websocket_def Connections_def Drop_def)

text \<open>
  The server reads only pings: to whatever else comes, as the two calls send it, it writes nothing.
\<close>

lemma wsReader_pongs: "wsReader ok k received \<le> k + length (filter (\<lambda>r. r = Inr ''ping'') received)"
  by (induction ok k received rule: wsReader.induct) auto

lemma calls_are_not_answered:
  assumes "Inr ''ping'' \<notin> set received"
  shows "wsReader ok 0 received = 0"
proof -
  have "filter (\<lambda>r. r = Inr ''ping'') received = []" using assms by (auto simp: filter_empty_conv)
  then show ?thesis using wsReader_pongs [of ok 0 received] by simp
qed

end
