(* ===== verification/Gateway.thy ===== *)
theory Gateway
  imports RequestLog Integrity Websocket
begin

text \<open>
  \<^verbatim>\<open>GlobalHandler\<close> of \<^verbatim>\<open>pkg/api/api.go\<close>: every request goes through the log and, by the start of its path, to
  the public or the internal container, to \<^verbatim>\<open>/probe\<close>, or is not found. Which route a container chooses and what
  it fills in for the names in its path is the third-party router: \<open>router\<close>, with what it answers itself,
  \<open>unrouted\<close>, where no route fits.
\<close>

definition ApiPrefix :: string where
  "ApiPrefix = ''/pluk/v1''"

definition InternalPrefix :: string where
  "InternalPrefix = ''/internal''"

type_synonym ('m, 'v) router = "bool \<Rightarrow> 'm request \<Rightarrow> (('m, 'v) route \<times> (string \<times> string) list) option"

definition api_container ::
  "('m, 'v) api_env \<Rightarrow> ('m, 'v) router \<Rightarrow> ('m request \<Rightarrow> reply list) \<Rightarrow> bool \<Rightarrow> 'm request \<Rightarrow> ('m api, unit) prog" where
  "api_container en router unrouted public req =
     (case router public req of
        None \<Rightarrow> respond (unrouted req)
      | Some (rt, params) \<Rightarrow> serve en public rt (req\<lparr>rq_Params := params\<rparr>))"

definition global_handler ::
  "('m, 'v) api_env \<Rightarrow> ('m, 'v) router \<Rightarrow> ('m request \<Rightarrow> reply list) \<Rightarrow> 'm request \<Rightarrow> ('m api, unit) prog" where
  "global_handler en router unrouted req =
     (if prefix ApiPrefix (rq_Path req) then api_container en router unrouted True req
      else if prefix InternalPrefix (rq_Path req) then api_container en router unrouted False req
      else if rq_Path req = ''/probe'' then respond [Body (P_Text (''Ok'' @ [CHR 0x0A]))]
      else NotFoundHandler req)"

definition GlobalHandler ::
  "('m, 'v) api_env \<Rightarrow> ('m, 'v) router \<Rightarrow> ('m request \<Rightarrow> reply list) \<Rightarrow> 'm request
     \<Rightarrow> ('m api \<times> string cache \<times> log_line list, unit) prog" where
  "GlobalHandler en router unrouted = WrapLogger (global_handler en router unrouted)"

text \<open>A router that chooses among the routes.\<close>

definition routes_only :: "('m, 'v) router \<Rightarrow> bool" where
  "routes_only router \<longleftrightarrow> (\<forall>public req rt params. router public req = Some (rt, params) \<longrightarrow> rt \<in> set api_routes)"

text \<open>So every request is a step of the server, or changes nothing but the answer; and it leaves one line in the log.\<close>

lemma request_is_a_step:
  assumes run: "GlobalHandler en router unrouted req (s, c, lines) = Some (r, s', c', lines')"
    and router: "routes_only router" and fresh: "rq_entityType req = None" "rq_masterclient req = None"
  shows "server_step en s s' \<or> s' = s\<lparr>ap_resp := ap_resp s'\<rparr>" and "\<exists>l. lines' = lines @ [l] \<and> lg_Path l = rq_Path req"
proof -
  have g: "global_handler en router unrouted req (s\<lparr>ap_resp := []\<rparr>) = Some (r, s')" and l: "\<exists>l. lines' = lines @ [l] \<and> lg_Path l = rq_Path req"
    using run by (auto simp: GlobalHandler_def WrapLogger_def Let_def split: option.splits prod.splits)
  show "\<exists>l. lines' = lines @ [l] \<and> lg_Path l = rq_Path req" by (rule l)
  have answered: "respond rs (s\<lparr>ap_resp := []\<rparr>) = Some (r, s') \<Longrightarrow> s' = s\<lparr>ap_resp := ap_resp s'\<rparr>" for rs
    by (auto simp: respond_def put_state_def)
  have container: "server_step en s s' \<or> s' = s\<lparr>ap_resp := ap_resp s'\<rparr>"
    if c: "api_container en router unrouted public req (s\<lparr>ap_resp := []\<rparr>) = Some (r, s')" for public
  proof (cases "router public req")
    case None
    then show ?thesis using c answered by (simp add: api_container_def)
  next
    case (Some x)
    obtain rt params where x: "x = (rt, params)" by (cases x)
    have "rt \<in> set api_routes" using router Some unfolding x routes_only_def by blast
    moreover have "serve en public rt (req\<lparr>rq_Params := params\<rparr>) (s\<lparr>ap_resp := []\<rparr>) = Some (r, s')" using c Some x by (simp add: api_container_def)
    ultimately have "server_step en s s'" using server_step.Request [of rt "req\<lparr>rq_Params := params\<rparr>"] fresh by simp
    then show ?thesis ..
  qed
  show "server_step en s s' \<or> s' = s\<lparr>ap_resp := ap_resp s'\<rparr>"
    using g container answered by (auto simp: global_handler_def NotFoundHandler_def split: if_splits)
qed

text \<open>Whatever is sent to the server, its tables stay well formed.\<close>

lemma any_request_keeps_the_tables:
  assumes "GlobalHandler en router unrouted req (s, c, lines) = Some (r, s', c', lines')"
    and "routes_only router" and "rq_entityType req = None" "rq_masterclient req = None" and "intact (ap_db s)"
  shows "intact (ap_db s')"
  using request_is_a_step(1) [OF assms(1-4)]
proof
  assume "server_step en s s'"
  then show ?thesis using wf.reached [of en s s'] assms(5) unfolding intact_steady by blast
next
  assume s: "s' = s\<lparr>ap_resp := ap_resp s'\<rparr>"
  have "ap_db s' = ap_db s" by (subst s) simp
  then show ?thesis using assms(5) by simp
qed

end
